(* ===== verification/Prelude.thy ===== *)
theory Prelude
  imports Main
begin

text \<open>
  The vocabulary every component shares: JavaScript strings as lists of UTF-16 code
  units, the string operations of the language's standard library that the sources call
  (\<^verbatim>\<open>indexOf\<close>, \<^verbatim>\<open>slice\<close>, \<^verbatim>\<open>split\<close>,
  \<^verbatim>\<open>join\<close>, \<^verbatim>\<open>trim\<close>, ...), and the lemmas about them
  that the component proofs use.
\<close>

section \<open>Lemma collections\<close>

named_theorems js_simps \<open>equations of the string operations\<close>
named_theorems inv_intros \<open>every operation keeps its component's invariant\<close>

section \<open>Strings\<close>

text \<open>
  A JavaScript string is a sequence of UTF-16 code units and \<^verbatim>\<open>charCodeAt\<close>
  reads one of them; the model keeps the code units as numbers. \<open>lit\<close> turns an ASCII
  literal of the source into such a sequence.
\<close>

type_synonym code_unit = nat
type_synonym jsstring = "code_unit list"

definition lit :: "string \<Rightarrow> jsstring" where
  "lit s = map of_char s"

lemma lit_Nil [simp]: "lit [] = []"
  by (simp add: lit_def)

lemma lit_Cons [simp]: "lit (c # s) = of_char c # lit s"
  by (simp add: lit_def)

lemma lit_eq_iff: "lit s = lit t \<longleftrightarrow> s = t"
  by (simp add: lit_def inj_map_eq_map inj_of_char)

text \<open>Control characters and punctuation the sources compare with.\<close>

abbreviation NL :: code_unit where "NL \<equiv> 10"
abbreviation CR :: code_unit where "CR \<equiv> 13"

section \<open>Searching and slicing\<close>

text \<open>
  \<^verbatim>\<open>s.indexOf(c)\<close> with \<^verbatim>\<open>-1\<close> as \<open>None\<close>,
  \<^verbatim>\<open>s.indexOf(c, from)\<close>, \<^verbatim>\<open>s.lastIndexOf(c)\<close> and
  \<^verbatim>\<open>s.slice(a, b)\<close> for non-negative arguments.
\<close>

primrec index_of :: "'a \<Rightarrow> 'a list \<Rightarrow> nat option" where
  "index_of c [] = None"
| "index_of c (x # xs) = (if x = c then Some 0 else map_option Suc (index_of c xs))"

definition indexOf :: "'a list \<Rightarrow> 'a \<Rightarrow> nat \<Rightarrow> nat option" where
  "indexOf s c from = map_option (\<lambda>i. from + i) (index_of c (drop from s))"

primrec last_index_of :: "'a \<Rightarrow> 'a list \<Rightarrow> nat option" where
  "last_index_of c [] = None"
| "last_index_of c (x # xs) =
     (case last_index_of c xs of
        Some i \<Rightarrow> Some (Suc i)
      | None \<Rightarrow> if x = c then Some 0 else None)"

definition slice :: "nat \<Rightarrow> nat \<Rightarrow> 'a list \<Rightarrow> 'a list" where
  "slice a b s = take (b - a) (drop a s)"

lemma index_of_None_iff [simp]: "index_of c s = None \<longleftrightarrow> c \<notin> set s"
  by (induction s) auto

lemma index_of_SomeD:
  "index_of c s = Some i \<Longrightarrow> i < length s \<and> s ! i = c \<and> c \<notin> set (take i s)"
  by (induction s arbitrary: i) (auto split: if_splits)

lemma index_of_decomp:
  "index_of c s = Some i \<Longrightarrow> s = take i s @ c # drop (Suc i) s"
  using index_of_SomeD [of c s i] id_take_nth_drop [of i s] by simp

lemma index_of_append_notin [simp]:
  "c \<notin> set s \<Longrightarrow> index_of c (s @ c # t) = Some (length s)"
  by (induction s) auto

lemma indexOf_None_iff: "indexOf s c from = None \<longleftrightarrow> c \<notin> set (drop from s)"
  by (simp add: indexOf_def)

lemma indexOf_SomeD:
  assumes "indexOf s c from = Some i"
  shows "from \<le> i" "i < length s" "s ! i = c" "c \<notin> set (slice from i s)"
proof -
  from assms obtain j where j: "index_of c (drop from s) = Some j" "i = from + j"
    by (auto simp: indexOf_def)
  with index_of_SomeD [OF j(1)]
  show "from \<le> i" "i < length s" "s ! i = c" "c \<notin> set (slice from i s)"
    by (auto simp: slice_def)
qed

lemma indexOf_decreases: "indexOf s c k = Some i \<Longrightarrow> length s - Suc i < length s - k"
  using indexOf_SomeD(1,2) [of s c k i] by arith

lemma last_index_of_None_iff [simp]: "last_index_of c s = None \<longleftrightarrow> c \<notin> set s"
  by (induction s) (auto split: option.splits)

lemma last_index_of_SomeD:
  "last_index_of c s = Some i \<Longrightarrow> i < length s \<and> s ! i = c \<and> c \<notin> set (drop (Suc i) s)"
  by (induction s arbitrary: i) (auto split: option.splits if_splits)

lemma last_index_of_append_Cons [simp]:
  "c \<notin> set t \<Longrightarrow> last_index_of c (s @ c # t) = Some (length s)"
proof (induction s)
  case Nil
  then show ?case by (simp flip: last_index_of_None_iff)
qed simp

lemma length_slice [simp]: "length (slice a b s) = min (b - a) (length s - a)"
  by (simp add: slice_def)

lemma slice_0 [simp]: "slice 0 b s = take b s"
  by (simp add: slice_def)

lemma slice_append: "a \<le> m \<Longrightarrow> m \<le> b \<Longrightarrow> slice a m s @ slice m b s = slice a b s"
proof -
  assume "a \<le> m" "m \<le> b"
  then have "b - a = (m - a) + (b - m)" and "drop m s = drop (m - a) (drop a s)"
    by simp_all
  then show ?thesis by (simp add: slice_def take_add)
qed

lemma slice_to_end: "length s \<le> b \<Longrightarrow> slice a b s = drop a s"
  by (simp add: slice_def)

lemma drop_eq_slice_append: "a \<le> b \<Longrightarrow> drop a s = slice a b s @ drop b s"
  by (metis append_take_drop_id drop_drop le_add_diff_inverse2 slice_def)

lemma set_slice_subset: "set (slice a b s) \<subseteq> set s"
  unfolding slice_def by (meson order_trans set_drop_subset set_take_subset)

section \<open>Splitting and joining\<close>

fun split_on :: "'a \<Rightarrow> 'a list \<Rightarrow> 'a list list" where
  "split_on c [] = [[]]"
| "split_on c (x # xs) =
     (if x = c then [] # split_on c xs
      else (case split_on c xs of [] \<Rightarrow> [[x]] | y # ys \<Rightarrow> (x # y) # ys))"

fun join :: "'a list \<Rightarrow> 'a list list \<Rightarrow> 'a list" where
  "join sep [] = []"
| "join sep [x] = x"
| "join sep (x # y # ys) = x @ sep @ join sep (y # ys)"

lemma split_on_not_Nil [simp]: "split_on c s \<noteq> []"
  by (cases s) (auto split: list.splits)

lemma split_on_notin [simp]: "c \<notin> set s \<Longrightarrow> split_on c s = [s]"
  by (induction s) auto

lemma split_on_append_Cons [simp]:
  "c \<notin> set s \<Longrightarrow> split_on c (s @ c # t) = s # split_on c t"
  by (induction s) auto

lemma split_on_subset: "p \<in> set (split_on c s) \<Longrightarrow> x \<in> set p \<Longrightarrow> x \<in> set s"
proof (induction s arbitrary: p)
  case (Cons y s)
  then obtain z zs where "split_on c s = z # zs" by (meson list.exhaust split_on_not_Nil)
  with Cons show ?case by (fastforce split: if_splits)
qed simp

lemma split_on_parts: "p \<in> set (split_on c s) \<Longrightarrow> c \<notin> set p"
  by (induction s arbitrary: p) (auto split: list.splits if_splits)

lemma join_Cons: "ys \<noteq> [] \<Longrightarrow> join sep (x # ys) = x @ sep @ join sep ys"
  by (cases ys) auto

lemma join_split_on [simp]: "join [c] (split_on c s) = s"
proof (induction s)
  case (Cons x s)
  obtain y ys where "split_on c s = y # ys"
    by (meson list.exhaust split_on_not_Nil)
  with Cons show ?case by (cases ys) auto
qed simp

lemma split_on_join [simp]:
  "xs \<noteq> [] \<Longrightarrow> (\<And>x. x \<in> set xs \<Longrightarrow> c \<notin> set x) \<Longrightarrow> split_on c (join [c] xs) = xs"
  by (induction "[c]" xs rule: join.induct) auto

lemma split_on_snoc: "split_on c (s @ [c]) = split_on c s @ [[]]"
proof (induction s)
  case (Cons x s)
  then show ?case by (auto split: list.splits)
qed simp

text \<open>\<^verbatim>\<open>s.trim()\<close>: the white space and line terminators of ECMAScript.\<close>

definition is_space :: "code_unit \<Rightarrow> bool" where
  "is_space c = (if c \<le> 0xA0 then 9 \<le> c \<and> c \<le> 13 \<or> c = 32 \<or> c = 0xA0
     else c = 0x1680 \<or> (0x2000 \<le> c \<and> c \<le> 0x200A) \<or> c = 0x2028 \<or> c = 0x2029 \<or>
       c = 0x202F \<or> c = 0x205F \<or> c = 0x3000 \<or> c = 0xFEFF)"

definition trim_end :: "(code_unit \<Rightarrow> bool) \<Rightarrow> jsstring \<Rightarrow> jsstring" where
  "trim_end P s = rev (dropWhile P (rev s))"

definition trim :: "jsstring \<Rightarrow> jsstring" where
  "trim s = trim_end is_space (dropWhile is_space s)"

lemma trim_Nil [simp]: "trim [] = []"
  by (simp add: trim_def trim_end_def)

lemma trim_end_Nil [simp]: "trim_end P [] = []"
  by (simp add: trim_end_def)

lemma trim_end_snoc: "trim_end P (s @ [c]) = (if P c then trim_end P s else s @ [c])"
  by (simp add: trim_end_def)

lemma trim_end_last: "trim_end P s \<noteq> [] \<Longrightarrow> \<not> P (last (trim_end P s))"
  by (induction s rule: rev_induct) (auto simp: trim_end_snoc)

lemma trim_end_id: "s = [] \<or> \<not> P (last s) \<Longrightarrow> trim_end P s = s"
  by (cases s rule: rev_cases) (auto simp: trim_end_snoc)

lemma set_trim_end: "set (trim_end P s) \<subseteq> set s"
  unfolding trim_end_def by (auto dest: set_dropWhileD)

lemma set_trim: "set (trim s) \<subseteq> set s"
  unfolding trim_def using set_trim_end by (fastforce dest: set_dropWhileD)

definition is_digit :: "code_unit \<Rightarrow> bool" where
  "is_digit c \<longleftrightarrow> 48 \<le> c \<and> c \<le> 57"

text \<open>The regular expression \<^verbatim>\<open>/^\\d+$/\<close>.\<close>

definition all_digits :: "jsstring \<Rightarrow> bool" where
  "all_digits s \<longleftrightarrow> s \<noteq> [] \<and> list_all is_digit s"

definition starts_with :: "'a list \<Rightarrow> 'a list \<Rightarrow> bool" where
  "starts_with p s \<longleftrightarrow> take (length p) s = p"

definition ends_with :: "'a list \<Rightarrow> 'a list \<Rightarrow> bool" where
  "ends_with p s \<longleftrightarrow> length p \<le> length s \<and> drop (length s - length p) s = p"

section \<open>Numbers in decimal\<close>

text \<open>\<^verbatim>\<open>String(n)\<close> of a non-negative integer below \<open>10\<^sup>2\<^sup>1\<close>.\<close>

function show_nat :: "nat \<Rightarrow> jsstring" where
  "show_nat n = (if n < 10 then [48 + n] else show_nat (n div 10) @ [48 + n mod 10])"
  by pat_completeness auto
termination by (relation "measure id") auto

declare show_nat.simps [simp del]

definition show_int :: "int \<Rightarrow> jsstring" where
  "show_int i = (if i < 0 then 45 # show_nat (nat (- i)) else show_nat (nat i))"

definition read_nat :: "jsstring \<Rightarrow> nat" where
  "read_nat s = foldl (\<lambda>n c. 10 * n + (c - 48)) 0 s"

lemma read_show_nat [simp]: "read_nat (show_nat n) = n"
proof (induction n rule: show_nat.induct)
  case (1 n)
  then show ?case by (subst show_nat.simps) (auto simp: read_nat_def)
qed

lemma show_nat_digits: "all_digits (show_nat n)"
proof (induction n rule: show_nat.induct)
  case (1 n)
  then show ?case by (subst show_nat.simps) (auto simp: all_digits_def is_digit_def)
qed

lemma show_nat_inj: "show_nat m = show_nat n \<longleftrightarrow> m = n"
  using read_show_nat by metis

section \<open>Lists\<close>

text \<open>
  \<open>Some x\<close> for the first element \<^verbatim>\<open>find\<close> accepts is
  \<^const>\<open>List.find\<close>. \<open>blit\<close> is \<^verbatim>\<open>TypedArray.set(src, off)\<close>.
\<close>

definition blit :: "'a list \<Rightarrow> nat \<Rightarrow> 'a list \<Rightarrow> 'a list" where
  "blit dst off src = take off dst @ src @ drop (off + length src) dst"

lemma length_blit [simp]:
  "off + length src \<le> length dst \<Longrightarrow> length (blit dst off src) = length dst"
  by (simp add: blit_def)

lemma blit_Nil [simp]: "blit dst off [] = dst"
  by (simp add: blit_def)

lemma blit_Cons:
  assumes "off < length dst"
  shows "blit dst off (x # xs) = blit (dst[off := x]) (Suc off) xs"
  using assms by (simp add: blit_def take_Suc_conv_app_nth upd_conv_take_nth_drop add.commute)

lemma slice_blit:
  "off \<le> length dst \<Longrightarrow> slice off (off + length src) (blit dst off src) = src"
  by (simp add: slice_def blit_def)

lemma slice_blit_append:
  assumes "off + length src \<le> b" "b \<le> length dst"
  shows "slice off b (blit dst off src) = src @ slice (off + length src) b dst"
  using assms by (simp add: slice_def blit_def)

lemma slice_list_update_end:
  assumes "a \<le> n" "n < length xs"
  shows "slice a (Suc n) (xs[n := v]) = slice a n xs @ [v]"
  using assms by (simp add: slice_def drop_update_swap Suc_diff_le take_Suc_conv_app_nth)

lemma slice_list_update_outside: "n < a \<or> b \<le> n \<Longrightarrow> slice a b (xs[n := v]) = slice a b xs"
  by (auto simp: slice_def list_eq_iff_nth_eq nth_list_update)

lemma take_blit_0 [simp]: "b \<le> length src \<Longrightarrow> take b (blit dst 0 src) = take b src"
  by (simp add: blit_def)

lemma nth_slice: "i < b - a \<Longrightarrow> i < length s - a \<Longrightarrow> slice a b s ! i = s ! (a + i)"
  by (simp add: slice_def)

lemma find_append: "List.find P (xs @ ys) = (case List.find P xs of None \<Rightarrow> List.find P ys | r \<Rightarrow> r)"
  by (induction xs) auto

lemma list_all_join: "list_all P sep \<Longrightarrow> list_all (list_all P) xs \<Longrightarrow> list_all P (join sep xs)"
  by (induction sep xs rule: join.induct) simp_all

section \<open>Finding the one element\<close>

lemma find_unique:
  assumes "x \<in> set xs" "P x" and unique: "\<And>y. y \<in> set xs \<Longrightarrow> P y \<Longrightarrow> y = x"
  shows "find P xs = Some x"
proof (cases "find P xs")
  case None
  then show ?thesis using assms(1,2) by (auto simp only: find_None_iff)
next
  case (Some y)
  then have "y \<in> set xs" "P y" by (auto simp only: find_Some_iff nth_mem)
  then show ?thesis using Some unique [of y] by (simp only:)
qed

lemma find_distinct: "distinct (map f xs) \<Longrightarrow> x \<in> set xs \<Longrightarrow> find (\<lambda>y. f y = f x) xs = Some x"
  by (rule find_unique) (auto simp: distinct_map inj_on_def)

section \<open>Optional strings\<close>

text \<open>\<^verbatim>\<open>!x\<close> and \<^verbatim>\<open>x || d\<close> of a string that may be undefined: the empty string counts as not set.\<close>

definition unset :: "jsstring option \<Rightarrow> bool" where
  "unset x \<longleftrightarrow> x = None \<or> x = Some []"

definition default_to :: "jsstring option \<Rightarrow> jsstring \<Rightarrow> jsstring" where
  "default_to x d = (if unset x then d else the x)"

lemma unset_simps [simp]: "unset None" "unset (Some s) \<longleftrightarrow> s = []"
  by (simp_all add: unset_def)

lemma default_to_simps [simp]: "default_to None d = d" "default_to (Some s) d = (if s = [] then d else s)"
  by (simp_all add: default_to_def)

lemma trim_ends_id: "s = [] \<or> \<not> is_space (hd s) \<and> \<not> is_space (last s) \<Longrightarrow> trim s = s"
  by (cases s) (auto simp: trim_def trim_end_id)

lemma trim_end_hd: "trim_end P s \<noteq> [] \<Longrightarrow> hd (trim_end P s) = hd s"
  by (induction s rule: rev_induct) (auto simp: trim_end_snoc hd_append)

lemma trim_trim [simp]: "trim (trim s) = trim s"
proof (rule trim_ends_id, cases "trim s = []")
  case False
  then have "dropWhile is_space s \<noteq> []" unfolding trim_def by (metis trim_end_Nil)
  then have "\<not> is_space (hd (trim s))" using False hd_dropWhile unfolding trim_def by (metis trim_end_hd)
  then show "trim s = [] \<or> \<not> is_space (hd (trim s)) \<and> \<not> is_space (last (trim s))"
    using trim_end_last unfolding trim_def by blast
qed simp

end
