(* ===== verification/Js_Values.thy ===== *)
theory Js_Values
  imports Prelude
begin

text \<open>
  What the sources use of the language beyond strings: numbers, their conversions from and
  to text, the values \<^verbatim>\<open>JSON.parse\<close> builds, property access with the inherited
  members of \<^verbatim>\<open>Object.prototype\<close> and \<^verbatim>\<open>Array.prototype\<close>, and
  \<^verbatim>\<open>JSON.stringify\<close>.

  A finite number is \<open>m \<sqdot> 10\<^sup>e\<close>, exact: the sources only read decimal numerals, compare
  them with integers and scale them by powers of ten, so the rounding to a double changes
  nothing for numerals of up to fifteen significant digits. Overflow to infinity is kept.
\<close>

section \<open>Numbers\<close>

datatype jsnum = NaN | Infinity bool | Dec int int

text \<open>\<open>Infinity True\<close> is \<^verbatim>\<open>-Infinity\<close>. A \<^const>\<open>Dec\<close> is kept canonical: no factor ten in \<open>m\<close>.\<close>

function canon :: "int \<Rightarrow> int \<Rightarrow> jsnum" where
  "canon m e = (if m = 0 then Dec 0 0 else if m mod 10 = 0 then canon (m div 10) (e + 1) else Dec m e)"
  by pat_completeness auto
termination
  by (relation "measure (\<lambda>(m, e). nat \<bar>m\<bar>)") (auto simp: zdiv_int)

declare canon.simps [simp del]

definition scale :: "int \<Rightarrow> int \<Rightarrow> int" where "scale m e = m * 10 ^ nat e"

text \<open>
  \<open>2\<^sup>1\<^sup>0\<^sup>2\<^sup>4 - 2\<^sup>9\<^sup>7\<^sup>0\<close> is the least magnitude that rounds to infinity; a short numeral
  with a small exponent is below it without computing it.
\<close>

definition overflows :: "int \<Rightarrow> int \<Rightarrow> bool" where
  "overflows m e = (if \<bar>m\<bar> < 1000000000000000000 \<and> e \<le> 290 then False
     else scale \<bar>m\<bar> e \<ge> scale (2 ^ 1024 - 2 ^ 970) (- e))"

definition mk_num :: "int \<Rightarrow> int \<Rightarrow> jsnum" where
  "mk_num m e = (if overflows m e then Infinity (m < 0) else canon m e)"

definition num_of_int :: "int \<Rightarrow> jsnum" where "num_of_int i = canon i 0"

fun is_finite :: "jsnum \<Rightarrow> bool" where
  "is_finite (Dec m e) = True"
| "is_finite _ = False"

text \<open>Comparisons with an integer; every comparison with \<^const>\<open>NaN\<close> is false.\<close>

fun num_le :: "jsnum \<Rightarrow> int \<Rightarrow> bool" where
  "num_le NaN k = False"
| "num_le (Infinity neg) k = neg"
| "num_le (Dec m e) k = (scale m e \<le> scale k (- e))"

fun num_ge :: "jsnum \<Rightarrow> int \<Rightarrow> bool" where
  "num_ge NaN k = False"
| "num_ge (Infinity neg) k = (\<not> neg)"
| "num_ge (Dec m e) k = (scale m e \<ge> scale k (- e))"

fun num_integer :: "jsnum \<Rightarrow> int option" where
  "num_integer (Dec m e) = (if e \<ge> 0 then Some (scale m e) else None)"
| "num_integer _ = None"

text \<open>\<^verbatim>\<open>n - k\<close> for an integer \<open>k\<close>.\<close>

fun num_minus :: "jsnum \<Rightarrow> int \<Rightarrow> jsnum" where
  "num_minus (Dec m e) k = (if e \<ge> 0 then canon (scale m e - k) 0 else canon (m - scale k (- e)) e)"
| "num_minus n k = n"

text \<open>Canonical form keeps the value: differences with any integer scale by a positive factor.\<close>

lemma canon_step:
  assumes "m mod 10 = 0"
  shows "\<exists>c > 0. \<forall>k. scale m e - scale k (- e) = c * (scale (m div 10) (e + 1) - scale k (- (e + 1)))"
proof (cases "e \<ge> 0")
  case True
  then have "scale (m div 10) (e + 1) = scale m e" "scale k (- (e + 1)) = k" "scale k (- e) = k" for k
    using assms by (auto simp: scale_def nat_add_distrib)
  then show ?thesis by (intro exI [of _ 1]) simp
next
  case False
  then have "nat (- e) = Suc (nat (- (e + 1)))" by auto
  then have "scale k (- e) = 10 * scale k (- (e + 1))" "scale m e = 10 * scale (m div 10) (e + 1)" for k
    using assms False by (auto simp: scale_def)
  then show ?thesis by (intro exI [of _ 10]) simp
qed

lemma canon_value:
  "\<exists>m' e' c. canon m e = Dec m' e' \<and> 0 < c \<and> (\<forall>k. scale m e - scale k (- e) = c * (scale m' e' - scale k (- e')))"
proof (induction m e rule: canon.induct)
  case (1 m e)
  show ?case
  proof (cases "m = 0 \<or> m mod 10 \<noteq> 0")
    case True
    show ?thesis
    proof (cases "m = 0")
      case zero: True
      show ?thesis
        by (rule exI [of _ 0], rule exI [of _ 0], rule exI [of _ "10 ^ nat (- e)"],
            simp add: zero canon.simps [of 0 e] scale_def)
    next
      case False
      then have "canon m e = Dec m e" using True by (simp add: canon.simps [of m e])
      then show ?thesis by (metis mult_1 zero_less_one)
    qed
  next
    case False
    then have 3: "m \<noteq> 0" "m mod 10 = 0" by simp_all
    from "1.IH" 3 obtain m' e' c where IH: "canon (m div 10) (e + 1) = Dec m' e'" "0 < c"
      "\<And>k. scale (m div 10) (e + 1) - scale k (- (e + 1)) = c * (scale m' e' - scale k (- e'))"
      by blast
    from canon_step [OF 3(2), of e] obtain d where d: "0 < d"
      "\<And>k. scale m e - scale k (- e) = d * (scale (m div 10) (e + 1) - scale k (- (e + 1)))" by blast
    have "scale m e - scale k (- e) = d * c * (scale m' e' - scale k (- e'))" for k
      by (simp only: d(2) IH(3) mult.assoc)
    moreover have "canon m e = Dec m' e'" "0 < d * c"
      using IH(1,2) d(1) 3 by (simp_all add: canon.simps [of m e])
    ultimately show ?thesis by blast
  qed
qed

lemma canon_le: "num_le (canon m e) k \<longleftrightarrow> scale m e \<le> scale k (- e)"
proof -
  from canon_value [of m e] obtain m' e' c where c: "canon m e = Dec m' e'" "0 < c"
    "scale m e - scale k (- e) = c * (scale m' e' - scale k (- e'))" by blast
  have "scale m e \<le> scale k (- e) \<longleftrightarrow> c * (scale m' e' - scale k (- e')) \<le> 0"
    using c(3) by linarith
  then show ?thesis using c(1,2) by (simp add: mult_le_0_iff)
qed

lemma canon_ge: "num_ge (canon m e) k \<longleftrightarrow> scale m e \<ge> scale k (- e)"
proof -
  from canon_value [of m e] obtain m' e' c where c: "canon m e = Dec m' e'" "0 < c"
    "scale m e - scale k (- e) = c * (scale m' e' - scale k (- e'))" by blast
  have "scale m e \<ge> scale k (- e) \<longleftrightarrow> 0 \<le> c * (scale m' e' - scale k (- e'))"
    using c(3) by linarith
  then show ?thesis using c(1,2) by (simp add: zero_le_mult_iff)
qed

lemma num_le_minus: "num_le (num_minus n k) j \<longleftrightarrow> num_le n (j + k)"
  by (cases n) (auto simp: canon_le scale_def algebra_simps)

lemma num_ge_minus: "num_ge (num_minus n k) j \<longleftrightarrow> num_ge n (j + k)"
  by (cases n) (auto simp: canon_ge scale_def algebra_simps)

lemma num_le_of_int [simp]: "num_le (num_of_int i) k \<longleftrightarrow> i \<le> k"
  by (simp add: num_of_int_def canon_le scale_def)

lemma num_ge_of_int [simp]: "num_ge (num_of_int i) k \<longleftrightarrow> i \<ge> k"
  by (simp add: num_of_int_def canon_ge scale_def)

subsection \<open>Number(text)\<close>

definition read_exponent :: "jsstring \<Rightarrow> int option" where
  "read_exponent s =
     (case s of
        [] \<Rightarrow> Some 0
      | c # r \<Rightarrow>
          if c = 101 \<or> c = 69 then
            (case r of
               d # ds \<Rightarrow>
                 if d = 43 then (if all_digits ds then Some (int (read_nat ds)) else None)
                 else if d = 45 then (if all_digits ds then Some (- int (read_nat ds)) else None)
                 else if all_digits r then Some (int (read_nat r)) else None
             | [] \<Rightarrow> None)
          else None)"

definition read_decimal :: "jsstring \<Rightarrow> (int \<times> int) option" where
  "read_decimal s =
     (let ip = takeWhile is_digit s; r = dropWhile is_digit s;
          dotted = (r \<noteq> [] \<and> hd r = 46);
          fp = (if dotted then takeWhile is_digit (tl r) else []);
          r2 = (if dotted then dropWhile is_digit (tl r) else r)
      in if ip = [] \<and> fp = [] then None
         else map_option (\<lambda>ex. (int (read_nat (ip @ fp)), ex - int (length fp))) (read_exponent r2))"

definition digit_value :: "code_unit \<Rightarrow> nat" where
  "digit_value c = (if 48 \<le> c \<and> c \<le> 57 then c - 48 else if 97 \<le> c \<and> c \<le> 122 then c - 87
     else if 65 \<le> c \<and> c \<le> 90 then c - 55 else 99)"

definition read_radix :: "nat \<Rightarrow> jsstring \<Rightarrow> int option" where
  "read_radix r s = (if s \<noteq> [] \<and> list_all (\<lambda>c. digit_value c < r) s
     then Some (int (foldl (\<lambda>n c. r * n + digit_value c) 0 s)) else None)"

definition read_unsigned :: "bool \<Rightarrow> jsstring \<Rightarrow> jsnum" where
  "read_unsigned neg s =
     (if s = lit ''Infinity'' then Infinity neg
      else (case read_decimal s of None \<Rightarrow> NaN | Some (m, e) \<Rightarrow> mk_num (if neg then - m else m) e))"

definition to_number :: "jsstring \<Rightarrow> jsnum" where
  "to_number str =
     (case trim str of
        [] \<Rightarrow> Dec 0 0
      | c # r \<Rightarrow>
          if c = 43 then read_unsigned False r
          else if c = 45 then read_unsigned True r
          else if c = 48 \<and> r \<noteq> [] \<and> hd r \<in> {120, 88, 111, 79, 98, 66} then
            (let radix = (if hd r \<in> {120, 88} then 16 else if hd r \<in> {111, 79} then 8 else 2)
             in case read_radix radix (tl r) of None \<Rightarrow> NaN | Some n \<Rightarrow> mk_num n 0)
          else read_unsigned False (c # r))"

subsection \<open>String(number)\<close>

definition digits_point :: "jsstring \<Rightarrow> int \<Rightarrow> jsstring" where
  "digits_point d n =
     (let k = int (length d) in
      if k \<le> n \<and> n \<le> 21 then d @ replicate (nat (n - k)) 48
      else if 0 < n \<and> n \<le> 21 then take (nat n) d @ [46] @ drop (nat n) d
      else if -6 < n \<and> n \<le> 0 then [48, 46] @ replicate (nat (- n)) 48 @ d
      else (let ex = (if n - 1 < 0 then [101, 45] @ show_nat (nat (1 - n)) else [101, 43] @ show_nat (nat (n - 1)))
            in if k = 1 then d @ ex else take 1 d @ [46] @ drop 1 d @ ex))"

fun num_to_string :: "jsnum \<Rightarrow> jsstring" where
  "num_to_string NaN = lit ''NaN''"
| "num_to_string (Infinity neg) = (if neg then lit ''-Infinity'' else lit ''Infinity'')"
| "num_to_string (Dec m e) =
     (if m = 0 then [48]
      else (let d = show_nat (nat \<bar>m\<bar>)
            in (if m < 0 then [45] else []) @ digits_point d (int (length d) + e)))"

section \<open>Values\<close>

text \<open>
  \<open>JFun\<close> is a method inherited from a prototype. An object is its own properties in
  insertion order, keys distinct.
\<close>

datatype jsval = JUndef | JNull | JBool bool | JNum jsnum | JStr jsstring
  | JArr "jsval list" | JObj "(jsstring \<times> jsval) list" | JFun

definition OBJECT_METHODS :: "string list" where
  "OBJECT_METHODS = [''constructor'', ''__defineGetter__'', ''__defineSetter__'', ''hasOwnProperty'',
     ''__lookupGetter__'', ''__lookupSetter__'', ''isPrototypeOf'', ''propertyIsEnumerable'',
     ''toString'', ''valueOf'', ''toLocaleString'']"

definition ARRAY_METHODS :: "string list" where
  "ARRAY_METHODS = [''at'', ''concat'', ''copyWithin'', ''entries'', ''every'', ''fill'', ''filter'',
     ''find'', ''findIndex'', ''findLast'', ''findLastIndex'', ''flat'', ''flatMap'', ''forEach'',
     ''includes'', ''indexOf'', ''join'', ''keys'', ''lastIndexOf'', ''map'', ''pop'', ''push'',
     ''reduce'', ''reduceRight'', ''reverse'', ''shift'', ''slice'', ''some'', ''sort'', ''splice'',
     ''toReversed'', ''toSorted'', ''toSpliced'', ''unshift'', ''values'', ''with'']"

definition object_inherited :: "jsstring \<Rightarrow> jsval option" where
  "object_inherited k =
     (if k \<in> lit ` set OBJECT_METHODS then Some JFun
      else if k = lit ''__proto__'' then Some (JObj []) else None)"

definition is_index :: "jsstring \<Rightarrow> bool" where
  "is_index k \<longleftrightarrow> all_digits k \<and> (hd k = 48 \<longrightarrow> k = [48])"

text \<open>\<^verbatim>\<open>key in obj\<close> and \<^verbatim>\<open>obj[key]\<close> of an object or array.\<close>

definition own :: "(jsstring \<times> jsval) list \<Rightarrow> jsstring \<Rightarrow> jsval option" where
  "own fs k = map_of fs k"

definition obj_lookup :: "(jsstring \<times> jsval) list \<Rightarrow> jsstring \<Rightarrow> jsval option" where
  "obj_lookup fs k = (case own fs k of Some v \<Rightarrow> Some v | None \<Rightarrow> object_inherited k)"

definition get_prop :: "jsval \<Rightarrow> jsstring \<Rightarrow> jsval" where
  "get_prop v k =
     (case v of
        JObj fs \<Rightarrow> (case obj_lookup fs k of Some x \<Rightarrow> x | None \<Rightarrow> JUndef)
      | JArr xs \<Rightarrow>
          if is_index k then (if read_nat k < length xs then xs ! read_nat k else JUndef)
          else if k = lit ''length'' then JNum (num_of_int (int (length xs)))
          else if k \<in> lit ` set ARRAY_METHODS then JFun
          else (case object_inherited k of Some x \<Rightarrow> x | None \<Rightarrow> JUndef)
      | _ \<Rightarrow> JUndef)"

definition is_object :: "jsval \<Rightarrow> bool" where
  "is_object v = (case v of JArr _ \<Rightarrow> True | JObj _ \<Rightarrow> True | _ \<Rightarrow> False)"

text \<open>What a condition takes for false.\<close>

definition falsy :: "jsval \<Rightarrow> bool" where
  "falsy v = (case v of JUndef \<Rightarrow> True | JNull \<Rightarrow> True | JBool b \<Rightarrow> \<not> b | JStr s \<Rightarrow> s = []
     | JNum n \<Rightarrow> n = NaN \<or> n = Dec 0 0 | _ \<Rightarrow> False)"

text \<open>\<^verbatim>\<open>obj[key] = value\<close> keeps the place of a key that is there already.\<close>

fun obj_put :: "jsstring \<Rightarrow> jsval \<Rightarrow> (jsstring \<times> jsval) list \<Rightarrow> (jsstring \<times> jsval) list" where
  "obj_put k v [] = [(k, v)]"
| "obj_put k v ((k', v') # fs) = (if k = k' then (k, v) # fs else (k', v') # obj_put k v fs)"

lemma own_obj_put: "own (obj_put k v fs) k' = (if k' = k then Some v else own fs k')"
  by (induction fs) (auto simp: own_def)

lemma keys_obj_put: "set (map fst (obj_put k v fs)) = insert k (set (map fst fs))"
  by (induction k v fs rule: obj_put.induct) (simp_all add: insert_commute)

lemma distinct_obj_put: "distinct (map fst fs) \<Longrightarrow> distinct (map fst (obj_put k v fs))"
  using keys_obj_put by (induction fs) fastforce+

section \<open>JSON.parse\<close>

definition json_ws :: "code_unit \<Rightarrow> bool" where
  "json_ws c \<longleftrightarrow> c = 32 \<or> c = 9 \<or> c = 10 \<or> c = 13"

definition skip_ws :: "jsstring \<Rightarrow> jsstring" where "skip_ws s = dropWhile json_ws s"

lemma length_skip_ws: "length (skip_ws s) \<le> length s"
  by (simp add: skip_ws_def length_dropWhile_le)

definition hex4 :: "jsstring \<Rightarrow> nat option" where
  "hex4 s = (if 4 \<le> length s then map_option nat (read_radix 16 (take 4 s)) else None)"

definition json_escape :: "code_unit \<Rightarrow> code_unit option" where
  "json_escape c = (if c \<in> {34, 92, 47} then Some c else if c = 98 then Some 8 else if c = 102 then Some 12
     else if c = 110 then Some 10 else if c = 114 then Some 13 else if c = 116 then Some 9 else None)"

text \<open>The rest of a string literal, after its opening quote.\<close>

fun read_string :: "jsstring \<Rightarrow> (jsstring \<times> jsstring) option" where
  "read_string [] = None"
| "read_string (c # r) =
     (if c = 34 then Some ([], r)
      else if c = 92 then
        (case r of
           [] \<Rightarrow> None
         | x # r' \<Rightarrow>
             if x = 117 then
               (case hex4 r' of
                  None \<Rightarrow> None
                | Some u \<Rightarrow> map_option (\<lambda>(t, q). (u # t, q)) (read_string (drop 4 r')))
             else
               (case json_escape x of
                  None \<Rightarrow> None
                | Some u \<Rightarrow> map_option (\<lambda>(t, q). (u # t, q)) (read_string r')))
      else if c < 32 then None
      else map_option (\<lambda>(t, q). (c # t, q)) (read_string r))"

definition read_json_exponent :: "jsstring \<Rightarrow> (int \<times> jsstring) option" where
  "read_json_exponent s =
     (if s \<noteq> [] \<and> hd s \<in> {101, 69} then
        (let r = tl s; neg = (r \<noteq> [] \<and> hd r = 45);
             ds = (if r \<noteq> [] \<and> hd r \<in> {43, 45} then tl r else r); n = takeWhile is_digit ds
         in if n = [] then None
            else Some (if neg then - int (read_nat n) else int (read_nat n), dropWhile is_digit ds))
      else Some (0, s))"

definition read_json_number :: "jsstring \<Rightarrow> (jsnum \<times> jsstring) option" where
  "read_json_number s =
     (let neg = (s \<noteq> [] \<and> hd s = 45); u = (if neg then tl s else s);
          ip = takeWhile is_digit u; r = dropWhile is_digit u;
          dotted = (r \<noteq> [] \<and> hd r = 46);
          fp = (if dotted then takeWhile is_digit (tl r) else []);
          r2 = (if dotted then dropWhile is_digit (tl r) else r)
      in if ip = [] \<or> (hd ip = 48 \<and> ip \<noteq> [48]) \<or> (dotted \<and> fp = []) then None
         else map_option (\<lambda>(ex, q).
                let m = int (read_nat (ip @ fp))
                in (mk_num (if neg then - m else m) (ex - int (length fp)), q))
                (read_json_exponent r2))"

lemma skip_ws_tl_less:
  "skip_ws q \<noteq> [] \<Longrightarrow> length q < n \<Longrightarrow> length (skip_ws (tl (skip_ws q))) < n"
  using length_skip_ws [of "tl (skip_ws q)"] length_skip_ws [of q] by (cases "skip_ws q") auto

lemma skip_ws_tl_double:
  "skip_ws q \<noteq> [] \<Longrightarrow> length q < n \<Longrightarrow> 2 * length (skip_ws (tl (skip_ws q))) < Suc (2 * n)"
  using skip_ws_tl_less [of q n] by simp

text \<open>
  The recursive part. The comparisons of lengths say that a value read takes at least one
  code unit off the input; they are what the termination proof needs.
\<close>

function parse_value :: "jsstring \<Rightarrow> (jsval \<times> jsstring) option"
  and parse_elems :: "jsval list \<Rightarrow> jsstring \<Rightarrow> (jsval \<times> jsstring) option"
  and parse_members :: "(jsstring \<times> jsval) list \<Rightarrow> jsstring \<Rightarrow> (jsval \<times> jsstring) option" where
  "parse_value [] = None"
| "parse_value (c # r) =
     (if c = 34 then map_option (\<lambda>(t, q). (JStr t, q)) (read_string r)
      else if c = 91 then
        (let r' = skip_ws r
         in if r' \<noteq> [] \<and> hd r' = 93 then Some (JArr [], tl r') else parse_elems [] r')
      else if c = 123 then
        (let r' = skip_ws r
         in if r' \<noteq> [] \<and> hd r' = 125 then Some (JObj [], tl r') else parse_members [] r')
      else if starts_with (lit ''true'') (c # r) then Some (JBool True, drop 3 r)
      else if starts_with (lit ''false'') (c # r) then Some (JBool False, drop 4 r)
      else if starts_with (lit ''null'') (c # r) then Some (JNull, drop 3 r)
      else map_option (\<lambda>(n, q). (JNum n, q)) (read_json_number (c # r)))"
| "parse_elems acc s =
     (case parse_value s of
        None \<Rightarrow> None
      | Some (v, q) \<Rightarrow>
          (let q' = skip_ws q
           in if q' = [] \<or> \<not> length q < length s then None
              else if hd q' = 93 then Some (JArr (acc @ [v]), tl q')
              else if hd q' = 44 then parse_elems (acc @ [v]) (skip_ws (tl q'))
              else None))"
| "parse_members acc s =
     (if s = [] \<or> hd s \<noteq> 34 then None
      else
        (case read_string (tl s) of
           None \<Rightarrow> None
         | Some (k, q) \<Rightarrow>
             (let q1 = skip_ws q
              in if q1 = [] \<or> hd q1 \<noteq> 58 \<or> \<not> length q < length s then None
                 else
                   (case parse_value (skip_ws (tl q1)) of
                      None \<Rightarrow> None
                    | Some (v, q2) \<Rightarrow>
                        (let q3 = skip_ws q2
                         in if q3 = [] \<or> \<not> length q2 < length s then None
                            else if hd q3 = 125 then Some (JObj (obj_put k v acc), tl q3)
                            else if hd q3 = 44 then parse_members (obj_put k v acc) (skip_ws (tl q3))
                            else None)))))"
  by pat_completeness auto

termination
  by (relation "measure (\<lambda>x. case x of Inl s \<Rightarrow> 2 * length s
        | Inr (Inl (acc, s)) \<Rightarrow> 2 * length s + 1 | Inr (Inr (acc, s)) \<Rightarrow> 2 * length s + 1)")
    (auto simp: le_imp_less_Suc length_skip_ws intro: skip_ws_tl_less skip_ws_tl_double)

declare parse_value.simps [simp del] parse_elems.simps [simp del] parse_members.simps [simp del]

text \<open>\<^verbatim>\<open>JSON.parse\<close>; \<open>None\<close> is the exception it throws.\<close>

definition json_parse :: "jsstring \<Rightarrow> jsval option" where
  "json_parse s = (case parse_value (skip_ws s) of
     Some (v, q) \<Rightarrow> if skip_ws q = [] then Some v else None | None \<Rightarrow> None)"

section \<open>JSON.stringify\<close>

definition hex_digit :: "nat \<Rightarrow> code_unit" where
  "hex_digit n = (if n < 10 then 48 + n else 87 + n)"

definition surrogate :: "code_unit \<Rightarrow> bool" where
  "surrogate c \<longleftrightarrow> 0xD800 \<le> c \<and> c \<le> 0xDFFF"

definition u_escape :: "code_unit \<Rightarrow> jsstring" where
  "u_escape c = [92, 117, hex_digit (c div 4096 mod 16), hex_digit (c div 256 mod 16),
     hex_digit (c div 16 mod 16), hex_digit (c mod 16)]"

definition quote_unit :: "code_unit \<Rightarrow> jsstring" where
  "quote_unit c = (if c = 34 \<or> c = 92 then [92, c] else if c = 8 then [92, 98] else if c = 9 then [92, 116]
     else if c = 10 then [92, 110] else if c = 12 then [92, 102] else if c = 13 then [92, 114]
     else if c < 32 then u_escape c else [c])"

text \<open>A surrogate pair is written as it is, a lone surrogate escaped.\<close>

fun quote_body :: "jsstring \<Rightarrow> jsstring" where
  "quote_body [] = []"
| "quote_body [c] = (if surrogate c then u_escape c else quote_unit c)"
| "quote_body (c # d # r) =
     (if 0xD800 \<le> c \<and> c \<le> 0xDBFF \<and> 0xDC00 \<le> d \<and> d \<le> 0xDFFF then c # d # quote_body r
      else (if surrogate c then u_escape c else quote_unit c) @ quote_body (d # r))"

definition json_quote :: "jsstring \<Rightarrow> jsstring" where
  "json_quote s = [34] @ quote_body s @ [34]"

definition own_order :: "(jsstring \<times> 'a) list \<Rightarrow> (jsstring \<times> 'a) list" where
  "own_order fs = sort_key (\<lambda>f. read_nat (fst f)) (filter (\<lambda>f. is_index (fst f)) fs)
     @ filter (\<lambda>f. \<not> is_index (fst f)) fs"

lemma snd_size_list [termination_simp]:
  fixes fs :: "(jsstring \<times> jsval) list"
  shows "f \<in> set fs \<Longrightarrow> size (snd f) < Suc (size_list (\<lambda>x. Suc (size (snd x))) fs)"
  by (induction fs) auto

text \<open>\<open>None\<close> is the \<^verbatim>\<open>undefined\<close> that \<^verbatim>\<open>JSON.stringify\<close> gives for a function.\<close>

fun json_stringify :: "jsval \<Rightarrow> jsstring option" where
  "json_stringify JUndef = None"
| "json_stringify JFun = None"
| "json_stringify JNull = Some (lit ''null'')"
| "json_stringify (JBool b) = Some (if b then lit ''true'' else lit ''false'')"
| "json_stringify (JNum n) = Some (if is_finite n then num_to_string n else lit ''null'')"
| "json_stringify (JStr s) = Some (json_quote s)"
| "json_stringify (JArr xs) =
     Some ([91] @ join [44] (map (\<lambda>x. case json_stringify x of None \<Rightarrow> lit ''null'' | Some t \<Rightarrow> t) xs) @ [93])"
| "json_stringify (JObj fs) =
     Some ([123] @ join [44] (List.map_filter
        (\<lambda>(k, t). map_option (\<lambda>u. json_quote k @ [58] @ u) t)
        (own_order (map (\<lambda>f. (fst f, json_stringify (snd f))) fs))) @ [125])"

end
