(* ===== verification/Ansi.thy ===== *)
theory Ansi
  imports Js_Values
begin

text \<open>
  Escape sequences in log text, \<^verbatim>\<open>plugins/logging/src/logs/ansi.ts\<close>: SGR
  parameters to a style, the scanner that finds where an escape ends, the split of a line
  into styled runs and the removal of escapes, with the reference they are compared with.
\<close>

section \<open>Styles and colours\<close>

datatype ansi_color = Palette jsnum | Rgb jsstring

record ansi_style =
  st_fg :: "ansi_color option"
  st_bg :: "ansi_color option"
  st_bold :: bool
  st_dim :: bool
  st_italic :: bool
  st_underline :: bool
  st_inverse :: bool
  st_hidden :: bool
  st_strike :: bool

text \<open>A span is its text and its style, \<open>None\<close> for the surrounding one.\<close>

type_synonym ansi_span = "jsstring \<times> ansi_style option"

abbreviation ESC :: code_unit where "ESC \<equiv> 0x1b"
abbreviation CSI :: code_unit where "CSI \<equiv> 0x9b"
abbreviation BEL :: code_unit where "BEL \<equiv> 0x07"

definition hasAnsi :: "jsstring \<Rightarrow> bool" where
  "hasAnsi s \<longleftrightarrow> ESC \<in> set s \<or> CSI \<in> set s"

definition plainStyle :: ansi_style where
  "plainStyle = \<lparr>st_fg = None, st_bg = None, st_bold = False, st_dim = False, st_italic = False,
     st_underline = False, st_inverse = False, st_hidden = False, st_strike = False\<rparr>"

definition isPlain :: "ansi_style \<Rightarrow> bool" where
  "isPlain s \<longleftrightarrow> st_fg s = None \<and> st_bg s = None \<and> \<not> st_bold s \<and> \<not> st_dim s \<and> \<not> st_italic s \<and>
     \<not> st_underline s \<and> \<not> st_inverse s \<and> \<not> st_hidden s \<and> \<not> st_strike s"

definition sameStyle :: "ansi_style option \<Rightarrow> ansi_style option \<Rightarrow> bool" where
  "sameStyle x y =
     (case (x, y) of
        (None, None) \<Rightarrow> True
      | (Some a, Some b) \<Rightarrow>
          st_fg a = st_fg b \<and> st_bg a = st_bg b \<and> st_bold a = st_bold b \<and> st_dim a = st_dim b \<and>
          st_italic a = st_italic b \<and> st_underline a = st_underline b \<and>
          st_inverse a = st_inverse b \<and> st_hidden a = st_hidden b \<and> st_strike a = st_strike b
      | _ \<Rightarrow> False)"

function hex_digits :: "nat \<Rightarrow> jsstring" where
  "hex_digits n = (if n < 16 then [hex_digit n] else hex_digits (n div 16) @ [hex_digit (n mod 16)])"
  by pat_completeness auto
termination by (relation "measure id") auto

declare hex_digits.simps [simp del]

definition toHex :: "int \<Rightarrow> jsstring" where
  "toHex value = (let h = hex_digits (nat (max 0 (min 255 value)))
     in replicate (2 - length h) 48 @ h)"

definition rgb :: "int \<Rightarrow> int \<Rightarrow> int \<Rightarrow> jsstring" where
  "rgb r g b = [35] @ toHex r @ toHex g @ toHex b"

definition CUBE_LEVELS :: "int list" where "CUBE_LEVELS = [0, 95, 135, 175, 215, 255]"

definition paletteColor :: "nat \<Rightarrow> jsstring" where
  "paletteColor index =
     (if index \<ge> 232 then (let level = 8 + (int index - 232) * 10 in rgb level level level)
      else (let cube = index - 16
            in rgb (CUBE_LEVELS ! (cube div 36 mod 6)) (CUBE_LEVELS ! (cube div 6 mod 6))
                 (CUBE_LEVELS ! (cube mod 6))))"

definition asByte :: "jsstring option \<Rightarrow> int option" where
  "asByte value =
     (case value of
        None \<Rightarrow> None
      | Some v \<Rightarrow>
          if v = [] then Some 0
          else (case num_integer (to_number v) of
                  Some n \<Rightarrow> if 0 \<le> n \<and> n \<le> 255 then Some n else None
                | None \<Rightarrow> None))"

definition nth_opt :: "'a list \<Rightarrow> nat \<Rightarrow> 'a option" where
  "nth_opt xs i = (if i < length xs then Some (xs ! i) else None)"

text \<open>\<^verbatim>\<open>const [r, g, b] = parts.map(asByte)\<close> and the colour made of them.\<close>

definition rgb_of :: "jsstring list \<Rightarrow> ansi_color option" where
  "rgb_of parts =
     (case (Option.bind (nth_opt parts 0) (\<lambda>p. asByte (Some p)),
            Option.bind (nth_opt parts 1) (\<lambda>p. asByte (Some p)),
            Option.bind (nth_opt parts 2) (\<lambda>p. asByte (Some p))) of
        (Some r, Some g, Some b) \<Rightarrow> Some (Rgb (rgb r g b))
      | _ \<Rightarrow> None)"

definition palette_of :: "int option \<Rightarrow> ansi_color option" where
  "palette_of i = map_option (\<lambda>n. Palette (num_of_int n)) i"

definition extendedColor :: "jsstring list \<Rightarrow> jsstring list \<Rightarrow> ansi_color option \<times> nat" where
  "extendedColor sub rest =
     (if length sub > 1 then
        (if sub ! 1 = lit ''5'' then (palette_of (asByte (nth_opt sub 2)), 0)
         else if sub ! 1 = lit ''2'' then
           (rgb_of (if length sub \<ge> 6 then slice 3 6 sub else slice 2 5 sub), 0)
         else (None, 0))
      else
        (if nth_opt rest 0 = Some (lit ''5'') then (palette_of (asByte (nth_opt rest 1)), 2)
         else if nth_opt rest 0 = Some (lit ''2'') then (rgb_of (slice 1 4 rest), 4)
         else (None, if length rest > 0 then 1 else 0)))"

text \<open>One SGR parameter that takes nothing from the parameters after it.\<close>

definition in_range :: "jsnum \<Rightarrow> int \<Rightarrow> int \<Rightarrow> bool" where
  "in_range n lo hi \<longleftrightarrow> num_ge n lo \<and> num_le n hi"

definition applyCode :: "jsnum \<Rightarrow> jsstring list \<Rightarrow> ansi_style \<Rightarrow> ansi_style" where
  "applyCode code sub next =
     (let k = num_integer code in
      if k = Some 0 then plainStyle
      else if k = Some 1 then next\<lparr>st_bold := True\<rparr>
      else if k = Some 2 then next\<lparr>st_dim := True\<rparr>
      else if k = Some 3 then next\<lparr>st_italic := True\<rparr>
      else if k = Some 4 then next\<lparr>st_underline := (nth_opt sub 1 \<noteq> Some (lit ''0''))\<rparr>
      else if k = Some 7 then next\<lparr>st_inverse := True\<rparr>
      else if k = Some 8 then next\<lparr>st_hidden := True\<rparr>
      else if k = Some 9 then next\<lparr>st_strike := True\<rparr>
      else if k = Some 21 then next\<lparr>st_underline := True\<rparr>
      else if k = Some 22 then next\<lparr>st_bold := False, st_dim := False\<rparr>
      else if k = Some 23 then next\<lparr>st_italic := False\<rparr>
      else if k = Some 24 then next\<lparr>st_underline := False\<rparr>
      else if k = Some 27 then next\<lparr>st_inverse := False\<rparr>
      else if k = Some 28 then next\<lparr>st_hidden := False\<rparr>
      else if k = Some 29 then next\<lparr>st_strike := False\<rparr>
      else if in_range code 30 37 then next\<lparr>st_fg := Some (Palette (num_minus code 30))\<rparr>
      else if k = Some 39 then next\<lparr>st_fg := None\<rparr>
      else if in_range code 40 47 then next\<lparr>st_bg := Some (Palette (num_minus code 40))\<rparr>
      else if k = Some 49 then next\<lparr>st_bg := None\<rparr>
      else if in_range code 90 97 then next\<lparr>st_fg := Some (Palette (num_minus code 82))\<rparr>
      else if in_range code 100 107 then next\<lparr>st_bg := Some (Palette (num_minus code 92))\<rparr>
      else next)"

definition sgr_code :: "jsstring list \<Rightarrow> jsnum" where
  "sgr_code sub = (if hd sub = [] then Dec 0 0 else to_number (hd sub))"

text \<open>The loop over the parameters; 38, 48 and 58 take what follows them.\<close>

fun applyList :: "jsstring list \<Rightarrow> ansi_style \<Rightarrow> ansi_style" where
  "applyList [] next = next"
| "applyList (p # rest) next =
     (let sub = split_on 58 p; code = sgr_code sub; k = num_integer code
      in if k = Some 38 \<or> k = Some 48 \<or> k = Some 58 then
           (case extendedColor sub rest of
              (color, consumed) \<Rightarrow>
                applyList (drop consumed rest)
                  (if color = None \<or> k = Some 58 then next
                   else if k = Some 38 then next\<lparr>st_fg := color\<rparr> else next\<lparr>st_bg := color\<rparr>))
         else applyList rest (applyCode code sub next))"

definition applySgr :: "ansi_style \<Rightarrow> jsstring \<Rightarrow> ansi_style" where
  "applySgr style params = applyList (if params = [] then [lit ''0''] else split_on 59 params) style"

section \<open>The scanner\<close>

text \<open>Positions are those of the source; a read past the end (\<^verbatim>\<open>NaN\<close>) is \<open>None\<close>.\<close>

function scan_string :: "jsstring \<Rightarrow> nat \<Rightarrow> nat" where
  "scan_string t i =
     (if i < length t then
        (if t ! i = BEL then i + 1
         else if t ! i = ESC \<and> nth_opt t (i + 1) = Some 0x5c then i + 2
         else scan_string t (i + 1))
      else i)"
  by pat_completeness auto
termination by (relation "measure (\<lambda>(t, i). length t - i)") auto

function scan_nf :: "jsstring \<Rightarrow> code_unit \<Rightarrow> nat \<Rightarrow> nat" where
  "scan_nf t c i = (if 0x20 \<le> c \<and> c \<le> 0x2f \<and> i < length t then scan_nf t (t ! i) (i + 1) else i)"
  by pat_completeness auto
termination by (relation "measure (\<lambda>(t, c, i). length t - i)") auto

function scan_csi :: "jsstring \<Rightarrow> nat \<Rightarrow> nat \<Rightarrow> nat \<times> jsstring option" where
  "scan_csi t paramsStart i =
     (if i < length t then
        (let c = t ! i in
         if 0x40 \<le> c \<and> c \<le> 0x7e then
           (let params = slice paramsStart i t
            in (i + 1, if c = 0x6d \<and> \<not> list_ex (\<lambda>d. d \<in> {0x3c, 0x3d, 0x3e, 0x3f}) params
                       then Some params else None))
         else if c < 0x20 \<or> c > 0x3f then (i, None)
         else scan_csi t paramsStart (i + 1))
      else (i, None))"
  by pat_completeness auto
termination by (relation "measure (\<lambda>(t, p, i). length t - i)") auto

declare scan_string.simps [simp del] scan_nf.simps [simp del] scan_csi.simps [simp del]

definition scanEscape :: "jsstring \<Rightarrow> nat \<Rightarrow> nat \<times> jsstring option" where
  "scanEscape t start =
     (if t ! start = CSI then scan_csi t (start + 1) (start + 1)
      else
        (case nth_opt t (start + 1) of
           None \<Rightarrow> (start + 1, None)
         | Some kind \<Rightarrow>
             if kind = 0x5b then scan_csi t (start + 2) (start + 2)
             else if kind \<in> {0x5d, 0x50, 0x58, 0x5e, 0x5f} then (scan_string t (start + 2), None)
             else (scan_nf t kind (start + 2), None)))"

lemma scan_string_bounds: "i \<le> length t \<Longrightarrow> i \<le> scan_string t i \<and> scan_string t i \<le> length t"
proof (induction t i rule: scan_string.induct)
  case (1 t i)
  then show ?case
    by (subst (1 2) scan_string.simps) (auto simp: nth_opt_def split: if_splits)
qed

lemma scan_nf_bounds: "i \<le> length t \<Longrightarrow> i \<le> scan_nf t c i \<and> scan_nf t c i \<le> length t"
proof (induction t c i rule: scan_nf.induct)
  case (1 t c i)
  then show ?case by (subst (1 2) scan_nf.simps) auto
qed

lemma scan_csi_bounds: "i \<le> length t \<Longrightarrow> i \<le> fst (scan_csi t p i) \<and> fst (scan_csi t p i) \<le> length t"
proof (induction t p i rule: scan_csi.induct)
  case (1 t p i)
  then show ?case by (subst (1 2) scan_csi.simps) (auto simp: Let_def)
qed

text \<open>An escape takes at least its introducer and never runs past the text.\<close>

lemma scanEscape_bounds:
  assumes "start < length t"
  shows "start < fst (scanEscape t start)" "fst (scanEscape t start) \<le> length t"
proof -
  have "start < e \<and> e \<le> length t"
    if "scanEscape t start = (e, s)" for e s
  proof (cases "start + 1 < length t")
    case True
    then have le: "start + 1 \<le> length t" "start + 2 \<le> length t" by simp_all
    show ?thesis
      using that True scan_string_bounds [OF le(2)] scan_csi_bounds [OF le(1), of "start + 1"]
        scan_csi_bounds [OF le(2), of "start + 2"] scan_nf_bounds [OF le(2), of "t ! (start + 1)"]
      by (auto simp: scanEscape_def nth_opt_def split: if_splits)
  next
    case False
    then show ?thesis
      using that assms scan_csi_bounds [of "start + 1" t "start + 1"]
      by (auto simp: scanEscape_def nth_opt_def split: if_splits)
  qed
  then show "start < fst (scanEscape t start)" "fst (scanEscape t start) \<le> length t"
    by (simp_all add: prod_eq_iff)
qed

section \<open>Runs\<close>

definition push_run :: "jsstring \<Rightarrow> nat \<Rightarrow> nat \<Rightarrow> ansi_style option \<Rightarrow> ansi_span list \<Rightarrow> ansi_span list" where
  "push_run t runStart end current spans =
     (if end \<le> runStart then spans
      else
        (let chunk = slice runStart end t
         in if spans \<noteq> [] \<and> sameStyle (snd (last spans)) current
            then butlast spans @ [(fst (last spans) @ chunk, snd (last spans))]
            else spans @ [(chunk, current)]))"

function parse_runs :: "jsstring \<Rightarrow> nat \<Rightarrow> nat \<Rightarrow> ansi_style \<Rightarrow> ansi_style option \<Rightarrow> ansi_span list \<Rightarrow> ansi_span list" where
  "parse_runs t i runStart style current spans =
     (if i < length t then
        (if t ! i \<noteq> ESC \<and> t ! i \<noteq> CSI then parse_runs t (i + 1) runStart style current spans
         else
           (let spans' = push_run t runStart i current spans;
                end = fst (scanEscape t i)
            in case snd (scanEscape t i) of
                 None \<Rightarrow> parse_runs t end end style current spans'
               | Some sgr \<Rightarrow>
                   (let style' = applySgr style sgr
                    in parse_runs t end end style' (if isPlain style' then None else Some style') spans')))
      else push_run t runStart (length t) current spans)"
  by pat_completeness auto
termination
  by (relation "measure (\<lambda>(t, i, runStart, style, current, spans). length t - i)")
    (auto intro: diff_less_mono2 scanEscape_bounds(1))

declare parse_runs.simps [simp del]

definition parseAnsi :: "jsstring \<Rightarrow> ansi_span list" where
  "parseAnsi t =
     (if \<not> hasAnsi t then [(t, None)]
      else (let spans = parse_runs t 0 0 plainStyle None []
            in if spans \<noteq> [] then spans else [([], None)]))"

definition stripAnsi :: "jsstring \<Rightarrow> jsstring" where
  "stripAnsi t = (if hasAnsi t then concat (map fst (parseAnsi t)) else t)"

section \<open>The reference: the text outside every escape\<close>

function visible :: "jsstring \<Rightarrow> nat \<Rightarrow> jsstring" where
  "visible t i =
     (if i < length t then
        (if t ! i \<noteq> ESC \<and> t ! i \<noteq> CSI then t ! i # visible t (i + 1)
         else visible t (fst (scanEscape t i)))
      else [])"
  by pat_completeness auto
termination
  by (relation "measure (\<lambda>(t, i). length t - i)") (auto intro: diff_less_mono2 scanEscape_bounds(1))

declare visible.simps [simp del]

lemma visible_no_escape: "\<not> hasAnsi (visible t i)"
proof (induction t i rule: visible.induct)
  case (1 t i)
  then show ?case by (subst visible.simps) (auto simp: hasAnsi_def)
qed

lemma visible_plain: "\<not> hasAnsi t \<Longrightarrow> visible t i = drop i t"
proof (induction t i rule: visible.induct)
  case (1 t i)
  show ?case
  proof (cases "i < length t")
    case True
    then have "t ! i \<noteq> ESC" "t ! i \<noteq> CSI"
      using "1.prems" by (metis hasAnsi_def nth_mem)+
    with 1 True show ?thesis
      by (subst visible.simps) (simp add: Cons_nth_drop_Suc)
  qed (subst visible.simps, simp)
qed

lemma sameStyle_iff [simp]: "sameStyle x y \<longleftrightarrow> x = y"
  by (auto simp: sameStyle_def split: option.splits)

lemma push_run_text:
  "r \<le> e \<Longrightarrow> e \<le> length t \<Longrightarrow>
     concat (map fst (push_run t r e c spans)) = concat (map fst spans) @ slice r e t"
  by (cases spans rule: rev_cases) (auto simp: push_run_def Let_def slice_def)

lemma parse_runs_text:
  assumes "r \<le> i" "i \<le> length t"
  shows "concat (map fst (parse_runs t i r st c spans)) = concat (map fst spans) @ slice r i t @ visible t i"
  using assms
proof (induction t i r st c spans rule: parse_runs.induct)
  case (1 t i r st c spans)
  show ?case
  proof (cases "i < length t")
    case False
    with 1 show ?thesis
      by (simp add: parse_runs.simps [of t "length t"] visible.simps [of t "length t"] push_run_text)
  next
    case True
    show ?thesis
    proof (cases "t ! i \<noteq> ESC \<and> t ! i \<noteq> CSI")
      case plain: True
      have "slice r (Suc i) t = slice r i t @ [t ! i]"
        using True "1.prems" by (simp add: slice_def Suc_diff_le take_Suc_conv_app_nth)
      with True plain 1 show ?thesis
        by (simp add: parse_runs.simps [of t i] visible.simps [of t i])
    next
      case esc: False
      note b = scanEscape_bounds [OF True]
      have nil: "slice e e t = []" for e by (simp add: slice_def)
      show ?thesis
      proof (cases "snd (scanEscape t i)")
        case None
        with True esc b 1 nil show ?thesis
          by (auto simp: parse_runs.simps [of t i] visible.simps [of t i] push_run_text Let_def)
      next
        case (Some sgr)
        with True esc b 1 nil show ?thesis
          by (auto simp: parse_runs.simps [of t i] visible.simps [of t i] push_run_text Let_def)
      qed
    qed
  qed
qed

lemma stripAnsi_eq_visible: "stripAnsi t = visible t 0"
proof (cases "hasAnsi t")
  case True
  have "concat (map fst (parse_runs t 0 0 plainStyle None [])) = visible t 0"
    using parse_runs_text [of 0 0 t plainStyle None "[]"] by simp
  with True show ?thesis
    by (auto simp: stripAnsi_def parseAnsi_def Let_def)
next
  case False
  then show ?thesis by (simp add: stripAnsi_def visible_plain)
qed

lemma stripAnsi_no_escape [simp]: "\<not> hasAnsi (stripAnsi t)"
  by (simp add: stripAnsi_eq_visible visible_no_escape)

lemma stripAnsi_id [simp]: "\<not> hasAnsi t \<Longrightarrow> stripAnsi t = t"
  by (simp add: stripAnsi_def)

section \<open>Runs are maximal and never plainly styled\<close>

definition runs_ok :: "ansi_span list \<Rightarrow> bool" where
  "runs_ok spans \<longleftrightarrow> (\<forall>x \<in> set spans. fst x \<noteq> [] \<and> (\<forall>s. snd x = Some s \<longrightarrow> \<not> isPlain s)) \<and>
     successively (\<lambda>a b. snd a \<noteq> snd b) spans"

definition current_ok :: "ansi_style option \<Rightarrow> bool" where
  "current_ok c \<longleftrightarrow> (\<forall>s. c = Some s \<longrightarrow> \<not> isPlain s)"

lemma push_run_ok:
  assumes "runs_ok spans" "current_ok c" "e \<le> length t"
  shows "runs_ok (push_run t r e c spans)"
proof (cases "e \<le> r")
  case True
  with assms show ?thesis by (simp add: push_run_def)
next
  case False
  then have chunk: "slice r e t \<noteq> []" using assms(3) by (simp add: slice_def)
  show ?thesis
    using assms chunk False
    by (cases spans rule: rev_cases)
      (auto simp: push_run_def Let_def runs_ok_def current_ok_def successively_append_iff)
qed

lemma parse_runs_ok:
  "runs_ok spans \<Longrightarrow> current_ok c \<Longrightarrow> i \<le> length t \<Longrightarrow> runs_ok (parse_runs t i r st c spans)"
proof (induction t i r st c spans rule: parse_runs.induct)
  case (1 t i r st c spans)
  show ?case
  proof (cases "i < length t")
    case False
    with "1.prems" show ?thesis by (simp add: parse_runs.simps [of t "length t"] push_run_ok)
  next
    case True
    note b = scanEscape_bounds [OF True]
    have push: "runs_ok (push_run t r i c spans)" using "1.prems" by (simp add: push_run_ok)
    have cur: "current_ok (if isPlain s then None else Some s)" for s by (simp add: current_ok_def)
    show ?thesis
    proof (cases "t ! i \<noteq> ESC \<and> t ! i \<noteq> CSI")
      case plain: True
      with True 1 show ?thesis by (simp add: parse_runs.simps [of t i])
    next
      case esc: False
      show ?thesis
        using True esc b push cur "1.prems"(2) "1.IH"(2,3) [OF True esc refl refl]
        by (cases "snd (scanEscape t i)") (auto simp: parse_runs.simps [of t i] Let_def)
    qed
  qed
qed

section \<open>Colours stay in range\<close>

lemma length_toHex [simp]: "length (toHex v) = 2"
proof -
  define n where "n = nat (max 0 (min 255 v))"
  have "n < 256" by (simp add: n_def)
  then have "n div 16 < 16" by simp
  then have "length (hex_digits n) = (if n < 16 then 1 else 2)"
    by (auto simp: hex_digits.simps [of n] hex_digits.simps [of "n div 16"])
  then show ?thesis by (simp add: toHex_def n_def [symmetric] Let_def)
qed

definition color_ok :: "ansi_color \<Rightarrow> bool" where
  "color_ok c = (case c of Palette n \<Rightarrow> num_ge n 0 \<and> num_le n 255 | Rgb s \<Rightarrow> length s = 7 \<and> hd s = 35)"

definition style_ok :: "ansi_style \<Rightarrow> bool" where
  "style_ok s \<longleftrightarrow> (\<forall>c. st_fg s = Some c \<longrightarrow> color_ok c) \<and> (\<forall>c. st_bg s = Some c \<longrightarrow> color_ok c)"

lemma asByte_range: "asByte v = Some n \<Longrightarrow> 0 \<le> n \<and> n \<le> 255"
  by (auto simp: asByte_def split: option.splits if_splits)

lemma extendedColor_ok: "extendedColor sub rest = (Some c, n) \<Longrightarrow> color_ok c"
  by (auto simp: extendedColor_def palette_of_def rgb_of_def color_ok_def rgb_def dest: asByte_range
      split: if_splits option.splits)

lemma num_le_mono: "num_le n j \<Longrightarrow> j \<le> k \<Longrightarrow> num_le n k"
  by (cases n) (auto simp: scale_def intro: order_trans mult_right_mono)

lemma num_ge_mono: "num_ge n j \<Longrightarrow> k \<le> j \<Longrightarrow> num_ge n k"
  by (cases n) (auto simp: scale_def intro: order_trans [OF mult_right_mono])

lemma in_range_palette:
  "in_range code lo hi \<Longrightarrow> k \<le> lo \<Longrightarrow> hi \<le> 255 + k \<Longrightarrow> color_ok (Palette (num_minus code k))"
  by (auto simp: in_range_def color_ok_def num_le_minus num_ge_minus intro: num_le_mono num_ge_mono)

lemma applyCode_ok: "style_ok s \<Longrightarrow> style_ok (applyCode code sub s)"
  by (auto simp: applyCode_def Let_def style_ok_def plainStyle_def in_range_palette)

lemma applyList_ok: "style_ok s \<Longrightarrow> style_ok (applyList ps s)"
proof (induction ps s rule: applyList.induct)
  case (2 p rest s)
  obtain color n where e: "extendedColor (split_on 58 p) rest = (color, n)" by fastforce
  have "style_ok (if color = None \<or> k = Some 58 then s
      else if k = Some 38 then s\<lparr>st_fg := color\<rparr> else s\<lparr>st_bg := color\<rparr>)" for k :: "int option"
    using "2.prems" e extendedColor_ok by (auto simp: style_ok_def)
  then show ?case
    using 2 e by (auto simp: Let_def applyCode_ok)
qed simp

section \<open>The style of every character\<close>

text \<open>The reference for the runs: each visible character with the style in force where it stands.\<close>

definition shown_style :: "ansi_style \<Rightarrow> ansi_style option" where
  "shown_style s = (if isPlain s then None else Some s)"

function painted :: "jsstring \<Rightarrow> nat \<Rightarrow> ansi_style \<Rightarrow> (code_unit \<times> ansi_style option) list" where
  "painted t i style =
     (if i < length t then
        (if t ! i \<noteq> ESC \<and> t ! i \<noteq> CSI then (t ! i, shown_style style) # painted t (i + 1) style
         else painted t (fst (scanEscape t i))
                (case snd (scanEscape t i) of None \<Rightarrow> style | Some sgr \<Rightarrow> applySgr style sgr))
      else [])"
  by pat_completeness auto
termination
  by (relation "measure (\<lambda>(t, i, style). length t - i)") (auto intro: diff_less_mono2 scanEscape_bounds(1))

declare painted.simps [simp del]

definition paint :: "ansi_span list \<Rightarrow> (code_unit \<times> ansi_style option) list" where
  "paint spans = concat (map (\<lambda>(txt, style). map (\<lambda>c. (c, style)) txt) spans)"

lemma paint_simps [simp]: "paint [] = []" "paint (x # xs) = map (\<lambda>c. (c, snd x)) (fst x) @ paint xs"
  "paint (xs @ ys) = paint xs @ paint ys"
  by (simp_all add: paint_def case_prod_unfold)

lemma push_run_paint:
  "r \<le> e \<Longrightarrow> e \<le> length t \<Longrightarrow> paint (push_run t r e c spans) = paint spans @ map (\<lambda>x. (x, c)) (slice r e t)"
  by (cases spans rule: rev_cases) (auto simp: push_run_def Let_def slice_def)

lemma parse_runs_paint:
  assumes "r \<le> i" "i \<le> length t" "c = shown_style st"
  shows "paint (parse_runs t i r st c spans) = paint spans @ map (\<lambda>x. (x, c)) (slice r i t) @ painted t i st"
  using assms
proof (induction t i r st c spans rule: parse_runs.induct)
  case (1 t i r st c spans)
  show ?case
  proof (cases "i < length t")
    case False
    with 1 show ?thesis
      by (simp add: parse_runs.simps [of t "length t"] painted.simps [of t "length t"] push_run_paint)
  next
    case True
    show ?thesis
    proof (cases "t ! i \<noteq> ESC \<and> t ! i \<noteq> CSI")
      case plain: True
      have "slice r (Suc i) t = slice r i t @ [t ! i]"
        using True "1.prems" by (simp add: slice_def Suc_diff_le take_Suc_conv_app_nth)
      with True plain 1 show ?thesis
        by (simp add: parse_runs.simps [of t i] painted.simps [of t i])
    next
      case esc: False
      note b = scanEscape_bounds [OF True]
      have nil: "slice e e t = []" for e by (simp add: slice_def)
      show ?thesis
        using True esc b "1.prems" "1.IH"(2,3) [OF True esc refl refl] nil
        by (cases "snd (scanEscape t i)")
          (auto simp: parse_runs.simps [of t i] painted.simps [of t i] push_run_paint Let_def shown_style_def)
    qed
  qed
qed

lemma painted_plain: "\<not> hasAnsi t \<Longrightarrow> painted t i st = map (\<lambda>c. (c, shown_style st)) (drop i t)"
proof (induction t i st rule: painted.induct)
  case (1 t i st)
  show ?case
  proof (cases "i < length t")
    case True
    then have "t ! i \<in> set t" by simp
    with "1.prems" have "t ! i \<noteq> ESC \<and> t ! i \<noteq> CSI" by (auto simp: hasAnsi_def)
    with True 1 show ?thesis by (simp add: painted.simps [of t i] flip: Cons_nth_drop_Suc)
  qed (simp add: painted.simps [of t i])
qed

lemma painted_style_ok:
  "style_ok st \<Longrightarrow> x \<in> set (painted t i st) \<Longrightarrow> snd x = Some s \<Longrightarrow> style_ok s"
proof (induction t i st rule: painted.induct)
  case (1 t i st)
  have sgr: "style_ok (applySgr st p)" for p using "1.prems"(1) by (simp add: applySgr_def applyList_ok)
  show ?case
    using 1 sgr by (cases "snd (scanEscape t i)")
      (auto simp: painted.simps [of t i] shown_style_def split: if_splits)
qed

lemma parseAnsi_paint: "paint (parseAnsi t) = painted t 0 plainStyle"
proof -
  have plain: "shown_style plainStyle = None" by (simp add: shown_style_def isPlain_def plainStyle_def)
  show ?thesis
    using parse_runs_paint [of 0 0 t None plainStyle "[]"] painted_plain [of t 0 plainStyle] plain
    by (auto simp: parseAnsi_def Let_def)
qed

section \<open>Properties\<close>

text \<open>stripping leaves exactly the text outside every escape sequence: nothing visible is lost, no
  introducer survives, and stripping again changes nothing.\<close>

theorem stripAnsi_spec:
  "stripAnsi t = visible t 0 \<and> \<not> hasAnsi (stripAnsi t) \<and> stripAnsi (stripAnsi t) = stripAnsi t"
  by (simp add: stripAnsi_eq_visible [symmetric])

text \<open>C6: the runs of a line give every visible character the style in force where it stands, are
  never plainly styled, and no two neighbours have the same style, so none can be merged.\<close>

theorem parseAnsi_spec:
  "paint (parseAnsi t) = painted t 0 plainStyle \<and>
   (runs_ok (parseAnsi t) \<or> parseAnsi t = [([], None)])"
proof (cases "hasAnsi t")
  case True
  have "runs_ok (parse_runs t 0 0 plainStyle None [])"
    by (rule parse_runs_ok) (simp_all add: runs_ok_def current_ok_def)
  then have "runs_ok (parseAnsi t) \<or> parseAnsi t = [([], None)]" using True by (simp add: parseAnsi_def Let_def)
  then show ?thesis by (simp add: parseAnsi_paint)
next
  case False
  then have "runs_ok (parseAnsi t) \<or> parseAnsi t = [([], None)]" by (auto simp: parseAnsi_def runs_ok_def)
  then show ?thesis by (simp add: parseAnsi_paint)
qed

text \<open>whatever parameters the escapes of a line carry, every colour a run ends up with is a palette
  entry from 0 to 255 or a seven-character hexadecimal colour.\<close>

theorem parseAnsi_colors:
  assumes "(txt, Some s) \<in> set (parseAnsi t)" and "txt \<noteq> []"
  shows "style_ok s"
proof -
  obtain c where "c \<in> set txt" using assms(2) by (cases "txt") auto
  then have "(c, Some s) \<in> set (paint (parseAnsi t))"
    using assms(1) by (auto simp: paint_def)
  moreover have "style_ok plainStyle" by (simp add: style_ok_def plainStyle_def)
  ultimately show ?thesis
    using painted_style_ok [of plainStyle "(c, Some s)" t 0 s] by (simp add: parseAnsi_paint)
qed

theorem parseAnsi_colors_witness:
  "\<exists>s. (lit ''x'', Some s) \<in> set (parseAnsi ([ESC] @ lit ''[31mx'')) \<and> style_ok s"
proof -
  let ?t = "[ESC] @ lit ''[31mx''"
  have mem: "(lit ''x'', Some (plainStyle\<lparr>st_fg := Some (Palette (Dec 1 0))\<rparr>)) \<in> set (parseAnsi ?t)"
    by code_simp
  show ?thesis using mem parseAnsi_colors [OF mem] by (auto simp: lit_def)
qed

text \<open>the palette code of a run need not be a whole number: a fractional parameter between 30 and
  37 passes the range test and becomes a fractional palette index.\<close>

theorem fractional_palette:
  "st_fg (applySgr plainStyle (lit ''30.5'')) = Some (Palette (Dec 5 (- 1)))"
  by code_simp

end
