(* ===== verification/Js_Date.thy ===== *)
theory Js_Date
  imports Js_Values
begin

text \<open>
  \<^verbatim>\<open>Date\<close> as far as the specification of the language fixes it: time values in
  milliseconds since 1970 UTC, the range they are clipped to, the proleptic Gregorian
  calendar and \<^verbatim>\<open>toISOString\<close>. What the language leaves to the engine (parsing of
  free-form dates, the local time zone, case mapping beyond ASCII, text decoding) is the
  record \<open>host\<close> the components take as an argument.
\<close>

record local_parts =
  lp_month :: nat
  lp_date :: nat
  lp_hours :: nat
  lp_minutes :: nat
  lp_seconds :: nat
  lp_millis :: nat

record host =
  toUpperCase :: "jsstring \<Rightarrow> jsstring"
  toLowerCase :: "jsstring \<Rightarrow> jsstring"
  date_parse :: "jsstring \<Rightarrow> int option"
  local_time :: "int \<Rightarrow> local_parts"
  utf8_decode :: "nat list \<Rightarrow> jsstring"

text \<open>A host for evaluation: ASCII case, UTC, dates not parsed, bytes as Latin-1.\<close>

definition ascii_upper :: "code_unit \<Rightarrow> code_unit" where
  "ascii_upper c = (if 97 \<le> c \<and> c \<le> 122 then c - 32 else c)"

definition ascii_lower :: "code_unit \<Rightarrow> code_unit" where
  "ascii_lower c = (if 65 \<le> c \<and> c \<le> 90 then c + 32 else c)"

definition ascii_host :: host where
  "ascii_host = \<lparr>toUpperCase = map ascii_upper, toLowerCase = map ascii_lower, date_parse = (\<lambda>_. None),
     local_time = (\<lambda>_. \<lparr>lp_month = 0, lp_date = 1, lp_hours = 0, lp_minutes = 0, lp_seconds = 0, lp_millis = 0\<rparr>),
     utf8_decode = id\<rparr>"

section \<open>The calendar\<close>

definition MS_PER_DAY :: int where "MS_PER_DAY = 86400000"

text \<open>Year, month (1 to 12) and day of a day number.\<close>

definition civil_from_days :: "int \<Rightarrow> int \<times> int \<times> int" where
  "civil_from_days days =
     (let z = days + 719468; era = z div 146097; doe = z mod 146097;
          yoe = (doe - doe div 1460 + doe div 36524 - doe div 146096) div 365;
          doy = doe - (365 * yoe + yoe div 4 - yoe div 100);
          mp = (5 * doy + 2) div 153;
          d = doy - (153 * mp + 2) div 5 + 1;
          m = (if mp < 10 then mp + 3 else mp - 9)
      in (yoe + era * 400 + (if m \<le> 2 then 1 else 0), m, d))"

definition days_from_civil :: "int \<Rightarrow> int \<Rightarrow> int \<Rightarrow> int" where
  "days_from_civil year m d =
     (let y = (if m \<le> 2 then year - 1 else year); era = y div 400; yoe = y mod 400;
          doy = (153 * (if m > 2 then m - 3 else m + 9) + 2) div 5 + d - 1;
          doe = yoe * 365 + yoe div 4 - yoe div 100 + doy
      in era * 146097 + doe - 719468)"

text \<open>\<^verbatim>\<open>Date.UTC\<close>; a year below 100 is one of the 1900s.\<close>

definition date_UTC :: "int \<Rightarrow> int \<Rightarrow> int \<Rightarrow> int \<Rightarrow> int \<Rightarrow> int \<Rightarrow> int" where
  "date_UTC year month0 day hour minute second =
     (let y = (if 0 \<le> year \<and> year \<le> 99 then 1900 + year else year) + month0 div 12
      in (days_from_civil y (month0 mod 12 + 1) 1 + (day - 1)) * MS_PER_DAY + hour * 3600000 + minute * 60000 + second * 1000)"

text \<open>\<^verbatim>\<open>date.setUTCFullYear(year)\<close>\<close>

definition setUTCFullYear :: "int \<Rightarrow> int \<Rightarrow> int" where
  "setUTCFullYear t year =
     (case civil_from_days (t div MS_PER_DAY) of
        (y, m, d) \<Rightarrow> (days_from_civil year m 1 + (d - 1)) * MS_PER_DAY + t mod MS_PER_DAY)"

definition pad_to :: "nat \<Rightarrow> jsstring \<Rightarrow> jsstring" where
  "pad_to w s = replicate (w - length s) 48 @ s"

definition iso_year :: "int \<Rightarrow> jsstring" where
  "iso_year y = (if 0 \<le> y \<and> y \<le> 9999 then pad_to 4 (show_nat (nat y))
     else (if y < 0 then [45] else [43]) @ pad_to 6 (show_nat (nat \<bar>y\<bar>)))"

definition iso_string :: "int \<Rightarrow> jsstring" where
  "iso_string t =
     (let days = t div MS_PER_DAY; ms = t mod MS_PER_DAY;
          p2 = (\<lambda>n::int. pad_to 2 (show_nat (nat n)))
      in case civil_from_days days of
           (y, m, d) \<Rightarrow>
             iso_year y @ [45] @ p2 m @ [45] @ p2 d @ [84] @ p2 (ms div 3600000) @ [58] @
             p2 (ms div 60000 mod 60) @ [58] @ p2 (ms div 1000 mod 60) @ [46] @
             pad_to 3 (show_nat (nat (ms mod 1000))) @ [90])"

text \<open>\<^verbatim>\<open>new Date(n)\<close>: truncation towards zero and the range of time values.\<close>

definition trunc_scaled :: "int \<Rightarrow> int \<Rightarrow> int" where
  "trunc_scaled m e = (if e \<ge> 0 then scale m e else sgn m * (\<bar>m\<bar> div 10 ^ nat (- e)))"

definition MAX_TIME :: int where "MAX_TIME = 8640000000000000"

fun time_clip :: "jsnum \<Rightarrow> int option" where
  "time_clip (Dec m e) = (let t = trunc_scaled m e in if \<bar>t\<bar> \<le> MAX_TIME then Some t else None)"
| "time_clip _ = None"

text \<open>\<^verbatim>\<open>n * 1000\<close>.\<close>

fun num_times_1000 :: "jsnum \<Rightarrow> jsnum" where
  "num_times_1000 (Dec m e) = mk_num m (e + 3)"
| "num_times_1000 n = n"

section \<open>The calendar is exact\<close>

lemma div_bounds: "0 < (k::int) \<Longrightarrow> k * (x div k) \<le> x \<and> x < k * (x div k) + (k :: int)"
  using pos_mod_bound [of k x] pos_mod_sign [of k x] mult_div_mod_eq [of k x] by linarith

lemma four_years:
  fixes e :: int
  assumes "0 \<le> e" "e < 36524" "0 \<le> s" "s \<le> 72"
    and a: "1460 * a \<le> s + e" "s + e < 1460 * a + 1460"
    and z: "365 * z \<le> e - a" "e - a < 365 * z + 365" and k: "4 * k \<le> z" "z < 4 * k + 4"
  shows "0 \<le> e - (365 * z + k) \<and> e - (365 * z + k) \<le> 365"
proof -
  have "a \<le> 25" "0 \<le> a" using assms by linarith+
  have "k \<le> a"
  proof (rule ccontr)
    assume "\<not> k \<le> a"
    then have "a + 1 \<le> k" by simp
    then show False using a z k assms(3) \<open>0 \<le> a\<close> by linarith
  qed
  moreover have "a \<le> k + 1"
  proof (rule ccontr)
    assume "\<not> a \<le> k + 1"
    then have "k + 2 \<le> a" by simp
    then show False using a z k assms(3,4) \<open>a \<le> 25\<close> by linarith
  qed
  ultimately show ?thesis using z by linarith
qed

lemma yoe_bounds:
  fixes doe :: int
  assumes doe: "0 \<le> doe" "doe < 146097"
    and a: "1460 * a \<le> doe" "doe < 1460 * a + 1460" and b: "36524 * b \<le> doe" "doe < 36524 * b + 36524"
    and c: "146096 * c \<le> doe" "doe < 146096 * c + 146096"
    and y: "365 * y \<le> doe - a + b - c" "doe - a + b - c < 365 * y + 365"
    and p: "4 * p \<le> y" "y < 4 * p + 4" and q: "100 * q \<le> y" "y < 100 * q + 100"
  shows "0 \<le> y \<and> y < 400 \<and> 0 \<le> doe - (365 * y + p - q) \<and> doe - (365 * y + p - q) \<le> 365"
proof (cases "doe = 146096")
  case True
  then have "a = 100" "b = 4" "c = 1" using a b c by linarith+
  then have "y = 399" using True y by linarith
  then have "p = 99" "q = 3" using p q by linarith+
  then show ?thesis using True \<open>y = 399\<close> by simp
next
  case False
  then have c0: "c = 0" and b': "0 \<le> b" "b \<le> 3" using doe b c by linarith+
  have lo: "36500 * b \<le> doe - a + b" using a b b' by linarith
  have hi: "doe - a + b < 36500 * b + 36500" using a b b' by linarith
  have y': "100 * b \<le> y" "y < 100 * b + 100" using lo hi y c0 by linarith+
  have qb: "q = b" using q y' by linarith
  have "0 \<le> (doe - 36524 * b) - (365 * (y - 100 * b) + (p - 25 * b)) \<and> (doe - 36524 * b) - (365 * (y - 100 * b) + (p - 25 * b)) \<le> 365"
    by (rule four_years [where s = "24 * b" and a = "a - 25 * b"]) (use a b b' y c0 p in \<open>simp_all add: algebra_simps\<close>)
  then show ?thesis using y' b' qb by (auto simp: algebra_simps)
qed
lemma era_years:
  fixes doe :: int
  assumes "0 \<le> doe" "doe < 146097"
  defines "y \<equiv> (doe - doe div 1460 + doe div 36524 - doe div 146096) div 365"
  defines "doy \<equiv> doe - (365 * y + y div 4 - y div 100)"
  shows "0 \<le> y" "y < 400" "0 \<le> doy" "doy \<le> 365"
proof -
  have lo: "k * (x div k) \<le> x" and hi: "x < k * (x div k) + k" if "0 < k" for k x :: int using div_bounds [OF that] by simp_all
  have "0 \<le> y \<and> y < 400 \<and> 0 \<le> doe - (365 * y + y div 4 - y div 100) \<and> doe - (365 * y + y div 4 - y div 100) \<le> 365"
    by (rule yoe_bounds [of doe "doe div 1460" "doe div 36524" "doe div 146096"])
      (simp_all only: assms lo hi zero_less_numeral)
  then show "0 \<le> y" "y < 400" "0 \<le> doy" "doy \<le> 365" unfolding doy_def by simp_all
qed

lemma days_from_civil_day: "days_from_civil y m 1 + (d - 1) = days_from_civil y m d"
  by (simp add: days_from_civil_def Let_def)

lemma div_mod_400: "0 \<le> (y::int) \<Longrightarrow> y < 400 \<Longrightarrow> (y + era * 400) div 400 = era \<and> (y + era * 400) mod 400 = y"
  by simp

text \<open>The day number of a date read off a day number is that day number, and the month is one.\<close>

lemma days_of_civil:
  assumes "civil_from_days n = (y, m, d)"
  shows "days_from_civil y m d = n" "1 \<le> m" "m \<le> 12" "(n + 719468) div 146097 * 400 \<le> y"
proof -
  define era where "era = (n + 719468) div 146097"
  define doe where "doe = (n + 719468) mod 146097"
  define yoe where "yoe = (doe - doe div 1460 + doe div 36524 - doe div 146096) div 365"
  define doy where "doy = doe - (365 * yoe + yoe div 4 - yoe div 100)"
  define mp where "mp = (5 * doy + 2) div 153"
  have doe: "0 \<le> doe" "doe < 146097" by (simp_all add: doe_def)
  have yoe: "0 \<le> yoe" "yoe < 400" and doy: "0 \<le> doy" "doy \<le> 365" using era_years [OF doe] by (simp_all only: yoe_def doy_def)
  have mp: "0 \<le> mp" "mp \<le> 11" using div_bounds [of 153 "5 * doy + 2"] doy unfolding mp_def by linarith+
  have "civil_from_days n = (yoe + era * 400 + (if (if mp < 10 then mp + 3 else mp - 9) \<le> 2 then 1 else 0),
      if mp < 10 then mp + 3 else mp - 9, doy - (153 * mp + 2) div 5 + 1)"
    unfolding civil_from_days_def Let_def era_def doe_def yoe_def doy_def mp_def by (rule refl)
  then have m: "m = (if mp < 10 then mp + 3 else mp - 9)" and d: "d = doy - (153 * mp + 2) div 5 + 1"
    and y: "y = yoe + era * 400 + (if m \<le> 2 then 1 else 0)"
    using assms by auto
  show "1 \<le> m" "m \<le> 12" using m mp by (simp_all split: if_splits)
  show "(n + 719468) div 146097 * 400 \<le> y" using y yoe by (simp add: era_def)
  have "(if m \<le> 2 then y - 1 else y) = yoe + era * 400" "(if m > 2 then m - 3 else m + 9) = mp" using y m mp by (simp_all split: if_splits)
  then have "days_from_civil y m d = era * 146097 + (yoe * 365 + yoe div 4 - yoe div 100 + ((153 * mp + 2) div 5 + d - 1)) - 719468"
    using div_mod_400 [OF yoe, of era] unfolding days_from_civil_def Let_def by (simp only:)
  also have "\<dots> = era * 146097 + doe - 719468" using d by (simp add: doy_def)
  also have "\<dots> = n" by (simp add: era_def doe_def)
  finally show "days_from_civil y m d = n" .
qed

end
