(* ===== verification/Log_Parse.thy ===== *)
theory Log_Parse
  imports Ansi Js_Date
begin

text \<open>
  One raw log line to the viewer's columns, \<^verbatim>\<open>plugins/logging/src/logs/parse.ts\<close>.
  A line is read as plain text, generic JSON, ECS or journald; an annotation's columns are
  applied over the default lookup; escape sequences leave every column.
\<close>

section \<open>Formats, columns, entries\<close>

datatype log_format = Plain | Json | Ecs | Journald

definition LOG_FORMATS :: "(string \<times> log_format) list" where
  "LOG_FORMATS = [(''plain'', Plain), (''json'', Json), (''ecs'', Ecs), (''journald'', Journald)]"

text \<open>\<^verbatim>\<open>isLogFormat\<close> narrows a string to a format; the model returns the format.\<close>

definition isLogFormat :: "jsstring \<Rightarrow> log_format option" where
  "isLogFormat value = map_of (map (\<lambda>(n, f). (lit n, f)) LOG_FORMATS) value"

datatype column_type = DateRfc3339 | DateRfc3339Nano | DateEpochMs | Epoch | LevelColumn
  | Abbreviate | NumberColumn | StringColumn

definition COLUMN_TYPES :: "(string \<times> column_type) list" where
  "COLUMN_TYPES = [(''date/rfc3339'', DateRfc3339), (''date/rfc3339nano'', DateRfc3339Nano),
     (''date/epoch-ms'', DateEpochMs), (''epoch'', Epoch), (''log-level'', LevelColumn),
     (''abbreviate'', Abbreviate), (''number'', NumberColumn), (''string'', StringColumn)]"

definition isColumnType :: "jsstring \<Rightarrow> column_type option" where
  "isColumnType value = map_of (map (\<lambda>(n, f). (lit n, f)) COLUMN_TYPES) value"

record column_spec =
  cs_key :: jsstring
  cs_type :: column_type

definition extraColumns :: "column_spec list \<Rightarrow> column_spec list" where
  "extraColumns columns = filter (\<lambda>c. cs_type c = StringColumn \<or> cs_type c = NumberColumn) columns"

datatype log_level = Trace | Debug | Info | Warn | Error | Fatal

text \<open>
  The record of a decoded line is its object's properties. An extra is \<open>None\<close> where the
  code pushes \<^verbatim>\<open>undefined\<close> (see \<open>asText\<close>).
\<close>

type_synonym js_record = "(jsstring \<times> jsval) list"

record log_entry =
  le_raw :: jsstring
  le_timestamp :: "jsstring option"
  le_level :: "jsstring option"
  le_levelClass :: "log_level option"
  le_logger :: "jsstring option"
  le_loggerShort :: "jsstring option"
  le_priority :: "jsstring option"
  le_unit :: "jsstring option"
  le_message :: jsstring
  le_messageSpans :: "ansi_span list option"
  le_stackTrace :: "jsstring option"
  le_errorType :: "jsstring option"
  le_errorMessage :: "jsstring option"
  le_record :: "js_record option"
  le_extras :: "jsstring option list"
  le_structured :: bool

section \<open>Reading fields\<close>

fun walk :: "jsval \<Rightarrow> jsstring list \<Rightarrow> jsval" where
  "walk cursor [] = cursor"
| "walk cursor (segment # segments) =
     (if \<not> is_object cursor then JUndef else walk (get_prop cursor segment) segments)"

definition pick :: "js_record \<Rightarrow> jsstring \<Rightarrow> jsval" where
  "pick record path =
     (case obj_lookup record path of Some v \<Rightarrow> v | None \<Rightarrow> walk (JObj record) (split_on 46 path))"

definition field_text :: "jsval \<Rightarrow> jsstring option" where
  "field_text v =
     (case v of
        JStr s \<Rightarrow> if s \<noteq> [] then Some s else None
      | JNum n \<Rightarrow> if is_finite n then Some (num_to_string n) else None
      | _ \<Rightarrow> None)"

fun firstString :: "js_record \<Rightarrow> jsstring list \<Rightarrow> jsstring option" where
  "firstString record [] = None"
| "firstString record (path # paths) =
     (case field_text (pick record path) of Some s \<Rightarrow> Some s | None \<Rightarrow> firstString record paths)"

definition asStackTrace :: "jsval \<Rightarrow> jsstring option" where
  "asStackTrace value =
     (case value of
        JStr s \<Rightarrow> if s = [] then None else Some s
      | JArr xs \<Rightarrow>
          (let lines = List.map_filter (\<lambda>v. case v of JStr s \<Rightarrow> Some s | _ \<Rightarrow> None) xs
           in if lines \<noteq> [] then Some (join [NL] lines) else None)
      | _ \<Rightarrow> None)"

definition JSON_TIME_KEYS :: "jsstring list" where
  "JSON_TIME_KEYS = map lit [''@timestamp'', ''timestamp'', ''time'', ''ts'', ''Time'', ''datetime'',
     ''date'', ''eventTime'']"

definition JSON_LEVEL_KEYS :: "jsstring list" where
  "JSON_LEVEL_KEYS = map lit [''log.level'', ''level'', ''levelname'', ''severity'', ''SeverityText'',
     ''loglevel'', ''lvl'', ''levelName'']"

definition JSON_LOGGER_KEYS :: "jsstring list" where
  "JSON_LOGGER_KEYS = map lit [''log.logger'', ''logger'', ''logger_name'', ''loggerName'', ''channel'',
     ''category'', ''module'', ''component'', ''name'']"

definition JSON_MESSAGE_KEYS :: "jsstring list" where
  "JSON_MESSAGE_KEYS = map lit [''message'', ''msg'', ''Message'', ''log'', ''text'', ''body'',
     ''short_message'']"

definition JSON_STACK_KEYS :: "jsstring list" where
  "JSON_STACK_KEYS = map lit [''error.stack_trace'', ''stack_trace'', ''stacktrace'', ''stackTrace'',
     ''exception'', ''error.stack'', ''stack'']"

definition LEVEL_WORDS :: "(string \<times> log_level) list" where
  "LEVEL_WORDS = [(''TRACE'', Trace), (''FINEST'', Trace), (''FINER'', Trace), (''VERBOSE'', Trace),
     (''DEBUG'', Debug), (''FINE'', Debug), (''DBG'', Debug),
     (''INFO'', Info), (''INFORMATION'', Info), (''NOTICE'', Info), (''CONFIG'', Info),
     (''WARN'', Warn), (''WARNING'', Warn),
     (''ERROR'', Error), (''ERR'', Error), (''SEVERE'', Error),
     (''CRIT'', Fatal), (''CRITICAL'', Fatal), (''FATAL'', Fatal), (''ALERT'', Fatal),
     (''EMERG'', Fatal), (''PANIC'', Fatal), (''DPANIC'', Fatal)]"

definition level_word :: "jsstring \<Rightarrow> log_level option" where
  "level_word w = map_of (map (\<lambda>(n, l). (lit n, l)) LEVEL_WORDS) w"

definition numeric_level :: "jsnum \<Rightarrow> log_level" where
  "numeric_level n =
     (if num_le n 7 then
        (if num_le n 2 then Fatal
         else if num_integer n = Some 3 then Error
         else if num_integer n = Some 4 then Warn
         else if num_le n 6 then Info
         else Debug)
      else if num_le n 10 then Trace
      else if num_le n 20 then Debug
      else if num_le n 30 then Info
      else if num_le n 40 then Warn
      else if num_le n 50 then Error
      else Fatal)"

definition normalizeLevel :: "host \<Rightarrow> jsstring option \<Rightarrow> log_level option" where
  "normalizeLevel h value =
     (case value of
        None \<Rightarrow> None
      | Some v \<Rightarrow>
          (case level_word (toUpperCase h (trim v)) of
             Some w \<Rightarrow> Some w
           | None \<Rightarrow>
               (let numeric = to_number v
                in if \<not> is_finite numeric then None else Some (numeric_level numeric))))"

definition plainEntry :: "jsstring \<Rightarrow> log_entry" where
  "plainEntry raw = \<lparr>le_raw = raw, le_timestamp = None, le_level = None, le_levelClass = None,
     le_logger = None, le_loggerShort = None, le_priority = None, le_unit = None, le_message = raw,
     le_messageSpans = None, le_stackTrace = None, le_errorType = None, le_errorMessage = None,
     le_record = None, le_extras = [], le_structured = False\<rparr>"

definition decodeRecord :: "jsstring \<Rightarrow> js_record option" where
  "decodeRecord raw =
     (let trimmed = trim raw
      in if nth_opt trimmed 0 \<noteq> Some 123 then None
         else (case json_parse trimmed of Some (JObj fs) \<Rightarrow> Some fs | _ \<Rightarrow> None))"

section \<open>journald\<close>

definition journaldTimestamp :: "jsval \<Rightarrow> jsstring option" where
  "journaldTimestamp value =
     (case value of
        JStr s \<Rightarrow>
          if \<not> all_digits s then None
          else (case to_number s of
                  Dec m e \<Rightarrow> map_option iso_string (time_clip (canon (trunc_scaled m e div 1000) 0))
                | _ \<Rightarrow> None)
      | _ \<Rightarrow> None)"

definition journald_byte :: "jsval \<Rightarrow> nat option" where
  "journald_byte v =
     (case v of
        JNum (Dec m e) \<Rightarrow> if num_ge (Dec m e) 0 \<and> num_le (Dec m e) 255 then Some (nat (trunc_scaled m e)) else None
      | _ \<Rightarrow> None)"

definition journaldMessage :: "host \<Rightarrow> jsval \<Rightarrow> jsstring option" where
  "journaldMessage h value =
     (case value of
        JStr s \<Rightarrow> Some s
      | JArr xs \<Rightarrow>
          (let bytes = List.map_filter journald_byte xs
           in if length bytes \<noteq> length xs then None else Some (utf8_decode h bytes))
      | _ \<Rightarrow> None)"

definition SYSLOG_NAMES :: "jsstring list" where
  "SYSLOG_NAMES = map lit [''EMERG'', ''ALERT'', ''CRIT'', ''ERR'', ''WARNING'', ''NOTICE'', ''INFO'', ''DEBUG'']"

definition syslogLevelName :: "jsstring option \<Rightarrow> jsstring option" where
  "syslogLevelName priority =
     (case priority of
        None \<Rightarrow> None
      | Some p \<Rightarrow>
          (case num_integer (to_number p) of
             Some value \<Rightarrow>
               if 0 \<le> value \<and> value < int (length SYSLOG_NAMES) then Some (SYSLOG_NAMES ! nat value) else Some p
           | None \<Rightarrow> Some p))"

definition journaldEntry :: "host \<Rightarrow> jsstring \<Rightarrow> js_record \<Rightarrow> log_entry" where
  "journaldEntry h raw record =
     (let unit = (case firstString record [lit ''_SYSTEMD_UNIT''] of
                    Some u \<Rightarrow> Some u
                  | None \<Rightarrow> firstString record (map lit [''SYSLOG_IDENTIFIER'', ''_COMM'']));
          priority = firstString record [lit ''PRIORITY'']
      in \<lparr>le_raw = raw,
          le_timestamp = journaldTimestamp (get_prop (JObj record) (lit ''__REALTIME_TIMESTAMP'')),
          le_level = syslogLevelName priority,
          le_levelClass = normalizeLevel h priority,
          le_logger = None, le_loggerShort = None, le_priority = priority, le_unit = unit,
          le_message = (case journaldMessage h (get_prop (JObj record) (lit ''MESSAGE'')) of
                          Some m \<Rightarrow> m | None \<Rightarrow> raw),
          le_messageSpans = None, le_stackTrace = None, le_errorType = None, le_errorMessage = None,
          le_record = Some record, le_extras = [], le_structured = True\<rparr>)"

section \<open>The default lookup\<close>

fun firstStack :: "js_record \<Rightarrow> jsstring list \<Rightarrow> jsstring option" where
  "firstStack record [] = None"
| "firstStack record (key # keys) =
     (case asStackTrace (pick record key) of Some s \<Rightarrow> Some s | None \<Rightarrow> firstStack record keys)"

definition structuredEntry :: "host \<Rightarrow> bool \<Rightarrow> jsstring \<Rightarrow> js_record \<Rightarrow> log_entry" where
  "structuredEntry h ecs raw record =
     (let timestamp = firstString record (if ecs then [lit ''@timestamp''] else JSON_TIME_KEYS);
          level = firstString record (if ecs then [lit ''log.level''] else JSON_LEVEL_KEYS);
          logger = firstString record (if ecs then [lit ''log.logger''] else JSON_LOGGER_KEYS);
          message = firstString record (if ecs then [lit ''message''] else JSON_MESSAGE_KEYS);
          stackTrace = (if ecs then asStackTrace (pick record (lit ''error.stack_trace''))
                        else firstStack record JSON_STACK_KEYS)
      in \<lparr>le_raw = raw, le_timestamp = timestamp, le_level = level,
          le_levelClass = normalizeLevel h level, le_logger = logger, le_loggerShort = None,
          le_priority = None, le_unit = None,
          le_message = (case message of Some m \<Rightarrow> m | None \<Rightarrow> raw),
          le_messageSpans = None, le_stackTrace = stackTrace,
          le_errorType = firstString record [lit ''error.type''],
          le_errorMessage = firstString record [lit ''error.message''],
          le_record = Some record, le_extras = [], le_structured = True\<rparr>)"

definition parseDefault :: "host \<Rightarrow> jsstring \<Rightarrow> log_format \<Rightarrow> log_entry" where
  "parseDefault h raw format =
     (if format = Plain then plainEntry raw
      else
        (case decodeRecord raw of
           None \<Rightarrow> plainEntry raw
         | Some record \<Rightarrow>
             if format = Journald then journaldEntry h raw record
             else structuredEntry h (format = Ecs) raw record))"

section \<open>Annotated columns\<close>

text \<open>\<^verbatim>\<open>RFC3339\<close>: a date and time of fixed width, an optional fraction, a zone.\<close>

definition RFC3339_HEAD :: "(code_unit \<Rightarrow> bool) list" where
  "RFC3339_HEAD =
     (let d = is_digit; p = (\<lambda>c x. x = c)
      in [d, d, d, d, p 45, d, d, p 45, d, d, (\<lambda>x. x = 84 \<or> x = 116 \<or> x = 32),
          d, d, p 58, d, d, p 58, d, d])"

definition rfc3339_zone :: "jsstring \<Rightarrow> bool" where
  "rfc3339_zone s \<longleftrightarrow> s = [90] \<or> s = [122] \<or>
     (length s = 6 \<and> s ! 0 \<in> {43, 45} \<and> is_digit (s ! 1) \<and> is_digit (s ! 2) \<and> s ! 3 = 58 \<and>
      is_digit (s ! 4) \<and> is_digit (s ! 5))"

definition rfc3339 :: "jsstring \<Rightarrow> bool" where
  "rfc3339 s \<longleftrightarrow> list_all2 (\<lambda>p c. p c) RFC3339_HEAD (take 19 s) \<and>
     (let r = drop 19 s
      in if nth_opt r 0 = Some 46
         then takeWhile is_digit (tl r) \<noteq> [] \<and> rfc3339_zone (dropWhile is_digit (tl r))
         else rfc3339_zone r)"

definition asNumber :: "jsval \<Rightarrow> jsnum option" where
  "asNumber value =
     (case value of
        JNum n \<Rightarrow> if is_finite n then Some n else None
      | JStr s \<Rightarrow>
          if trim s \<noteq> [] \<and> is_finite (to_number s) then Some (to_number s) else None
      | _ \<Rightarrow> None)"

definition asTimestamp :: "host \<Rightarrow> jsval \<Rightarrow> column_type \<Rightarrow> jsstring option" where
  "asTimestamp h value type =
     (if type = Epoch \<or> type = DateEpochMs then
        (case asNumber value of
           None \<Rightarrow> None
         | Some numeric \<Rightarrow>
             map_option iso_string (time_clip (if type = Epoch then num_times_1000 numeric else numeric)))
      else
        (case value of
           JStr s \<Rightarrow> if rfc3339 s \<and> date_parse h s \<noteq> None then Some s else None
         | _ \<Rightarrow> None))"

text \<open>The first code point of a string, as \<^verbatim>\<open>Array.from(s)[0] ?? ''\<close>.\<close>

fun first_code_point :: "jsstring \<Rightarrow> jsstring" where
  "first_code_point [] = []"
| "first_code_point [c] = [c]"
| "first_code_point (c # d # s) =
     (if 0xD800 \<le> c \<and> c \<le> 0xDBFF \<and> 0xDC00 \<le> d \<and> d \<le> 0xDFFF then [c, d] else [c])"

definition abbreviateLogger :: "jsstring \<Rightarrow> jsstring" where
  "abbreviateLogger name =
     (let segments = split_on 46 name
      in join [46] (map first_code_point (butlast segments) @ [last segments]))"

definition asText :: "jsval \<Rightarrow> jsstring option" where
  "asText value =
     (case value of
        JStr s \<Rightarrow> Some s
      | JNum n \<Rightarrow> Some (num_to_string n)
      | JBool b \<Rightarrow> Some (if b then lit ''true'' else lit ''false'')
      | JUndef \<Rightarrow> Some []
      | JNull \<Rightarrow> Some []
      | _ \<Rightarrow> json_stringify value)"

record columns_state =
  co_timestamp :: "jsstring option"
  co_level :: "jsstring option"
  co_levelClass :: "log_level option"
  co_timeSet :: bool
  co_levelSet :: bool
  co_loggerShort :: "jsstring option"
  co_loggerSet :: bool
  co_extras :: "jsstring option list"

definition value_string :: "jsval \<Rightarrow> jsstring option" where
  "value_string v = firstString [(lit ''value'', v)] [lit ''value'']"

definition applyColumn :: "host \<Rightarrow> js_record \<Rightarrow> column_spec \<Rightarrow> columns_state \<Rightarrow> columns_state" where
  "applyColumn h record column st =
     (let value = pick record (cs_key column); type = cs_type column
      in case type of
           LevelColumn \<Rightarrow>
             (let t = (if co_levelSet st \<or> is_object value \<or> value = JNull then None else value_string value)
              in case t of
                   None \<Rightarrow> st
                 | Some t \<Rightarrow> st\<lparr>co_level := Some t, co_levelClass := normalizeLevel h (Some t),
                                co_levelSet := True\<rparr>)
         | Abbreviate \<Rightarrow>
             (let t = (if co_loggerSet st then None else value_string value)
              in case t of
                   None \<Rightarrow> st
                 | Some t \<Rightarrow> st\<lparr>co_loggerShort := Some (abbreviateLogger t), co_loggerSet := True\<rparr>)
         | NumberColumn \<Rightarrow>
             st\<lparr>co_extras := co_extras st @
               [Some (case asNumber value of None \<Rightarrow> [] | Some n \<Rightarrow> num_to_string n)]\<rparr>
         | StringColumn \<Rightarrow> st\<lparr>co_extras := co_extras st @ [asText value]\<rparr>
         | _ \<Rightarrow>
             (let parsed = (if co_timeSet st then None else asTimestamp h value type)
              in case parsed of
                   None \<Rightarrow> st
                 | Some p \<Rightarrow> st\<lparr>co_timestamp := Some p, co_timeSet := True\<rparr>))"

definition columns_start :: "log_entry \<Rightarrow> columns_state" where
  "columns_start entry = \<lparr>co_timestamp = le_timestamp entry, co_level = le_level entry,
     co_levelClass = le_levelClass entry, co_timeSet = False, co_levelSet = False,
     co_loggerShort = le_loggerShort entry, co_loggerSet = False, co_extras = []\<rparr>"

definition applyColumns :: "host \<Rightarrow> log_entry \<Rightarrow> js_record \<Rightarrow> column_spec list \<Rightarrow> log_entry" where
  "applyColumns h entry record columns =
     (let st = fold (applyColumn h record) columns (columns_start entry)
      in entry\<lparr>le_timestamp := co_timestamp st, le_level := co_level st,
               le_levelClass := co_levelClass st, le_loggerShort := co_loggerShort st,
               le_extras := co_extras st\<rparr>)"

section \<open>Escapes out of the columns\<close>

text \<open>\<^verbatim>\<open>text.search(/[\r\n]/)\<close>.\<close>

primrec search_break :: "jsstring \<Rightarrow> nat option" where
  "search_break [] = None"
| "search_break (c # s) = (if c = CR \<or> c = NL then Some 0 else map_option Suc (search_break s))"

definition firstLineSpans :: "jsstring \<Rightarrow> ansi_span list" where
  "firstLineSpans t =
     (case search_break t of
        None \<Rightarrow> parseAnsi t
      | Some end \<Rightarrow> parseAnsi (take end t) @ [(lit ''...'', None)])"

definition firstLine :: "jsstring \<Rightarrow> jsstring" where
  "firstLine t = (case search_break t of None \<Rightarrow> t | Some end \<Rightarrow> take end t @ lit ''...'')"

text \<open>
  \<^verbatim>\<open>hasAnsi(undefined)\<close> throws: an undefined extra makes the whole call fail, whether
  it is the search over the fields that reaches it first or the mapping after it.
\<close>

datatype js_error = TypeError

definition withoutAnsi :: "host \<Rightarrow> log_entry \<Rightarrow> js_error + log_entry" where
  "withoutAnsi h entry =
     (if None \<in> set (le_extras entry) then Inl TypeError
      else
        (let fields = [Some (le_message entry), le_level entry, le_logger entry, le_loggerShort entry,
                       le_unit entry] @ le_extras entry
         in if \<not> list_ex (\<lambda>field. case field of None \<Rightarrow> False | Some f \<Rightarrow> hasAnsi f) fields then Inr entry
            else
              (let level = map_option stripAnsi (le_level entry)
               in Inr (entry\<lparr>
                    le_message := stripAnsi (le_message entry),
                    le_messageSpans := (if hasAnsi (le_message entry)
                                        then Some (firstLineSpans (le_message entry)) else None),
                    le_level := level,
                    le_levelClass := (if le_priority entry = None then normalizeLevel h level
                                      else le_levelClass entry),
                    le_logger := map_option stripAnsi (le_logger entry),
                    le_loggerShort := map_option stripAnsi (le_loggerShort entry),
                    le_unit := map_option stripAnsi (le_unit entry),
                    le_extras := map (map_option stripAnsi) (le_extras entry)\<rparr>))))"

definition parseLine :: "host \<Rightarrow> jsstring \<Rightarrow> log_format \<Rightarrow> column_spec list \<Rightarrow> js_error + log_entry" where
  "parseLine h raw format columns =
     (let entry = parseDefault h raw format
      in withoutAnsi h
           (case le_record entry of
              None \<Rightarrow> entry
            | Some record \<Rightarrow> if columns = [] then entry else applyColumns h entry record columns))"

section \<open>Timestamps for display\<close>

definition pad :: "nat \<Rightarrow> nat \<Rightarrow> jsstring" where "pad value width = pad_to width (show_nat value)"

record timestamp_format =
  tf_time :: "int \<Rightarrow> jsstring"
  tf_dateTime :: "int \<Rightarrow> jsstring"

definition formatTimestamp :: "host \<Rightarrow> jsstring option \<Rightarrow> timestamp_format option \<Rightarrow> jsstring" where
  "formatTimestamp h value format =
     (case value of
        None \<Rightarrow> []
      | Some v \<Rightarrow>
          (case (if is_finite (to_number v) \<and> all_digits (trim v) then time_clip (to_number v)
                 else date_parse h v) of
             None \<Rightarrow> if length v > 12 then take 12 v @ [0x2026] else v
           | Some date \<Rightarrow>
               (case format of
                  Some f \<Rightarrow> tf_time f date
                | None \<Rightarrow>
                    (let p = local_time h date
                     in pad (lp_hours p) 2 @ [58] @ pad (lp_minutes p) 2 @ [58] @ pad (lp_seconds p) 2 @
                        [46] @ pad (lp_millis p) 3))))"

definition formatTimestampWithDate :: "host \<Rightarrow> jsstring option \<Rightarrow> timestamp_format option \<Rightarrow> jsstring" where
  "formatTimestampWithDate h value format =
     (case value of
        None \<Rightarrow> []
      | Some v \<Rightarrow>
          (case date_parse h v of
             None \<Rightarrow> formatTimestamp h value format
           | Some date \<Rightarrow>
               (case format of
                  Some f \<Rightarrow> tf_dateTime f date
                | None \<Rightarrow>
                    (let p = local_time h date
                     in pad (lp_month p + 1) 2 @ [45] @ pad (lp_date p) 2 @ [32] @ formatTimestamp h value None))))"

section \<open>Sniffing\<close>

definition record_is_ecs :: "js_record \<Rightarrow> bool" where
  "record_is_ecs record \<longleftrightarrow>
     pick record (lit ''@timestamp'') \<noteq> JUndef \<and>
     (pick record (lit ''log.level'') \<noteq> JUndef \<or> pick record (lit ''log.logger'') \<noteq> JUndef \<or>
      pick record (lit ''ecs.version'') \<noteq> JUndef)"

fun sniff_loop :: "bool \<Rightarrow> jsstring list \<Rightarrow> log_format" where
  "sniff_loop sawJson [] = (if sawJson then Json else Plain)"
| "sniff_loop sawJson (line # lines) =
     (case decodeRecord line of
        None \<Rightarrow> sniff_loop sawJson lines
      | Some record \<Rightarrow> if record_is_ecs record then Ecs else sniff_loop True lines)"

definition sniffFormat :: "jsstring list \<Rightarrow> log_format" where
  "sniffFormat lines = sniff_loop False lines"

section \<open>Lemmas\<close>

lemma asText_None_iff: "asText v = None \<longleftrightarrow> v = JFun"
  by (cases v) (auto simp: asText_def)

text \<open>What one extra column shows, and the fold as a whole: extras in order, first reading wins.\<close>

definition column_text :: "js_record \<Rightarrow> column_spec \<Rightarrow> jsstring option" where
  "column_text record c =
     (if cs_type c = NumberColumn
      then Some (case asNumber (pick record (cs_key c)) of None \<Rightarrow> [] | Some n \<Rightarrow> num_to_string n)
      else asText (pick record (cs_key c)))"

primrec first_some :: "('a \<Rightarrow> 'b option) \<Rightarrow> 'a list \<Rightarrow> 'b option" where
  "first_some f [] = None"
| "first_some f (x # xs) = (case f x of Some y \<Rightarrow> Some y | None \<Rightarrow> first_some f xs)"

definition or_else :: "'a option \<Rightarrow> 'a option \<Rightarrow> 'a option" where
  "or_else x y = (case x of Some v \<Rightarrow> Some v | None \<Rightarrow> y)"

lemma or_else_simps [simp]: "or_else (Some v) y = Some v" "or_else None y = y"
  by (simp_all add: or_else_def)

definition time_reading :: "host \<Rightarrow> js_record \<Rightarrow> column_spec \<Rightarrow> jsstring option" where
  "time_reading h record c =
     (if cs_type c \<in> {DateRfc3339, DateRfc3339Nano, DateEpochMs, Epoch}
      then asTimestamp h (pick record (cs_key c)) (cs_type c) else None)"

definition level_reading :: "js_record \<Rightarrow> column_spec \<Rightarrow> jsstring option" where
  "level_reading record c = (if cs_type c = LevelColumn then field_text (pick record (cs_key c)) else None)"

definition logger_reading :: "js_record \<Rightarrow> column_spec \<Rightarrow> jsstring option" where
  "logger_reading record c =
     (if cs_type c = Abbreviate then map_option abbreviateLogger (field_text (pick record (cs_key c))) else None)"

lemma value_string_field_text: "value_string v = field_text v"
  by (simp add: value_string_def pick_def obj_lookup_def own_def split: option.splits)

lemma field_text_object: "is_object v \<or> v = JNull \<Longrightarrow> field_text v = None"
  by (cases v) (auto simp: is_object_def field_text_def)

lemma applyColumn_extras:
  "co_extras (applyColumn h r c st) = co_extras st @ (if cs_type c = StringColumn \<or> cs_type c = NumberColumn
     then [column_text r c] else [])"
  by (cases "cs_type c") (auto simp: applyColumn_def column_text_def Let_def split: option.splits)

lemma applyColumn_time:
  "co_timestamp (applyColumn h r c st) = (if co_timeSet st then co_timestamp st
     else or_else (time_reading h r c) (co_timestamp st))"
  "co_timeSet (applyColumn h r c st) = (co_timeSet st \<or> time_reading h r c \<noteq> None)"
  by (cases "cs_type c"; auto simp: applyColumn_def time_reading_def Let_def or_else_def split: option.splits)+

lemma applyColumn_level:
  "co_level (applyColumn h r c st) = (if co_levelSet st then co_level st
     else or_else (level_reading r c) (co_level st))"
  "co_levelClass (applyColumn h r c st) = (if co_levelSet st then co_levelClass st
     else case level_reading r c of Some t \<Rightarrow> normalizeLevel h (Some t) | None \<Rightarrow> co_levelClass st)"
  "co_levelSet (applyColumn h r c st) = (co_levelSet st \<or> level_reading r c \<noteq> None)"
  using field_text_object [of "pick r (cs_key c)"]
  by (cases "cs_type c"; auto simp: applyColumn_def level_reading_def value_string_field_text Let_def
      or_else_def split: option.splits)+

lemma applyColumn_logger:
  "co_loggerShort (applyColumn h r c st) = (if co_loggerSet st then co_loggerShort st
     else or_else (logger_reading r c) (co_loggerShort st))"
  "co_loggerSet (applyColumn h r c st) = (co_loggerSet st \<or> logger_reading r c \<noteq> None)"
  by (cases "cs_type c"; auto simp: applyColumn_def logger_reading_def value_string_field_text Let_def
      or_else_def split: option.splits)+

lemma fold_extras:
  "co_extras (fold (applyColumn h r) cs st) = co_extras st @ map (column_text r) (extraColumns cs)"
  by (induction cs arbitrary: st) (simp_all add: applyColumn_extras extraColumns_def)

lemma fold_time:
  "co_timestamp (fold (applyColumn h r) cs st) = (if co_timeSet st then co_timestamp st
     else or_else (first_some (time_reading h r) cs) (co_timestamp st))"
  by (induction cs arbitrary: st) (auto simp: applyColumn_time split: option.splits)

lemma fold_level:
  "co_level (fold (applyColumn h r) cs st) = (if co_levelSet st then co_level st
     else or_else (first_some (level_reading r) cs) (co_level st))"
  "co_levelClass (fold (applyColumn h r) cs st) = (if co_levelSet st then co_levelClass st
     else case first_some (level_reading r) cs of Some t \<Rightarrow> normalizeLevel h (Some t) | None \<Rightarrow> co_levelClass st)"
  by (induction cs arbitrary: st) (auto simp: applyColumn_level split: option.splits)

lemma fold_logger:
  "co_loggerShort (fold (applyColumn h r) cs st) = (if co_loggerSet st then co_loggerShort st
     else or_else (first_some (logger_reading r) cs) (co_loggerShort st))"
  by (induction cs arbitrary: st) (auto simp: applyColumn_logger split: option.splits)

text \<open>The entry before escapes are removed, as one case distinction.\<close>

definition decoded :: "jsstring \<Rightarrow> log_format \<Rightarrow> js_record option" where
  "decoded raw format = (if format = Plain then None else decodeRecord raw)"

definition column_entry :: "host \<Rightarrow> jsstring \<Rightarrow> log_format \<Rightarrow> column_spec list \<Rightarrow> log_entry" where
  "column_entry h raw format columns =
     (case decoded raw format of
        None \<Rightarrow> plainEntry raw
      | Some record \<Rightarrow> applyColumns h (parseDefault h raw format) record columns)"

lemma parseDefault_simps [simp]:
  "le_raw (parseDefault h raw f) = raw" "le_record (parseDefault h raw f) = decoded raw f"
  "le_structured (parseDefault h raw f) = (decoded raw f \<noteq> None)" "le_extras (parseDefault h raw f) = []"
  "decoded raw f = None \<Longrightarrow> parseDefault h raw f = plainEntry raw"
  by (auto simp: parseDefault_def decoded_def plainEntry_def journaldEntry_def structuredEntry_def Let_def
      split: option.splits if_splits)

lemma applyColumns_Nil: "le_extras e = [] \<Longrightarrow> applyColumns h e r [] = e"
  by (simp add: applyColumns_def columns_start_def)

lemma parseLine_column_entry: "parseLine h raw f cs = withoutAnsi h (column_entry h raw f cs)"
  by (auto simp: parseLine_def column_entry_def Let_def applyColumns_Nil split: option.splits)

lemma column_entry_simps [simp]:
  "le_raw (column_entry h raw f cs) = raw" "le_record (column_entry h raw f cs) = decoded raw f"
  "le_structured (column_entry h raw f cs) = (decoded raw f \<noteq> None)"
  "le_extras (column_entry h raw f cs) =
     (case decoded raw f of None \<Rightarrow> [] | Some r \<Rightarrow> map (column_text r) (extraColumns cs))"
  by (auto simp: column_entry_def applyColumns_def plainEntry_def Let_def fold_extras columns_start_def
      split: option.splits)

definition cleanedEntry :: "host \<Rightarrow> log_entry \<Rightarrow> log_entry" where
  "cleanedEntry h e = (let level = map_option stripAnsi (le_level e)
     in e\<lparr>le_message := stripAnsi (le_message e),
          le_messageSpans := (if hasAnsi (le_message e) then Some (firstLineSpans (le_message e)) else None),
          le_level := level,
          le_levelClass := (if le_priority e = None then normalizeLevel h level else le_levelClass e),
          le_logger := map_option stripAnsi (le_logger e),
          le_loggerShort := map_option stripAnsi (le_loggerShort e),
          le_unit := map_option stripAnsi (le_unit e),
          le_extras := map (map_option stripAnsi) (le_extras e)\<rparr>)"

definition dirty :: "jsstring option \<Rightarrow> bool" where
  "dirty f = (case f of None \<Rightarrow> False | Some t \<Rightarrow> hasAnsi t)"

lemma dirty_clean: "\<not> dirty f \<Longrightarrow> map_option stripAnsi f = f"
  by (cases f) (auto simp: dirty_def)

lemma dirty_strip [simp]: "\<not> dirty (map_option stripAnsi f)" "\<not> dirty (Some (stripAnsi t))"
  by (cases f) (auto simp: dirty_def)

lemma withoutAnsi_alt:
  "withoutAnsi h e =
     (if None \<in> set (le_extras e) then Inl TypeError
      else if \<not> list_ex dirty ([Some (le_message e), le_level e, le_logger e, le_loggerShort e, le_unit e]
        @ le_extras e) then Inr e
      else Inr (cleanedEntry h e))"
  unfolding withoutAnsi_def cleanedEntry_def dirty_def [abs_def] Let_def ..

lemma withoutAnsi_InrD:
  assumes "withoutAnsi h e = Inr e'"
  shows "None \<notin> set (le_extras e)" "le_raw e' = le_raw e" "le_record e' = le_record e"
    "le_structured e' = le_structured e"
    "le_timestamp e' = le_timestamp e" "le_message e' = stripAnsi (le_message e)"
    "le_level e' = map_option stripAnsi (le_level e)" "le_logger e' = map_option stripAnsi (le_logger e)"
    "le_loggerShort e' = map_option stripAnsi (le_loggerShort e)"
    "le_unit e' = map_option stripAnsi (le_unit e)"
    "le_extras e' = map (map_option stripAnsi) (le_extras e)"
proof -
  have extras: "map (map_option stripAnsi) xs = xs" if "\<not> list_ex dirty xs" for xs
    using that by (intro map_idI) (auto simp: list_ex_iff dirty_clean)
  have msg: "stripAnsi t = t" if "\<not> dirty (Some t)" for t
    using that by (simp add: dirty_def)
  consider "None \<notin> set (le_extras e)" "e' = cleanedEntry h e"
    | "None \<notin> set (le_extras e)" "e' = e" "\<not> list_ex dirty ([Some (le_message e), le_level e, le_logger e,
        le_loggerShort e, le_unit e] @ le_extras e)"
    using assms unfolding withoutAnsi_alt by (metis Inl_Inr_False Inr_inject)
  note cases = this
  show "None \<notin> set (le_extras e)" by (rule cases)
  show "le_raw e' = le_raw e" "le_record e' = le_record e" "le_structured e' = le_structured e"
    "le_timestamp e' = le_timestamp e" "le_message e' = stripAnsi (le_message e)"
    "le_level e' = map_option stripAnsi (le_level e)" "le_logger e' = map_option stripAnsi (le_logger e)"
    "le_loggerShort e' = map_option stripAnsi (le_loggerShort e)"
    "le_unit e' = map_option stripAnsi (le_unit e)"
    "le_extras e' = map (map_option stripAnsi) (le_extras e)"
    by (rule cases; simp add: cleanedEntry_def Let_def dirty_clean msg extras)+
qed

lemma withoutAnsi_error: "withoutAnsi h e = Inl x \<longleftrightarrow> None \<in> set (le_extras e) \<and> x = TypeError"
  by (auto simp: withoutAnsi_def Let_def)

lemma abbreviate_split:
  "split_on 46 (abbreviateLogger n) = map first_code_point (butlast (split_on 46 n)) @ [last (split_on 46 n)]"
proof -
  have sub: "set (first_code_point s) \<subseteq> set s" for s
    by (cases s rule: first_code_point.cases) auto
  have "46 \<notin> set x" if member: "x \<in> set (map first_code_point (butlast (split_on 46 n)) @ [last (split_on 46 n)])" for x
  proof (cases "x = last (split_on 46 n)")
    case True
    then show ?thesis by (metis last_in_set split_on_parts split_on_not_Nil)
  next
    case False
    then obtain y where "y \<in> set (split_on 46 n)" "x = first_code_point y"
      using member by (auto dest: in_set_butlastD)
    then show ?thesis using sub [of y] split_on_parts [of y 46 n] by blast
  qed
  then show ?thesis unfolding abbreviateLogger_def Let_def by (intro split_on_join) blast+
qed

lemma sniff_loop_spec:
  "sniff_loop b ls =
     (let records = List.map_filter decodeRecord ls
      in if list_ex record_is_ecs records then Ecs else if b \<or> records \<noteq> [] then Json else Plain)"
  by (induction ls arbitrary: b) (simp_all add: map_filter_simps Let_def split: option.split)

lemma first_code_point_idem: "first_code_point (first_code_point s) = first_code_point s"
  by (cases s rule: first_code_point.cases) auto

text \<open>An ECS line with a coloured message, a string column and what they parse to.\<close>

abbreviation sample_line :: jsstring where
  "sample_line \<equiv> lit ''{\"message\":\"'' @ [92] @ lit ''u001b[1mhi\",\"k\":\"v\"}''"

abbreviation sample_record :: js_record where
  "sample_record \<equiv> [(lit ''message'', JStr ([ESC] @ lit ''[1mhi'')), (lit ''k'', JStr (lit ''v''))]"

abbreviation sample_columns :: "column_spec list" where
  "sample_columns \<equiv> [\<lparr>cs_key = lit ''k'', cs_type = StringColumn\<rparr>]"

lemma sample_decoded: "decoded sample_line Ecs = Some sample_record"
  by code_simp

lemma sample_cell: "column_text sample_record (hd sample_columns) = Some (lit ''v'')"
  by code_simp

definition sample_entry :: log_entry where
  "sample_entry = (case parseLine ascii_host sample_line Ecs sample_columns of Inr e \<Rightarrow> e | Inl _ \<Rightarrow> plainEntry [])"

lemma sample_parses: "parseLine ascii_host sample_line Ecs sample_columns = Inr sample_entry"
proof -
  have "le_extras (column_entry ascii_host sample_line Ecs sample_columns) = [Some (lit ''v'')]"
    using sample_cell sample_decoded by (simp add: extraColumns_def)
  then have "withoutAnsi ascii_host (column_entry ascii_host sample_line Ecs sample_columns) \<noteq> Inl x" for x
    unfolding withoutAnsi_error by simp
  then show ?thesis
    unfolding sample_entry_def parseLine_column_entry by (auto split: sum.splits)
qed

section \<open>Properties\<close>

text \<open>C7: parsing a line fails exactly when the line decodes and an annotation's string column
  names an inherited method of the record (a column called constructor or toString, say): the
  undefined that JSON.stringify gives for it reaches hasAnsi.\<close>

theorem parseLine_fails_iff:
  "parseLine h raw f cs = Inl TypeError \<longleftrightarrow>
     (\<exists>r c. decoded raw f = Some r \<and> c \<in> set cs \<and> cs_type c = StringColumn \<and> pick r (cs_key c) = JFun)"
proof -
  have none: "column_text r c = None \<longleftrightarrow> cs_type c \<noteq> NumberColumn \<and> pick r (cs_key c) = JFun" for r c
    by (simp add: column_text_def asText_None_iff)
  have mem: "None \<in> set (map g xs) \<longleftrightarrow> (\<exists>x \<in> set xs. g x = None)" for g :: "column_spec \<Rightarrow> jsstring option" and xs
    by force
  show ?thesis
    unfolding parseLine_column_entry withoutAnsi_error
    by (cases "decoded raw f") (auto simp: mem none extraColumns_def simp del: set_map)
qed

theorem parseLine_fails_witness:
  "parseLine ascii_host (lit ''{}'') Ecs [\<lparr>cs_key = lit ''toString'', cs_type = StringColumn\<rparr>] = Inl TypeError"
proof -
  have "decoded (lit ''{}'') Ecs = Some []" "pick [] (lit ''toString'') = JFun" by code_simp+
  then show ?thesis unfolding parseLine_fails_iff by auto
qed

text \<open>no escape sequence is left in any column of a parsed line.\<close>

theorem parseLine_clean:
  assumes "parseLine h raw f cs = Inr e"
  shows "\<not> list_ex dirty ([Some (le_message e), le_level e, le_logger e, le_loggerShort e, le_unit e]
      @ le_extras e)"
proof -
  note clean = withoutAnsi_InrD [OF assms [unfolded parseLine_column_entry]]
  show ?thesis
    unfolding clean(6,7,8,9,10,11) by (auto simp: list_ex_iff)
qed

theorem parseLine_clean_witness: "\<not> hasAnsi (le_message sample_entry)"
  using parseLine_clean [OF sample_parses] by (simp add: dirty_def)

text \<open>a parsed entry keeps the raw line, is structured exactly when the format is not plain and the
  line decodes to a JSON object, and otherwise shows the whole line, less its escapes, as the message
  with every other column empty.\<close>

theorem parseLine_shape:
  assumes "parseLine h raw f cs = Inr e"
  shows "le_raw e = raw \<and> le_record e = decoded raw f \<and> le_structured e = (decoded raw f \<noteq> None) \<and>
    (decoded raw f = None \<longrightarrow> le_message e = stripAnsi raw \<and> le_level e = None \<and> le_timestamp e = None \<and>
       le_logger e = None \<and> le_unit e = None \<and> le_extras e = [])"
proof -
  note clean = withoutAnsi_InrD [OF assms [unfolded parseLine_column_entry]]
  have "decoded raw f = None \<Longrightarrow> column_entry h raw f cs = plainEntry raw"
    by (simp add: column_entry_def)
  with clean show ?thesis by (auto simp: plainEntry_def)
qed

theorem parseLine_shape_witness: "le_raw sample_entry = sample_line \<and> le_record sample_entry = Some sample_record"
  using parseLine_shape [OF sample_parses] sample_decoded by simp

text \<open>a structured entry has one cell per string or number column of the annotation, in its
  order, each the column's own field with escapes removed.\<close>

theorem parseLine_extras:
  assumes "parseLine h raw f cs = Inr e" and "decoded raw f = Some r"
  shows "le_extras e = map (\<lambda>c. map_option stripAnsi (column_text r c)) (extraColumns cs)"
  using withoutAnsi_InrD(11) [OF assms(1) [unfolded parseLine_column_entry]] assms(2) by simp

theorem parseLine_extras_witness: "le_extras sample_entry = [Some (lit ''v'')]"
proof -
  have "stripAnsi (lit ''v'') = lit ''v''" by code_simp
  then show ?thesis
    using parseLine_extras [OF sample_parses sample_decoded] sample_cell by (simp add: extraColumns_def)
qed

text \<open>in each of the time, level and logger slots the first annotated column that reads wins, and a
  slot none of them fills keeps what the default lookup found.\<close>

theorem applyColumns_first_wins:
  "le_timestamp (applyColumns h e r cs) = or_else (first_some (time_reading h r) cs) (le_timestamp e) \<and>
   le_level (applyColumns h e r cs) = or_else (first_some (level_reading r) cs) (le_level e) \<and>
   le_levelClass (applyColumns h e r cs) = (case first_some (level_reading r) cs of
      Some t \<Rightarrow> normalizeLevel h (Some t) | None \<Rightarrow> le_levelClass e) \<and>
   le_loggerShort (applyColumns h e r cs) = or_else (first_some (logger_reading r) cs) (le_loggerShort e) \<and>
   le_message (applyColumns h e r cs) = le_message e"
  by (simp add: applyColumns_def Let_def fold_time fold_level fold_logger columns_start_def split: option.split)

text \<open>sniffing answers ECS exactly when some line is an ECS record, JSON exactly when some line
  decodes and none is an ECS record, plain exactly when no line decodes.\<close>

theorem sniffFormat_spec:
  "sniffFormat ls =
     (let records = List.map_filter decodeRecord ls
      in if list_ex record_is_ecs records then Ecs else if records \<noteq> [] then Json else Plain)"
  unfolding sniffFormat_def sniff_loop_spec by (simp add: Let_def)

text \<open>abbreviating a logger name keeps the number of its segments and its last segment whole, cuts
  every other segment to its first character, and abbreviating again changes nothing.\<close>

theorem abbreviateLogger_spec:
  "length (split_on 46 (abbreviateLogger n)) = length (split_on 46 n) \<and>
   last (split_on 46 (abbreviateLogger n)) = last (split_on 46 n) \<and>
   butlast (split_on 46 (abbreviateLogger n)) = map first_code_point (butlast (split_on 46 n)) \<and>
   abbreviateLogger (abbreviateLogger n) = abbreviateLogger n"
  unfolding abbreviateLogger_def [of "abbreviateLogger n"] abbreviate_split
  by (simp add: first_code_point_idem comp_def abbreviateLogger_def Let_def)

text \<open>a level that is only white space is classed as fatal, because the number of a blank string
  is zero.\<close>

theorem blank_level_fatal:
  assumes "trim v = []" and "toUpperCase h [] = []"
  shows "normalizeLevel h (Some v) = Some Fatal"
proof -
  have "level_word [] = None" by (simp add: level_word_def LEVEL_WORDS_def)
  with assms show ?thesis
    by (simp add: normalizeLevel_def to_number_def numeric_level_def scale_def)
qed

theorem blank_level_fatal_witness: "normalizeLevel ascii_host (Some [32]) = Some Fatal"
proof -
  have "trim [32] = []" "toUpperCase ascii_host [] = []" by code_simp+
  then show ?thesis by (rule blank_level_fatal)
qed

end
