(* ===== verification/Line_Store.thy ===== *)
theory Line_Store
  imports Prelude
begin

text \<open>
  The contract between a store of numbered log lines and what reads it by number (the parsed-row
  cache of the viewer, its expanded rows): as a locale over a step function, with the facts every
  reader needs proved once. A line keeps its text while it is held and the generation is the same;
  a number may come back with another text only when the store takes in lines before its first one
  after having dropped some (\<open>no_reuse\<close> rules that out).
\<close>

locale line_store =
  fixes ok :: "'s \<Rightarrow> bool"
    and step :: "'op \<Rightarrow> 's \<Rightarrow> 's"
    and line_at :: "'s \<Rightarrow> int \<Rightarrow> jsstring option"
    and gen :: "'s \<Rightarrow> nat"
    and first :: "'s \<Rightarrow> int"
    and past :: "'s \<Rightarrow> int"
  assumes ok_step: "ok s \<Longrightarrow> ok (step c s)"
    and held_iff: "ok s \<Longrightarrow> line_at s q \<noteq> None \<longleftrightarrow> first s \<le> q \<and> q < past s"
    and gen_step: "ok s \<Longrightarrow> gen s \<le> gen (step c s)"
    and past_step: "ok s \<Longrightarrow> gen (step c s) = gen s \<Longrightarrow> past s \<le> past (step c s)"
    and text_step: "ok s \<Longrightarrow> gen (step c s) = gen s \<Longrightarrow> line_at s q = Some l \<Longrightarrow>
      line_at (step c s) q = Some l' \<Longrightarrow> l' = l"
begin

text \<open>The lowest number seen in this generation, and the runs in which no number is given out again.\<close>

definition low_step :: "'op \<Rightarrow> 's \<Rightarrow> int \<Rightarrow> int" where
  "low_step c s low = (if gen (step c s) = gen s then min low (first (step c s)) else first (step c s))"

definition fresh_step :: "'op \<Rightarrow> 's \<Rightarrow> int \<Rightarrow> bool" where
  "fresh_step c s low \<longleftrightarrow> gen (step c s) = gen s \<longrightarrow> first s \<le> first (step c s) \<or> first s \<le> low"

text \<open>What a reader may have remembered of the current generation.\<close>

definition remembered :: "'s \<Rightarrow> int \<Rightarrow> int \<Rightarrow> jsstring \<Rightarrow> bool" where
  "remembered s low q l \<longleftrightarrow> low \<le> q \<and> q < past s \<and> (first s \<le> q \<longrightarrow> line_at s q = Some l)"

lemma remembered_read: "ok s \<Longrightarrow> low \<le> first s \<Longrightarrow> line_at s q = Some l \<Longrightarrow> remembered s low q l"
  using held_iff [of s q] by (simp add: remembered_def)

lemma remembered_lookup: "remembered s low q l \<Longrightarrow> ok s \<Longrightarrow> line_at s q = Some l' \<Longrightarrow> l = l'"
  using held_iff [of s q] by (simp add: remembered_def)

lemma low_step_le: "low \<le> first s \<Longrightarrow> low_step c s low \<le> first (step c s)"
  by (simp add: low_step_def)

text \<open>What was remembered stays true across a step that gives no number out again.\<close>

lemma remembered_step:
  assumes "ok s" "remembered s low q l" "fresh_step c s low" "gen (step c s) = gen s"
  shows "remembered (step c s) (low_step c s low) q l"
proof -
  have past: "q < past (step c s)"
    using past_step [OF assms(1,4)] assms(2) by (simp add: remembered_def)
  have "line_at (step c s) q = Some l" if first: "first (step c s) \<le> q"
  proof -
    have "first s \<le> q"
      using assms(2,3,4) first by (auto simp: fresh_step_def remembered_def)
    then have "line_at s q = Some l" using assms(2) by (simp add: remembered_def)
    moreover obtain l' where "line_at (step c s) q = Some l'"
      using held_iff [OF ok_step [OF assms(1)], of c q] first past by auto
    ultimately show ?thesis using text_step [OF assms(1,4)] by blast
  qed
  then show ?thesis
    using assms(2,4) past by (auto simp: remembered_def low_step_def)
qed

primrec no_reuse :: "'op list \<Rightarrow> 's \<Rightarrow> int \<Rightarrow> bool" where
  "no_reuse [] s low = True"
| "no_reuse (c # cs) s low = (fresh_step c s low \<and> no_reuse cs (step c s) (low_step c s low))"

lemma gen_run: "ok s \<Longrightarrow> gen s \<le> gen (fold step cs s)"
  by (induction cs arbitrary: s) (auto intro: gen_step ok_step le_trans)

lemma remembered_run:
  assumes "ok s" "remembered s low q l" "no_reuse cs s low" "gen (fold step cs s) = gen s"
  shows "\<exists>low'. remembered (fold step cs s) low' q l"
  using assms
proof (induction cs arbitrary: s low)
  case (Cons c cs)
  have same: "gen (step c s) = gen s"
    using Cons.prems(1,4) gen_step [of s c] gen_run [of "step c s" cs] ok_step by simp
  then have "remembered (step c s) (low_step c s low) q l"
    using Cons.prems(1-3) by (intro remembered_step) auto
  then show ?case using Cons.IH [of "step c s"] Cons.prems same ok_step by auto
qed auto

lemma ok_run: "ok s \<Longrightarrow> ok (fold step cs s)"
  by (induction cs arbitrary: s) (auto intro: ok_step)

lemma text_run:
  assumes "ok s" "line_at s q = Some l" "no_reuse cs s (first s)" "gen (fold step cs s) = gen s"
    and "line_at (fold step cs s) q = Some l'"
  shows "l' = l"
  using remembered_run [OF assms(1) remembered_read [OF assms(1) order_refl assms(2)] assms(3,4)]
    remembered_lookup ok_run [OF assms(1)] assms(5) by blast

text \<open>
  A table of values made from lines and kept under their numbers: while no number is given out again,
  what it holds for a line still held was made from that very line.
\<close>

definition coherent :: "(jsstring \<Rightarrow> 'v \<Rightarrow> bool) \<Rightarrow> 's \<Rightarrow> int \<Rightarrow> (int \<times> 'v) list \<Rightarrow> bool" where
  "coherent made s low table \<longleftrightarrow> (\<forall>(q, v) \<in> set table. \<exists>l. remembered s low q l \<and> made l v)"

lemma coherent_Nil [simp]: "coherent made s low []"
  by (simp add: coherent_def)

lemma coherent_subset: "coherent made s low table \<Longrightarrow> set table' \<subseteq> set table \<Longrightarrow> coherent made s low table'"
  unfolding coherent_def by blast

lemma coherent_add:
  assumes "coherent made s low table" "ok s" "low \<le> first s" "line_at s q = Some l" "made l v"
  shows "coherent made s low (table @ [(q, v)])"
  using assms remembered_read [OF assms(2-4)] unfolding coherent_def by auto

lemma coherent_lookup:
  assumes "coherent made s low table" "ok s" "(q, v) \<in> set table" "line_at s q = Some l"
  shows "made l v"
  using assms(1,3) remembered_lookup [OF _ assms(2,4)] unfolding coherent_def by fastforce

lemma coherent_step:
  assumes "coherent made s low table" "ok s" "fresh_step c s low" "gen (step c s) = gen s"
  shows "coherent made (step c s) (low_step c s low) table"
  using assms(1) remembered_step [OF assms(2) _ assms(3,4)] unfolding coherent_def by fast

end

end
