(* ===== verification/Log_Buffer.thy ===== *)
theory Log_Buffer
  imports Line_Store
begin

text \<open>
  The log viewer's line index, \<^verbatim>\<open>plugins/logging/src/logs/buffer.ts\<close>: the
  class \<^verbatim>\<open>LogBuffer\<close> as a record, one definition per method, an invariant
  every method keeps, and a refinement to the obvious reference: a list of lines, the
  sequence number of the first one and the unterminated rest.

  The three \<^verbatim>\<open>Int32Array\<close>s are lists written by \<^const>\<open>list_update\<close>, which
  ignores a write past the end as a typed array does. What they hold are page numbers and
  offsets into one string; an engine caps a string's length below \<open>2\<^sup>3\<^sup>1\<close>, so no
  value stored wraps and they are kept as natural numbers. Sequence numbers are integers:
  prepending takes them below zero.
\<close>

section \<open>State\<close>

definition DEFAULT_PAGE_SIZE :: nat where "DEFAULT_PAGE_SIZE = 2 ^ 20"
definition DEFAULT_MAX_LINES :: nat where "DEFAULT_MAX_LINES = 200000"
definition INITIAL_CAPACITY :: nat where "INITIAL_CAPACITY = 4096"

record log_buffer =
  maxLines :: nat
  pageSize :: nat
  pages :: "jsstring list"
  pageRefs :: "int list"
  tailPage :: nat
  pageOf :: "nat list"
  startAt :: "nat list"
  endAt :: "nat list"
  lb_base :: nat
  lb_used :: nat
  baseSeq :: int
  lineStart :: nat
  scanFrom :: nat
  lb_gen :: nat

text \<open>The constructor; \<open>None\<close> is an option that was left out.\<close>

definition new_log_buffer :: "int option \<Rightarrow> int option \<Rightarrow> log_buffer" where
  "new_log_buffer max_lines page_size = \<lparr>
     maxLines = nat (max 1 (case max_lines of None \<Rightarrow> int DEFAULT_MAX_LINES | Some n \<Rightarrow> n)),
     pageSize = nat (max 1024 (case page_size of None \<Rightarrow> int DEFAULT_PAGE_SIZE | Some n \<Rightarrow> n)),
     pages = [[]], pageRefs = [0], tailPage = 0,
     pageOf = replicate INITIAL_CAPACITY 0,
     startAt = replicate INITIAL_CAPACITY 0,
     endAt = replicate INITIAL_CAPACITY 0,
     lb_base = 0, lb_used = 0, baseSeq = 0, lineStart = 0, scanFrom = 0, lb_gen = 0\<rparr>"

section \<open>Operations\<close>

definition generation :: "log_buffer \<Rightarrow> nat" where "generation b = lb_gen b"

definition firstSeq :: "log_buffer \<Rightarrow> int" where "firstSeq b = baseSeq b"

definition endSeq :: "log_buffer \<Rightarrow> int" where
  "endSeq b = baseSeq b + (int (lb_used b) - int (lb_base b))"

definition lb_length :: "log_buffer \<Rightarrow> nat" where "lb_length b = lb_used b - lb_base b"

definition droppedLines :: "log_buffer \<Rightarrow> int" where "droppedLines b = baseSeq b"

definition charLength :: "log_buffer \<Rightarrow> nat" where
  "charLength b = foldl (\<lambda>total page. total + length page) 0 (pages b)"

definition newPage :: "log_buffer \<Rightarrow> jsstring \<Rightarrow> log_buffer \<times> nat" where
  "newPage b text =
     (let b' = b\<lparr>pages := pages b @ [text], pageRefs := pageRefs b @ [0]\<rparr>
      in (b', length (pages b') - 1))"

definition compactOrGrow :: "log_buffer \<Rightarrow> log_buffer" where
  "compactOrGrow b =
     (if lb_base b > 0 then
        b\<lparr>pageOf := blit (pageOf b) 0 (slice (lb_base b) (lb_used b) (pageOf b)),
          startAt := blit (startAt b) 0 (slice (lb_base b) (lb_used b) (startAt b)),
          endAt := blit (endAt b) 0 (slice (lb_base b) (lb_used b) (endAt b)),
          lb_used := lb_used b - lb_base b,
          lb_base := 0\<rparr>
      else
        (let grown = length (pageOf b) * 2
         in b\<lparr>pageOf := blit (replicate grown 0) 0 (pageOf b),
              startAt := blit (replicate grown 0) 0 (startAt b),
              endAt := blit (replicate grown 0) 0 (endAt b)\<rparr>))"

definition pushLine :: "log_buffer \<Rightarrow> nat \<Rightarrow> nat \<Rightarrow> nat \<Rightarrow> log_buffer" where
  "pushLine b page start end =
     (let trimmed = (if end > start \<and> (pages b ! page) ! (end - 1) = CR then end - 1 else end);
          b1 = (if lb_used b = length (pageOf b) then compactOrGrow b else b)
      in b1\<lparr>pageOf := (pageOf b1)[lb_used b1 := page],
            startAt := (startAt b1)[lb_used b1 := start],
            endAt := (endAt b1)[lb_used b1 := trimmed],
            lb_used := lb_used b1 + 1,
            pageRefs := (pageRefs b1)[page := pageRefs b1 ! page + 1]\<rparr>)"

text \<open>The body of \<^verbatim>\<open>evict\<close>'s loop, for one line index.\<close>

definition evict_line :: "nat \<Rightarrow> log_buffer \<Rightarrow> log_buffer" where
  "evict_line i b =
     (let page = pageOf b ! i;
          b1 = b\<lparr>pageRefs := (pageRefs b)[page := pageRefs b ! page - 1]\<rparr>
      in if pageRefs b1 ! page = 0 \<and> page \<noteq> tailPage b1
         then b1\<lparr>pages := (pages b1)[page := []]\<rparr> else b1)"

definition evict :: "log_buffer \<Rightarrow> log_buffer" where
  "evict b =
     (let excess = int (lb_used b) - int (lb_base b) - int (maxLines b)
      in if excess \<le> 0 then b
         else (let n = nat excess;
                   b1 = fold evict_line [lb_base b ..< lb_base b + n] b
               in b1\<lparr>lb_base := lb_base b1 + n, baseSeq := baseSeq b1 + int n\<rparr>))"

text \<open>
  The scan of \<^verbatim>\<open>append\<close>: every newline from \<open>from\<close> on ends a line.
\<close>

function append_scan :: "nat \<Rightarrow> jsstring \<Rightarrow> nat \<Rightarrow> log_buffer \<Rightarrow> log_buffer" where
  "append_scan page text from b =
     (case indexOf text NL from of
        None \<Rightarrow> b
      | Some nl \<Rightarrow>
          append_scan page text (nl + 1) ((pushLine b page (lineStart b) nl)\<lparr>lineStart := nl + 1\<rparr>))"
  by pat_completeness auto
termination
  by (relation "measure (\<lambda>(page, text, from, b). length text - from)")
    (auto intro: indexOf_decreases)

declare append_scan.simps [simp del]

text \<open>The two halves of \<^verbatim>\<open>append\<close>: the chunk joins the tail page and is
  scanned for lines, then a full page that ends on a line break is retired.\<close>

definition index_chunk :: "log_buffer \<Rightarrow> jsstring \<Rightarrow> log_buffer" where
  "index_chunk b chunk =
     (let page = tailPage b;
          b1 = b\<lparr>pages := (pages b)[page := pages b ! page @ chunk]\<rparr>;
          text = pages b1 ! page
      in (append_scan page text (scanFrom b1) b1)\<lparr>scanFrom := length text\<rparr>)"

definition roll_page :: "log_buffer \<Rightarrow> log_buffer" where
  "roll_page b =
     (let text = pages b ! tailPage b
      in if length text \<ge> pageSize b \<and> lineStart b = length text
         then (case newPage b [] of (b', p) \<Rightarrow> b'\<lparr>tailPage := p, lineStart := 0, scanFrom := 0\<rparr>)
         else b)"

definition append :: "log_buffer \<Rightarrow> jsstring \<Rightarrow> log_buffer" where
  "append b chunk = (if chunk = [] then b else evict (roll_page (index_chunk b chunk)))"

definition flushPartial :: "log_buffer \<Rightarrow> log_buffer" where
  "flushPartial b =
     (let page = tailPage b; text = pages b ! page
      in if lineStart b < length text
         then evict ((pushLine b page (lineStart b) (length text))\<lparr>lineStart := length text\<rparr>)
         else b)"

definition lineAt :: "log_buffer \<Rightarrow> int \<Rightarrow> jsstring option" where
  "lineAt b seq =
     (let i = int (lb_base b) + (seq - baseSeq b)
      in if i < int (lb_base b) \<or> i \<ge> int (lb_used b) then None
         else Some (slice (startAt b ! nat i) (endAt b ! nat i) (pages b ! (pageOf b ! nat i))))"

definition lb_text :: "log_buffer \<Rightarrow> jsstring" where
  "lb_text b =
     (let lines = List.map_filter (lineAt b) (map (\<lambda>k. firstSeq b + int k) [0 ..< lb_length b])
      in if lines = [] then [] else join [NL] lines @ [NL])"

text \<open>\<^verbatim>\<open>reserveFront\<close>: room for \<open>count\<close> lines before the oldest one.\<close>

definition reserveFront :: "log_buffer \<Rightarrow> nat \<Rightarrow> log_buffer" where
  "reserveFront b count =
     (if lb_base b \<ge> count then b
      else
        (let live = lb_used b - lb_base b;
             gap = max count (maxLines b div 4);
             capacity = max (length (pageOf b)) (gap + live + 1)
         in b\<lparr>pageOf := blit (replicate capacity 0) gap (slice (lb_base b) (lb_used b) (pageOf b)),
              startAt := blit (replicate capacity 0) gap (slice (lb_base b) (lb_used b) (startAt b)),
              endAt := blit (replicate capacity 0) gap (slice (lb_base b) (lb_used b) (endAt b)),
              lb_base := gap,
              lb_used := gap + live\<rparr>))"

text \<open>
  The first loop of \<^verbatim>\<open>prepend\<close>: the extents of the non-empty lines of the
  chunk. The second writes them before \<^verbatim>\<open>base\<close>, a trailing carriage return cut.
\<close>

function prepend_extents :: "jsstring \<Rightarrow> nat \<Rightarrow> (nat \<times> nat) list" where
  "prepend_extents chunk from =
     (if from < length chunk then
        (let nl = indexOf chunk NL from;
             end = (case nl of None \<Rightarrow> length chunk | Some i \<Rightarrow> i);
             here = (if end > from then [(from, end)] else [])
         in here @ (case nl of None \<Rightarrow> [] | Some i \<Rightarrow> prepend_extents chunk (i + 1)))
      else [])"
  by pat_completeness auto
termination
  by (relation "measure (\<lambda>(chunk, from). length chunk - from)")
    (auto intro: indexOf_decreases [OF sym])

declare prepend_extents.simps [simp del]

definition trim_cr_end :: "jsstring \<Rightarrow> nat \<Rightarrow> nat" where
  "trim_cr_end chunk end = (if chunk ! (end - 1) = CR then end - 1 else end)"

fun prepend_write :: "jsstring \<Rightarrow> nat \<Rightarrow> nat \<Rightarrow> (nat \<times> nat) list \<Rightarrow> log_buffer \<Rightarrow> log_buffer" where
  "prepend_write chunk page target [] b = b"
| "prepend_write chunk page target ((start, end) # es) b =
     prepend_write chunk page (target + 1) es
       (b\<lparr>pageOf := (pageOf b)[target := page],
          startAt := (startAt b)[target := start],
          endAt := (endAt b)[target := trim_cr_end chunk end]\<rparr>)"

definition prepend_lines :: "log_buffer \<Rightarrow> nat \<Rightarrow> jsstring \<Rightarrow> (nat \<times> nat) list \<Rightarrow> log_buffer" where
  "prepend_lines b page chunk extents =
     (let count = length extents;
          b2 = reserveFront b count;
          b3 = prepend_write chunk page (lb_base b2 - count) extents b2
      in b3\<lparr>pageRefs := (pageRefs b3)[page := pageRefs b3 ! page + int count],
            lb_base := lb_base b3 - count,
            baseSeq := baseSeq b3 - int count\<rparr>)"

definition prepend :: "log_buffer \<Rightarrow> jsstring \<Rightarrow> log_buffer \<times> nat" where
  "prepend b chunk =
     (if chunk = [] then (b, 0)
      else
        (case newPage b chunk of
           (b1, page) \<Rightarrow>
             (let extents = prepend_extents chunk 0; count = length extents
              in if count = 0 then (b1, 0) else (prepend_lines b1 page chunk extents, count))))"

definition clear :: "log_buffer \<Rightarrow> log_buffer" where
  "clear b = b\<lparr>pages := [[]], pageRefs := [0], tailPage := 0, lb_base := 0, lb_used := 0,
     baseSeq := 0, lineStart := 0, scanFrom := 0, lb_gen := lb_gen b + 1\<rparr>"

section \<open>The live extents\<close>

text \<open>
  What the arrays mean: the extents \<open>(page, start, end)\<close> of the retained lines, oldest
  first. Compaction, growth and \<^verbatim>\<open>reserveFront\<close> move the arrays around and leave
  this list alone; the other operations are list operations on it.
\<close>

definition live :: "log_buffer \<Rightarrow> (nat \<times> nat \<times> nat) list" where
  "live b = zip (slice (lb_base b) (lb_used b) (pageOf b))
     (zip (slice (lb_base b) (lb_used b) (startAt b)) (slice (lb_base b) (lb_used b) (endAt b)))"

definition arr_ok :: "log_buffer \<Rightarrow> bool" where
  "arr_ok b \<longleftrightarrow> length (startAt b) = length (pageOf b) \<and> length (endAt b) = length (pageOf b) \<and>
     lb_base b \<le> lb_used b \<and> lb_used b \<le> length (pageOf b) \<and> 0 < length (pageOf b)"

lemma length_live: "arr_ok b \<Longrightarrow> length (live b) = lb_length b"
  by (auto simp: live_def arr_ok_def lb_length_def)

lemma live_update_frame [simp]:
  "live (b\<lparr>pages := ps\<rparr>) = live b" "live (b\<lparr>pageRefs := rs\<rparr>) = live b"
  "live (b\<lparr>lineStart := n\<rparr>) = live b" "live (b\<lparr>scanFrom := n\<rparr>) = live b"
  "live (b\<lparr>tailPage := n\<rparr>) = live b" "live (b\<lparr>baseSeq := z\<rparr>) = live b"
  by (simp_all add: live_def)

lemma arr_ok_update_frame [simp]:
  "arr_ok (b\<lparr>pages := ps\<rparr>) = arr_ok b" "arr_ok (b\<lparr>pageRefs := rs\<rparr>) = arr_ok b"
  "arr_ok (b\<lparr>lineStart := n\<rparr>) = arr_ok b" "arr_ok (b\<lparr>scanFrom := n\<rparr>) = arr_ok b"
  "arr_ok (b\<lparr>tailPage := n\<rparr>) = arr_ok b" "arr_ok (b\<lparr>baseSeq := z\<rparr>) = arr_ok b"
  by (simp_all add: arr_ok_def)

lemma live_nth:
  assumes "arr_ok b" "k < lb_length b"
  shows "live b ! k = (pageOf b ! (lb_base b + k), startAt b ! (lb_base b + k), endAt b ! (lb_base b + k))"
  using assms by (auto simp: live_def arr_ok_def lb_length_def nth_slice)

lemma compactOrGrow_frame [simp]:
  "maxLines (compactOrGrow b) = maxLines b" "pageSize (compactOrGrow b) = pageSize b"
  "pages (compactOrGrow b) = pages b" "pageRefs (compactOrGrow b) = pageRefs b"
  "tailPage (compactOrGrow b) = tailPage b" "baseSeq (compactOrGrow b) = baseSeq b"
  "lineStart (compactOrGrow b) = lineStart b" "scanFrom (compactOrGrow b) = scanFrom b"
  "lb_gen (compactOrGrow b) = lb_gen b"
  by (simp_all add: compactOrGrow_def Let_def)

lemma compactOrGrow_live:
  assumes "arr_ok b" "lb_used b = length (pageOf b)"
  shows "live (compactOrGrow b) = live b" "arr_ok (compactOrGrow b)"
    "lb_used (compactOrGrow b) < length (pageOf (compactOrGrow b))"
  using assms
  by (auto simp: compactOrGrow_def live_def arr_ok_def Let_def simp del: length_greater_0_conv)

definition trim_cr :: "jsstring \<Rightarrow> nat \<Rightarrow> nat \<Rightarrow> nat" where
  "trim_cr text start end = (if end > start \<and> text ! (end - 1) = CR then end - 1 else end)"

lemma pushLine_frame [simp]:
  "maxLines (pushLine b p s e) = maxLines b" "pageSize (pushLine b p s e) = pageSize b"
  "pages (pushLine b p s e) = pages b" "tailPage (pushLine b p s e) = tailPage b"
  "baseSeq (pushLine b p s e) = baseSeq b" "lineStart (pushLine b p s e) = lineStart b"
  "scanFrom (pushLine b p s e) = scanFrom b" "lb_gen (pushLine b p s e) = lb_gen b"
  "pageRefs (pushLine b p s e) = (pageRefs b)[p := pageRefs b ! p + 1]"
  by (simp_all add: pushLine_def Let_def)

lemma pushLine_live:
  assumes "arr_ok b"
  shows "live (pushLine b p s e) = live b @ [(p, s, trim_cr (pages b ! p) s e)]"
    and "arr_ok (pushLine b p s e)"
proof -
  define b1 where "b1 = (if lb_used b = length (pageOf b) then compactOrGrow b else b)"
  have b1: "live b1 = live b" "arr_ok b1" "lb_used b1 < length (pageOf b1)" "pages b1 = pages b"
    using assms compactOrGrow_live [OF assms] by (auto simp: b1_def arr_ok_def)
  have def: "pushLine b p s e = b1\<lparr>pageOf := (pageOf b1)[lb_used b1 := p],
      startAt := (startAt b1)[lb_used b1 := s],
      endAt := (endAt b1)[lb_used b1 := trim_cr (pages b ! p) s e],
      lb_used := lb_used b1 + 1,
      pageRefs := (pageRefs b1)[p := pageRefs b1 ! p + 1]\<rparr>"
    by (simp add: pushLine_def b1_def [symmetric] trim_cr_def Let_def)
  show "arr_ok (pushLine b p s e)"
    using b1 by (simp add: def arr_ok_def)
  show "live (pushLine b p s e) = live b @ [(p, s, trim_cr (pages b ! p) s e)]"
    using b1 by (auto simp: def live_def arr_ok_def slice_list_update_end)
qed

section \<open>Invariant and abstraction\<close>

definition extent_ok :: "jsstring list \<Rightarrow> nat \<times> nat \<times> nat \<Rightarrow> bool" where
  "extent_ok ps x = (case x of (p, s, e) \<Rightarrow> p < length ps \<and> s \<le> e \<and> e \<le> length (ps ! p))"

text \<open>Every page's reference count is the number of retained lines in it.\<close>

definition refs_ok :: "log_buffer \<Rightarrow> bool" where
  "refs_ok b \<longleftrightarrow> length (pageRefs b) = length (pages b) \<and>
     (\<forall>p < length (pages b). pageRefs b ! p = int (count_list (map fst (live b)) p))"

definition lb_core :: "log_buffer \<Rightarrow> bool" where
  "lb_core b \<longleftrightarrow> arr_ok b \<and> list_all (extent_ok (pages b)) (live b) \<and> refs_ok b \<and>
     tailPage b < length (pages b) \<and> 1 \<le> maxLines b"

definition lb_inv :: "log_buffer \<Rightarrow> bool" where
  "lb_inv b \<longleftrightarrow> lb_core b \<and> scanFrom b = length (pages b ! tailPage b) \<and>
     lineStart b \<le> scanFrom b \<and> NL \<notin> set (drop (lineStart b) (pages b ! tailPage b))"

lemma lb_core_update_frame [simp]:
  "lb_core (b\<lparr>lineStart := n\<rparr>) = lb_core b" "lb_core (b\<lparr>scanFrom := n\<rparr>) = lb_core b"
  by (simp_all add: lb_core_def refs_ok_def)

text \<open>The reference: lines in reading order, the number of the first, the unfinished rest.\<close>

record line_log =
  ll_lines :: "jsstring list"
  ll_first :: int
  ll_pending :: jsstring

definition strip_cr :: "jsstring \<Rightarrow> jsstring" where
  "strip_cr l = (if l \<noteq> [] \<and> last l = CR then butlast l else l)"

definition ll_evict :: "nat \<Rightarrow> line_log \<Rightarrow> line_log" where
  "ll_evict n l = l\<lparr>ll_lines := drop (length (ll_lines l) - n) (ll_lines l),
     ll_first := ll_first l + int (length (ll_lines l) - n)\<rparr>"

definition ll_append :: "nat \<Rightarrow> line_log \<Rightarrow> jsstring \<Rightarrow> line_log" where
  "ll_append n l chunk =
     (if chunk = [] then l
      else (let parts = split_on NL (ll_pending l @ chunk)
            in ll_evict n (l\<lparr>ll_lines := ll_lines l @ map strip_cr (butlast parts),
                             ll_pending := last parts\<rparr>)))"

definition ll_flush :: "nat \<Rightarrow> line_log \<Rightarrow> line_log" where
  "ll_flush n l =
     (if ll_pending l = [] then l
      else ll_evict n (l\<lparr>ll_lines := ll_lines l @ [strip_cr (ll_pending l)], ll_pending := []\<rparr>))"

definition ll_earlier :: "jsstring \<Rightarrow> jsstring list" where
  "ll_earlier chunk = map strip_cr (filter (\<lambda>l. l \<noteq> []) (split_on NL chunk))"

definition ll_prepend :: "line_log \<Rightarrow> jsstring \<Rightarrow> line_log" where
  "ll_prepend l chunk = l\<lparr>ll_lines := ll_earlier chunk @ ll_lines l,
     ll_first := ll_first l - int (length (ll_earlier chunk))\<rparr>"

definition line_of :: "jsstring list \<Rightarrow> nat \<times> nat \<times> nat \<Rightarrow> jsstring" where
  "line_of ps x = (case x of (p, s, e) \<Rightarrow> slice s e (ps ! p))"

definition lb_abs :: "log_buffer \<Rightarrow> line_log" where
  "lb_abs b = \<lparr>ll_lines = map (line_of (pages b)) (live b), ll_first = baseSeq b,
     ll_pending = drop (lineStart b) (pages b ! tailPage b)\<rparr>"

lemma lb_abs_sel [simp]:
  "ll_lines (lb_abs b) = map (line_of (pages b)) (live b)" "ll_first (lb_abs b) = baseSeq b"
  "ll_pending (lb_abs b) = drop (lineStart b) (pages b ! tailPage b)"
  by (simp_all add: lb_abs_def)

lemma slice_trim_cr:
  assumes "s \<le> e" "e \<le> length t"
  shows "slice s (trim_cr t s e) t = strip_cr (slice s e t)"
proof (cases "s < e")
  case True
  then obtain n where e: "e = Suc n" "s \<le> n" by (cases e) auto
  have "slice s e t = slice s n t @ [t ! n]"
    using assms e by (simp add: slice_def Suc_diff_le take_Suc_conv_app_nth)
  then show ?thesis using e by (simp add: trim_cr_def strip_cr_def)
next
  case False
  with assms show ?thesis by (simp add: trim_cr_def strip_cr_def slice_def)
qed

lemma trim_cr_bounds: "s \<le> e \<Longrightarrow> s \<le> trim_cr t s e \<and> trim_cr t s e \<le> e"
  by (auto simp: trim_cr_def)

section \<open>Pushing a line\<close>

lemma pushLine_core:
  assumes "lb_core b" "p < length (pages b)" "s \<le> e" "e \<le> length (pages b ! p)"
  shows "lb_core (pushLine b p s e)"
proof -
  have "arr_ok b" using assms by (simp add: lb_core_def)
  note push = pushLine_live [OF this, of p s e]
  have "refs_ok (pushLine b p s e)"
    using assms by (auto simp: lb_core_def refs_ok_def push nth_list_update)
  then show ?thesis
    using assms trim_cr_bounds [OF assms(3), of "pages b ! p"]
    by (auto simp: lb_core_def push extent_ok_def)
qed

lemma pushLine_lines:
  assumes "lb_core b" "s \<le> e" "e \<le> length (pages b ! p)"
  shows "map (line_of (pages b)) (live (pushLine b p s e))
    = map (line_of (pages b)) (live b) @ [strip_cr (slice s e (pages b ! p))]"
  using assms by (simp add: lb_core_def pushLine_live line_of_def slice_trim_cr)

section \<open>Eviction\<close>

lemma evict_line_frame [simp]:
  "maxLines (evict_line i b) = maxLines b" "pageSize (evict_line i b) = pageSize b"
  "tailPage (evict_line i b) = tailPage b" "baseSeq (evict_line i b) = baseSeq b"
  "lineStart (evict_line i b) = lineStart b" "scanFrom (evict_line i b) = scanFrom b"
  "lb_gen (evict_line i b) = lb_gen b" "pageOf (evict_line i b) = pageOf b"
  "startAt (evict_line i b) = startAt b" "endAt (evict_line i b) = endAt b"
  "lb_base (evict_line i b) = lb_base b" "lb_used (evict_line i b) = lb_used b"
  "length (pages (evict_line i b)) = length (pages b)"
  "length (pageRefs (evict_line i b)) = length (pageRefs b)"
  by (simp_all add: evict_line_def Let_def)

lemma evict_line_refs:
  "p < length (pageRefs b) \<Longrightarrow> pageRefs (evict_line i b) ! p
     = (if p = pageOf b ! i then pageRefs b ! p - 1 else pageRefs b ! p)"
  by (auto simp: evict_line_def Let_def nth_list_update)

lemma evict_line_pages:
  assumes "pageOf b ! i < length (pageRefs b)"
  shows "pages (evict_line i b) = (if pageRefs b ! (pageOf b ! i) = 1 \<and> pageOf b ! i \<noteq> tailPage b
     then (pages b)[pageOf b ! i := []] else pages b)"
  using assms by (simp add: evict_line_def Let_def)

lemma evict_fold_frame [simp]:
  fixes b :: log_buffer
  defines "b' is \<equiv> fold evict_line is b"
  shows "maxLines (b' is) = maxLines b" "pageSize (b' is) = pageSize b"
    "tailPage (b' is) = tailPage b" "baseSeq (b' is) = baseSeq b"
    "lineStart (b' is) = lineStart b" "scanFrom (b' is) = scanFrom b"
    "lb_gen (b' is) = lb_gen b" "pageOf (b' is) = pageOf b"
    "startAt (b' is) = startAt b" "endAt (b' is) = endAt b"
    "lb_base (b' is) = lb_base b" "lb_used (b' is) = lb_used b"
    "length (pages (b' is)) = length (pages b)"
    "length (pageRefs (b' is)) = length (pageRefs b)"
  unfolding b'_def by (induction "is" arbitrary: b) simp_all

lemma evict_fold_live [simp]: "live (fold evict_line is b) = live b"
  by (simp add: live_def)

lemma evict_fold_arr_ok [simp]: "arr_ok (fold evict_line is b) = arr_ok b"
  by (simp add: arr_ok_def)

text \<open>
  After the first \<open>k\<close> lines are given up, a page's count is what the lines after them
  need, and only a page none of them needs has been blanked.
\<close>

lemma evict_fold_pages:
  assumes "lb_core b" "k \<le> lb_length b" "p < length (pages b)"
  defines "b' \<equiv> fold evict_line [lb_base b ..< lb_base b + k] b"
  shows "pageRefs b' ! p = int (count_list (drop k (map fst (live b))) p)"
    and "pages b' ! p = pages b ! p \<or>
      (pages b' ! p = [] \<and> p \<noteq> tailPage b \<and> p \<notin> set (drop k (map fst (live b))))"
proof -
  let ?ps = "map fst (live b)"
  have "pageRefs (fold evict_line [lb_base b ..< lb_base b + k] b) ! p
      = int (count_list (drop k ?ps) p) \<and>
    (pages (fold evict_line [lb_base b ..< lb_base b + k] b) ! p = pages b ! p \<or>
      (pages (fold evict_line [lb_base b ..< lb_base b + k] b) ! p = [] \<and>
       p \<noteq> tailPage b \<and> p \<notin> set (drop k ?ps)))"
    using assms(2)
  proof (induction k)
    case 0
    then show ?case using assms by (simp add: lb_core_def refs_ok_def)
  next
    case (Suc k)
    let ?b = "fold evict_line [lb_base b ..< lb_base b + k] b"
    have ok: "arr_ok b" and ext: "list_all (extent_ok (pages b)) (live b)"
      and refs: "length (pageRefs b) = length (pages b)"
      using assms by (auto simp: lb_core_def refs_ok_def)
    have k: "k < length (live b)" using Suc.prems ok by (simp add: length_live)
    then have drop_k: "drop k ?ps = pageOf b ! (lb_base b + k) # drop (Suc k) ?ps"
      using live_nth [OF ok, of k] ok by (simp add: length_live flip: Cons_nth_drop_Suc)
    have page: "pageOf b ! (lb_base b + k) < length (pages b)"
      using ext k live_nth [OF ok, of k] ok
      by (auto simp: list_all_length length_live extent_ok_def)
    show ?case
      using Suc k page assms(3) refs drop_k
      by (auto simp: evict_line_refs evict_line_pages nth_list_update count_list_0_iff)
  qed
  then show "pageRefs b' ! p = int (count_list (drop k ?ps) p)"
    and "pages b' ! p = pages b ! p \<or>
      (pages b' ! p = [] \<and> p \<noteq> tailPage b \<and> p \<notin> set (drop k ?ps))"
    by (simp_all add: b'_def)
qed

lemma live_advance:
  assumes "arr_ok b" "k \<le> lb_length b"
  shows "live (b\<lparr>lb_base := lb_base b + k, baseSeq := z\<rparr>) = drop k (live b)"
    and "arr_ok (b\<lparr>lb_base := lb_base b + k, baseSeq := z\<rparr>)"
proof -
  have "slice (lb_base b + k) (lb_used b) xs = drop k (slice (lb_base b) (lb_used b) xs)" for xs :: "nat list"
    by (simp add: slice_def drop_take add.commute)
  then show "live (b\<lparr>lb_base := lb_base b + k, baseSeq := z\<rparr>) = drop k (live b)"
    by (simp add: live_def drop_zip)
  show "arr_ok (b\<lparr>lb_base := lb_base b + k, baseSeq := z\<rparr>)"
    using assms by (auto simp: arr_ok_def lb_length_def)
qed

lemma evict_frame [simp]:
  "maxLines (evict b) = maxLines b" "tailPage (evict b) = tailPage b" "lb_gen (evict b) = lb_gen b"
  "lineStart (evict b) = lineStart b" "scanFrom (evict b) = scanFrom b"
  "pageSize (evict b) = pageSize b"
  by (simp_all add: evict_def Let_def)

lemma evict_facts:
  assumes core: "lb_core b"
  defines "n \<equiv> lb_length b - maxLines b"
  shows "live (evict b) = drop n (live b)" "arr_ok (evict b)"
    "baseSeq (evict b) = baseSeq b + int n" "length (pages (evict b)) = length (pages b)"
    "length (pageRefs (evict b)) = length (pageRefs b)"
    "p < length (pages b) \<Longrightarrow> pageRefs (evict b) ! p = int (count_list (map fst (live (evict b))) p)"
    "p < length (pages b) \<Longrightarrow> pages (evict b) ! p = pages b ! p \<or>
      (p \<noteq> tailPage b \<and> p \<notin> set (map fst (live (evict b))))"
proof -
  have ok: "arr_ok b" using core by (simp add: lb_core_def)
  define b1 where "b1 = fold evict_line [lb_base b ..< lb_base b + n] b"
  have nle: "n \<le> lb_length b1" by (simp add: n_def b1_def lb_length_def)
  have ok1: "arr_ok b1" "live b1 = live b" using ok by (simp_all add: b1_def)
  have excess: "int (lb_used b) - int (lb_base b) - int (maxLines b) \<le> 0 \<longleftrightarrow> n = 0"
    and nat_excess: "n \<noteq> 0 \<Longrightarrow> nat (int (lb_used b) - int (lb_base b) - int (maxLines b)) = n"
    using ok by (auto simp: n_def lb_length_def arr_ok_def)
  have ev: "evict b = b1\<lparr>lb_base := lb_base b1 + n, baseSeq := baseSeq b1 + int n\<rparr>"
    using excess nat_excess by (cases "n = 0") (auto simp: evict_def Let_def b1_def)
  note adv = live_advance [OF ok1(1) nle, of "baseSeq b1 + int n"]
  show L: "live (evict b) = drop n (live b)" and "arr_ok (evict b)"
    using adv ok1 by (simp_all add: ev)
  show "baseSeq (evict b) = baseSeq b + int n" "length (pages (evict b)) = length (pages b)"
    "length (pageRefs (evict b)) = length (pageRefs b)"
    by (simp_all add: ev b1_def)
  assume p: "p < length (pages b)"
  have "n \<le> lb_length b" by (simp add: n_def)
  note pg = evict_fold_pages [OF core this p]
  show "pageRefs (evict b) ! p = int (count_list (map fst (live (evict b))) p)"
    using pg(1) unfolding L by (simp add: ev b1_def drop_map)
  show "pages (evict b) ! p = pages b ! p \<or>
      (p \<noteq> tailPage b \<and> p \<notin> set (map fst (live (evict b))))"
    using pg(2) unfolding L by (auto simp: ev b1_def drop_map)
qed

lemma evict_pages_live:
  assumes "lb_core b" "x \<in> set (live (evict b))"
  shows "pages (evict b) ! fst x = pages b ! fst x" "extent_ok (pages b) x"
proof -
  have "x \<in> set (live b)"
    using assms by (auto simp: evict_facts dest: in_set_dropD)
  then show "extent_ok (pages b) x"
    using assms by (auto simp: lb_core_def list_all_iff)
  then have "fst x < length (pages b)" by (auto simp: extent_ok_def)
  then show "pages (evict b) ! fst x = pages b ! fst x"
    using evict_facts(7) [OF assms(1), of "fst x"] assms(2) by auto
qed

lemma evict_tail: "lb_core b \<Longrightarrow> pages (evict b) ! tailPage b = pages b ! tailPage b"
  using evict_facts(7) [of b "tailPage b"] by (auto simp: lb_core_def)

lemma evict_core [inv_intros]: "lb_core b \<Longrightarrow> lb_core (evict b)"
proof -
  assume core: "lb_core b"
  have "extent_ok (pages (evict b)) x" if "x \<in> set (live (evict b))" for x
    using evict_pages_live [OF core that] evict_facts(4) [OF core]
    by (cases x) (auto simp: extent_ok_def)
  moreover have "refs_ok (evict b)"
    using evict_facts(4,5,6) [OF core] core by (auto simp: refs_ok_def lb_core_def)
  ultimately show ?thesis
    using evict_facts(2,4) [OF core] core by (auto simp: lb_core_def list_all_iff)
qed

lemma evict_abs: "lb_core b \<Longrightarrow> lb_abs (evict b) = ll_evict (maxLines b) (lb_abs b)"
proof -
  assume core: "lb_core b"
  have len: "lb_length b = length (live b)"
    using core by (simp add: lb_core_def length_live)
  have "map (line_of (pages (evict b))) (live (evict b)) = map (line_of (pages b)) (live (evict b))"
    using evict_pages_live(1) [OF core] by (auto simp: line_of_def)
  then show ?thesis
    using evict_facts [OF core] evict_tail [OF core]
    by (simp add: lb_abs_def ll_evict_def len drop_map)
qed

section \<open>Appending\<close>

lemma append_scan_spec:
  assumes "lb_core b" "page < length (pages b)" "pages b ! page = tx"
    "lineStart b \<le> k" "k \<le> length tx" "NL \<notin> set (slice (lineStart b) k tx)"
  defines "b' \<equiv> append_scan page tx k b"
  defines "parts \<equiv> split_on NL (drop (lineStart b) tx)"
  shows "lb_core b' \<and> pages b' = pages b \<and> tailPage b' = tailPage b \<and> maxLines b' = maxLines b \<and>
    pageSize b' = pageSize b \<and> baseSeq b' = baseSeq b \<and> lb_gen b' = lb_gen b \<and>
    lineStart b' \<le> length tx \<and> drop (lineStart b') tx = last parts \<and>
    map (line_of (pages b)) (live b') = map (line_of (pages b)) (live b) @ map strip_cr (butlast parts)"
  using assms(1,2,3,4,5,6) unfolding b'_def parts_def
proof (induction page tx k b rule: append_scan.induct)
  case (1 page tx k b)
  have split: "drop (lineStart b) tx = slice (lineStart b) k tx @ drop k tx"
    using "1.prems"(4) by (rule drop_eq_slice_append)
  show ?case
  proof (cases "indexOf tx NL k")
    case None
    with "1.prems" split have "NL \<notin> set (drop (lineStart b) tx)"
      by (auto simp: indexOf_None_iff)
    with None "1.prems" show ?thesis by (simp add: append_scan.simps)
  next
    case (Some nl)
    note nl = indexOf_SomeD [OF Some]
    let ?b1 = "(pushLine b page (lineStart b) nl)\<lparr>lineStart := nl + 1\<rparr>"
    have ls: "lineStart b \<le> nl" using "1.prems" nl by simp
    have core1: "lb_core ?b1"
      using pushLine_core [OF "1.prems"(1,2) ls] "1.prems" nl by simp
    have "slice (lineStart b) nl tx = slice (lineStart b) k tx @ slice k nl tx"
      using slice_append [of "lineStart b" k nl tx] "1.prems"(4) nl(1) by simp
    then have no: "NL \<notin> set (slice (lineStart b) nl tx)"
      using "1.prems"(6) nl(4) by simp
    have "drop (lineStart b) tx = slice (lineStart b) nl tx @ NL # drop (nl + 1) tx"
      using drop_eq_slice_append [OF ls, of tx] nl by (simp flip: Cons_nth_drop_Suc)
    then have parts: "split_on NL (drop (lineStart b) tx)
        = slice (lineStart b) nl tx # split_on NL (drop (nl + 1) tx)"
      using no by simp
    have lines: "map (line_of (pages b)) (live ?b1)
        = map (line_of (pages b)) (live b) @ [strip_cr (slice (lineStart b) nl tx)]"
      using pushLine_lines [OF "1.prems"(1) ls] "1.prems" nl by simp
    show ?thesis
      using "1.IH" [OF Some core1] Some "1.prems" nl parts lines
      by (simp add: append_scan.simps [of page tx k b] slice_def)
  qed
qed

lemma evict_inv [inv_intros]: "lb_inv b \<Longrightarrow> lb_inv (evict b)"
  using evict_core [of b] evict_tail [of b] by (simp add: lb_inv_def)

lemma newPage_simps:
  "newPage b t = (b\<lparr>pages := pages b @ [t], pageRefs := pageRefs b @ [0]\<rparr>, length (pages b))"
  by (simp add: newPage_def Let_def)

text \<open>A new page disturbs nothing: no live line refers to it yet.\<close>

lemma newPage_core [inv_intros]: "lb_core b \<Longrightarrow> lb_core (fst (newPage b t))"
proof -
  assume core: "lb_core b"
  have "length (pages b) \<notin> set (map fst (live b))"
    using core by (force simp: lb_core_def list_all_iff extent_ok_def)
  then have "refs_ok (fst (newPage b t))"
    using core by (auto simp: newPage_simps refs_ok_def lb_core_def nth_append less_Suc_eq count_list_0_iff)
  moreover have "list_all (extent_ok (pages b @ [t])) (live b)"
    using core by (auto simp: lb_core_def list_all_iff extent_ok_def nth_append)
  ultimately show ?thesis
    using core by (simp add: newPage_simps lb_core_def)
qed

lemma line_of_append_page:
  "extent_ok ps x \<Longrightarrow> line_of (ps @ qs) x = line_of ps x"
  by (auto simp: extent_ok_def line_of_def nth_append)

text \<open>Text added to the tail page leaves every line already indexed as it was.\<close>

lemma extend_tail:
  fixes b :: log_buffer and chunk :: jsstring
  assumes "lb_core b"
  defines "b1 \<equiv> b\<lparr>pages := (pages b)[tailPage b := pages b ! tailPage b @ chunk]\<rparr>"
  shows "lb_core b1" "map (line_of (pages b1)) (live b1) = map (line_of (pages b)) (live b)"
proof -
  show "lb_core b1"
    using assms(1) unfolding b1_def
    by (auto simp: lb_core_def refs_ok_def list_all_iff extent_ok_def nth_list_update)
  have "line_of (pages b1) x = line_of (pages b) x" if "x \<in> set (live b)" for x
    using that assms(1) unfolding b1_def
    by (auto simp: lb_core_def list_all_iff extent_ok_def line_of_def slice_def nth_list_update)
  then show "map (line_of (pages b1)) (live b1) = map (line_of (pages b)) (live b)"
    by (auto simp: b1_def)
qed

lemma index_chunk_refines:
  fixes chunk :: jsstring
  assumes inv: "lb_inv b"
  defines "b2 \<equiv> index_chunk b chunk"
    and "parts \<equiv> split_on NL (ll_pending (lb_abs b) @ chunk)"
  shows "lb_inv b2" "maxLines b2 = maxLines b" "lb_gen b2 = lb_gen b" "tailPage b2 = tailPage b"
    "lb_abs b2 = lb_abs b\<lparr>ll_lines := ll_lines (lb_abs b) @ map strip_cr (butlast parts), ll_pending := last parts\<rparr>"
proof -
  define b1 where "b1 = b\<lparr>pages := (pages b)[tailPage b := pages b ! tailPage b @ chunk]\<rparr>"
  define tx where "tx = pages b ! tailPage b @ chunk"
  have core: "lb_core b" and tail: "tailPage b < length (pages b)"
    using inv by (simp_all add: lb_inv_def lb_core_def)
  note ext = extend_tail [OF core, of chunk, folded b1_def]
  have b1: "pages b1 ! tailPage b = tx" "tailPage b < length (pages b1)"
    using tail by (simp_all add: b1_def tx_def)
  have "NL \<notin> set (slice (lineStart b1) (scanFrom b) tx)" "lineStart b1 \<le> scanFrom b" "scanFrom b \<le> length tx"
    using inv by (auto simp: b1_def tx_def lb_inv_def slice_def)
  note scan = append_scan_spec [OF ext(1) b1(2,1) this(2,3,1)]
  have frame: "lineStart b1 = lineStart b" "baseSeq b1 = baseSeq b" "maxLines b1 = maxLines b"
    "lb_gen b1 = lb_gen b" "tailPage b1 = tailPage b" "scanFrom b1 = scanFrom b"
    by (simp_all add: b1_def)
  have b2: "b2 = (append_scan (tailPage b) tx (scanFrom b) b1)\<lparr>scanFrom := length tx\<rparr>"
    using b1(1) unfolding b2_def index_chunk_def Let_def b1_def [symmetric] frame(6) by simp
  have parts: "split_on NL (drop (lineStart b) tx) = parts"
    using inv by (simp add: parts_def tx_def lb_inv_def frame)
  have "NL \<notin> set (last parts)"
    unfolding parts_def by (metis last_in_set split_on_not_Nil split_on_parts)
  then show "lb_inv b2" using scan b1 by (simp add: lb_inv_def b2 frame parts)
  show "maxLines b2 = maxLines b" "lb_gen b2 = lb_gen b" "tailPage b2 = tailPage b"
    using scan by (simp_all add: b2 frame)
  show "lb_abs b2 = lb_abs b\<lparr>ll_lines := ll_lines (lb_abs b) @ map strip_cr (butlast parts), ll_pending := last parts\<rparr>"
    using scan ext(2) b1 by (simp add: lb_abs_def b2 frame parts)
qed

lemma roll_page_refines:
  assumes "lb_inv b"
  shows "lb_inv (roll_page b)" "lb_abs (roll_page b) = lb_abs b" "maxLines (roll_page b) = maxLines b"
    "lb_gen (roll_page b) = lb_gen b"
  using assms newPage_core [of b "[]"]
  by (auto simp: roll_page_def newPage_simps Let_def lb_inv_def lb_core_def refs_ok_def lb_abs_def
      list_all_iff line_of_append_page)

lemma append_refines:
  assumes inv: "lb_inv b"
  shows "lb_inv (append b chunk)" "lb_abs (append b chunk) = ll_append (maxLines b) (lb_abs b) chunk"
    "maxLines (append b chunk) = maxLines b" "generation (append b chunk) = generation b"
proof -
  note index = index_chunk_refines [OF inv, of chunk]
  note roll = roll_page_refines [OF index(1)]
  have core: "lb_core (roll_page (index_chunk b chunk))" using roll(1) by (simp add: lb_inv_def)
  show "lb_inv (append b chunk)"
    using inv roll(1) by (simp add: append_def evict_inv)
  show "lb_abs (append b chunk) = ll_append (maxLines b) (lb_abs b) chunk"
    using core by (simp add: append_def evict_abs roll index ll_append_def Let_def)
  show "maxLines (append b chunk) = maxLines b" "generation (append b chunk) = generation b"
    by (simp_all add: append_def roll index generation_def)
qed

lemma flushPartial_refines:
  assumes inv: "lb_inv b"
  shows "lb_inv (flushPartial b)" "lb_abs (flushPartial b) = ll_flush (maxLines b) (lb_abs b)"
    "maxLines (flushPartial b) = maxLines b" "generation (flushPartial b) = generation b"
proof -
  let ?tx = "pages b ! tailPage b"
  let ?b1 = "(pushLine b (tailPage b) (lineStart b) (length ?tx))\<lparr>lineStart := length ?tx\<rparr>"
  have core: "lb_core b" and tail: "tailPage b < length (pages b)" and ls: "lineStart b \<le> length ?tx"
    using inv by (simp_all add: lb_inv_def lb_core_def)
  have inv1: "lb_inv ?b1"
    using pushLine_core [OF core tail ls] inv by (simp add: lb_inv_def)
  have abs1: "lb_abs ?b1 = lb_abs b\<lparr>ll_lines := ll_lines (lb_abs b) @ [strip_cr (ll_pending (lb_abs b))],
      ll_pending := []\<rparr>"
    using pushLine_lines [OF core ls, of "tailPage b"]
    by (simp add: lb_abs_def slice_to_end)
  have fl: "flushPartial b = (if lineStart b < length ?tx then evict ?b1 else b)"
    by (simp add: flushPartial_def Let_def)
  show "lb_inv (flushPartial b)"
    using inv inv1 by (simp add: fl evict_inv)
  have "lb_core ?b1" using inv1 by (simp add: lb_inv_def)
  then have "lb_abs (evict ?b1) = ll_evict (maxLines b) (lb_abs ?b1)"
    by (simp add: evict_abs)
  then show "lb_abs (flushPartial b) = ll_flush (maxLines b) (lb_abs b)"
    using ls by (simp add: fl abs1 ll_flush_def)
  show "maxLines (flushPartial b) = maxLines b" "generation (flushPartial b) = generation b"
    by (simp_all add: fl generation_def)
qed

section \<open>Prepending\<close>

lemma prepend_extents_bounds:
  "(s, e) \<in> set (prepend_extents chunk k) \<Longrightarrow> s < e \<and> e \<le> length chunk"
proof (induction chunk k rule: prepend_extents.induct)
  case (1 chunk k)
  show ?case
  proof (cases "indexOf chunk NL k")
    case None
    with "1.prems" show ?thesis
      by (auto simp: prepend_extents.simps [of chunk k] split: if_splits)
  next
    case (Some i)
    with "1.prems" "1.IH" [OF _ refl refl refl] show ?thesis
      using indexOf_SomeD(2) [OF Some]
      by (auto simp: prepend_extents.simps [of chunk k] split: if_splits)
  qed
qed

text \<open>The extents name exactly the chunk's non-empty lines.\<close>

lemma prepend_extents_lines:
  "k \<le> length chunk \<Longrightarrow> map (\<lambda>(s, e). slice s e chunk) (prepend_extents chunk k)
     = filter (\<lambda>l. l \<noteq> []) (split_on NL (drop k chunk))"
proof (induction chunk k rule: prepend_extents.induct)
  case (1 chunk k)
  show ?case
  proof (cases "indexOf chunk NL k")
    case None
    then have "NL \<notin> set (drop k chunk)" by (simp add: indexOf_None_iff)
    with None "1.prems" show ?thesis
      by (auto simp: prepend_extents.simps [of chunk k] slice_to_end)
  next
    case (Some i)
    note i = indexOf_SomeD [OF Some]
    have "drop k chunk = slice k i chunk @ NL # drop (i + 1) chunk"
      using drop_eq_slice_append [OF i(1), of chunk] i by (simp flip: Cons_nth_drop_Suc)
    then have "split_on NL (drop k chunk) = slice k i chunk # split_on NL (drop (i + 1) chunk)"
      using i(4) by simp
    moreover have "slice k i chunk = [] \<longleftrightarrow> \<not> k < i"
      using i by (auto simp: slice_def)
    ultimately show ?thesis
      using i "1.prems" "1.IH" [OF _ refl refl refl Some]
      by (simp add: prepend_extents.simps [of chunk k] Some)
  qed
qed

lemma reserveFront_frame [simp]:
  "maxLines (reserveFront b n) = maxLines b" "pages (reserveFront b n) = pages b"
  "pageRefs (reserveFront b n) = pageRefs b" "tailPage (reserveFront b n) = tailPage b"
  "baseSeq (reserveFront b n) = baseSeq b" "lineStart (reserveFront b n) = lineStart b"
  "scanFrom (reserveFront b n) = scanFrom b" "lb_gen (reserveFront b n) = lb_gen b"
  by (simp_all add: reserveFront_def Let_def)

lemma reserveFront_live:
  assumes ok: "arr_ok b"
  shows "live (reserveFront b n) = live b" "arr_ok (reserveFront b n)" "n \<le> lb_base (reserveFront b n)"
proof -
  define l where "l = lb_used b - lb_base b"
  define gap where "gap = max n (maxLines b div 4)"
  define cap where "cap = max (length (pageOf b)) (gap + l + 1)"
  define seg where "seg = (\<lambda>xs :: nat list. slice (lb_base b) (lb_used b) xs)"
  have caps: "gap + l \<le> cap" "n \<le> gap" "gap \<le> cap" "0 < cap"
    by (auto simp: cap_def gap_def)
  have lens: "length (seg (pageOf b)) = l" "length (seg (startAt b)) = l" "length (seg (endAt b)) = l"
    using ok by (auto simp: arr_ok_def seg_def l_def)
  have def: "reserveFront b n = (if n \<le> lb_base b then b
      else b\<lparr>pageOf := blit (replicate cap 0) gap (seg (pageOf b)),
        startAt := blit (replicate cap 0) gap (seg (startAt b)),
        endAt := blit (replicate cap 0) gap (seg (endAt b)), lb_base := gap, lb_used := gap + l\<rparr>)"
    by (simp add: reserveFront_def Let_def cap_def gap_def l_def seg_def)
  have moved: "slice gap (gap + l) (blit (replicate cap 0) gap (seg xs)) = seg xs"
    if "length (seg xs) = l" for xs
    using slice_blit [of gap "replicate cap 0" "seg xs"] that caps by simp
  show "live (reserveFront b n) = live b"
    by (simp add: def live_def moved lens) (simp add: seg_def)
  show "arr_ok (reserveFront b n)" "n \<le> lb_base (reserveFront b n)"
    using ok caps lens by (simp_all add: def arr_ok_def del: length_greater_0_conv)
qed

lemma prepend_write_frame [simp]:
  "maxLines (prepend_write c p t es b) = maxLines b" "pages (prepend_write c p t es b) = pages b"
  "pageRefs (prepend_write c p t es b) = pageRefs b" "tailPage (prepend_write c p t es b) = tailPage b"
  "baseSeq (prepend_write c p t es b) = baseSeq b" "lineStart (prepend_write c p t es b) = lineStart b"
  "scanFrom (prepend_write c p t es b) = scanFrom b" "lb_gen (prepend_write c p t es b) = lb_gen b"
  "lb_base (prepend_write c p t es b) = lb_base b" "lb_used (prepend_write c p t es b) = lb_used b"
  by (induction c p t es b rule: prepend_write.induct) simp_all

lemma prepend_write_arrays:
  assumes "t + length es \<le> length (pageOf b)" "length (startAt b) = length (pageOf b)"
    "length (endAt b) = length (pageOf b)"
  shows "pageOf (prepend_write c p t es b) = blit (pageOf b) t (map (\<lambda>_. p) es)"
    "startAt (prepend_write c p t es b) = blit (startAt b) t (map fst es)"
    "endAt (prepend_write c p t es b) = blit (endAt b) t (map (\<lambda>x. trim_cr_end c (snd x)) es)"
  using assms by (induction c p t es b rule: prepend_write.induct) (simp_all add: blit_Cons)

lemma zip_map_same: "zip (map f xs) (zip (map g xs) (map h xs)) = map (\<lambda>x. (f x, g x, h x)) xs"
  by (induction xs) auto

lemma prepend_write_live:
  fixes es :: "(nat \<times> nat) list" and c :: jsstring and p :: nat
  assumes "arr_ok b" "length es \<le> lb_base b"
  defines "b' \<equiv> (prepend_write c p (lb_base b - length es) es b)\<lparr>lb_base := lb_base b - length es\<rparr>"
  shows "live b' = map (\<lambda>(s, e). (p, s, trim_cr_end c e)) es @ live b" "arr_ok b'"
proof -
  have len: "lb_base b - length es + length es \<le> length (pageOf b)" "lb_base b \<le> lb_used b"
    "lb_used b \<le> length (pageOf b)" "length (startAt b) = length (pageOf b)"
    "length (endAt b) = length (pageOf b)"
    using assms by (auto simp: arr_ok_def)
  note arr = prepend_write_arrays [OF len(1,4,5), of c p]
  have seg: "slice (lb_base b - length es) (lb_used b) (blit xs (lb_base b - length es) (map f es))
      = map f es @ slice (lb_base b) (lb_used b) xs"
    if "length xs = length (pageOf b)" for xs :: "nat list" and f
    using slice_blit_append [of "lb_base b - length es" "map f es" "lb_used b" xs] that len assms(2)
    by simp
  show "live b' = map (\<lambda>(s, e). (p, s, trim_cr_end c e)) es @ live b"
    by (simp add: b'_def live_def arr seg len zip_map_same case_prod_unfold)
  show "arr_ok b'"
    using assms len by (simp add: b'_def arr_ok_def arr)
qed

lemma trim_cr_end_trim_cr: "s < e \<Longrightarrow> trim_cr_end t e = trim_cr t s e"
  by (simp add: trim_cr_end_def trim_cr_def)

lemma prepend_lines_live:
  fixes es :: "(nat \<times> nat) list" and page :: nat and chunk :: jsstring
  assumes ok: "arr_ok b"
  defines "b4 \<equiv> prepend_lines b page chunk es"
  shows "live b4 = map (\<lambda>(s, e). (page, s, trim_cr_end chunk e)) es @ live b" "arr_ok b4"
    "pages b4 = pages b" "pageRefs b4 = (pageRefs b)[page := pageRefs b ! page + int (length es)]"
    "tailPage b4 = tailPage b" "lineStart b4 = lineStart b" "scanFrom b4 = scanFrom b"
    "maxLines b4 = maxLines b" "lb_gen b4 = lb_gen b" "baseSeq b4 = baseSeq b - int (length es)"
proof -
  note b2 = reserveFront_live [OF ok, of "length es"]
  note b3 = prepend_write_live [OF b2(2,3), of chunk page]
  show "live b4 = map (\<lambda>(s, e). (page, s, trim_cr_end chunk e)) es @ live b"
    using b3(1) b2(1) by (simp add: b4_def prepend_lines_def Let_def live_def)
  show "arr_ok b4" using b3(2) by (simp add: b4_def prepend_lines_def Let_def arr_ok_def)
qed (simp_all add: b4_def prepend_lines_def Let_def)

lemma prepend_lines_core:
  assumes core: "lb_core b" and page: "page < length (pages b)" "pages b ! page = chunk"
    and es: "\<And>s e. (s, e) \<in> set es \<Longrightarrow> s < e \<and> e \<le> length chunk"
  shows "lb_core (prepend_lines b page chunk es)"
proof -
  have ok: "arr_ok b" and refs: "refs_ok b" using core by (simp_all add: lb_core_def)
  note b4 = prepend_lines_live [OF ok, of page chunk es]
  have "extent_ok (pages b) (page, s, trim_cr_end chunk e)" if "(s, e) \<in> set es" for s e
    using es [OF that] trim_cr_bounds [of s e chunk] trim_cr_end_trim_cr [of s e chunk] page
    by (simp add: extent_ok_def)
  then have "list_all (extent_ok (pages b)) (live (prepend_lines b page chunk es))"
    using core by (auto simp: b4 list_all_iff lb_core_def)
  moreover have "count_list (map fst (map (\<lambda>(s, e). (page, s, trim_cr_end chunk e)) es)) p
      = (if p = page then length es else 0)" for p
    by (induction es) auto
  then have "refs_ok (prepend_lines b page chunk es)"
    using refs page by (auto simp: refs_ok_def b4 nth_list_update)
  ultimately show ?thesis using core by (simp add: lb_core_def b4)
qed

lemma prepend_lines_new:
  assumes "pages b ! page = chunk" "es = prepend_extents chunk 0"
  shows "map (line_of (pages b)) (map (\<lambda>(s, e). (page, s, trim_cr_end chunk e)) es) = ll_earlier chunk"
proof -
  have "line_of (pages b) (page, s, trim_cr_end chunk e) = strip_cr (slice s e chunk)"
    if "(s, e) \<in> set es" for s e
    using prepend_extents_bounds [of s e chunk 0] that trim_cr_end_trim_cr [of s e chunk]
      slice_trim_cr [of s e chunk] assms
    by (simp add: line_of_def)
  then have "map (line_of (pages b)) (map (\<lambda>(s, e). (page, s, trim_cr_end chunk e)) es)
      = map strip_cr (map (\<lambda>(s, e). slice s e chunk) es)"
    by auto
  also have "\<dots> = ll_earlier chunk"
    using prepend_extents_lines [of 0 chunk] assms by (simp add: ll_earlier_def)
  finally show ?thesis .
qed

lemma newPage_refines:
  fixes t :: jsstring
  assumes "lb_inv b"
  defines "b1 \<equiv> fst (newPage b t)"
  shows "lb_inv b1" "lb_abs b1 = lb_abs b" "maxLines b1 = maxLines b" "lb_gen b1 = lb_gen b"
    "pages b1 ! length (pages b) = t" "length (pages b) < length (pages b1)"
  using assms(1) newPage_core [of b t] unfolding b1_def
  by (auto simp: lb_inv_def newPage_simps lb_abs_def lb_core_def nth_append list_all_iff line_of_append_page)

lemma prepend_lines_refines:
  assumes inv: "lb_inv b" and page: "page < length (pages b)" "pages b ! page = chunk"
    and es: "es = prepend_extents chunk 0"
  defines "b4 \<equiv> prepend_lines b page chunk es"
  shows "lb_inv b4" "lb_abs b4 = ll_prepend (lb_abs b) chunk" "maxLines b4 = maxLines b" "lb_gen b4 = lb_gen b"
proof -
  have core: "lb_core b" and ok: "arr_ok b" using inv by (simp_all add: lb_inv_def lb_core_def)
  note b4 = prepend_lines_live [OF ok, of page chunk es, folded b4_def]
  note new = prepend_lines_new [OF page(2) es]
  have "s < e \<and> e \<le> length chunk" if "(s, e) \<in> set es" for s e
    using that unfolding es by (rule prepend_extents_bounds)
  then have "lb_core b4" unfolding b4_def using core page by (intro prepend_lines_core) auto
  then show "lb_inv b4" using inv by (simp add: lb_inv_def b4)
  have "length es = length (ll_earlier chunk)" using new by (metis length_map)
  then show "lb_abs b4 = ll_prepend (lb_abs b) chunk"
    using new by (simp add: lb_abs_def ll_prepend_def b4)
  show "maxLines b4 = maxLines b" "lb_gen b4 = lb_gen b" by (simp_all add: b4)
qed

lemma prepend_refines:
  assumes inv: "lb_inv b"
  shows "lb_inv (fst (prepend b chunk))" "lb_abs (fst (prepend b chunk)) = ll_prepend (lb_abs b) chunk"
    "snd (prepend b chunk) = length (ll_earlier chunk)"
    "maxLines (fst (prepend b chunk)) = maxLines b" "generation (fst (prepend b chunk)) = generation b"
proof -
  define es where "es = prepend_extents chunk 0"
  define b1 where "b1 = fst (newPage b chunk)"
  note b1 = newPage_refines [OF inv, of chunk, folded b1_def]
  note b4 = prepend_lines_refines [OF b1(1,6,5) es_def]
  have len: "length es = length (ll_earlier chunk)"
    using prepend_lines_new [OF b1(5) es_def] by (metis length_map)
  have pre: "prepend b chunk = (if chunk = [] then (b, 0)
      else if es = [] then (b1, 0) else (prepend_lines b1 (length (pages b)) chunk es, length es))"
    by (simp add: prepend_def newPage_simps Let_def es_def b1_def)
  have nil: "chunk = [] \<Longrightarrow> es = []"
    by (simp add: es_def prepend_extents.simps)
  show "lb_inv (fst (prepend b chunk))" using inv b1 b4 by (simp add: pre)
  show "snd (prepend b chunk) = length (ll_earlier chunk)" using len nil by (auto simp: pre)
  show "maxLines (fst (prepend b chunk)) = maxLines b" "generation (fst (prepend b chunk)) = generation b"
    using b1 b4 by (simp_all add: pre generation_def)
  have "es = [] \<Longrightarrow> ll_prepend (lb_abs b) chunk = lb_abs b"
    using len by (simp add: ll_prepend_def)
  then show "lb_abs (fst (prepend b chunk)) = ll_prepend (lb_abs b) chunk"
    using b1 b4 nil by (auto simp: pre)
qed

section \<open>Construction, reset and reading\<close>

lemma new_log_buffer_refines:
  "lb_inv (new_log_buffer m p)" "lb_abs (new_log_buffer m p) = \<lparr>ll_lines = [], ll_first = 0, ll_pending = []\<rparr>"
  by (auto simp: new_log_buffer_def lb_inv_def lb_core_def arr_ok_def refs_ok_def live_def lb_abs_def
      INITIAL_CAPACITY_def)

lemma clear_refines:
  assumes "lb_inv b"
  shows "lb_inv (clear b)" "lb_abs (clear b) = \<lparr>ll_lines = [], ll_first = 0, ll_pending = []\<rparr>"
    "maxLines (clear b) = maxLines b" "generation (clear b) = generation b + 1"
  using assms by (auto simp: clear_def lb_inv_def lb_core_def arr_ok_def refs_ok_def live_def lb_abs_def
      generation_def)

lemma lineAt_refines:
  assumes "lb_inv b"
  shows "lineAt b seq =
    (let l = lb_abs b in
     if ll_first l \<le> seq \<and> seq < ll_first l + int (length (ll_lines l))
     then Some (ll_lines l ! nat (seq - ll_first l)) else None)"
proof -
  have ok: "arr_ok b" using assms by (simp add: lb_inv_def lb_core_def)
  show ?thesis
  proof (cases "baseSeq b \<le> seq \<and> seq < baseSeq b + int (lb_length b)")
    case True
    define k where "k = nat (seq - baseSeq b)"
    have k: "k < lb_length b" "seq = baseSeq b + int k" using True by (auto simp: k_def)
    then have "nat (int (lb_base b) + (seq - baseSeq b)) = lb_base b + k" by simp
    with k ok show ?thesis
      by (auto simp: lineAt_def Let_def length_live line_of_def live_nth lb_length_def)
  next
    case False
    then show ?thesis
      using ok by (auto simp: lineAt_def Let_def length_live lb_length_def arr_ok_def)
  qed
qed

lemma lb_length_refines: "lb_inv b \<Longrightarrow> lb_length b = length (ll_lines (lb_abs b))"
  by (simp add: lb_inv_def lb_core_def length_live)

lemma firstSeq_refines: "firstSeq b = ll_first (lb_abs b)"
  by (simp add: firstSeq_def)

lemma endSeq_refines: "lb_inv b \<Longrightarrow> endSeq b = ll_first (lb_abs b) + int (length (ll_lines (lb_abs b)))"
  using lb_length_refines [of b]
  by (auto simp: endSeq_def lb_length_def lb_inv_def lb_core_def arr_ok_def)

lemma lb_text_refines:
  assumes "lb_inv b"
  shows "lb_text b = (if ll_lines (lb_abs b) = [] then [] else join [NL] (ll_lines (lb_abs b)) @ [NL])"
proof -
  let ?l = "lb_abs b"
  have "lineAt b (firstSeq b + int k) = Some (ll_lines ?l ! k)" if "k < lb_length b" for k
    using that by (simp add: lineAt_refines [OF assms] lb_length_refines [OF assms] firstSeq_refines Let_def)
  then have "List.map_filter (lineAt b) (map (\<lambda>k. firstSeq b + int k) [0 ..< lb_length b])
      = map (\<lambda>k. ll_lines ?l ! k) [0 ..< lb_length b]"
    by (simp add: List.map_filter_def)
  also have "\<dots> = ll_lines ?l"
    unfolding lb_length_refines [OF assms] by (rule map_nth)
  finally show ?thesis
    by (simp add: lb_text_def Let_def)
qed

section \<open>Runs\<close>

text \<open>Any sequence of the calls that change a buffer, on the buffer and on the reference.\<close>

datatype lb_op = Append jsstring | FlushPartial | Prepend jsstring | Clear

fun lb_step :: "lb_op \<Rightarrow> log_buffer \<Rightarrow> log_buffer" where
  "lb_step (Append chunk) b = append b chunk"
| "lb_step FlushPartial b = flushPartial b"
| "lb_step (Prepend chunk) b = fst (prepend b chunk)"
| "lb_step Clear b = clear b"

definition ll_empty :: line_log where
  "ll_empty = \<lparr>ll_lines = [], ll_first = 0, ll_pending = []\<rparr>"

fun ll_step :: "nat \<Rightarrow> lb_op \<Rightarrow> line_log \<Rightarrow> line_log" where
  "ll_step n (Append chunk) l = ll_append n l chunk"
| "ll_step n FlushPartial l = ll_flush n l"
| "ll_step n (Prepend chunk) l = ll_prepend l chunk"
| "ll_step n Clear l = ll_empty"

definition ll_line :: "line_log \<Rightarrow> int \<Rightarrow> jsstring option" where
  "ll_line l seq = (if ll_first l \<le> seq \<and> seq < ll_first l + int (length (ll_lines l))
     then Some (ll_lines l ! nat (seq - ll_first l)) else None)"

definition ll_text :: "line_log \<Rightarrow> jsstring" where
  "ll_text l = (if ll_lines l = [] then [] else join [NL] (ll_lines l) @ [NL])"

lemma lb_step_refines:
  assumes "lb_inv b"
  shows "lb_inv (lb_step c b)" "lb_abs (lb_step c b) = ll_step (maxLines b) c (lb_abs b)"
    "maxLines (lb_step c b) = maxLines b"
    "generation (lb_step c b) = generation b + (if c = Clear then 1 else 0)"
  using append_refines [OF assms] flushPartial_refines [OF assms] prepend_refines [OF assms]
    clear_refines [OF assms]
  by (cases c; simp add: ll_empty_def)+

lemma lb_run_refines:
  "lb_inv b \<Longrightarrow> lb_inv (fold lb_step cs b) \<and> lb_abs (fold lb_step cs b) = fold (ll_step (maxLines b)) cs (lb_abs b)"
proof (induction cs arbitrary: b)
  case (Cons c cs)
  note step = lb_step_refines [OF Cons.prems, of c]
  show ?case using Cons.IH [OF step(1)] by (simp add: step)
qed simp

lemma lineAt_ll_line: "lb_inv b \<Longrightarrow> lineAt b = ll_line (lb_abs b)"
  by (rule ext) (simp add: lineAt_refines ll_line_def Let_def)

lemma ll_line_cong:
  "ll_line l q = Some x \<longleftrightarrow> (\<exists>k < length (ll_lines l). q = ll_first l + int k \<and> x = ll_lines l ! k)"
proof
  assume "ll_line l q = Some x"
  then show "\<exists>k < length (ll_lines l). q = ll_first l + int k \<and> x = ll_lines l ! k"
    by (intro exI [of _ "nat (q - ll_first l)"]) (auto simp: ll_line_def split: if_splits)
qed (auto simp: ll_line_def)

text \<open>Within a generation a step only drops lines at the front or adds them at either end.\<close>

definition ll_extends :: "line_log \<Rightarrow> line_log \<Rightarrow> bool" where
  "ll_extends l l' \<longleftrightarrow> (\<exists>old new k. k \<le> length (old @ ll_lines l @ new) \<and>
     ll_lines l' = drop k (old @ ll_lines l @ new) \<and>
     ll_first l' = ll_first l - int (length old) + int k)"

lemma ll_extendsI:
  "k \<le> length (old @ ll_lines l @ new) \<Longrightarrow> ll_lines l' = drop k (old @ ll_lines l @ new) \<Longrightarrow>
   ll_first l' = ll_first l - int (length old) + int k \<Longrightarrow> ll_extends l l'"
  unfolding ll_extends_def by blast

lemma ll_extends_evict:
  "ll_lines l' = ll_lines l @ new \<Longrightarrow> ll_first l' = ll_first l \<Longrightarrow> ll_extends l (ll_evict n l')"
  by (rule ll_extendsI [of "length (ll_lines l') - n" "[]" l new]) (simp_all add: ll_evict_def)

lemma ll_extends_refl: "ll_extends l l"
  by (rule ll_extendsI [of 0 "[]" l "[]"]) simp_all

lemma ll_step_extends: "c \<noteq> Clear \<Longrightarrow> ll_extends l (ll_step n c l)"
proof (cases c)
  case (Prepend chunk)
  then show ?thesis
    by (intro ll_extendsI [of 0 "ll_earlier chunk" l "[]"]) (simp_all add: ll_prepend_def)
qed (auto simp: ll_append_def ll_flush_def Let_def intro: ll_extends_refl ll_extends_evict)

lemma ll_extends_line:
  assumes "ll_extends l l'" "ll_line l q = Some x" "ll_line l' q = Some y"
  shows "y = x"
proof -
  obtain old new k where l': "ll_lines l' = drop k (old @ ll_lines l @ new)"
    "ll_first l' = ll_first l - int (length old) + int k" "k \<le> length (old @ ll_lines l @ new)"
    using assms(1) unfolding ll_extends_def by blast
  obtain i where i: "i < length (ll_lines l)" "q = ll_first l + int i" "x = ll_lines l ! i"
    using assms(2) by (auto simp: ll_line_cong)
  obtain j where j: "j < length (ll_lines l')" "q = ll_first l' + int j" "y = ll_lines l' ! j"
    using assms(3) by (auto simp: ll_line_cong)
  have kj: "k + j = length old + i" using i(2) j(2) l'(2) by linarith
  have "y = (old @ ll_lines l @ new) ! (k + j)"
    using j(3) l'(3) unfolding l'(1) by (rule trans [OF _ nth_drop])
  then show ?thesis unfolding kj using i by (simp add: nth_append)
qed

lemma ll_extends_past:
  "ll_extends l l' \<Longrightarrow> ll_first l + int (length (ll_lines l)) \<le> ll_first l' + int (length (ll_lines l'))"
  unfolding ll_extends_def by auto

interpretation lb: line_store lb_inv lb_step lineAt generation firstSeq endSeq
proof
  fix b c q l l' assume inv: "lb_inv b"
  note step = lb_step_refines [OF inv, of c]
  show "lb_inv (lb_step c b)" by (rule step)
  show "generation b \<le> generation (lb_step c b)" by (simp add: step)
  show "lineAt b q \<noteq> None \<longleftrightarrow> firstSeq b \<le> q \<and> q < endSeq b"
    using inv by (simp add: lineAt_ll_line ll_line_def firstSeq_refines endSeq_refines)
  assume "generation (lb_step c b) = generation b"
  then have "c \<noteq> Clear" using step by auto
  then have ext: "ll_extends (lb_abs b) (lb_abs (lb_step c b))" using step ll_step_extends by simp
  then show "endSeq b \<le> endSeq (lb_step c b)"
    unfolding endSeq_refines [OF inv] endSeq_refines [OF step(1)] by (rule ll_extends_past)
  show "lineAt b q = Some l \<Longrightarrow> lineAt (lb_step c b) q = Some l' \<Longrightarrow> l' = l"
    using ll_extends_line [OF ext] inv step by (simp add: lineAt_ll_line)
qed

text \<open>
  A prepend that follows an eviction hands out numbers again; \<open>low\<close> is the smallest number the
  buffer has used since it was last cleared.
\<close>

fun fresh_numbers :: "lb_op list \<Rightarrow> log_buffer \<Rightarrow> int \<Rightarrow> bool" where
  "fresh_numbers [] b low = True"
| "fresh_numbers (c # cs) b low =
     (let b' = lb_step c b
      in if c = Clear then fresh_numbers cs b' (firstSeq b')
         else (firstSeq b \<le> firstSeq b' \<or> firstSeq b \<le> low) \<and> fresh_numbers cs b' (min low (firstSeq b')))"

lemma fresh_numbers_no_reuse: "lb_inv b \<Longrightarrow> fresh_numbers cs b low = lb.no_reuse cs b low"
proof (induction cs b low rule: fresh_numbers.induct)
  case (2 c cs b low)
  note step = lb_step_refines [OF "2.prems", of c]
  show ?case
    using "2.IH"(1) [OF refl _ step(1)] "2.IH"(2) [OF refl _ step(1)] step(4)
    by (auto simp: lb.fresh_step_def lb.low_step_def Let_def)
qed simp

text \<open>Laws of the reference that carry over.\<close>

lemma ll_evict_append:
  "ll_evict n ((ll_evict n l)\<lparr>ll_lines := ll_lines (ll_evict n l) @ new, ll_pending := q\<rparr>)
     = ll_evict n (l\<lparr>ll_lines := ll_lines l @ new, ll_pending := q\<rparr>)"
  by (cases "length (ll_lines l) \<le> n") (auto simp: ll_evict_def add.commute)

lemma split_on_append_last:
  "split_on c (s @ t) = butlast (split_on c s) @ split_on c (last (split_on c s) @ t)"
proof (induction s)
  case (Cons x s)
  then show ?case
    by (cases "split_on c s") (auto split: list.splits)
qed simp

lemma ll_append_append: "ll_append n (ll_append n l s) t = ll_append n l (s @ t)"
proof (cases "s = [] \<or> t = []")
  case True
  then show ?thesis by (auto simp: ll_append_def)
next
  case False
  define ps where "ps = split_on NL (ll_pending l @ s)"
  define qs where "qs = split_on NL (last ps @ t)"
  define m where "m = l\<lparr>ll_lines := ll_lines l @ map strip_cr (butlast ps), ll_pending := last ps\<rparr>"
  have ne: "qs \<noteq> []" by (simp add: qs_def)
  have all: "split_on NL (ll_pending l @ s @ t) = butlast ps @ qs"
    using split_on_append_last [of NL "ll_pending l @ s" t] by (simp add: ps_def qs_def)
  have s: "ll_append n l s = ll_evict n m"
    using False by (simp add: ll_append_def Let_def m_def ps_def)
  have pending: "ll_pending (ll_evict n m) = last ps" by (simp add: ll_evict_def m_def)
  have "ll_append n (ll_append n l s) t
      = ll_evict n (m\<lparr>ll_lines := ll_lines m @ map strip_cr (butlast qs), ll_pending := last qs\<rparr>)"
    unfolding s using False
    by (subst ll_evict_append [symmetric]) (simp add: ll_append_def Let_def qs_def pending)
  also have "\<dots> = ll_append n l (s @ t)"
    using False ne by (simp add: ll_append_def Let_def all butlast_append m_def)
  finally show ?thesis .
qed

lemma ll_evict_length [simp]: "length (ll_lines (ll_evict n l)) = min n (length (ll_lines l))"
  by (simp add: ll_evict_def)

lemma strip_cr_no_CR [simp]: "CR \<notin> set l \<Longrightarrow> strip_cr l = l"
  by (metis last_in_set strip_cr_def)

lemma ll_evict_fits: "length (ll_lines l) \<le> n \<Longrightarrow> ll_evict n l = l"
  by (simp add: ll_evict_def)

section \<open>Properties\<close>

text \<open>C1: whatever sequence of append, flushPartial, prepend and clear a new buffer goes through, its
  pages and offset arrays stay consistent and every reading (a line by its number, the length, the
  first and last numbers, the whole text) is the one of a plain list of lines that went through the
  same calls.\<close>

theorem buffer_run_refines:
  fixes max_lines page_size cs
  defines "b \<equiv> fold lb_step cs (new_log_buffer max_lines page_size)"
  defines "l \<equiv> fold (ll_step (maxLines (new_log_buffer max_lines page_size))) cs ll_empty"
  shows "lb_inv b \<and> lb_abs b = l \<and> (\<forall>seq. lineAt b seq = ll_line l seq) \<and> lb_text b = ll_text l \<and>
    firstSeq b = ll_first l \<and> endSeq b = ll_first l + int (length (ll_lines l)) \<and>
    lb_length b = length (ll_lines l)"
proof -
  note run = lb_run_refines [OF new_log_buffer_refines(1), of cs max_lines page_size]
  then have inv: "lb_inv b" and abs: "lb_abs b = l"
    by (simp_all add: b_def l_def new_log_buffer_refines(2) ll_empty_def)
  show ?thesis
    unfolding lineAt_ll_line [OF inv] lb_text_refines [OF inv] firstSeq_refines endSeq_refines [OF inv]
      lb_length_refines [OF inv] abs ll_text_def
    using inv by simp
qed

text \<open>C27: it does not matter where the stream cuts its chunks: appending two pieces one after the other
  leaves the same lines, numbers and unfinished rest as appending their concatenation, even when a cut
  falls inside a line or between a carriage return and its newline.\<close>

theorem append_chunking:
  assumes "lb_inv b"
  shows "lb_abs (append (append b s) t) = lb_abs (append b (s @ t))"
  using append_refines [OF assms] append_refines [OF append_refines(1) [OF assms, of s]]
  by (simp add: ll_append_append)

theorem append_chunking_witness:
  "lb_abs (append (append (new_log_buffer None None) (lit ''a'' @ [CR])) (NL # lit ''b''))
    = lb_abs (append (new_log_buffer None None) ((lit ''a'' @ [CR]) @ NL # lit ''b''))"
  by (rule append_chunking [OF new_log_buffer_refines(1)])

text \<open>C39: an append that brings text leaves at most maxLines lines, the newest ones: when lines were
  given up exactly maxLines remain, and the numbers of the lines that stay do not change.\<close>

theorem append_bounded:
  assumes "lb_inv b" and "chunk \<noteq> []"
  defines "arrived \<equiv> length (split_on NL (ll_pending (lb_abs b) @ chunk)) - 1"
  shows "lb_length (append b chunk) = min (maxLines b) (lb_length b + arrived) \<and>
    endSeq (append b chunk) = endSeq b + int arrived"
proof -
  note app = append_refines [OF assms(1), of chunk]
  have "length (ll_lines (lb_abs (append b chunk))) = min (maxLines b) (lb_length b + arrived)"
    "ll_first (lb_abs (append b chunk)) = ll_first (lb_abs b) + int (lb_length b + arrived - maxLines b)"
    using assms(2) lb_length_refines [OF assms(1)]
    unfolding app(2) by (simp_all add: ll_append_def Let_def arrived_def) (simp add: ll_evict_def)
  then show ?thesis
    unfolding lb_length_refines [OF app(1)] endSeq_refines [OF app(1)] endSeq_refines [OF assms(1)]
    using lb_length_refines [OF assms(1)] by auto
qed

theorem append_bounded_witness:
  "lb_length (append (new_log_buffer (Some 1) None) [97, NL, 98, NL]) = 1"
proof -
  have "lb_length (new_log_buffer (Some 1) None) = 0" "maxLines (new_log_buffer (Some 1) None) = 1"
    by (simp_all add: new_log_buffer_def lb_length_def)
  then show ?thesis
    using append_bounded [OF new_log_buffer_refines(1) [of "Some 1" None], of "[97, NL, 98, NL]"]
    by (simp add: new_log_buffer_refines(2))
qed

text \<open>C4: while the buffer is not cleared and gives out no number twice, the line a number names never
  changes, whatever is appended, flushed, prepended or evicted in between.\<close>

theorem lineAt_stable:
  assumes "lb_inv b" and "lineAt b seq = Some line" and "fresh_numbers cs b (firstSeq b)"
    and "Clear \<notin> set cs" and "lineAt (fold lb_step cs b) seq = Some line'"
  shows "line' = line"
proof -
  have "lb_inv b \<Longrightarrow> Clear \<notin> set cs \<Longrightarrow> generation (fold lb_step cs b) = generation b" for cs b
    by (induction cs arbitrary: b) (auto simp: lb_step_refines)
  then show ?thesis
    using assms lb.text_run [OF assms(1,2)] by (simp add: fresh_numbers_no_reuse)
qed

text \<open>A small buffer for the witnesses, and what its reference is.\<close>

abbreviation one_line :: log_buffer where
  "one_line \<equiv> append (new_log_buffer (Some 2) None) [97, NL]"

lemma one_line:
  "lb_inv one_line" "lb_abs one_line = \<lparr>ll_lines = [[97]], ll_first = 0, ll_pending = []\<rparr>" "maxLines one_line = 2"
proof -
  have "maxLines (new_log_buffer (Some 2) None) = 2" by (simp add: new_log_buffer_def)
  then show "lb_inv one_line" "lb_abs one_line = \<lparr>ll_lines = [[97]], ll_first = 0, ll_pending = []\<rparr>"
    "maxLines one_line = 2"
    using append_refines [OF new_log_buffer_refines(1) [of "Some 2" None], of "[97, NL]"]
    by (simp_all add: new_log_buffer_refines(2) ll_append_def ll_evict_def strip_cr_def)
qed

lemma one_line_more:
  "lb_abs (append one_line [98, NL, 99, NL]) = \<lparr>ll_lines = [[98], [99]], ll_first = 1, ll_pending = []\<rparr>"
  "lb_inv (append one_line [98, NL, 99, NL])"
  using append_refines [OF one_line(1), of "[98, NL, 99, NL]"] one_line
  by (simp_all add: ll_append_def ll_evict_def strip_cr_def)

theorem lineAt_stable_witness: "lineAt (fold lb_step [Prepend [98, NL]] one_line) 0 = Some [97]"
proof -
  let ?b = "fold lb_step [Prepend [98, NL]] one_line"
  note pre = prepend_refines [OF one_line(1), of "[98, NL]"]
  have "lineAt ?b 0 \<noteq> None"
    using pre(1,2) by (simp add: lineAt_ll_line one_line ll_line_def ll_prepend_def ll_earlier_def)
  then obtain line' where line': "lineAt ?b 0 = Some line'" by blast
  have "lineAt one_line 0 = Some [97]" "fresh_numbers [Prepend [98, NL]] one_line (firstSeq one_line)"
    by (simp_all add: lineAt_ll_line one_line ll_line_def)
  then show ?thesis using lineAt_stable [OF one_line(1) _ _ _ line'] line' by simp
qed

text \<open>without that condition it fails: once a line was evicted, prepending gives its number to
  another line in the same generation, so a reader that remembered the number sees different text.\<close>

theorem prepend_reuses_numbers:
  "\<exists>b cs seq line line'. lb_inv b \<and> Clear \<notin> set cs \<and> generation (fold lb_step cs b) = generation b \<and>
     lineAt b seq = Some line \<and> lineAt (fold lb_step cs b) seq = Some line' \<and> line' \<noteq> line"
proof -
  let ?cs = "[Append [98, NL, 99, NL], Prepend [100, NL]]"
  note pre = prepend_refines [OF one_line_more(2), of "[100, NL]"]
  have abs: "lb_abs (fold lb_step ?cs one_line) = \<lparr>ll_lines = [[100], [98], [99]], ll_first = 0, ll_pending = []\<rparr>"
    using pre(2) by (simp add: one_line_more ll_prepend_def ll_earlier_def strip_cr_def)
  have "lb_inv one_line \<and> Clear \<notin> set ?cs \<and> generation (fold lb_step ?cs one_line) = generation one_line \<and>
     lineAt one_line 0 = Some [97] \<and> lineAt (fold lb_step ?cs one_line) 0 = Some [100] \<and> [100] \<noteq> [97 :: nat]"
    using pre(1,5) append_refines(4) [OF one_line(1)] one_line abs
    by (simp add: lineAt_ll_line ll_line_def)
  then show ?thesis by blast
qed

text \<open>text that ends in a newline, has no carriage return and no more lines than the buffer keeps
  comes back unchanged from the buffer that took it in.\<close>

theorem append_text_roundtrip:
  assumes "CR \<notin> set t" and "length (split_on NL t) \<le> maxLines (new_log_buffer m p)"
  shows "lb_text (append (new_log_buffer m p) (t @ [NL])) = t @ [NL]"
proof -
  note app = append_refines [OF new_log_buffer_refines(1) [of m p], of "t @ [NL]"]
  have "map strip_cr (split_on NL t) = split_on NL t"
    using assms(1) by (intro map_idI strip_cr_no_CR) (auto dest: split_on_subset)
  then have "ll_lines (lb_abs (append (new_log_buffer m p) (t @ [NL]))) = split_on NL t"
    using assms(2) app(2)
    by (simp add: new_log_buffer_refines(2) ll_append_def Let_def split_on_snoc ll_evict_fits)
  then show ?thesis
    using lb_text_refines [OF app(1)] by (simp add: join_split_on)
qed

theorem append_text_roundtrip_witness:
  "lb_text (append (new_log_buffer (Some 2) None) ([97, NL, 98] @ [NL])) = [97, NL, 98] @ [NL]"
  by (rule append_text_roundtrip) (simp_all add: new_log_buffer_def)

end
