(* ===== verification/Log_Paging.thy ===== *)
theory Log_Paging
  imports Log_Buffer Log_Parse
begin

text \<open>
  Paging backwards through a log: \<^verbatim>\<open>plugins/logging/src/logs/pagination.ts\<close>, where the join of
  an older page with what is held is found, and \<^verbatim>\<open>useEarlierPages.ts\<close>, the hook that requests
  one page at a time, as a step relation over its state and the requests in flight.
\<close>

section \<open>Joining pages\<close>

definition PAGE_LINES :: nat where "PAGE_LINES = 10000"

definition JOIN_SEARCH_SLACK :: nat where "JOIN_SEARCH_SLACK = 2000"

definition anchor_at :: "jsstring list \<Rightarrow> jsstring \<Rightarrow> int \<Rightarrow> bool" where
  "anchor_at fetched anchor index \<longleftrightarrow>
     0 \<le> index \<and> index < int (length fetched) \<and> fetched ! nat index = anchor"

definition join_candidates :: "int \<Rightarrow> nat \<Rightarrow> int list" where
  "join_candidates expected offset =
     (if offset = 0 then [expected] else [expected - int offset, expected + int offset])"

function join_search :: "jsstring list \<Rightarrow> jsstring \<Rightarrow> int \<Rightarrow> nat \<Rightarrow> int option" where
  "join_search fetched anchor expected offset =
     (if offset \<le> JOIN_SEARCH_SLACK then
        (case find (anchor_at fetched anchor) (join_candidates expected offset) of
           Some index \<Rightarrow> Some index
         | None \<Rightarrow> join_search fetched anchor expected (offset + 1))
      else None)"
  by pat_completeness auto
termination
  by (relation "measure (\<lambda>(fetched, anchor, expected, offset). Suc JOIN_SEARCH_SLACK - offset)") auto

declare join_search.simps [simp del]

definition earlierPodLines :: "jsstring list \<Rightarrow> jsstring option \<Rightarrow> nat \<Rightarrow> jsstring list" where
  "earlierPodLines fetched currentFirstLine currentLength =
     (let expected = max 0 (int (length fetched) - int currentLength)
      in case currentFirstLine of
           None \<Rightarrow> take (nat expected) fetched
         | Some anchor \<Rightarrow>
             (case join_search fetched anchor expected 0 of
                Some index \<Rightarrow> take (nat index) fetched
              | None \<Rightarrow> take (nat expected) fetched))"

text \<open>\<^verbatim>\<open>cursorOf\<close>: the record may be any object, an array too (whose \<^verbatim>\<open>__CURSOR\<close> is undefined).\<close>

definition cursorOf :: "jsstring \<Rightarrow> jsstring option" where
  "cursorOf line =
     (case json_parse line of
        None \<Rightarrow> None
      | Some record \<Rightarrow>
          if \<not> is_object record then None
          else (case get_prop record (lit ''__CURSOR'') of JStr cursor \<Rightarrow> Some cursor | _ \<Rightarrow> None))"

definition earlierJournalLines :: "jsstring list \<Rightarrow> jsstring option \<Rightarrow> jsstring list" where
  "earlierJournalLines fetched anchorCursor =
     rev (filter (\<lambda>line. line \<noteq> [] \<and> cursorOf line \<noteq> anchorCursor) fetched)"

definition splitLines :: "jsstring \<Rightarrow> jsstring list" where
  "splitLines body =
     (let lines = split_on NL body
      in if lines \<noteq> [] \<and> last lines = [] then butlast lines else lines)"

section \<open>The search finds the nearest anchor\<close>

lemma set_join_candidates: "j \<in> set (join_candidates e d) \<longleftrightarrow> \<bar>j - e\<bar> = int d"
  by (auto simp: join_candidates_def)

lemma find_candidates:
  "find P (join_candidates e d) = Some i \<Longrightarrow> P i \<and> \<bar>i - e\<bar> = int d"
  "find P (join_candidates e d) = None \<Longrightarrow> \<bar>j - e\<bar> = int d \<Longrightarrow> \<not> P j"
  using set_join_candidates [of _ e d] by (auto simp: find_Some_iff find_None_iff) (metis nth_mem)

text \<open>\<open>i\<close> is an anchor at least \<open>d\<close> away from the expected place, and none as far and nearer exists.\<close>

definition nearest_from :: "nat \<Rightarrow> jsstring list \<Rightarrow> jsstring \<Rightarrow> int \<Rightarrow> int \<Rightarrow> bool" where
  "nearest_from d f a e i \<longleftrightarrow> anchor_at f a i \<and> \<bar>i - e\<bar> \<le> int JOIN_SEARCH_SLACK \<and> int d \<le> \<bar>i - e\<bar> \<and>
     (\<forall>j. int d \<le> \<bar>j - e\<bar> \<longrightarrow> \<bar>j - e\<bar> < \<bar>i - e\<bar> \<longrightarrow> \<not> anchor_at f a j)"

lemma join_search_Some: "join_search f a e d = Some i \<Longrightarrow> nearest_from d f a e i"
proof (induction f a e d rule: join_search.induct)
  case (1 f a e d)
  have d: "d \<le> JOIN_SEARCH_SLACK"
    using "1.prems" by (auto simp: join_search.simps [of f a e d] split: if_splits)
  show ?case
  proof (cases "find (anchor_at f a) (join_candidates e d)")
    case None
    then have "join_search f a e (d + 1) = Some i"
      using "1.prems" d by (simp add: join_search.simps [of f a e d])
    then have IH: "nearest_from (d + 1) f a e i" by (rule "1.IH" [OF d None])
    have "\<not> anchor_at f a j" if "int d \<le> \<bar>j - e\<bar>" "\<bar>j - e\<bar> < \<bar>i - e\<bar>" for j
      using IH find_candidates(2) [OF None, of j] that
      by (cases "\<bar>j - e\<bar> = int d") (auto simp: nearest_from_def)
    with IH show ?thesis by (simp add: nearest_from_def)
  next
    case (Some k)
    then have "k = i" using "1.prems" d by (simp add: join_search.simps [of f a e d])
    with find_candidates(1) [OF Some] d show ?thesis by (auto simp: nearest_from_def)
  qed
qed

lemma join_search_None:
  "join_search f a e d = None \<Longrightarrow> int d \<le> \<bar>j - e\<bar> \<Longrightarrow> \<bar>j - e\<bar> \<le> int JOIN_SEARCH_SLACK \<Longrightarrow> \<not> anchor_at f a j"
proof (induction f a e d rule: join_search.induct)
  case (1 f a e d)
  show ?case
  proof (cases "\<bar>j - e\<bar> = int d")
    case True
    with 1 show ?thesis
      by (auto simp: join_search.simps [of f a e d] dest: find_candidates(2) split: if_splits option.splits)
  next
    case False
    with "1.prems" have "int (d + 1) \<le> \<bar>j - e\<bar>" by simp
    with 1 show ?thesis
      by (auto simp: join_search.simps [of f a e d] split: if_splits option.splits)
  qed
qed

lemma earlierPodLines_no_anchor:
  assumes "a \<notin> set f"
  shows "earlierPodLines f (Some a) n = take (length f - n) f"
proof -
  have no: "\<not> anchor_at f a j" for j
    using assms nth_mem [of "nat j" f] by (auto simp: anchor_at_def)
  have "join_search f a e 0 = None" for e
    using join_search_Some [of f a e 0] no by (cases "join_search f a e 0") (auto simp: nearest_from_def)
  then show ?thesis
    by (simp add: earlierPodLines_def Let_def) (cases "n \<le> length f"; simp add: nat_diff_distrib')
qed

lemma anchor_at_append: "anchor_at (xs @ a # ys) a (int (length xs))"
  by (simp add: anchor_at_def)

lemma anchor_after:
  assumes "anchor_at (xs @ a # ys) a i" "int (length xs) < i" "i \<le> int (length xs) + int n"
  shows "a \<in> set (take n ys)"
proof -
  define k where "k = nat i - length xs - 1"
  have i: "nat i = length xs + 1 + k" using assms(2) by (simp add: k_def)
  have k: "k < length ys" "k < n" using assms i by (auto simp: anchor_at_def)
  have "ys ! k = a" using assms(1) by (simp add: anchor_at_def i nth_append)
  then show ?thesis using k by (auto simp: in_set_conv_nth)
qed

section \<open>The hook\<close>

text \<open>
  \<^verbatim>\<open>useEarlierPages\<close>: the paging state React holds, the reset key of the last render, the
  controller of the request in flight and the requests themselves, each with the key its closure
  captured. The buffer is the one \<^verbatim>\<open>stream.prepend\<close> writes to. Controllers are numbered.
\<close>

record paging_state =
  pg_key :: jsstring
  pg_loading :: bool
  pg_canLoad :: bool
  pg_error :: "jsstring option"

definition freshState :: "jsstring \<Rightarrow> paging_state" where
  "freshState key = \<lparr>pg_key = key, pg_loading = False, pg_canLoad = True, pg_error = None\<rparr>"

record pager =
  pr_key :: jsstring
  pr_state :: paging_state
  pr_inFlight :: "nat option"
  pr_aborted :: "nat list"
  pr_requests :: "(nat \<times> jsstring) list"
  pr_next :: nat
  pr_buffer :: log_buffer

text \<open>\<^verbatim>\<open>update\<close>: a patch over the state of the key, or over a fresh one.\<close>

definition pager_update :: "jsstring \<Rightarrow> (paging_state \<Rightarrow> paging_state) \<Rightarrow> pager \<Rightarrow> pager" where
  "pager_update key patch p =
     p\<lparr>pr_state := patch (if pg_key (pr_state p) = key then pr_state p else freshState key)\<rparr>"

definition new_pager :: "jsstring \<Rightarrow> log_buffer \<Rightarrow> pager" where
  "new_pager key b = \<lparr>pr_key = key, pr_state = freshState key, pr_inFlight = None, pr_aborted = [],
     pr_requests = [], pr_next = 0, pr_buffer = b\<rparr>"

definition loadEarlier :: "pager \<Rightarrow> pager" where
  "loadEarlier p =
     (if pr_inFlight p \<noteq> None then p
      else pager_update (pr_key p) (\<lambda>s. s\<lparr>pg_loading := True, pg_error := None\<rparr>)
             (p\<lparr>pr_inFlight := Some (pr_next p), pr_requests := pr_requests p @ [(pr_next p, pr_key p)],
                pr_next := pr_next p + 1\<rparr>))"

text \<open>The \<^verbatim>\<open>finally\<close> block.\<close>

definition page_settled :: "nat \<Rightarrow> jsstring \<Rightarrow> pager \<Rightarrow> pager" where
  "page_settled req key p =
     (if pr_inFlight p = Some req
      then pager_update key (\<lambda>s. s\<lparr>pg_loading := False\<rparr>) (p\<lparr>pr_inFlight := None\<rparr>) else p)"

definition drop_request :: "nat \<Rightarrow> pager \<Rightarrow> pager" where
  "drop_request req p = p\<lparr>pr_requests := filter (\<lambda>r. fst r \<noteq> req) (pr_requests p)\<rparr>"

text \<open>The continuation of \<^verbatim>\<open>await fetchEarlier(...)\<close>, when it resolves and when it rejects.\<close>

definition page_arrives :: "nat \<Rightarrow> jsstring \<Rightarrow> jsstring list \<Rightarrow> pager \<Rightarrow> pager" where
  "page_arrives req key lines p =
     (let p0 = drop_request req p;
          p1 = (if req \<in> set (pr_aborted p) then p0
                else if lines = [] then pager_update key (\<lambda>s. s\<lparr>pg_canLoad := False\<rparr>) p0
                else (case prepend (pr_buffer p) (join [NL] lines @ [NL]) of
                        (b, added) \<Rightarrow>
                          (let p2 = p0\<lparr>pr_buffer := b\<rparr>
                           in if added = 0 then pager_update key (\<lambda>s. s\<lparr>pg_canLoad := False\<rparr>) p2 else p2)))
      in page_settled req key p1)"

definition page_fails :: "nat \<Rightarrow> jsstring \<Rightarrow> jsstring \<Rightarrow> pager \<Rightarrow> pager" where
  "page_fails req key message p =
     (let p0 = drop_request req p;
          p1 = (if req \<in> set (pr_aborted p) then p0
                else pager_update key (\<lambda>s. s\<lparr>pg_canLoad := False, pg_error := Some message\<rparr>) p0)
      in page_settled req key p1)"

definition pager_unmount :: "pager \<Rightarrow> pager" where
  "pager_unmount p = (case pr_inFlight p of None \<Rightarrow> p | Some req \<Rightarrow> p\<lparr>pr_aborted := req # pr_aborted p\<rparr>)"

text \<open>What the hook returns: loading, canLoad and error of the key being shown.\<close>

definition shown_paging :: "bool \<Rightarrow> pager \<Rightarrow> bool \<times> bool \<times> jsstring option" where
  "shown_paging ready p =
     (let current = (if pg_key (pr_state p) = pr_key p then pr_state p else freshState (pr_key p))
      in (pg_loading current, pg_canLoad current \<and> ready, pg_error current))"

text \<open>
  One step: a render with a (possibly new) key, a call, an answer to a request, unmounting, or the
  stream effect working on the shared buffer.
\<close>

inductive pager_step :: "pager \<Rightarrow> pager \<Rightarrow> bool" where
  render: "pager_step p (p\<lparr>pr_key := key\<rparr>)"
| load: "pager_step p (loadEarlier p)"
| arrives: "(req, key) \<in> set (pr_requests p) \<Longrightarrow> pager_step p (page_arrives req key lines p)"
| fails: "(req, key) \<in> set (pr_requests p) \<Longrightarrow> pager_step p (page_fails req key message p)"
| unmount: "pager_step p (pager_unmount p)"
| stream: "pager_step p (p\<lparr>pr_buffer := lb_step c (pr_buffer p)\<rparr>)"

inductive pager_reachable :: "pager \<Rightarrow> bool" where
  mount: "lb_inv b \<Longrightarrow> pager_reachable (new_pager key b)"
| step: "pager_reachable p \<Longrightarrow> pager_step p q \<Longrightarrow> pager_reachable q"

inductive_cases pager_stepE: "pager_step p q"

lemma pager_update_sel [simp]:
  "pr_key (pager_update k f p) = pr_key p" "pr_inFlight (pager_update k f p) = pr_inFlight p"
  "pr_aborted (pager_update k f p) = pr_aborted p" "pr_requests (pager_update k f p) = pr_requests p"
  "pr_next (pager_update k f p) = pr_next p" "pr_buffer (pager_update k f p) = pr_buffer p"
  "pr_state (pager_update k f p) = f (if pg_key (pr_state p) = k then pr_state p else freshState k)"
  by (simp_all add: pager_update_def)

lemma freshState_sel [simp]:
  "pg_key (freshState k) = k" "\<not> pg_loading (freshState k)" "pg_canLoad (freshState k)" "pg_error (freshState k) = None"
  by (simp_all add: freshState_def)

lemma page_settled_sel [simp]:
  "pr_key (page_settled i k p) = pr_key p" "pr_requests (page_settled i k p) = pr_requests p"
  "pr_aborted (page_settled i k p) = pr_aborted p" "pr_next (page_settled i k p) = pr_next p"
  "pr_buffer (page_settled i k p) = pr_buffer p"
  "pr_inFlight (page_settled i k p) = (if pr_inFlight p = Some i then None else pr_inFlight p)"
  by (auto simp: page_settled_def)

lemma drop_request_sel [simp]:
  "pr_key (drop_request i p) = pr_key p" "pr_state (drop_request i p) = pr_state p"
  "pr_inFlight (drop_request i p) = pr_inFlight p" "pr_aborted (drop_request i p) = pr_aborted p"
  "pr_next (drop_request i p) = pr_next p" "pr_buffer (drop_request i p) = pr_buffer p"
  "pr_requests (drop_request i p) = filter (\<lambda>r. fst r \<noteq> i) (pr_requests p)"
  by (simp_all add: drop_request_def)

lemma page_arrives_sel [simp]:
  "pr_key (page_arrives i k ls p) = pr_key p"
  "pr_requests (page_arrives i k ls p) = filter (\<lambda>r. fst r \<noteq> i) (pr_requests p)"
  "pr_inFlight (page_arrives i k ls p) = (if pr_inFlight p = Some i then None else pr_inFlight p)"
  "pr_buffer (page_arrives i k ls p) = (if i \<in> set (pr_aborted p) \<or> ls = [] then pr_buffer p
     else fst (prepend (pr_buffer p) (join [NL] ls @ [NL])))"
  by (auto simp: page_arrives_def Let_def split: prod.split)

lemma page_fails_sel [simp]:
  "pr_key (page_fails i k m p) = pr_key p" "pr_buffer (page_fails i k m p) = pr_buffer p"
  "pr_requests (page_fails i k m p) = filter (\<lambda>r. fst r \<noteq> i) (pr_requests p)"
  "pr_inFlight (page_fails i k m p) = (if pr_inFlight p = Some i then None else pr_inFlight p)"
  by (auto simp: page_fails_def Let_def)

section \<open>One request at a time\<close>

definition pager_inv :: "pager \<Rightarrow> bool" where
  "pager_inv p \<longleftrightarrow> lb_inv (pr_buffer p) \<and>
     (case pr_inFlight p of None \<Rightarrow> pr_requests p = [] | Some i \<Rightarrow> map fst (pr_requests p) = [i]) \<and>
     (pg_loading (pr_state p) \<longrightarrow> map snd (pr_requests p) = [pg_key (pr_state p)])"

lemma settled_not_loading:
  "pr_inFlight p = Some i \<Longrightarrow> \<not> pg_loading (pr_state (page_settled i k p))"
  by (simp add: page_settled_def)

lemma answered_inv:
  assumes "pager_inv p" "(i, k) \<in> set (pr_requests p)"
  shows "pr_inFlight p = Some i" "pr_requests p = [(i, k)]"
  using assms by (auto simp: pager_inv_def split: option.splits)

lemma page_arrives_inv [inv_intros]:
  assumes "pager_inv p" "(i, k) \<in> set (pr_requests p)"
  shows "pager_inv (page_arrives i k ls p)"
proof -
  note a = answered_inv [OF assms]
  have "\<not> pg_loading (pr_state (page_arrives i k ls p))"
    unfolding page_arrives_def Let_def using a
    by (intro settled_not_loading) (auto split: prod.split)
  moreover have "lb_inv (pr_buffer (page_arrives i k ls p))"
    using assms(1) prepend_refines(1) by (simp add: pager_inv_def)
  ultimately show ?thesis using a by (simp add: pager_inv_def)
qed

lemma page_fails_inv [inv_intros]:
  assumes "pager_inv p" "(i, k) \<in> set (pr_requests p)"
  shows "pager_inv (page_fails i k m p)"
proof -
  note a = answered_inv [OF assms]
  have "\<not> pg_loading (pr_state (page_fails i k m p))"
    unfolding page_fails_def Let_def using a by (intro settled_not_loading) auto
  then show ?thesis using a assms(1) by (simp add: pager_inv_def)
qed

lemma loadEarlier_inv [inv_intros]: "pager_inv p \<Longrightarrow> pager_inv (loadEarlier p)"
  by (auto simp: loadEarlier_def pager_inv_def split: option.splits)

lemma pager_step_inv: "pager_step p q \<Longrightarrow> pager_inv p \<Longrightarrow> pager_inv q"
proof (induction rule: pager_step.induct)
  case (stream p c)
  then show ?case by (auto simp: pager_inv_def lb_step_refines split: option.splits)
next
  case (unmount p)
  then show ?case by (auto simp: pager_inv_def pager_unmount_def split: option.splits)
next
  case (render p key)
  then show ?case by (auto simp: pager_inv_def split: option.splits)
qed (auto intro: inv_intros)

lemma pager_reachable_inv: "pager_reachable p \<Longrightarrow> pager_inv p"
proof (induction rule: pager_reachable.induct)
  case (mount b key)
  then show ?case by (simp add: pager_inv_def new_pager_def)
qed (rule pager_step_inv)

text \<open>While the key stays, a state that may not load is never armed again.\<close>

definition pager_off :: "pager \<Rightarrow> bool" where
  "pager_off p \<longleftrightarrow> pg_key (pr_state p) = pr_key p \<and> \<not> pg_canLoad (pr_state p) \<and>
     (\<forall>r \<in> set (pr_requests p). snd r = pr_key p)"

lemma page_settled_off: "pager_off p \<Longrightarrow> k = pr_key p \<Longrightarrow> pager_off (page_settled i k p)"
  by (simp add: pager_off_def page_settled_def)

lemma pager_off_step:
  assumes "pager_step p q" "pager_off p" "pr_key q = pr_key p"
  shows "pager_off q"
  using assms
proof (cases rule: pager_step.cases)
  case (arrives i k ls)
  then have "k = pr_key p" using assms(2) by (auto simp: pager_off_def)
  with assms(2) show ?thesis
    unfolding arrives(1) page_arrives_def Let_def
    by (intro page_settled_off) (auto simp: pager_off_def split: prod.split)
next
  case (fails i k m)
  then have "k = pr_key p" using assms(2) by (auto simp: pager_off_def)
  with assms(2) show ?thesis
    unfolding fails(1) page_fails_def Let_def by (intro page_settled_off) (auto simp: pager_off_def)
qed (auto simp: pager_off_def loadEarlier_def pager_unmount_def split: option.splits)

definition same_log_step :: "pager \<Rightarrow> pager \<Rightarrow> bool" where
  "same_log_step p q \<longleftrightarrow> pager_step p q \<and> pr_key q = pr_key p"

lemma pager_off_run: "same_log_step\<^sup>*\<^sup>* p q \<Longrightarrow> pager_off p \<Longrightarrow> pager_off q"
  by (induction rule: rtranclp_induct) (auto simp: same_log_step_def intro: pager_off_step)

section \<open>Properties\<close>

lemma earlierPodLines_older:
  assumes "held \<noteq> []" and "length newer \<le> JOIN_SEARCH_SLACK"
    and "hd held \<notin> set (take (2 * length newer) (tl held @ newer))"
  shows "earlierPodLines (older @ held @ newer) (Some (hd held)) (length held) = older"
proof -
  define a ys where "a = hd held" and "ys = tl held @ newer"
  define e where "e = int (length older) + int (length newer)"
  have f: "older @ held @ newer = older @ a # ys" using assms(1) by (simp add: a_def ys_def)
  have at: "anchor_at (older @ a # ys) a (int (length older))" by (rule anchor_at_append)
  have dist: "\<bar>int (length older) - e\<bar> = int (length newer)" by (simp add: e_def)
  have "join_search (older @ a # ys) a e 0 = Some (int (length older))"
  proof (cases "join_search (older @ a # ys) a e 0")
    case None
    with join_search_None [OF None, of "int (length older)"] at dist assms(2) show ?thesis by simp
  next
    case (Some i)
    note near = join_search_Some [OF Some, unfolded nearest_from_def]
    have le: "\<bar>i - e\<bar> \<le> int (length newer)" using near at dist by force
    have hi: "i \<le> int (length older) + int (2 * length newer)" using le by (simp add: e_def)
    have "\<not> int (length older) < i"
      using anchor_after [OF _ _ hi] near assms(3) unfolding a_def ys_def by blast
    with le Some show ?thesis by (simp add: e_def)
  qed
  moreover have "max 0 (int (length (older @ a # ys)) - int (length held)) = e"
    unfolding f [symmetric] by (simp add: e_def)
  ultimately show ?thesis
    unfolding f a_def [symmetric] by (simp add: earlierPodLines_def Let_def del: length_append)
qed

text \<open>C3: the lines put in front of what is held are exactly the older ones, under two conditions: if the fetched tail is
  some older lines, then the held ones (at least one), then at most 2000 lines written since, and the text of the first held
  line does not come again among the next lines, twice as many as were written since, then the result is the older lines,
  none missing and none twice. Without the conditions it can be wrong, as on a log with carriage returns below.\<close>

theorem earlierPodLines_join:
  assumes "held \<noteq> []" and "length newer \<le> JOIN_SEARCH_SLACK"
    and "hd held \<notin> set (take (2 * length newer) (tl held @ newer))"
  shows "earlierPodLines (older @ held @ newer) (Some (hd held)) (length held) = older"
  using assms by (rule earlierPodLines_older)

theorem earlierPodLines_join_witness:
  "earlierPodLines ([[1], [2]] @ [[3], [4]] @ [[5]]) (Some [3]) 2 = [[1], [2]]"
  using earlierPodLines_join [of "[[3], [4]]" "[[5]]" "[[1], [2]]"] by (simp add: JOIN_SEARCH_SLACK_def numeral_2_eq_2)

text \<open>on a log with carriage returns the join goes wrong as soon as lines were written in between:
  the held line has lost its carriage return, the fetched one has not, so the anchor is never found and
  as many held lines come back again as were written since.\<close>

theorem crlf_join_duplicates:
  assumes "held \<noteq> []" and "hd held = [] \<or> last (hd held) \<noteq> CR"
  shows "earlierPodLines (map (\<lambda>l. l @ [CR]) (older @ held @ newer)) (Some (hd held)) (length held)
    = map (\<lambda>l. l @ [CR]) (older @ take (length newer) (held @ newer))"
proof -
  have "hd held \<notin> set (map (\<lambda>l. l @ [CR]) (older @ held @ newer))"
    using assms(2) by auto
  from earlierPodLines_no_anchor [OF this] show ?thesis
    by (simp add: take_map [symmetric] add.commute del: map_append) (simp add: take_map)
qed

theorem crlf_join_duplicates_witness:
  "earlierPodLines (map (\<lambda>l. l @ [CR]) ([[97]] @ [[98]] @ [[99]])) (Some [98]) 1
    = map (\<lambda>l. l @ [CR]) [[97], [98]]"
  using crlf_join_duplicates [of "[[98]]" "[[97]]" "[[99]]"] by simp

text \<open>a page that was joined goes to the front of the buffer as it is: after prepending the older
  lines the buffer holds them, less the blank ones, followed by what it held, and the numbers of the
  held lines stay.\<close>

theorem page_prepend:
  assumes "lb_inv b" and "older \<noteq> []" and "list_all (\<lambda>l. NL \<notin> set l \<and> CR \<notin> set l) older"
  defines "b' \<equiv> fst (prepend b (join [NL] older @ [NL]))"
  shows "ll_lines (lb_abs b') = filter (\<lambda>l. l \<noteq> []) older @ ll_lines (lb_abs b) \<and> endSeq b' = endSeq b"
proof -
  note pre = prepend_refines [OF assms(1), of "join [NL] older @ [NL]"]
  have "split_on NL (join [NL] older @ [NL]) = older @ [[]]"
    using assms(2,3) by (simp add: split_on_snoc list_all_iff)
  moreover have "map strip_cr (filter (\<lambda>l. l \<noteq> []) older) = filter (\<lambda>l. l \<noteq> []) older"
    using assms(3) by (intro map_idI strip_cr_no_CR) (auto simp: list_all_iff)
  ultimately have "ll_earlier (join [NL] older @ [NL]) = filter (\<lambda>l. l \<noteq> []) older"
    by (simp add: ll_earlier_def)
  with pre(1,2) assms(1) show ?thesis
    unfolding b'_def by (simp add: endSeq_refines ll_prepend_def)
qed

theorem page_prepend_witness:
  "ll_lines (lb_abs (fst (prepend one_line (join [NL] [[98], [], [99]] @ [NL])))) = [[98], [99], [97]]"
  using page_prepend [OF one_line(1), of "[[98], [], [99]]"] by (simp add: one_line)

text \<open>a journal page comes back newest first with the anchor entry at its head; when no other entry
  has the anchor's cursor, the result is the rest of the page in reading order.\<close>

theorem earlierJournalLines_spec:
  assumes "cursorOf line = Some anchor" and "\<And>l. l \<in> set rest \<Longrightarrow> l \<noteq> [] \<and> cursorOf l \<noteq> Some anchor"
  shows "earlierJournalLines (line # rest) (Some anchor) = rev rest"
proof -
  have "filter (\<lambda>l. l \<noteq> [] \<and> cursorOf l \<noteq> Some anchor) rest = rest"
    using assms(2) by (simp add: filter_id_conv)
  with assms(1) show ?thesis by (simp add: earlierJournalLines_def)
qed

theorem earlierJournalLines_witness:
  "earlierJournalLines [lit ''{\"__CURSOR\":\"b\"}'', lit ''{\"__CURSOR\":\"a\"}''] (Some (lit ''b''))
     = [lit ''{\"__CURSOR\":\"a\"}'']"
proof -
  have cursors: "cursorOf (lit ''{\"__CURSOR\":\"b\"}'') = Some (lit ''b'')"
    "cursorOf (lit ''{\"__CURSOR\":\"a\"}'') = Some (lit ''a'')"
    by code_simp+
  then show ?thesis
    using earlierJournalLines_spec [OF cursors(1), of "[lit ''{\"__CURSOR\":\"a\"}'']"] by simp
qed

text \<open>C29: in every reachable state of the paging hook there is at most one request, the guard is set
  exactly while there is one, what is shown as loading is a request for the log shown, a call while one
  is in flight changes nothing, and the answer, page or failure, frees the guard.\<close>

theorem paging_single_flight:
  assumes "pager_reachable p"
  shows "length (pr_requests p) \<le> 1 \<and> (pr_inFlight p = None \<longleftrightarrow> pr_requests p = []) \<and>
    (fst (shown_paging ready p) \<longrightarrow> map snd (pr_requests p) = [pr_key p]) \<and>
    (pr_inFlight p \<noteq> None \<longrightarrow> loadEarlier p = p) \<and>
    ((req, key) \<in> set (pr_requests p) \<longrightarrow>
       pr_inFlight (page_arrives req key lines p) = None \<and> pr_inFlight (page_fails req key m p) = None)"
proof -
  have inv: "pager_inv p" using assms by (rule pager_reachable_inv)
  have "length (pr_requests p) \<le> 1 \<and> (pr_inFlight p = None \<longleftrightarrow> pr_requests p = [])"
    using inv by (auto simp: pager_inv_def length_Suc_conv split: option.splits)
  moreover have "fst (shown_paging ready p) \<longrightarrow> map snd (pr_requests p) = [pr_key p]"
    using inv by (auto simp: shown_paging_def Let_def pager_inv_def split: if_splits)
  ultimately show ?thesis
    using answered_inv [OF inv] by (auto simp: loadEarlier_def)
qed

abbreviation sample_pager :: pager where
  "sample_pager \<equiv> loadEarlier (new_pager [65] (new_log_buffer (Some 1) None))"

lemma sample_pager_reachable: "pager_reachable sample_pager"
  by (intro pager_reachable.intros(2) [OF pager_reachable.intros(1) pager_step.load] new_log_buffer_refines(1))

lemma sample_pager_requests: "pr_requests sample_pager = [(0, [65])]" "pr_aborted sample_pager = []"
  by (simp_all add: loadEarlier_def new_pager_def pager_update_def)

theorem paging_single_flight_witness: "pr_inFlight (page_arrives 0 [65] [[97]] sample_pager) = None"
  using paging_single_flight [OF sample_pager_reachable, of True 0 "[65]" "[[97]]"] sample_pager_requests
  by simp

text \<open>once a page came back empty or failed, paging of that log stays off for as long as the same
  log is shown, whatever the stream does: a reload, which does not change the reset key, does not arm
  it again.\<close>

theorem paging_stays_off:
  assumes "pg_key (pr_state p) = pr_key p" and "\<not> pg_canLoad (pr_state p)" and "pr_requests p = []"
    and "same_log_step\<^sup>*\<^sup>* p q"
  shows "shown_paging ready q = (pg_loading (pr_state q), False, pg_error (pr_state q))"
proof -
  have "pager_off p" using assms(1-3) by (simp add: pager_off_def)
  then have "pager_off q" using pager_off_run assms(4) by blast
  then show ?thesis by (simp add: pager_off_def shown_paging_def Let_def)
qed

theorem paging_stays_off_witness:
  "fst (snd (shown_paging True ((page_fails 0 [65] [101] sample_pager)
     \<lparr>pr_buffer := clear (pr_buffer (page_fails 0 [65] [101] sample_pager))\<rparr>))) = False"
proof -
  let ?p = "page_fails 0 [65] [101] sample_pager"
  have "same_log_step ?p (?p\<lparr>pr_buffer := lb_step Clear (pr_buffer ?p)\<rparr>)"
    using pager_step.stream [of ?p Clear] by (simp add: same_log_step_def)
  then have run: "same_log_step\<^sup>*\<^sup>* ?p (?p\<lparr>pr_buffer := clear (pr_buffer ?p)\<rparr>)"
    by (auto intro: r_into_rtranclp)
  have "pg_key (pr_state ?p) = pr_key ?p" "\<not> pg_canLoad (pr_state ?p)" "pr_requests ?p = []"
    by (simp_all add: page_fails_def page_settled_def loadEarlier_def new_pager_def Let_def)
  from paging_stays_off [OF this run, of True] show ?thesis by simp
qed

text \<open>a page that was requested for one log and arrives after the reader switched to another is put
  in front of the other log's lines: nothing compares the key of the request with the key shown.\<close>

theorem stale_page_reaches_new_log:
  "\<exists>p req key lines. pager_reachable p \<and> (req, key) \<in> set (pr_requests p) \<and> key \<noteq> pr_key p \<and>
     req \<notin> set (pr_aborted p) \<and> ll_lines (lb_abs (pr_buffer p)) = [] \<and> lines \<noteq> [] \<and>
     ll_lines (lb_abs (pr_buffer (page_arrives req key lines p))) = lines"
proof -
  let ?p1 = "sample_pager\<lparr>pr_key := [66]\<rparr>"
  let ?p = "?p1\<lparr>pr_buffer := lb_step Clear (pr_buffer ?p1)\<rparr>"
  have reach: "pager_reachable ?p"
    using pager_reachable.step [OF pager_reachable.step [OF sample_pager_reachable pager_step.render] pager_step.stream]
    by blast
  then have inv: "lb_inv (pr_buffer ?p)" using pager_reachable_inv [OF reach] unfolding pager_inv_def by blast
  have buf: "pr_buffer ?p = clear (new_log_buffer (Some 1) None)"
    by (simp add: loadEarlier_def new_pager_def)
  have abs: "ll_lines (lb_abs (pr_buffer ?p)) = []"
    unfolding buf using clear_refines [OF new_log_buffer_refines(1) [of "Some 1" None]] by simp
  have page: "ll_lines (lb_abs (pr_buffer (page_arrives 0 [65] [[97]] ?p))) = [[97]]"
    using prepend_refines(2) [OF inv, of "[97, NL]"] abs sample_pager_requests(2)
    by (simp add: ll_prepend_def ll_earlier_def strip_cr_def)
  have "pager_reachable ?p \<and> (0, [65]) \<in> set (pr_requests ?p) \<and> [65] \<noteq> pr_key ?p \<and>
     0 \<notin> set (pr_aborted ?p) \<and> ll_lines (lb_abs (pr_buffer ?p)) = [] \<and> [[97 :: nat]] \<noteq> [] \<and>
     ll_lines (lb_abs (pr_buffer (page_arrives 0 [65] [[97]] ?p))) = [[97]]"
    using reach abs page sample_pager_requests by simp
  then show ?thesis by blast
qed

text \<open>splitting a fetched body gives back the lines it was made of, whether or not the last one is
  terminated, as long as it is not blank.\<close>

theorem splitLines_join:
  assumes "ls \<noteq> []" and "list_all (\<lambda>l. NL \<notin> set l) ls" and "last ls \<noteq> []"
  shows "splitLines (join [NL] ls) = ls \<and> splitLines (join [NL] ls @ [NL]) = ls"
  using assms by (simp add: splitLines_def split_on_snoc list_all_iff)

theorem splitLines_join_witness: "splitLines (join [NL] [[97], [98]]) = [[97], [98]]"
  using splitLines_join [of "[[97], [98]]"] by simp

end
