(* ===== verification/Log_Stream.thy ===== *)
theory Log_Stream
  imports Log_Buffer
begin

text \<open>
  The hook that streams a response into the buffer, \<^verbatim>\<open>plugins/logging/src/logs/useLogStream.ts\<close>, as
  a state machine: the React state and its key, the shared buffer, and one record per effect run. A run
  is suspended at an await of its \<^verbatim>\<open>run\<close> function (its phase); each definition below is one
  continuation, which JavaScript runs to its end without interleaving. What arrives (status, decoded
  text, failures) is an argument: fetch and the text decoder are the platform's.
\<close>

section \<open>State\<close>

type_synonym request_key = "jsstring option \<times> nat"

record stream_state =
  ss_key :: request_key
  ss_version :: nat
  ss_loading :: bool
  ss_streaming :: bool
  ss_error :: "jsstring option"

definition pendingState :: "request_key \<Rightarrow> stream_state" where
  "pendingState key = \<lparr>ss_key = key, ss_version = 0, ss_loading = True, ss_streaming = False, ss_error = None\<rparr>"

datatype run_phase = Fetching | ReadingText | ReadingChunks | Finished

record run =
  rn_key :: request_key
  rn_phase :: run_phase
  rn_aborted :: bool
  rn_frame :: bool

record stream =
  sm_key :: request_key
  sm_state :: stream_state
  sm_buffer :: log_buffer
  sm_runs :: "run list"
  sm_active :: "nat option"

section \<open>Helpers of the effect\<close>

definition run_aborted :: "nat \<Rightarrow> stream \<Rightarrow> bool" where
  "run_aborted i s = rn_aborted (sm_runs s ! i)"

definition set_run :: "nat \<Rightarrow> (run \<Rightarrow> run) \<Rightarrow> stream \<Rightarrow> stream" where
  "set_run i f s = s\<lparr>sm_runs := (sm_runs s)[i := f (sm_runs s ! i)]\<rparr>"

definition stream_update :: "nat \<Rightarrow> (stream_state \<Rightarrow> stream_state) \<Rightarrow> stream \<Rightarrow> stream" where
  "stream_update i patch s =
     (if run_aborted i s then s
      else (let key = rn_key (sm_runs s ! i)
            in s\<lparr>sm_state := patch (if ss_key (sm_state s) = key then sm_state s else pendingState key)\<rparr>))"

definition scheduleRender :: "nat \<Rightarrow> stream \<Rightarrow> stream" where
  "scheduleRender i s = (if rn_frame (sm_runs s ! i) then s else set_run i (\<lambda>r. r\<lparr>rn_frame := True\<rparr>) s)"

definition frame_fires :: "nat \<Rightarrow> stream \<Rightarrow> stream" where
  "frame_fires i s =
     (let s1 = set_run i (\<lambda>r. r\<lparr>rn_frame := False\<rparr>) s
      in if run_aborted i s1 then s1
         else if ss_key (sm_state s1) = rn_key (sm_runs s1 ! i)
              then s1\<lparr>sm_state := (sm_state s1)\<lparr>ss_version := ss_version (sm_state s1) + 1\<rparr>\<rparr> else s1)"

definition buffer_op :: "lb_op \<Rightarrow> stream \<Rightarrow> stream" where
  "buffer_op c s = s\<lparr>sm_buffer := lb_step c (sm_buffer s)\<rparr>"

text \<open>The \<^verbatim>\<open>finally\<close> block, after which the run is over.\<close>

definition run_finally :: "nat \<Rightarrow> stream \<Rightarrow> stream" where
  "run_finally i s = set_run i (\<lambda>r. r\<lparr>rn_phase := Finished\<rparr>)
     (stream_update i (\<lambda>t. t\<lparr>ss_loading := False, ss_streaming := False\<rparr>) s)"

definition run_catch :: "nat \<Rightarrow> jsstring \<Rightarrow> stream \<Rightarrow> stream" where
  "run_catch i message s =
     run_finally i (if run_aborted i s then s else stream_update i (\<lambda>t. t\<lparr>ss_error := Some message\<rparr>) s)"

section \<open>The continuations of a run\<close>

definition fetch_resolves :: "nat \<Rightarrow> nat \<Rightarrow> jsstring \<Rightarrow> bool \<Rightarrow> stream \<Rightarrow> stream" where
  "fetch_resolves i status statusText has_body s =
     (if run_aborted i s then run_finally i s
      else if \<not> (200 \<le> status \<and> status \<le> 299) then
        run_catch i (show_nat status @ [32] @ (if statusText = [] then lit ''request failed'' else statusText)) s
      else set_run i (\<lambda>r. r\<lparr>rn_phase := (if has_body then ReadingChunks else ReadingText)\<rparr>)
             (stream_update i (\<lambda>t. t\<lparr>ss_loading := False, ss_streaming := True\<rparr>) s))"

definition text_arrives :: "nat \<Rightarrow> jsstring \<Rightarrow> stream \<Rightarrow> stream" where
  "text_arrives i body s =
     run_finally i (scheduleRender i (buffer_op FlushPartial (buffer_op (Append body) s)))"

definition chunk_arrives :: "nat \<Rightarrow> jsstring \<Rightarrow> stream \<Rightarrow> stream" where
  "chunk_arrives i chunk s =
     (if run_aborted i s then run_finally i s else scheduleRender i (buffer_op (Append chunk) s))"

definition stream_ends :: "nat \<Rightarrow> jsstring \<Rightarrow> stream \<Rightarrow> stream" where
  "stream_ends i rest s =
     run_finally i (if run_aborted i s then s
       else scheduleRender i (buffer_op FlushPartial (buffer_op (Append rest) s)))"

section \<open>What the component does\<close>

definition start_run :: "request_key \<Rightarrow> stream \<Rightarrow> stream" where
  "start_run key s =
     (let s1 = buffer_op Clear s
      in s1\<lparr>sm_runs := sm_runs s1 @ [\<lparr>rn_key = key, rn_phase = Fetching, rn_aborted = False, rn_frame = False\<rparr>],
            sm_active := Some (length (sm_runs s1))\<rparr>)"

text \<open>The effect's cleanup, then the effect for the new key. An unchanged key runs neither.\<close>

definition stop_run :: "stream \<Rightarrow> stream" where
  "stop_run s =
     (case sm_active s of
        None \<Rightarrow> s
      | Some i \<Rightarrow> (set_run i (\<lambda>r. r\<lparr>rn_frame := False, rn_aborted := True\<rparr>) s)\<lparr>sm_active := None\<rparr>)"

definition rerender :: "request_key \<Rightarrow> stream \<Rightarrow> stream" where
  "rerender key s =
     (if key = sm_key s then s
      else (let s1 = (stop_run s)\<lparr>sm_key := key\<rparr>
            in if fst key = None then s1 else start_run key s1))"

definition mount_stream :: "request_key \<Rightarrow> stream" where
  "mount_stream key =
     (let s = \<lparr>sm_key = key, sm_state = pendingState key, sm_buffer = new_log_buffer (Some 500000) None,
               sm_runs = [], sm_active = None\<rparr>
      in if fst key = None then s else start_run key s)"

definition stream_prepend :: "jsstring \<Rightarrow> stream \<Rightarrow> stream \<times> nat" where
  "stream_prepend chunk s =
     (case prepend (sm_buffer s) chunk of
        (b, added) \<Rightarrow>
          (let s1 = s\<lparr>sm_buffer := b\<rparr>
           in (if added > 0 then s1\<lparr>sm_state := (sm_state s1)\<lparr>ss_version := ss_version (sm_state s1) + 1\<rparr>\<rparr> else s1,
               added)))"

definition shown_stream :: "stream \<Rightarrow> stream_state" where
  "shown_stream s = (if ss_key (sm_state s) = sm_key s then sm_state s else pendingState (sm_key s))"

section \<open>Steps\<close>

text \<open>What wrote to the buffer since it was last cleared, for stating where its text came from.\<close>

datatype source = FromChunks nat | FromText nat | FromPage

type_synonym history = "(source \<times> lb_op) list"

text \<open>
  The runs answer in any order, aborted ones too: a promise that was resolved before the abort still
  continues. With \<open>fresh\<close> the component never moves to the key that the React state still carries.
\<close>

inductive stream_reach :: "bool \<Rightarrow> stream \<Rightarrow> history \<Rightarrow> bool" for fresh :: bool where
  mount: "stream_reach fresh (mount_stream key) []"
| rerender: "stream_reach fresh s h \<Longrightarrow> (fresh \<longrightarrow> key \<noteq> ss_key (sm_state s) \<or> key = sm_key s) \<Longrightarrow>
    stream_reach fresh (rerender key s) (if key = sm_key s \<or> fst key = None then h else [])"
| resolves: "stream_reach fresh s h \<Longrightarrow> i < length (sm_runs s) \<Longrightarrow> rn_phase (sm_runs s ! i) = Fetching \<Longrightarrow>
    stream_reach fresh (fetch_resolves i status statusText has_body s) h"
| rejects: "stream_reach fresh s h \<Longrightarrow> i < length (sm_runs s) \<Longrightarrow> rn_phase (sm_runs s ! i) \<noteq> Finished \<Longrightarrow>
    stream_reach fresh (run_catch i message s) h"
| whole: "stream_reach fresh s h \<Longrightarrow> i < length (sm_runs s) \<Longrightarrow> rn_phase (sm_runs s ! i) = ReadingText \<Longrightarrow>
    stream_reach fresh (text_arrives i body s) (h @ [(FromText i, Append body), (FromText i, FlushPartial)])"
| chunk: "stream_reach fresh s h \<Longrightarrow> i < length (sm_runs s) \<Longrightarrow> rn_phase (sm_runs s ! i) = ReadingChunks \<Longrightarrow>
    stream_reach fresh (chunk_arrives i chunk s)
      (if run_aborted i s then h else h @ [(FromChunks i, Append chunk)])"
| ends: "stream_reach fresh s h \<Longrightarrow> i < length (sm_runs s) \<Longrightarrow> rn_phase (sm_runs s ! i) = ReadingChunks \<Longrightarrow>
    stream_reach fresh (stream_ends i rest s)
      (if run_aborted i s then h else h @ [(FromChunks i, Append rest), (FromChunks i, FlushPartial)])"
| frame: "stream_reach fresh s h \<Longrightarrow> i < length (sm_runs s) \<Longrightarrow> rn_frame (sm_runs s ! i) \<Longrightarrow>
    stream_reach fresh (frame_fires i s) h"
| page: "stream_reach fresh s h \<Longrightarrow>
    stream_reach fresh (fst (stream_prepend chunk s)) (h @ [(FromPage, Prepend chunk)])"

section \<open>Frames\<close>

lemma set_run_sel [simp]:
  "sm_key (set_run i f s) = sm_key s" "sm_state (set_run i f s) = sm_state s"
  "sm_buffer (set_run i f s) = sm_buffer s" "sm_active (set_run i f s) = sm_active s"
  "sm_runs (set_run i f s) = (sm_runs s)[i := f (sm_runs s ! i)]"
  by (simp_all add: set_run_def)

lemma stream_update_sel [simp]:
  "sm_key (stream_update i f s) = sm_key s" "sm_buffer (stream_update i f s) = sm_buffer s"
  "sm_active (stream_update i f s) = sm_active s" "sm_runs (stream_update i f s) = sm_runs s"
  by (simp_all add: stream_update_def Let_def)

lemma buffer_op_sel [simp]:
  "sm_key (buffer_op c s) = sm_key s" "sm_state (buffer_op c s) = sm_state s"
  "sm_buffer (buffer_op c s) = lb_step c (sm_buffer s)" "sm_active (buffer_op c s) = sm_active s"
  "sm_runs (buffer_op c s) = sm_runs s"
  by (simp_all add: buffer_op_def)

lemma scheduleRender_sel [simp]:
  "sm_key (scheduleRender i s) = sm_key s" "sm_state (scheduleRender i s) = sm_state s"
  "sm_buffer (scheduleRender i s) = sm_buffer s" "sm_active (scheduleRender i s) = sm_active s"
  "sm_runs (scheduleRender i s) = (if rn_frame (sm_runs s ! i) then sm_runs s
     else (sm_runs s)[i := (sm_runs s ! i)\<lparr>rn_frame := True\<rparr>])"
  by (simp_all add: scheduleRender_def)

lemma run_finally_sel [simp]:
  "sm_key (run_finally i s) = sm_key s" "sm_buffer (run_finally i s) = sm_buffer s"
  "sm_active (run_finally i s) = sm_active s"
  "sm_runs (run_finally i s) = (sm_runs s)[i := (sm_runs s ! i)\<lparr>rn_phase := Finished\<rparr>]"
  by (simp_all add: run_finally_def)

lemma run_catch_sel [simp]:
  "sm_key (run_catch i m s) = sm_key s" "sm_buffer (run_catch i m s) = sm_buffer s"
  "sm_active (run_catch i m s) = sm_active s"
  "sm_runs (run_catch i m s) = (sm_runs s)[i := (sm_runs s ! i)\<lparr>rn_phase := Finished\<rparr>]"
  by (simp_all add: run_catch_def)

lemma frame_fires_sel [simp]:
  "sm_key (frame_fires i s) = sm_key s" "sm_buffer (frame_fires i s) = sm_buffer s"
  "sm_active (frame_fires i s) = sm_active s"
  "sm_runs (frame_fires i s) = (sm_runs s)[i := (sm_runs s ! i)\<lparr>rn_frame := False\<rparr>]"
  by (simp_all add: frame_fires_def Let_def)

lemma fetch_resolves_sel [simp]:
  "sm_key (fetch_resolves i st tx hb s) = sm_key s" "sm_buffer (fetch_resolves i st tx hb s) = sm_buffer s"
  "sm_active (fetch_resolves i st tx hb s) = sm_active s"
  "sm_runs (fetch_resolves i st tx hb s) = (sm_runs s)[i := (sm_runs s ! i)\<lparr>rn_phase :=
     (if run_aborted i s \<or> \<not> (200 \<le> st \<and> st \<le> 299) then Finished
      else if hb then ReadingChunks else ReadingText)\<rparr>]"
  by (simp_all add: fetch_resolves_def)

lemma stream_prepend_sel [simp]:
  "sm_key (fst (stream_prepend c s)) = sm_key s" "sm_buffer (fst (stream_prepend c s)) = fst (prepend (sm_buffer s) c)"
  "sm_active (fst (stream_prepend c s)) = sm_active s" "sm_runs (fst (stream_prepend c s)) = sm_runs s"
  by (simp_all add: stream_prepend_def Let_def split: prod.split)

section \<open>Where the text of the buffer comes from\<close>

definition start_buffer :: "log_buffer \<Rightarrow> bool" where
  "start_buffer b \<longleftrightarrow> lb_inv b \<and> lb_abs b = ll_empty \<and> maxLines b = 500000"

lemma start_buffer_new: "start_buffer (new_log_buffer (Some 500000) None)"
  using new_log_buffer_refines [of "Some 500000" None]
  by (simp add: start_buffer_def ll_empty_def) (simp add: new_log_buffer_def)

lemma start_buffer_clear: "lb_inv b \<Longrightarrow> maxLines b = 500000 \<Longrightarrow> start_buffer (clear b)"
  using clear_refines [of b] by (simp add: start_buffer_def ll_empty_def)

lemma buffer_run: "start_buffer b \<Longrightarrow> lb_inv (fold lb_step cs b) \<and> maxLines (fold lb_step cs b) = 500000"
proof -
  have "lb_inv b \<Longrightarrow> lb_inv (fold lb_step cs b) \<and> maxLines (fold lb_step cs b) = maxLines b" for b
    by (induction cs arbitrary: b) (simp_all add: lb_step_refines)
  then show "start_buffer b \<Longrightarrow> ?thesis" by (simp add: start_buffer_def)
qed

text \<open>The buffer is what its history made of an empty one.\<close>

definition history_ok :: "stream \<Rightarrow> history \<Rightarrow> bool" where
  "history_ok s h \<longleftrightarrow> (\<exists>b. start_buffer b \<and> sm_buffer s = fold lb_step (map snd h) b)"

lemma history_ok_snoc:
  "history_ok s h \<Longrightarrow> sm_buffer s' = fold lb_step (map snd h') (sm_buffer s) \<Longrightarrow> history_ok s' (h @ h')"
  by (auto simp: history_ok_def)

lemma history_ok_same: "history_ok s h \<Longrightarrow> sm_buffer s' = sm_buffer s \<Longrightarrow> history_ok s' h"
  using history_ok_snoc [of s h s' "[]"] by simp

lemma history_ok_start: "history_ok s h \<Longrightarrow> sm_buffer s' = clear (sm_buffer s) \<Longrightarrow> history_ok s' []"
  using buffer_run by (auto simp: history_ok_def intro!: start_buffer_clear)

lemma rerender_buffer:
  "sm_buffer (rerender key s) = (if key = sm_key s \<or> fst key = None then sm_buffer s else clear (sm_buffer s))"
  by (simp add: rerender_def stop_run_def start_run_def Let_def split: option.split)

lemma stream_history: "stream_reach fresh s h \<Longrightarrow> history_ok s h"
proof (induction rule: stream_reach.induct)
  case (mount key)
  have "start_buffer (clear (new_log_buffer (Some 500000) None))"
    using start_buffer_new by (intro start_buffer_clear) (simp_all add: start_buffer_def)
  then show ?case
    using start_buffer_new by (auto simp: history_ok_def mount_stream_def start_run_def Let_def)
next
  case (rerender s h key)
  then show ?case
    using history_ok_same [of s h "rerender key s"] history_ok_start [of s h "rerender key s"]
    by (auto simp: rerender_buffer)
next
  case (chunk s h i chunk)
  then show ?case
    by (auto simp: chunk_arrives_def elim: history_ok_same history_ok_snoc)
next
  case (ends s h i rest)
  then show ?case
    by (auto simp: stream_ends_def elim: history_ok_same history_ok_snoc)
qed (auto simp: text_arrives_def elim: history_ok_same history_ok_snoc)

section \<open>One run counts\<close>

text \<open>Exactly the run of the mounted effect is not aborted, and it is for the key shown.\<close>

definition runs_ok :: "stream \<Rightarrow> bool" where
  "runs_ok s \<longleftrightarrow> (\<forall>i < length (sm_runs s). rn_aborted (sm_runs s ! i) \<longleftrightarrow> sm_active s \<noteq> Some i) \<and>
     (case sm_active s of
        None \<Rightarrow> fst (sm_key s) = None
      | Some i \<Rightarrow> i < length (sm_runs s) \<and> rn_key (sm_runs s ! i) = sm_key s)"

lemma runs_ok_frame:
  assumes "runs_ok s" "sm_active s' = sm_active s" "sm_key s' = sm_key s" "length (sm_runs s') = length (sm_runs s)"
    and "\<And>j. j < length (sm_runs s) \<Longrightarrow> rn_aborted (sm_runs s' ! j) = rn_aborted (sm_runs s ! j) \<and>
      rn_key (sm_runs s' ! j) = rn_key (sm_runs s ! j)"
  shows "runs_ok s'"
  using assms by (auto simp: runs_ok_def split: option.splits)

lemma start_run_ok:
  assumes "\<forall>i < length (sm_runs s). rn_aborted (sm_runs s ! i)" "sm_key s = key"
  shows "runs_ok (start_run key s)"
  using assms by (auto simp: start_run_def runs_ok_def Let_def nth_append less_Suc_eq)

lemma stop_run_ok:
  assumes "runs_ok s"
  shows "\<forall>i < length (sm_runs (stop_run s)). rn_aborted (sm_runs (stop_run s) ! i)" "sm_active (stop_run s) = None"
    "sm_state (stop_run s) = sm_state s" "sm_buffer (stop_run s) = sm_buffer s"
  using assms by (auto simp: stop_run_def runs_ok_def nth_list_update split: option.splits)

lemma rerender_runs_ok: "runs_ok s \<Longrightarrow> runs_ok (rerender key s)"
  using stop_run_ok [of s]
  by (auto simp: rerender_def Let_def intro: start_run_ok) (auto simp: runs_ok_def)

lemma stream_runs_ok: "stream_reach fresh s h \<Longrightarrow> runs_ok s"
proof (induction rule: stream_reach.induct)
  case (mount key)
  then show ?case
    by (auto simp: mount_stream_def Let_def intro: start_run_ok) (auto simp: runs_ok_def)
next
  case (rerender s h key)
  then show ?case by (simp add: rerender_runs_ok)
next
  case (resolves s h i status statusText has_body)
  show ?case by (rule runs_ok_frame [OF resolves.IH]) (use resolves.hyps in \<open>auto simp: nth_list_update\<close>)
next
  case (rejects s h i message)
  show ?case by (rule runs_ok_frame [OF rejects.IH]) (use rejects.hyps in \<open>auto simp: nth_list_update\<close>)
next
  case (whole s h i body)
  show ?case by (rule runs_ok_frame [OF whole.IH]) (use whole.hyps in \<open>auto simp: text_arrives_def nth_list_update\<close>)
next
  case (chunk s h i chunk)
  show ?case by (rule runs_ok_frame [OF chunk.IH]) (use chunk.hyps in \<open>auto simp: chunk_arrives_def nth_list_update\<close>)
next
  case (ends s h i rest)
  show ?case by (rule runs_ok_frame [OF ends.IH]) (use ends.hyps in \<open>auto simp: stream_ends_def nth_list_update\<close>)
next
  case (frame s h i)
  show ?case by (rule runs_ok_frame [OF frame.IH]) (use frame.hyps in \<open>auto simp: nth_list_update\<close>)
next
  case (page s h chunk)
  show ?case by (rule runs_ok_frame [OF page.IH]) (use page.hyps in \<open>auto\<close>)
qed

text \<open>A step of a run that is not the active one leaves what is shown alone.\<close>

lemma update_aborted: "run_aborted i s \<Longrightarrow> stream_update i f s = s"
  by (simp add: stream_update_def)

lemma finally_aborted: "run_aborted i s \<Longrightarrow> sm_state (run_finally i s) = sm_state s"
  by (simp add: run_finally_def update_aborted)

lemma aborted_state:
  assumes "run_aborted i s" "i < length (sm_runs s)"
  shows "sm_state (fetch_resolves i st tx hb s) = sm_state s" "sm_state (run_catch i m s) = sm_state s"
    "sm_state (text_arrives i body s) = sm_state s" "sm_state (chunk_arrives i c s) = sm_state s"
    "sm_state (stream_ends i c s) = sm_state s" "sm_state (frame_fires i s) = sm_state s"
proof -
  have "run_aborted i (scheduleRender i (buffer_op FlushPartial (buffer_op (Append body) s)))"
    using assms by (simp add: run_aborted_def)
  then show "sm_state (text_arrives i body s) = sm_state s" by (simp add: text_arrives_def finally_aborted)
  show "sm_state (frame_fires i s) = sm_state s"
    using assms by (simp add: frame_fires_def Let_def run_aborted_def)
qed (use assms in \<open>simp_all add: fetch_resolves_def run_catch_def chunk_arrives_def stream_ends_def finally_aborted\<close>)

text \<open>The status that is shown is the phase of the active run.\<close>

definition status_of :: "stream \<Rightarrow> bool \<times> bool" where
  "status_of s =
     (case sm_active s of
        None \<Rightarrow> (True, False)
      | Some i \<Rightarrow> (rn_phase (sm_runs s ! i) = Fetching, rn_phase (sm_runs s ! i) \<in> {ReadingText, ReadingChunks}))"

definition shown_status :: "stream \<Rightarrow> bool \<times> bool" where
  "shown_status s = (ss_loading (shown_stream s), ss_streaming (shown_stream s))"

lemma shown_status_cong: "sm_state s' = sm_state s \<Longrightarrow> sm_key s' = sm_key s \<Longrightarrow> shown_status s' = shown_status s"
  by (simp add: shown_status_def shown_stream_def)

lemma status_of_other:
  assumes "sm_active s' = sm_active s" "sm_active s \<noteq> Some i" "sm_runs s' = (sm_runs s)[i := r]"
  shows "status_of s' = status_of s"
  using assms by (auto simp: status_of_def split: option.splits)

lemma active_update:
  assumes "runs_ok s" "sm_active s = Some i" "\<And>t. ss_key (f t) = ss_key t"
  shows "shown_stream (stream_update i f s) = f (shown_stream s)" "\<not> run_aborted i s"
  using assms by (auto simp: runs_ok_def stream_update_def shown_stream_def Let_def run_aborted_def pendingState_def)

lemma finally_status:
  assumes "runs_ok s" "sm_active s = Some i"
  shows "shown_status (run_finally i s) = (False, False)" "status_of (run_finally i s) = (False, False)"
proof -
  have "shown_stream (run_finally i s)
      = shown_stream (stream_update i (\<lambda>t. t\<lparr>ss_loading := False, ss_streaming := False\<rparr>) s)"
    by (simp add: run_finally_def shown_stream_def)
  then show "shown_status (run_finally i s) = (False, False)"
    using active_update(1) [OF assms, of "\<lambda>t. t\<lparr>ss_loading := False, ss_streaming := False\<rparr>"]
    by (simp add: shown_status_def)
  show "status_of (run_finally i s) = (False, False)"
    using assms by (auto simp: status_of_def runs_ok_def)
qed

lemma stream_update_runs_ok: "runs_ok s \<Longrightarrow> runs_ok (stream_update i f s)"
  by (rule runs_ok_frame) auto

lemma buffer_op_runs_ok: "runs_ok s \<Longrightarrow> runs_ok (buffer_op c s)"
  by (rule runs_ok_frame) auto

lemma scheduleRender_runs_ok: "runs_ok s \<Longrightarrow> i < length (sm_runs s) \<Longrightarrow> runs_ok (scheduleRender i s)"
  by (rule runs_ok_frame) (auto simp: nth_list_update)

lemmas run_helpers_ok = stream_update_runs_ok buffer_op_runs_ok scheduleRender_runs_ok

lemma catch_status:
  assumes "runs_ok s" "sm_active s = Some i"
  shows "shown_status (run_catch i m s) = status_of (run_catch i m s)"
  unfolding run_catch_def using finally_status assms
  by (auto simp: run_helpers_ok)

lemma inactive_aborted: "runs_ok s \<Longrightarrow> i < length (sm_runs s) \<Longrightarrow> sm_active s \<noteq> Some i \<Longrightarrow> run_aborted i s"
  by (simp add: runs_ok_def run_aborted_def)

lemma inactive_status:
  assumes "shown_status s = status_of s" "sm_active s \<noteq> Some i"
    and "sm_state s' = sm_state s" "sm_key s' = sm_key s" "sm_active s' = sm_active s" "sm_runs s' = (sm_runs s)[i := r]"
  shows "shown_status s' = status_of s'"
  using assms shown_status_cong [of s' s] status_of_other [of s' s i r] by simp

lemma text_arrives_runs:
  "i < length (sm_runs s) \<Longrightarrow> sm_runs (text_arrives i body s) =
     (sm_runs s)[i := (sm_runs s ! i)\<lparr>rn_frame := True, rn_phase := Finished\<rparr>]"
  by (simp add: text_arrives_def list_eq_iff_nth_eq nth_list_update)

lemma chunk_aborted_runs:
  "run_aborted i s \<Longrightarrow> sm_runs (chunk_arrives i c s) = (sm_runs s)[i := (sm_runs s ! i)\<lparr>rn_phase := Finished\<rparr>]"
  "run_aborted i s \<Longrightarrow> sm_runs (stream_ends i c s) = (sm_runs s)[i := (sm_runs s ! i)\<lparr>rn_phase := Finished\<rparr>]"
  by (simp_all add: chunk_arrives_def stream_ends_def)

lemma event_sel [simp]:
  "sm_key (text_arrives i b s) = sm_key s" "sm_active (text_arrives i b s) = sm_active s"
  "sm_key (chunk_arrives i b s) = sm_key s" "sm_active (chunk_arrives i b s) = sm_active s"
  "sm_key (stream_ends i b s) = sm_key s" "sm_active (stream_ends i b s) = sm_active s"
  by (simp_all add: text_arrives_def chunk_arrives_def stream_ends_def)

lemma resolves_status:
  assumes "runs_ok s" "i < length (sm_runs s)" "shown_status s = status_of s"
  shows "shown_status (fetch_resolves i st tx hb s) = status_of (fetch_resolves i st tx hb s)"
proof (cases "sm_active s = Some i")
  case True
  note act = active_update [OF assms(1) True]
  have na: "\<not> run_aborted i s" by (rule act(2) [of id]) simp
  show ?thesis
  proof (cases "200 \<le> st \<and> st \<le> 299")
    case False
    with na show ?thesis using catch_status [OF assms(1) True] by (simp add: fetch_resolves_def)
  next
    case ok: True
    let ?f = "\<lambda>t. t\<lparr>ss_loading := False, ss_streaming := True\<rparr>"
    have "shown_stream (fetch_resolves i st tx hb s) = shown_stream (stream_update i ?f s)"
      using na ok by (simp add: fetch_resolves_def shown_stream_def)
    then have "shown_status (fetch_resolves i st tx hb s) = (False, True)"
      using act(1) [of ?f] by (simp add: shown_status_def)
    then show ?thesis using True na ok assms(2) by (simp add: status_of_def)
  qed
next
  case False
  with assms inactive_aborted [OF assms(1,2)] aborted_state [of i s]
  show ?thesis by (intro inactive_status [OF assms(3)]) auto
qed

lemma whole_status:
  assumes "runs_ok s" "i < length (sm_runs s)" "shown_status s = status_of s"
  shows "shown_status (text_arrives i body s) = status_of (text_arrives i body s)"
proof (cases "sm_active s = Some i")
  case True
  then show ?thesis
    unfolding text_arrives_def using finally_status assms(1,2) by (simp add: run_helpers_ok)
next
  case False
  with assms inactive_aborted [OF assms(1,2)] aborted_state [of i s] text_arrives_runs [of i s body]
  show ?thesis by (intro inactive_status [OF assms(3)]) auto
qed

lemma chunk_status:
  assumes "runs_ok s" "i < length (sm_runs s)" "shown_status s = status_of s"
  shows "shown_status (chunk_arrives i c s) = status_of (chunk_arrives i c s)"
    "shown_status (stream_ends i c s) = status_of (stream_ends i c s)"
proof (atomize (full), cases "sm_active s = Some i")
  case True
  have na: "\<not> run_aborted i s" using active_update(2) [OF assms(1) True, of id] by simp
  then have "shown_status (chunk_arrives i c s) = shown_status s"
    by (intro shown_status_cong) (simp_all add: chunk_arrives_def)
  moreover have "status_of (chunk_arrives i c s) = status_of s"
    using na True assms(2) by (simp add: chunk_arrives_def status_of_def)
  moreover have "shown_status (stream_ends i c s) = status_of (stream_ends i c s)"
    unfolding stream_ends_def using na finally_status True assms(1,2) by (simp add: run_helpers_ok)
  ultimately show "shown_status (chunk_arrives i c s) = status_of (chunk_arrives i c s) \<and>
      shown_status (stream_ends i c s) = status_of (stream_ends i c s)" using assms(3) by simp
next
  case False
  then have ab: "run_aborted i s" by (rule inactive_aborted [OF assms(1,2)])
  note inactive = inactive_status [OF assms(3) False]
  show "shown_status (chunk_arrives i c s) = status_of (chunk_arrives i c s) \<and>
      shown_status (stream_ends i c s) = status_of (stream_ends i c s)"
    using ab aborted_state [OF ab assms(2)] chunk_aborted_runs [OF ab]
    by (auto intro!: inactive)
qed

lemma frame_status:
  assumes "runs_ok s" "i < length (sm_runs s)" "shown_status s = status_of s"
  shows "shown_status (frame_fires i s) = status_of (frame_fires i s)"
proof -
  have "shown_status (frame_fires i s) = shown_status s"
    by (auto simp: shown_status_def shown_stream_def frame_fires_def Let_def)
  moreover have "status_of (frame_fires i s) = status_of s"
    using assms(2) by (auto simp: status_of_def nth_list_update split: option.split)
  ultimately show ?thesis using assms(3) by simp
qed

lemma rerender_status:
  assumes "runs_ok s" "shown_status s = status_of s" "key \<noteq> ss_key (sm_state s) \<or> key = sm_key s"
  shows "shown_status (rerender key s) = status_of (rerender key s)"
proof (cases "key = sm_key s")
  case False
  with assms stop_run_ok [OF assms(1)] show ?thesis
    by (auto simp: rerender_def Let_def start_run_def status_of_def shown_status_def shown_stream_def
        pendingState_def)
qed (use assms(2) in \<open>simp add: rerender_def\<close>)

lemma prepend_status:
  "shown_status (fst (stream_prepend c s)) = shown_status s" "status_of (fst (stream_prepend c s)) = status_of s"
  by (auto simp: stream_prepend_def shown_status_def shown_stream_def status_of_def pendingState_def Let_def
      split: prod.split option.split)

lemma stream_status: "stream_reach True s h \<Longrightarrow> shown_status s = status_of s"
proof (induction rule: stream_reach.induct)
  case (mount key)
  then show ?case
    by (auto simp: mount_stream_def start_run_def status_of_def shown_status_def shown_stream_def
        pendingState_def Let_def)
next
  case (rejects s h i message)
  then have "runs_ok s" by (auto dest: stream_runs_ok)
  then show ?case
    using rejects catch_status [of s i message] inactive_aborted [of s i] aborted_state(2) [of i s message]
    by (cases "sm_active s = Some i") (auto intro!: inactive_status [of s i])
qed (auto dest!: stream_runs_ok simp: prepend_status
      intro: rerender_status resolves_status whole_status chunk_status frame_status)

lemma stream_sources:
  "stream_reach fresh s h \<Longrightarrow> (FromChunks i, c) \<in> set h \<Longrightarrow> sm_active s = None \<or> sm_active s = Some i"
proof (induction rule: stream_reach.induct)
  case (rerender s h key)
  then show ?case
    using stop_run_ok(2) [OF stream_runs_ok [OF rerender.hyps(1)]]
    by (auto simp: rerender_def Let_def split: if_splits)
next
  case (chunk s h j chunk)
  then show ?case using inactive_aborted [OF stream_runs_ok [OF chunk.hyps(1)], of j] by (auto split: if_splits)
next
  case (ends s h j rest)
  then show ?case using inactive_aborted [OF stream_runs_ok [OF ends.hyps(1)], of j] by (auto split: if_splits)
qed auto

lemma fold_appends: "fold (ll_step n) (map Append cs) l = ll_append n l (concat cs)"
  by (induction cs arbitrary: l) (simp_all add: ll_append_append, simp add: ll_append_def)

lemma history_abs:
  assumes "history_ok s h"
  shows "lb_abs (sm_buffer s) = fold (ll_step 500000) (map snd h) ll_empty"
  using assms lb_run_refines by (auto simp: history_ok_def start_buffer_def)

text \<open>Sample runs for the witnesses: a log opened, answered, read to its end in two pieces.\<close>

abbreviation keyA :: request_key where "keyA \<equiv> (Some [65], 0)"
abbreviation keyB :: request_key where "keyB \<equiv> (Some [66], 0)"

abbreviation opened :: "bool \<Rightarrow> stream" where "opened has_body \<equiv> fetch_resolves 0 200 [] has_body (mount_stream keyA)"

abbreviation read_to_end :: stream where "read_to_end \<equiv> stream_ends 0 [98] (chunk_arrives 0 [97, NL] (opened True))"

lemma mounted: "length (sm_runs (mount_stream keyA)) = 1" "rn_phase (sm_runs (mount_stream keyA) ! 0) = Fetching"
  "\<not> run_aborted 0 (mount_stream keyA)" "sm_key (mount_stream keyA) = keyA" "sm_active (mount_stream keyA) = Some 0"
  by (simp_all add: mount_stream_def start_run_def run_aborted_def)

lemma opened_runs: "length (sm_runs (opened hb)) = 1" "\<not> run_aborted 0 (opened hb)"
  "rn_phase (sm_runs (opened hb) ! 0) = (if hb then ReadingChunks else ReadingText)"
  using mounted by (simp_all add: run_aborted_def)

lemma opened_reach: "stream_reach fresh (opened hb) []"
  by (intro stream_reach.resolves stream_reach.mount) (simp_all add: mounted)

lemma read_to_end_reach:
  "stream_reach fresh read_to_end
     (map (\<lambda>c. (FromChunks 0, Append c)) [[97, NL], [98]] @ [(FromChunks 0, FlushPartial)])"
proof -
  have one: "stream_reach fresh (chunk_arrives 0 [97, NL] (opened True)) [(FromChunks 0, Append [97, NL])]"
    using stream_reach.chunk [OF opened_reach [of fresh True], of 0 "[97, NL]"] opened_runs [of True] by fastforce
  have "length (sm_runs (chunk_arrives 0 [97, NL] (opened True))) = 1"
    "rn_phase (sm_runs (chunk_arrives 0 [97, NL] (opened True)) ! 0) = ReadingChunks"
    "\<not> run_aborted 0 (chunk_arrives 0 [97, NL] (opened True))"
    using opened_runs [of True] by (simp_all add: chunk_arrives_def run_aborted_def)
  then show ?thesis using stream_reach.ends [OF one, of 0 "[98]"] by simp
qed

lemma read_to_end_runs: "sm_active read_to_end = Some 0" "rn_phase (sm_runs read_to_end ! 0) = Finished"
  using opened_runs [of True] by (simp_all add: mounted stream_ends_def chunk_arrives_def)

section \<open>Properties\<close>

text \<open>C2: in every reachable state of the streaming hook the buffer holds exactly what was written to it
  since it was last cleared, and every chunk streamed into it came from the run that is active now:
  the chunks of a superseded request never reach the buffer.\<close>

theorem stream_buffer_provenance:
  assumes "stream_reach fresh s h"
  shows "lb_inv (sm_buffer s) \<and> lb_abs (sm_buffer s) = fold (ll_step 500000) (map snd h) ll_empty \<and>
    ((FromChunks i, c) \<in> set h \<longrightarrow> sm_active s = None \<or> sm_active s = Some i)"
proof -
  have "history_ok s h" using assms by (rule stream_history)
  then have "lb_inv (sm_buffer s)" using buffer_run by (auto simp: history_ok_def)
  with history_abs [OF \<open>history_ok s h\<close>] stream_sources [OF assms] show ?thesis by blast
qed

theorem stream_buffer_provenance_witness:
  "lb_abs (sm_buffer read_to_end) = ll_flush 500000 (ll_append 500000 (ll_append 500000 ll_empty [97, NL]) [98])"
  using stream_buffer_provenance [OF read_to_end_reach [of True]] by simp

text \<open>however the body was cut into chunks, once the stream has ended the buffer holds the lines of
  the whole body, the last 500000 of them, a carriage return cut off each.\<close>

theorem stream_body_lines:
  assumes "stream_reach fresh s (map (\<lambda>c. (FromChunks i, Append c)) chunks @ [(FromChunks i, FlushPartial)])"
  defines "body \<equiv> concat chunks"
  shows "lb_abs (sm_buffer s) = ll_flush 500000 (ll_append 500000 ll_empty body)"
proof -
  have "map snd (map (\<lambda>c. (FromChunks i, Append c)) chunks) = map Append chunks" by simp
  then show ?thesis
    using history_abs [OF stream_history [OF assms(1)]]
    unfolding body_def by (simp add: fold_appends comp_def)
qed

theorem stream_body_lines_witness:
  "lb_abs (sm_buffer read_to_end) = ll_flush 500000 (ll_append 500000 ll_empty [97, NL, 98])"
  using stream_body_lines [OF read_to_end_reach [of True]] by simp

text \<open>as long as the component does not go back to a key the state still carries, what it shows is
  the state of the request in force: loading exactly until the response arrives, streaming exactly while
  its body is read, neither once it ended or failed.\<close>

theorem stream_status_matches:
  assumes "stream_reach True s h" and "sm_active s = Some i"
  shows "ss_loading (shown_stream s) = (rn_phase (sm_runs s ! i) = Fetching) \<and>
    ss_streaming (shown_stream s) = (rn_phase (sm_runs s ! i) \<in> {ReadingText, ReadingChunks})"
  using stream_status [OF assms(1)] assms(2) by (simp add: shown_status_def status_of_def)

theorem stream_status_matches_witness: "ss_streaming (shown_stream (opened True))"
proof -
  have "sm_active (opened True) = Some 0" by (simp add: mounted)
  from stream_status_matches [OF opened_reach this] show ?thesis using opened_runs(3) [of True] by simp
qed

text \<open>going to another log and back before the other one reports shows the state of the finished
  request for the one that is still being fetched: neither loading nor streaming, over an empty
  buffer.\<close>

theorem returning_shows_old_status:
  "\<exists>s h i. stream_reach False s h \<and> sm_active s = Some i \<and> rn_phase (sm_runs s ! i) = Fetching \<and>
     \<not> ss_loading (shown_stream s) \<and> ll_lines (lb_abs (sm_buffer s)) = []"
proof -
  let ?s = "rerender keyA (rerender keyB read_to_end)"
  have key: "sm_key read_to_end = keyA" by (simp add: mounted)
  have keyB: "sm_key (rerender keyB read_to_end) = keyB"
    by (simp add: rerender_def key start_run_def Let_def)
  have B: "stream_reach False (rerender keyB read_to_end) []"
    using stream_reach.rerender [OF read_to_end_reach [of False], of keyB] key by simp
  then have reach: "stream_reach False ?s []"
    using stream_reach.rerender [OF B, of keyA] keyB by simp
  have st: "sm_state ?s = sm_state read_to_end" "sm_key ?s = keyA"
    by (simp_all add: rerender_def key Let_def start_run_def stop_run_def split: option.split)
  have "sm_active ?s = Some (length (sm_runs ?s) - 1)" "rn_phase (last (sm_runs ?s)) = Fetching"
    "sm_runs ?s \<noteq> []"
    by (simp_all add: rerender_def mounted Let_def start_run_def)
  then have phase: "rn_phase (sm_runs ?s ! (length (sm_runs ?s) - 1)) = Fetching"
    "sm_active ?s = Some (length (sm_runs ?s) - 1)" by (simp_all add: last_conv_nth)
  have "shown_status read_to_end = (False, False)"
    using stream_status [OF read_to_end_reach] read_to_end_runs by (simp add: status_of_def)
  then have "shown_status ?s = (False, False)"
    using shown_status_cong [of ?s read_to_end] unfolding st key by simp
  moreover have "ll_lines (lb_abs (sm_buffer ?s)) = []"
    using history_abs [OF stream_history [OF reach]] by (simp add: ll_empty_def)
  ultimately have "stream_reach False ?s [] \<and> sm_active ?s = Some (length (sm_runs ?s) - 1) \<and>
     rn_phase (sm_runs ?s ! (length (sm_runs ?s) - 1)) = Fetching \<and>
     \<not> ss_loading (shown_stream ?s) \<and> ll_lines (lb_abs (sm_buffer ?s)) = []"
    using reach phase by (simp add: shown_status_def)
  then show ?thesis by blast
qed

text \<open>whatever a superseded run still receives, the shown state does not change.\<close>

theorem superseded_run_silent:
  assumes "stream_reach fresh s h" and "i < length (sm_runs s)" and "sm_active s \<noteq> Some i"
  shows "shown_stream (fetch_resolves i status statusText has_body s) = shown_stream s \<and>
    shown_stream (run_catch i message s) = shown_stream s \<and> shown_stream (text_arrives i body s) = shown_stream s \<and>
    shown_stream (chunk_arrives i chunk s) = shown_stream s \<and> shown_stream (stream_ends i rest s) = shown_stream s \<and>
    shown_stream (frame_fires i s) = shown_stream s"
  using aborted_state [OF inactive_aborted [OF stream_runs_ok [OF assms(1)] assms(2,3)] assms(2)]
  by (simp add: shown_stream_def)

theorem superseded_run_silent_witness:
  "shown_stream (chunk_arrives 0 [120] (rerender keyB (opened True))) = shown_stream (rerender keyB (opened True))"
proof -
  have "stream_reach False (rerender keyB (opened True)) []"
    using stream_reach.rerender [OF opened_reach [of False True], of keyB] by (simp add: mounted)
  moreover have "sm_active (rerender keyB (opened True)) = Some 1" "0 < length (sm_runs (rerender keyB (opened True)))"
    using opened_runs(1) [of True] by (simp_all add: rerender_def start_run_def stop_run_def Let_def mounted)
  ultimately show ?thesis using superseded_run_silent [of False _ "[]" 0] by simp
qed

text \<open>the branch for a response without a body is the exception: it does not look at the abort
  signal after awaiting the text, so a superseded response can be written into the buffer of the
  request that followed it.\<close>

theorem stale_text_reaches_buffer:
  "\<exists>s h i j body. stream_reach fresh s h \<and> (FromText i, Append body) \<in> set h \<and> sm_active s = Some j \<and> i \<noteq> j \<and>
     run_aborted i s \<and> body \<noteq> []"
proof -
  let ?s = "rerender keyB (opened False)"
  have state_key: "ss_key (sm_state (opened False)) = keyA"
    by (simp add: fetch_resolves_def stream_update_def mounted Let_def)
      (simp add: mount_stream_def start_run_def Let_def pendingState_def)
  have reach: "stream_reach fresh ?s []"
    using stream_reach.rerender [OF opened_reach [of fresh False], of keyB] state_key by (simp add: mounted)
  have runs: "0 < length (sm_runs ?s)" "rn_phase (sm_runs ?s ! 0) = ReadingText" "run_aborted 0 ?s" "sm_active ?s = Some 1"
    using opened_runs(1,3) [of False]
    by (simp_all add: rerender_def start_run_def stop_run_def Let_def mounted nth_append run_aborted_def)
  note late = stream_reach.whole [OF reach runs(1,2), of "[120]"]
  have "run_aborted 0 (text_arrives 0 [120] ?s)"
    using runs(1,3) by (simp add: text_arrives_runs run_aborted_def)
  then have "stream_reach fresh (text_arrives 0 [120] ?s) [(FromText 0, Append [120]), (FromText 0, FlushPartial)] \<and>
      (FromText 0, Append [120]) \<in> set [(FromText 0, Append [120]), (FromText 0, FlushPartial)] \<and>
      sm_active (text_arrives 0 [120] ?s) = Some 1 \<and> (0 :: nat) \<noteq> 1 \<and> run_aborted 0 (text_arrives 0 [120] ?s) \<and>
      [120 :: nat] \<noteq> []"
    using late runs(4) by simp
  then show ?thesis by blast
qed

end
