(* ===== verification/Log_Format.thy ===== *)
theory Log_Format
  imports Log_Parse
begin

text \<open>
  The pod annotation that names each container's log format and columns,
  \<^verbatim>\<open>plugins/logging/src/logs/format-annotation.ts\<close>: the parser, a printer for the documented
  grammar and the round trip between them, and what a malformed entry can and cannot affect.
\<close>

definition FORMAT_ANNOTATION :: jsstring where
  "FORMAT_ANNOTATION = lit ''logs.kubernetes.io/format''"

record format_hint =
  fh_format :: log_format
  fh_columns :: "column_spec list"

text \<open>
  The parser's variables: the hints by container, and the container whose entry \<^verbatim>\<open>current\<close> refers
  to. The object \<^verbatim>\<open>current\<close> points to is always the one the map holds for that name, so a push
  into it is an update of the map.
\<close>

type_synonym hints_state = "(jsstring \<rightharpoonup> format_hint) \<times> jsstring option"

definition push_column :: "jsstring \<Rightarrow> column_spec \<Rightarrow> (jsstring \<rightharpoonup> format_hint) \<Rightarrow> (jsstring \<rightharpoonup> format_hint)" where
  "push_column name c hints =
     (case hints name of
        None \<Rightarrow> hints
      | Some hint \<Rightarrow> hints(name \<mapsto> hint\<lparr>fh_columns := fh_columns hint @ [c]\<rparr>))"

text \<open>\<^verbatim>\<open>first.slice(0, at)\<close> and \<^verbatim>\<open>first.slice(at + 1)\<close>; with no \<open>=\<close> the type is the whole of it.\<close>

definition first_column :: "jsstring \<Rightarrow> column_spec option" where
  "first_column first =
     (case index_of 61 first of
        None \<Rightarrow> None
      | Some at \<Rightarrow>
          (case isColumnType (trim (drop (at + 1) first)) of
             None \<Rightarrow> None
           | Some type \<Rightarrow> if at > 0 then Some \<lparr>cs_key = trim (take at first), cs_type = type\<rparr> else None))"

definition container_entry :: "jsstring \<Rightarrow> jsstring \<Rightarrow> nat option \<Rightarrow> log_format option \<Rightarrow> hints_state \<Rightarrow> hints_state" where
  "container_entry name value colon format st =
     (case (if name = [] then None else format) of
        None \<Rightarrow> (fst st, None)
      | Some f \<Rightarrow>
          (let hints = (fst st)(name \<mapsto> \<lparr>fh_format = f, fh_columns = []\<rparr>)
           in case colon of
                None \<Rightarrow> (hints, Some name)
              | Some i \<Rightarrow>
                  (case first_column (drop (i + 1) value) of
                     None \<Rightarrow> (hints, None)
                   | Some c \<Rightarrow> (push_column name c hints, Some name))))"

definition hint_token :: "host \<Rightarrow> jsstring \<Rightarrow> hints_state \<Rightarrow> hints_state" where
  "hint_token h token st =
     (case index_of 61 token of
        None \<Rightarrow> if trim token \<noteq> [] then (fst st, None) else st
      | Some eq \<Rightarrow>
          (let name = trim (take eq token);
               value = trim (drop (eq + 1) token);
               colon = index_of 58 value;
               head = toLowerCase h (trim (case colon of None \<Rightarrow> value | Some i \<Rightarrow> take i value));
               format = isLogFormat head
           in if colon \<noteq> None \<or> format \<noteq> None then container_entry name value colon format st
              else
                (case (snd st, isColumnType value) of
                   (Some current, Some type) \<Rightarrow>
                     if name \<noteq> [] then (push_column current \<lparr>cs_key = name, cs_type = type\<rparr> (fst st), snd st)
                     else (fst st, None)
                 | _ \<Rightarrow> (fst st, None))))"

definition parseHints :: "host \<Rightarrow> jsstring \<Rightarrow> (jsstring \<rightharpoonup> format_hint)" where
  "parseHints h annotation = fst (fold (hint_token h) (split_on 44 annotation) (Map.empty, None))"

definition annotatedFormat :: "host \<Rightarrow> jsstring option \<Rightarrow> jsstring \<Rightarrow> format_hint option" where
  "annotatedFormat h annotation container =
     (case annotation of
        None \<Rightarrow> None
      | Some a \<Rightarrow> if a = [] then None else parseHints h a container)"

section \<open>The documented grammar\<close>

text \<open>
  \<^verbatim>\<open>container=format(,container=format)*\<close> with
  \<^verbatim>\<open>format = format-name(:column-name=column-type(,column-name=column-type)*)?\<close>.
\<close>

definition format_name :: "log_format \<Rightarrow> jsstring" where
  "format_name f = lit (case f of Plain \<Rightarrow> ''plain'' | Json \<Rightarrow> ''json'' | Ecs \<Rightarrow> ''ecs'' | Journald \<Rightarrow> ''journald'')"

definition column_type_name :: "column_type \<Rightarrow> jsstring" where
  "column_type_name t = lit (case t of DateRfc3339 \<Rightarrow> ''date/rfc3339'' | DateRfc3339Nano \<Rightarrow> ''date/rfc3339nano''
     | DateEpochMs \<Rightarrow> ''date/epoch-ms'' | Epoch \<Rightarrow> ''epoch'' | LevelColumn \<Rightarrow> ''log-level''
     | Abbreviate \<Rightarrow> ''abbreviate'' | NumberColumn \<Rightarrow> ''number'' | StringColumn \<Rightarrow> ''string'')"

definition print_column :: "column_spec \<Rightarrow> jsstring" where
  "print_column c = cs_key c @ [61] @ column_type_name (cs_type c)"

definition entry_tokens :: "jsstring \<times> format_hint \<Rightarrow> jsstring list" where
  "entry_tokens e =
     (case fh_columns (snd e) of
        [] \<Rightarrow> [fst e @ [61] @ format_name (fh_format (snd e))]
      | c # cs \<Rightarrow> (fst e @ [61] @ format_name (fh_format (snd e)) @ [58] @ print_column c) # map print_column cs)"

definition print_annotation :: "(jsstring \<times> format_hint) list \<Rightarrow> jsstring" where
  "print_annotation es = join [44] (concat (map entry_tokens es))"

text \<open>Names the grammar can carry: no separator inside, no white space around.\<close>

definition plain_name :: "jsstring \<Rightarrow> bool" where
  "plain_name n \<longleftrightarrow> n \<noteq> [] \<and> 44 \<notin> set n \<and> 61 \<notin> set n \<and> trim n = n"

definition plain_entry :: "jsstring \<times> format_hint \<Rightarrow> bool" where
  "plain_entry e \<longleftrightarrow> plain_name (fst e) \<and> list_all (\<lambda>c. plain_name (cs_key c)) (fh_columns (snd e))"

text \<open>What is used of \<^verbatim>\<open>toLowerCase\<close>: lower-case ASCII stays.\<close>

definition lower_fixed :: "host \<Rightarrow> bool" where
  "lower_fixed h \<longleftrightarrow> (\<forall>f. toLowerCase h (format_name f) = format_name f) \<and>
     (\<forall>t. toLowerCase h (column_type_name t) = column_type_name t)"

lemma isLogFormat_name: "isLogFormat (format_name f) = Some f"
  by (cases f) (simp_all add: isLogFormat_def LOG_FORMATS_def format_name_def)

lemma isColumnType_name: "isColumnType (column_type_name t) = Some t"
  by (cases t) (simp_all add: isColumnType_def COLUMN_TYPES_def column_type_name_def)

lemma trim_names [simp]: "trim (format_name f) = format_name f" "trim (column_type_name t) = column_type_name t"
  by (cases f; simp add: format_name_def trim_def trim_end_def is_space_def)
     (cases t; simp add: column_type_name_def trim_def trim_end_def is_space_def)

lemma names_no_sep [simp]:
  "44 \<notin> set (format_name f)" "61 \<notin> set (format_name f)" "58 \<notin> set (format_name f)"
  "44 \<notin> set (column_type_name t)" "61 \<notin> set (column_type_name t)" "58 \<notin> set (column_type_name t)"
  by (cases f; simp add: format_name_def)+ (cases t; simp add: column_type_name_def)+

lemma names_no_colon [simp]: "index_of 58 (format_name f) = None" "index_of 58 (column_type_name t) = None"
  by (simp_all only: index_of_None_iff names_no_sep not_False_eq_True)

lemma type_not_format: "isLogFormat (column_type_name t) = None"
  by (cases t) (simp_all add: isLogFormat_def LOG_FORMATS_def column_type_name_def)

lemma names_not_Nil [simp]: "format_name f \<noteq> []" "column_type_name t \<noteq> []"
  by (cases f; simp add: format_name_def) (cases t; simp add: column_type_name_def)

lemma names_ends: "\<not> is_space (hd (format_name f))" "\<not> is_space (last (column_type_name t))"
  by (cases f; simp add: format_name_def is_space_def) (cases t; simp add: column_type_name_def is_space_def)

lemma trim_ends: "s \<noteq> [] \<Longrightarrow> \<not> is_space (hd s) \<Longrightarrow> \<not> is_space (last s) \<Longrightarrow> trim s = s"
  by (cases s) (simp_all add: trim_def trim_end_id)

lemma format_then_column_trim: "trim (format_name f @ [58] @ key @ [61] @ column_type_name t)
    = format_name f @ [58] @ key @ [61] @ column_type_name t"
  by (rule trim_ends) (simp_all add: names_ends hd_append)

lemmas print_defs = print_column_def plain_name_def

lemma token_container:
  assumes "lower_fixed h" "plain_name n"
  shows "hint_token h (n @ [61] @ format_name f) st = ((fst st)(n \<mapsto> \<lparr>fh_format = f, fh_columns = []\<rparr>), Some n)"
proof -
  show ?thesis
    using assms by (simp add: hint_token_def container_entry_def plain_name_def lower_fixed_def isLogFormat_name Let_def)
qed

lemma token_container_column:
  assumes "lower_fixed h" "plain_name n" "plain_name (cs_key c)"
  shows "hint_token h (n @ [61] @ format_name f @ [58] @ print_column c) st
    = ((fst st)(n \<mapsto> \<lparr>fh_format = f, fh_columns = [c]\<rparr>), Some n)"
proof -
  have first: "first_column (print_column c) = Some c"
    using assms(3) by (simp add: first_column_def print_defs isColumnType_name)
  have colon: "index_of 58 (format_name f @ 58 # print_column c) = Some (length (format_name f))"
    by simp
  have trim: "trim (format_name f @ 58 # print_column c) = format_name f @ 58 # print_column c"
    using format_then_column_trim [of f "cs_key c" "cs_type c"] by (simp add: print_column_def)
  show ?thesis
    using assms(1,2) by (simp add: hint_token_def trim colon container_entry_def first plain_name_def
        lower_fixed_def isLogFormat_name push_column_def Let_def)
qed

lemma token_column:
  assumes "lower_fixed h" "plain_name (cs_key c)" "m n = Some hint"
  shows "hint_token h (print_column c) (m, Some n) = (m(n \<mapsto> hint\<lparr>fh_columns := fh_columns hint @ [c]\<rparr>), Some n)"
proof -
  show ?thesis
    using assms by (cases c) (simp add: hint_token_def print_defs lower_fixed_def type_not_format isColumnType_name push_column_def Let_def)
qed

lemma tokens_columns:
  "lower_fixed h \<Longrightarrow> list_all (\<lambda>c. plain_name (cs_key c)) cs \<Longrightarrow> m n = Some hint \<Longrightarrow>
   fold (hint_token h) (map print_column cs) (m, Some n)
     = (m(n \<mapsto> hint\<lparr>fh_columns := fh_columns hint @ cs\<rparr>), Some n)"
proof (induction cs arbitrary: m hint)
  case (Cons c cs)
  then show ?case by (simp add: token_column fun_upd_def fun_eq_iff)
qed (simp add: fun_upd_idem)

lemma tokens_entry:
  assumes "lower_fixed h" "plain_entry e"
  shows "fold (hint_token h) (entry_tokens e) st = ((fst st)(fst e \<mapsto> snd e), Some (fst e))"
proof (cases "fh_columns (snd e)")
  case Nil
  then obtain f where "snd e = \<lparr>fh_format = f, fh_columns = []\<rparr>" by (cases "snd e") simp
  then show ?thesis
    using assms token_container [of h "fst e" f st] by (simp add: entry_tokens_def plain_entry_def)
next
  case (Cons c cs)
  let ?m = "(fst st)(fst e \<mapsto> \<lparr>fh_format = fh_format (snd e), fh_columns = [c]\<rparr>)"
  have "hint_token h (fst e @ [61] @ format_name (fh_format (snd e)) @ [58] @ print_column c) st = (?m, Some (fst e))"
    using assms Cons by (intro token_container_column) (auto simp: plain_entry_def)
  moreover have "fold (hint_token h) (map print_column cs) (?m, Some (fst e)) = ((fst st)(fst e \<mapsto> snd e), Some (fst e))"
    using tokens_columns [of h cs ?m "fst e"] assms Cons by (cases "snd e") (simp add: plain_entry_def)
  ultimately show ?thesis using Cons by (simp add: entry_tokens_def)
qed

lemma tokens_entries:
  "lower_fixed h \<Longrightarrow> list_all plain_entry es \<Longrightarrow>
   fst (fold (hint_token h) (concat (map entry_tokens es)) (m, cur)) = m ++ map_of (rev es)"
proof (induction es arbitrary: m cur)
  case (Cons e es)
  then show ?case by (simp add: tokens_entry map_add_def fun_eq_iff split: option.splits)
qed simp

lemma entry_tokens_no_comma: "plain_entry e \<Longrightarrow> t \<in> set (entry_tokens e) \<Longrightarrow> 44 \<notin> set t"
  by (auto simp: entry_tokens_def plain_entry_def print_defs list_all_iff split: list.splits)

lemma print_not_Nil: "es \<noteq> [] \<Longrightarrow> list_all plain_entry es \<Longrightarrow> print_annotation es \<noteq> []"
proof -
  assume "es \<noteq> []" "list_all plain_entry es"
  then obtain e es' where "es = e # es'" "plain_name (fst e)" by (cases es) (auto simp: plain_entry_def)
  then obtain t ts where "concat (map entry_tokens es) = t # ts" "t \<noteq> []"
    by (cases "fh_columns (snd e)") (auto simp: entry_tokens_def)
  then show ?thesis by (cases ts) (simp_all add: print_annotation_def)
qed

text \<open>A token that could give the container a hint.\<close>

definition own_entry :: "host \<Rightarrow> jsstring \<Rightarrow> jsstring \<Rightarrow> bool" where
  "own_entry h container token =
     (case index_of 61 token of
        None \<Rightarrow> False
      | Some eq \<Rightarrow> trim (take eq token) = container \<and>
          (let value = trim (drop (eq + 1) token)
           in isLogFormat (toLowerCase h (trim (case index_of 58 value of None \<Rightarrow> value | Some i \<Rightarrow> take i value))) \<noteq> None))"

lemma push_column_other: "container \<noteq> name \<Longrightarrow> push_column name c m container = m container"
  by (simp add: push_column_def split: option.splits)

lemma container_entry_other:
  assumes "fmt \<noteq> None \<longrightarrow> name \<noteq> container" "fst st container = None"
  shows "fst (container_entry name v colon fmt st) container = None \<and>
    snd (container_entry name v colon fmt st) \<noteq> Some container"
  using assms by (auto simp: container_entry_def Let_def push_column_other split: option.splits)

lemma hint_token_other:
  assumes "\<not> own_entry h container token" "fst st container = None" "snd st \<noteq> Some container"
  shows "fst (hint_token h token st) container = None \<and> snd (hint_token h token st) \<noteq> Some container"
proof (cases "index_of 61 token")
  case (Some eq)
  define name v where "name = trim (take eq token)" and "v = trim (drop (eq + 1) token)"
  define colon where "colon = index_of 58 v"
  define fmt where "fmt = isLogFormat (toLowerCase h (trim (case colon of None \<Rightarrow> v | Some i \<Rightarrow> take i v)))"
  have "own_entry h container token = (name = container \<and> fmt \<noteq> None)"
    unfolding own_entry_def Some Let_def option.case name_def v_def colon_def fmt_def ..
  then have "fmt \<noteq> None \<longrightarrow> name \<noteq> container" using assms(1) by blast
  note entry = container_entry_other [OF this assms(2), of v colon]
  have "hint_token h token st = (if colon \<noteq> None \<or> fmt \<noteq> None then container_entry name v colon fmt st
      else (case (snd st, isColumnType v) of
          (Some current, Some type) \<Rightarrow>
            if name \<noteq> [] then (push_column current \<lparr>cs_key = name, cs_type = type\<rparr> (fst st), snd st)
            else (fst st, None)
        | _ \<Rightarrow> (fst st, None)))"
    unfolding hint_token_def Some Let_def option.case name_def v_def colon_def fmt_def ..
  then show ?thesis
    using entry assms(2,3) by (auto simp: push_column_other split: option.splits)
next
  case None
  have "hint_token h token st = (if trim token \<noteq> [] then (fst st, None) else st)"
    unfolding hint_token_def None option.case ..
  then show ?thesis using assms(2,3) by simp
qed

lemma hint_tokens_other:
  "list_all (\<lambda>t. \<not> own_entry h container t) ts \<Longrightarrow> fst st container = None \<Longrightarrow> snd st \<noteq> Some container \<Longrightarrow>
   fst (fold (hint_token h) ts st) container = None"
proof (induction ts arbitrary: st)
  case (Cons t ts)
  then show ?case using hint_token_other [of h container t st] by simp
qed simp

section \<open>Properties\<close>

text \<open>C28: every annotation of the documented grammar is read back as it was meant: the container gets
  the format and all the columns of its entry, in order, and the last of its entries when it has
  several.\<close>

theorem annotation_roundtrip:
  assumes "lower_fixed h" and "list_all plain_entry es"
  shows "annotatedFormat h (Some (print_annotation es)) container = map_of (rev es) container"
proof (cases "es = []")
  case False
  then have ne: "concat (map entry_tokens es) \<noteq> []"
    by (cases es) (auto simp: entry_tokens_def split: list.splits)
  have "split_on 44 (print_annotation es) = concat (map entry_tokens es)"
    unfolding print_annotation_def using assms(2) ne
    by (intro split_on_join) (auto simp: list_all_iff dest: entry_tokens_no_comma)
  then show ?thesis
    using tokens_entries [OF assms, of Map.empty None] print_not_Nil [OF False assms(2)]
    by (simp add: annotatedFormat_def parseHints_def)
qed (simp add: annotatedFormat_def print_annotation_def)

theorem annotation_roundtrip_witness:
  "annotatedFormat ascii_host (Some (print_annotation [(lit ''app'', \<lparr>fh_format = Ecs, fh_columns = []\<rparr>),
      (lit ''proxy'', \<lparr>fh_format = Json, fh_columns = [\<lparr>cs_key = lit ''ts'', cs_type = Epoch\<rparr>]\<rparr>)])) (lit ''proxy'')
    = Some \<lparr>fh_format = Json, fh_columns = [\<lparr>cs_key = lit ''ts'', cs_type = Epoch\<rparr>]\<rparr>"
proof -
  have "toLowerCase ascii_host (format_name f) = format_name f" for f
    by (cases f) (simp_all add: ascii_host_def ascii_lower_def format_name_def)
  moreover have "toLowerCase ascii_host (column_type_name t) = column_type_name t" for t
    by (cases t) (simp_all add: ascii_host_def ascii_lower_def column_type_name_def)
  ultimately have "lower_fixed ascii_host" by (simp add: lower_fixed_def)
  then show ?thesis
    by (subst annotation_roundtrip)
      (simp_all add: plain_entry_def plain_name_def trim_def trim_end_def is_space_def)
qed

text \<open>an entry never reaches another container: a container for which the annotation has no entry of
  its own with a known format gets no hint, whatever columns and malformed tokens stand around.\<close>

theorem annotation_unmentioned:
  assumes "list_all (\<lambda>token. \<not> own_entry h container token) (split_on 44 annotation)"
  shows "annotatedFormat h (Some annotation) container = None"
  using hint_tokens_other [OF assms, of "(Map.empty, None)"] by (simp add: annotatedFormat_def parseHints_def)

theorem annotation_unmentioned_witness:
  "annotatedFormat ascii_host (Some (lit ''a=json:k=string,b=number,c=xml'')) (lit ''b'') = None"
  by (rule annotation_unmentioned) code_simp

end
