(* ===== verification/Log_Viewer.thy ===== *)
theory Log_Viewer
  imports Complex_Main Log_Format Log_Buffer
begin

text \<open>
  The virtualised log view, \<^verbatim>\<open>plugins/logging/src/logs/LogViewer.tsx\<close>: the table of parsed rows it
  keeps beside a buffer (a client of the line store contract), the geometry of uniform rows with
  expansions between them, following the tail, and holding the reader's place. What is drawn is left
  to React; pixel quantities are rational numbers.
\<close>

section \<open>Constants\<close>

definition ROW_HEIGHT :: rat where "ROW_HEIGHT = 22"
definition OVERSCAN :: int where "OVERSCAN = 25"
definition STICK_THRESHOLD_PX :: rat where "STICK_THRESHOLD_PX = 48"
definition TOP_THRESHOLD_PX :: rat where "TOP_THRESHOLD_PX = ROW_HEIGHT * 3"
definition PARSE_CACHE_SIZE :: nat where "PARSE_CACHE_SIZE = 2000"
definition EXPANSION_LINE_HEIGHT :: rat where "EXPANSION_LINE_HEIGHT = 18"
definition EXPANSION_CHROME_PX :: rat where "EXPANSION_CHROME_PX = 48"
definition EXPANSION_MAX_ESTIMATE_PX :: rat where "EXPANSION_MAX_ESTIMATE_PX = 420"

definition estimateExpansionHeight :: "log_entry \<Rightarrow> rat" where
  "estimateExpansionHeight entry =
     (let body = (case le_stackTrace entry of Some t \<Rightarrow> t | None \<Rightarrow> le_raw entry);
          lines = 1 + count_list body NL;
          lines' = (case le_record entry of
                      Some r \<Rightarrow> if le_stackTrace entry = None then max lines (length r + 2) else lines
                    | None \<Rightarrow> lines)
      in min EXPANSION_MAX_ESTIMATE_PX (of_nat lines' * EXPANSION_LINE_HEIGHT + EXPANSION_CHROME_PX))"

section \<open>Parsed rows\<close>

text \<open>The entries are in insertion order, as a JavaScript map iterates.\<close>

record parse_cache =
  pc_format :: log_format
  pc_columnsKey :: jsstring
  pc_generation :: nat
  pc_entries :: "(int \<times> log_entry) list"

definition columns_key :: "column_spec list \<Rightarrow> jsstring" where
  "columns_key columns = join [44] (map (\<lambda>c. cs_key c @ [61] @ column_type_name (cs_type c)) columns)"

definition cache_for :: "log_buffer \<Rightarrow> log_format \<Rightarrow> jsstring \<Rightarrow> parse_cache option \<Rightarrow> parse_cache" where
  "cache_for b format columnsKey cache =
     (let new = \<lparr>pc_format = format, pc_columnsKey = columnsKey, pc_generation = generation b, pc_entries = []\<rparr>
      in case cache of
           None \<Rightarrow> new
         | Some c \<Rightarrow>
             if pc_format c \<noteq> format \<or> pc_columnsKey c \<noteq> columnsKey \<or> pc_generation c \<noteq> generation b
             then new else c)"

text \<open>A thrown error leaves the (possibly new) cache without an entry.\<close>

definition entryFor :: "host \<Rightarrow> log_buffer \<Rightarrow> int \<Rightarrow> log_format \<Rightarrow> column_spec list \<Rightarrow> jsstring \<Rightarrow>
    parse_cache option \<Rightarrow> parse_cache \<times> (js_error + log_entry option)" where
  "entryFor h b seq format columns columnsKey caches =
     (let cache = cache_for b format columnsKey caches
      in case map_of (pc_entries cache) seq of
           Some cached \<Rightarrow> (cache, Inr (Some cached))
         | None \<Rightarrow>
             (case lineAt b seq of
                None \<Rightarrow> (cache, Inr None)
              | Some raw \<Rightarrow>
                  (case parseLine h raw format columns of
                     Inl e \<Rightarrow> (cache, Inl e)
                   | Inr entry \<Rightarrow>
                       (let entries = pc_entries cache @ [(seq, entry)]
                        in (cache\<lparr>pc_entries := (if length entries > PARSE_CACHE_SIZE then tl entries else entries)\<rparr>,
                            Inr (Some entry))))))"

section \<open>Geometry\<close>

record expansion =
  ex_index :: int
  ex_seq :: int
  ex_height :: rat

text \<open>\<^verbatim>\<open>expanded\<close> is a map from numbers to heights in insertion order.\<close>

type_synonym expanded_map = "(int \<times> rat) list"

definition expansions :: "expanded_map \<Rightarrow> int \<Rightarrow> nat \<Rightarrow> expansion list" where
  "expansions expanded first_seq count =
     sort_key ex_index (List.map_filter (\<lambda>(seq, height).
       let index = seq - first_seq
       in if 0 \<le> index \<and> index < int count then Some \<lparr>ex_index = index, ex_seq = seq, ex_height = height\<rparr> else None) expanded)"

definition totalHeight :: "expansion list \<Rightarrow> nat \<Rightarrow> rat" where
  "totalHeight es count = of_nat count * ROW_HEIGHT + sum_list (map ex_height es)"

text \<open>The loop of \<^verbatim>\<open>topOf\<close> breaks at the first expansion not above the row.\<close>

fun extra_above :: "int \<Rightarrow> expansion list \<Rightarrow> rat" where
  "extra_above index [] = 0"
| "extra_above index (e # es) = (if ex_index e \<ge> index then 0 else ex_height e + extra_above index es)"

definition topOf :: "expansion list \<Rightarrow> int \<Rightarrow> rat" where
  "topOf es index = of_int index * ROW_HEIGHT + extra_above index es"

fun index_loop :: "expansion list \<Rightarrow> int \<Rightarrow> rat \<Rightarrow> rat \<Rightarrow> int" where
  "index_loop [] index tp offset = index + \<lfloor>(offset - tp) / ROW_HEIGHT\<rfloor>"
| "index_loop (e # es) index tp offset =
     (let blockTop = tp + of_int (ex_index e - index) * ROW_HEIGHT;
          blockBottom = blockTop + ROW_HEIGHT + ex_height e
      in if offset < blockBottom
         then (if offset < blockTop then index + \<lfloor>(offset - tp) / ROW_HEIGHT\<rfloor> else ex_index e)
         else index_loop es (ex_index e + 1) blockBottom offset)"

definition indexAt :: "expansion list \<Rightarrow> rat \<Rightarrow> int" where
  "indexAt es offset = index_loop es 0 0 offset"

definition firstVisible :: "expansion list \<Rightarrow> rat \<Rightarrow> int" where
  "firstVisible es scrollTop = max 0 (indexAt es scrollTop - OVERSCAN)"

definition lastVisible :: "expansion list \<Rightarrow> nat \<Rightarrow> rat \<Rightarrow> rat \<Rightarrow> int" where
  "lastVisible es count scrollTop viewportHeight =
     min (int count - 1) (indexAt es (scrollTop + viewportHeight) + OVERSCAN)"

section \<open>Expanding and collapsing\<close>

definition handleToggle :: "int \<Rightarrow> int \<Rightarrow> log_entry \<Rightarrow> expanded_map \<Rightarrow> expanded_map" where
  "handleToggle first_seq seq entry previous =
     (let next = filter (\<lambda>(key, height). key \<ge> first_seq) previous
      in if seq \<in> fst ` set next then filter (\<lambda>(key, height). key \<noteq> seq) next
         else next @ [(seq, estimateExpansionHeight entry)])"

definition handleMeasured :: "int \<Rightarrow> rat \<Rightarrow> expanded_map \<Rightarrow> expanded_map" where
  "handleMeasured seq height previous =
     (case map_of previous seq of
        None \<Rightarrow> previous
      | Some current \<Rightarrow>
          if \<bar>current - height\<bar> < 1 then previous
          else map (\<lambda>(k, v). if k = seq then (k, height) else (k, v)) previous)"

section \<open>Scrolling\<close>

record scroll_state =
  sc_top :: rat
  sc_stick :: bool
  sc_hasScrolled :: bool
  sc_lastTop :: rat

text \<open>The handler for a scroll event; the second component is whether \<^verbatim>\<open>onReachTop\<close> is called.\<close>

definition onScroll :: "bool \<Rightarrow> bool \<Rightarrow> rat \<Rightarrow> rat \<Rightarrow> rat \<Rightarrow> scroll_state \<Rightarrow> scroll_state \<times> bool" where
  "onScroll canLoadEarlier loadingEarlier scrollTop scrollHeight clientHeight st =
     (let previousTop = sc_lastTop st;
          scrolled = (sc_hasScrolled st \<or> scrollTop < previousTop);
          gap = scrollHeight - scrollTop - clientHeight;
          stick = (if gap \<le> STICK_THRESHOLD_PX then True
                   else if scrollTop < previousTop then False else sc_stick st)
      in (st\<lparr>sc_top := scrollTop, sc_stick := stick, sc_hasScrolled := scrolled, sc_lastTop := scrollTop\<rparr>,
          scrolled \<and> scrollTop \<le> TOP_THRESHOLD_PX \<and> canLoadEarlier \<and> \<not> loadingEarlier))"

text \<open>The layout effect that keeps the reader's place when the first number changes.\<close>

definition hold_place :: "int \<Rightarrow> int \<Rightarrow> rat \<Rightarrow> rat" where
  "hold_place last_first_seq first_seq scrollTop =
     (let shift = last_first_seq - first_seq
      in if shift \<noteq> 0 then scrollTop + of_int shift * ROW_HEIGHT else scrollTop)"

section \<open>The rows cache is transparent\<close>

definition plain_columns :: "column_spec list \<Rightarrow> bool" where
  "plain_columns cs \<longleftrightarrow> list_all (\<lambda>c. plain_name (cs_key c)) cs"

lemma column_type_name_inj: "column_type_name s = column_type_name t \<longleftrightarrow> s = t"
  by (metis isColumnType_name option.inject)

lemma print_column_inj:
  assumes "plain_name (cs_key c)" "plain_name (cs_key d)" "print_column c = print_column d"
  shows "c = d"
proof -
  have "index_of 61 (print_column c) = Some (length (cs_key c))" "index_of 61 (print_column d) = Some (length (cs_key d))"
    using assms(1,2) by (simp_all add: print_defs)
  with assms(3) have "length (cs_key c) = length (cs_key d)" by simp
  with assms(3) show ?thesis by (cases c; cases d) (simp add: print_column_def column_type_name_inj)
qed

lemma columns_key_print: "columns_key cs = join [44] (map print_column cs)"
  by (simp add: columns_key_def print_column_def [abs_def])

lemma columns_key_inj:
  assumes "plain_columns cs" "plain_columns ds" "columns_key cs = columns_key ds"
  shows "cs = ds"
proof -
  have split: "map print_column es = (if es = [] then [] else split_on 44 (columns_key es))" if "plain_columns es" for es
  proof -
    have "44 \<notin> set x" if "x \<in> set (map print_column es)" for x
      using that \<open>plain_columns es\<close> by (auto simp: plain_columns_def list_all_iff print_defs)
    then show ?thesis
      unfolding columns_key_print using split_on_join [of "map print_column es" 44] by auto
  qed
  have nil: "columns_key es = [] \<longleftrightarrow> es = []" for es
    by (cases es rule: remdups_adj.cases) (simp_all add: columns_key_def)
  have "map print_column cs = map print_column ds"
    using split [OF assms(1)] split [OF assms(2)] assms(3) nil [of cs] nil [of ds] by auto
  then show ?thesis
    using assms(1,2) print_column_inj
    by (induction cs arbitrary: ds) (auto simp: plain_columns_def)
qed

text \<open>The cache is in step with a buffer: it holds parses, by its own format and columns, of lines seen
  in its generation.\<close>

definition cache_ok :: "host \<Rightarrow> log_buffer \<Rightarrow> int \<Rightarrow> parse_cache option \<Rightarrow> bool" where
  "cache_ok h b low cache =
     (case cache of
        None \<Rightarrow> True
      | Some c \<Rightarrow> length (pc_entries c) \<le> PARSE_CACHE_SIZE \<and> pc_generation c \<le> generation b \<and>
          (\<exists>columns. plain_columns columns \<and> pc_columnsKey c = columns_key columns \<and>
             (pc_generation c = generation b \<longrightarrow>
                lb.coherent (\<lambda>raw e. parseLine h raw (pc_format c) columns = Inr e) b low (pc_entries c))))"

text \<open>A cache that fits the request: right format, columns and generation, and coherent for them.\<close>

definition serves :: "host \<Rightarrow> log_buffer \<Rightarrow> int \<Rightarrow> log_format \<Rightarrow> column_spec list \<Rightarrow> parse_cache \<Rightarrow> bool" where
  "serves h b low format columns c \<longleftrightarrow>
     lb.coherent (\<lambda>raw e. parseLine h raw format columns = Inr e) b low (pc_entries c) \<and>
     length (pc_entries c) \<le> PARSE_CACHE_SIZE \<and> pc_format c = format \<and>
     pc_columnsKey c = columns_key columns \<and> pc_generation c = generation b"

lemma serves_ok: "serves h b low format columns c \<Longrightarrow> plain_columns columns \<Longrightarrow> cache_ok h b low (Some c)"
  by (auto simp: serves_def cache_ok_def)

lemma cache_for_serves:
  assumes "cache_ok h b low cache" "plain_columns columns"
  shows "serves h b low format columns (cache_for b format (columns_key columns) cache)"
proof (cases "\<exists>d. cache = Some d \<and> pc_format d = format \<and> pc_columnsKey d = columns_key columns \<and>
    pc_generation d = generation b")
  case True
  then obtain d where d: "cache = Some d" "pc_format d = format" "pc_columnsKey d = columns_key columns"
    "pc_generation d = generation b" by blast
  obtain columns' where c': "plain_columns columns'" "pc_columnsKey d = columns_key columns'"
    "lb.coherent (\<lambda>raw e. parseLine h raw (pc_format d) columns' = Inr e) b low (pc_entries d)"
    "length (pc_entries d) \<le> PARSE_CACHE_SIZE"
    using assms(1) d(4) by (auto simp: cache_ok_def d(1))
  have "columns' = columns" using columns_key_inj [OF c'(1) assms(2)] c'(2) d(3) by simp
  with c' d show ?thesis by (simp add: serves_def cache_for_def Let_def)
next
  case False
  then have "cache_for b format (columns_key columns) cache =
      \<lparr>pc_format = format, pc_columnsKey = columns_key columns, pc_generation = generation b, pc_entries = []\<rparr>"
    by (auto simp: cache_for_def Let_def split: option.splits)
  then show ?thesis by (simp add: serves_def)
qed

lemma serves_add:
  assumes "serves h b low format columns c" "lb_inv b" "low \<le> firstSeq b"
    and "lineAt b seq = Some raw" "parseLine h raw format columns = Inr e" "es = pc_entries c @ [(seq, e)]"
  shows "serves h b low format columns (c\<lparr>pc_entries := (if length es > PARSE_CACHE_SIZE then tl es else es)\<rparr>)"
proof -
  let ?made = "\<lambda>raw e. parseLine h raw format columns = Inr e"
  have "lb.coherent ?made b low es"
    using assms by (auto simp: serves_def intro!: lb.coherent_add)
  then have "lb.coherent ?made b low (if length es > PARSE_CACHE_SIZE then tl es else es)"
    by (rule lb.coherent_subset) (auto dest: list.set_sel(2) [rotated])
  then show ?thesis using assms(1,6) by (auto simp: serves_def)
qed

lemma entryFor_ok:
  assumes "cache_ok h b low cache" "plain_columns columns" "lb_inv b" "low \<le> firstSeq b"
  shows "cache_ok h b low (Some (fst (entryFor h b seq format columns (columns_key columns) cache)))"
proof -
  define c where "c = cache_for b format (columns_key columns) cache"
  have c: "serves h b low format columns c"
    unfolding c_def by (rule cache_for_serves [OF assms(1,2)])
  note add = serves_ok [OF serves_add [OF c assms(3,4)] assms(2)]
  show ?thesis
    unfolding entryFor_def Let_def c_def [symmetric] using serves_ok [OF c assms(2)] add
    by (auto split: option.split sum.split)
qed

lemma cache_ok_step:
  assumes "cache_ok h b low cache" "lb_inv b" "lb.fresh_step op b low"
  shows "cache_ok h (lb_step op b) (lb.low_step op b low) cache"
proof (cases cache)
  case (Some c)
  have gen: "generation b \<le> generation (lb_step op b)" by (rule lb.gen_step [OF assms(2)])
  from assms(1) Some obtain columns where cols: "plain_columns columns" "pc_columnsKey c = columns_key columns"
    "pc_generation c \<le> generation b" "length (pc_entries c) \<le> PARSE_CACHE_SIZE"
    and coh: "pc_generation c = generation b \<Longrightarrow>
       lb.coherent (\<lambda>raw e. parseLine h raw (pc_format c) columns = Inr e) b low (pc_entries c)"
    by (auto simp: cache_ok_def)
  have "lb.coherent (\<lambda>raw e. parseLine h raw (pc_format c) columns = Inr e) (lb_step op b) (lb.low_step op b low) (pc_entries c)"
    if same: "pc_generation c = generation (lb_step op b)"
  proof -
    have "generation (lb_step op b) = generation b" "pc_generation c = generation b" using same gen cols(3) by auto
    then show ?thesis using lb.coherent_step [OF coh assms(2,3)] by simp
  qed
  with cols gen show ?thesis unfolding cache_ok_def Some by auto
qed (simp add: cache_ok_def)

section \<open>Rows and offsets\<close>

text \<open>Expansions in order, each on a row of its own at or after \<open>i\<close>, none of negative height.\<close>

fun laid_out :: "int \<Rightarrow> expansion list \<Rightarrow> bool" where
  "laid_out i [] = True"
| "laid_out i (e # es) = (i \<le> ex_index e \<and> 0 \<le> ex_height e \<and> laid_out (ex_index e + 1) es)"

lemma laid_out_mono: "laid_out i es \<Longrightarrow> j \<le> i \<Longrightarrow> laid_out j es"
  by (cases es) auto

lemma extra_above_low: "laid_out i es \<Longrightarrow> j \<le> i \<Longrightarrow> extra_above j es = 0"
  by (cases es) auto

lemma row_floor:
  assumes "0 \<le> off - tp"
  defines "k \<equiv> \<lfloor>(off - tp) / ROW_HEIGHT\<rfloor>"
  shows "0 \<le> k" "of_int k * ROW_HEIGHT \<le> off - tp" "off - tp < of_int (k + 1) * ROW_HEIGHT"
  using assms floor_divide_lower [of ROW_HEIGHT "off - tp"] floor_divide_upper [of ROW_HEIGHT "off - tp"]
  by (simp_all add: ROW_HEIGHT_def)

text \<open>The scan keeps \<open>tp\<close> the top of row \<open>index\<close>, all expansions passed being above it.\<close>

lemma index_loop_spec:
  assumes "laid_out index es" "tp \<le> off"
  defines "i \<equiv> index_loop es index tp off"
  shows "index \<le> i \<and> tp + (of_int (i - index) * ROW_HEIGHT + extra_above i es) \<le> off \<and>
    off < tp + (of_int (i + 1 - index) * ROW_HEIGHT + extra_above (i + 1) es)"
  using assms(1,2) unfolding i_def
proof (induction es index tp off rule: index_loop.induct)
  case (1 index tp off)
  then show ?case using row_floor [of off tp] by simp
next
  case (2 e es index tp off)
  define bt where "bt = tp + of_int (ex_index e - index) * ROW_HEIGHT"
  define bb where "bb = bt + ROW_HEIGHT + ex_height e"
  have lo: "index \<le> ex_index e" "0 \<le> ex_height e" "laid_out (ex_index e + 1) es" using "2.prems" by auto
  consider "off < bt" | "bt \<le> off" "off < bb" | "bb \<le> off" by linarith
  then show ?case
  proof cases
    case 1
    note fl = row_floor [of off tp]
    define k where "k = \<lfloor>(off - tp) / ROW_HEIGHT\<rfloor>"
    have "off < bb" using 1 lo by (simp add: bb_def ROW_HEIGHT_def)
    then have i: "index_loop (e # es) index tp off = index + k"
      using 1 by (simp add: Let_def bt_def bb_def k_def)
    have k: "0 \<le> k" "of_int k * ROW_HEIGHT \<le> off - tp" "off - tp < of_int (k + 1) * ROW_HEIGHT"
      using fl "2.prems"(2) by (auto simp: k_def)
    have "of_int k * ROW_HEIGHT < of_int (ex_index e - index) * ROW_HEIGHT"
      using k(2) 1 by (simp add: bt_def)
    then have "k < ex_index e - index" by (simp add: ROW_HEIGHT_def del: of_int_diff)
    then show ?thesis unfolding i using k by simp
  next
    case 2
    then have i: "index_loop (e # es) index tp off = ex_index e"
      by (simp add: Let_def bt_def bb_def)
    have "extra_above (ex_index e + 1) es = 0" using extra_above_low [OF lo(3)] by simp
    then show ?thesis unfolding i using 2 lo by (simp add: bt_def bb_def algebra_simps)
  next
    case 3
    have i: "index_loop (e # es) index tp off = index_loop es (ex_index e + 1) bb off"
      using 3 by (simp add: Let_def bt_def bb_def)
    have "\<not> off < tp + of_int (ex_index e - index) * ROW_HEIGHT + ROW_HEIGHT + ex_height e"
      using 3 by (simp add: bb_def bt_def)
    note IH = "2.IH" [OF refl refl this lo(3), folded bt_def, folded bb_def, OF 3]
    show ?thesis
      unfolding i using IH lo by (auto simp: bb_def bt_def algebra_simps)
  qed
qed

lemma topOf_indexAt:
  assumes "laid_out 0 es" "0 \<le> off"
  shows "0 \<le> indexAt es off \<and> topOf es (indexAt es off) \<le> off \<and> off < topOf es (indexAt es off + 1)"
  using index_loop_spec [OF assms] by (simp add: indexAt_def topOf_def algebra_simps)

lemma extra_above_mono: "laid_out i es \<Longrightarrow> j \<le> k \<Longrightarrow> extra_above j es \<le> extra_above k es"
proof (induction es arbitrary: i)
  case (Cons e es)
  have "0 \<le> extra_above k es" if "laid_out m es" for m
    using that by (induction es arbitrary: m) auto
  with Cons show ?case by fastforce
qed simp

lemma topOf_mono:
  assumes "laid_out 0 es" "j < k"
  shows "topOf es j < topOf es k"
proof -
  have "of_int j * ROW_HEIGHT < of_int k * ROW_HEIGHT" using assms(2) by (simp add: ROW_HEIGHT_def)
  with extra_above_mono [OF assms(1), of j k] assms(2) show ?thesis by (simp add: topOf_def)
qed

text \<open>The expansions computed from a map with one height per number are laid out.\<close>

lemma laid_out_sorted:
  "sorted (map ex_index es) \<Longrightarrow> distinct (map ex_index es) \<Longrightarrow> list_all (\<lambda>e. i \<le> ex_index e \<and> 0 \<le> ex_height e) es \<Longrightarrow>
   laid_out i es"
proof (induction es arbitrary: i)
  case (Cons e es)
  have "ex_index e + 1 \<le> ex_index x" if "x \<in> set es" for x
  proof -
    have "ex_index e \<le> ex_index x" "ex_index e \<noteq> ex_index x" using Cons.prems(1,2) that by auto
    then show ?thesis by simp
  qed
  with Cons show ?case by (auto simp: list_all_iff)
qed simp

definition expanded_ok :: "expanded_map \<Rightarrow> bool" where
  "expanded_ok m \<longleftrightarrow> distinct (map fst m) \<and> list_all (\<lambda>x. 0 \<le> snd x) m"

lemma map_filter_if: "List.map_filter (\<lambda>x. if P x then Some (f x) else None) xs = map f (filter P xs)"
  by (induction xs) (simp_all add: map_filter_simps)

lemma expansions_alt:
  "expansions m first count = sort_key ex_index (map (\<lambda>x. \<lparr>ex_index = fst x - first, ex_seq = fst x, ex_height = snd x\<rparr>)
     (filter (\<lambda>x. first \<le> fst x \<and> fst x < first + int count) m))"
proof -
  have "(\<lambda>(seq, height). let index = seq - first
         in if 0 \<le> index \<and> index < int count then Some \<lparr>ex_index = index, ex_seq = seq, ex_height = height\<rparr> else None)
      = (\<lambda>x. if first \<le> fst x \<and> fst x < first + int count
             then Some \<lparr>ex_index = fst x - first, ex_seq = fst x, ex_height = snd x\<rparr> else None)"
    by (auto simp: fun_eq_iff Let_def)
  then show ?thesis by (simp add: expansions_def map_filter_if)
qed

lemma expansions_laid_out:
  assumes "expanded_ok m"
  shows "laid_out 0 (expansions m first count)"
proof (rule laid_out_sorted)
  let ?kept = "filter (\<lambda>x. first \<le> fst x \<and> fst x < first + int count) m"
  have "distinct (map (\<lambda>x. fst x - first) ?kept)"
    using assms by (auto simp: expanded_ok_def distinct_map inj_on_def)
  then show "distinct (map ex_index (expansions m first count))"
    unfolding expansions_alt by (simp add: distinct_map comp_def inj_on_def)
  show "list_all (\<lambda>e. 0 \<le> ex_index e \<and> 0 \<le> ex_height e) (expansions m first count)"
    using assms unfolding expansions_alt by (auto simp: expanded_ok_def list_all_iff)
qed (simp add: expansions_alt)

lemma estimate_pos: "0 \<le> estimateExpansionHeight e"
  by (simp add: estimateExpansionHeight_def Let_def EXPANSION_MAX_ESTIMATE_PX_def EXPANSION_LINE_HEIGHT_def
      EXPANSION_CHROME_PX_def)

lemma handleToggle_ok [inv_intros]: "expanded_ok m \<Longrightarrow> expanded_ok (handleToggle first seq e m)"
  by (auto simp: expanded_ok_def handleToggle_def Let_def list_all_iff distinct_map_filter case_prod_unfold
      estimate_pos)

lemma handleMeasured_ok [inv_intros]: "expanded_ok m \<Longrightarrow> 0 \<le> height \<Longrightarrow> expanded_ok (handleMeasured seq height m)"
proof -
  assume ok: "expanded_ok m" "0 \<le> height"
  let ?f = "\<lambda>(k, v). if k = seq then (k, height) else (k, v)"
  have "map fst (map ?f m) = map fst m" by (induction m) auto
  then have "expanded_ok (map ?f m)"
    using ok unfolding expanded_ok_def by (auto simp: list_all_iff simp del: map_map)
  with ok show ?thesis by (auto simp: handleMeasured_def split: option.split)
qed

text \<open>Lines added at the front move every row, and every expansion, down by as many rows.\<close>

definition shift_ex :: "int \<Rightarrow> expansion \<Rightarrow> expansion" where
  "shift_ex n e = e\<lparr>ex_index := ex_index e + n\<rparr>"

lemma insort_shift: "insort_key ex_index (shift_ex n x) (map (shift_ex n) xs) = map (shift_ex n) (insort_key ex_index x xs)"
  by (induction xs) (simp_all add: shift_ex_def)

lemma sort_shift: "sort_key ex_index (map (shift_ex n) xs) = map (shift_ex n) (sort_key ex_index xs)"
  by (induction xs) (simp_all add: insort_shift)

lemma expansions_shift:
  assumes "list_all (\<lambda>x. first \<le> fst x \<and> fst x < first + int count) m"
  shows "expansions m (first - int n) (count + n) = map (shift_ex (int n)) (expansions m first count)"
proof -
  have "filter (\<lambda>x. first - int n \<le> fst x \<and> fst x < first - int n + int (count + n)) m
      = filter (\<lambda>x. first \<le> fst x \<and> fst x < first + int count) m"
    using assms by (intro filter_cong) (auto simp: list_all_iff)
  then show ?thesis
    unfolding expansions_alt sort_shift [symmetric] by (simp add: comp_def shift_ex_def algebra_simps)
qed

lemma topOf_shift: "topOf (map (shift_ex n) es) (i + n) = topOf es i + of_int n * ROW_HEIGHT"
proof -
  have "extra_above (i + n) (map (shift_ex n) es) = extra_above i es"
    by (induction es) (simp_all add: shift_ex_def)
  then show ?thesis by (simp add: topOf_def algebra_simps)
qed

section \<open>Properties\<close>

text \<open>
  The viewer beside its buffer: the buffer changes in ways that give no number out again, rows are read
  through the cache in any format and with any annotation's columns.
\<close>

inductive viewer_reach :: "host \<Rightarrow> log_buffer \<Rightarrow> int \<Rightarrow> parse_cache option \<Rightarrow> bool" for h :: host where
  opened: "lb_inv b \<Longrightarrow> viewer_reach h b (firstSeq b) None"
| changed: "viewer_reach h b low cache \<Longrightarrow> lb.fresh_step c b low \<Longrightarrow>
    viewer_reach h (lb_step c b) (lb.low_step c b low) cache"
| row_read: "viewer_reach h b low cache \<Longrightarrow> plain_columns columns \<Longrightarrow>
    viewer_reach h b low (Some (fst (entryFor h b seq format columns (columns_key columns) cache)))"

lemma viewer_reach_ok: "viewer_reach h b low cache \<Longrightarrow> lb_inv b \<and> low \<le> firstSeq b \<and> cache_ok h b low cache"
proof (induction rule: viewer_reach.induct)
  case (changed b low cache c)
  then show ?case using lb.ok_step [of b c] lb.low_step_le [of low b c] by (auto intro: cache_ok_step)
next
  case (row_read b low cache columns seq format)
  then show ?case by (auto intro: entryFor_ok)
qed (simp add: cache_ok_def)

lemma entryFor_result:
  assumes "serves h b low format columns (cache_for b format key cache)" "lb_inv b" "lineAt b seq = Some raw"
  shows "snd (entryFor h b seq format columns key cache) =
    (case parseLine h raw format columns of Inl e \<Rightarrow> Inl e | Inr entry \<Rightarrow> Inr (Some entry))"
proof (cases "map_of (pc_entries (cache_for b format key cache)) seq")
  case None
  with assms(3) show ?thesis by (simp add: entryFor_def Let_def split: sum.split)
next
  case (Some e)
  have "parseLine h raw format columns = Inr e"
    using assms(1) lb.coherent_lookup [OF _ assms(2) map_of_SomeD [OF Some] assms(3)] by (auto simp: serves_def)
  with Some show ?thesis by (simp add: entryFor_def Let_def)
qed

text \<open>C5: the parsed-row cache is invisible: whatever was appended, evicted, prepended, cleared or read
  before, the row of a line that is held is the parse of that line in the current format with the
  current columns, as long as no line number was given out twice; and the cache stays within its
  bound.\<close>

theorem rows_cache_transparent:
  assumes "viewer_reach h b low cache" and "plain_columns columns" and "lineAt b seq = Some raw"
  shows "snd (entryFor h b seq format columns (columns_key columns) cache) =
      (case parseLine h raw format columns of Inl e \<Rightarrow> Inl e | Inr entry \<Rightarrow> Inr (Some entry)) \<and>
    length (pc_entries (fst (entryFor h b seq format columns (columns_key columns) cache))) \<le> PARSE_CACHE_SIZE"
proof -
  have ok: "lb_inv b" "low \<le> firstSeq b" "cache_ok h b low cache" using viewer_reach_ok [OF assms(1)] by auto
  note serve = cache_for_serves [OF ok(3) assms(2), of format]
  show ?thesis
    using entryFor_result [OF serve ok(1) assms(3)] entryFor_ok [OF ok(3) assms(2) ok(1,2), of seq format]
    by (simp add: cache_ok_def)
qed

theorem rows_cache_transparent_witness:
  "snd (entryFor ascii_host one_line 0 Plain [] (columns_key [])
     (Some (fst (entryFor ascii_host one_line 0 Plain [] (columns_key []) None)))) = Inr (Some (plainEntry [97]))"
proof -
  have reach: "viewer_reach ascii_host one_line (firstSeq one_line)
      (Some (fst (entryFor ascii_host one_line 0 Plain [] (columns_key []) None)))"
    by (intro viewer_reach.row_read viewer_reach.opened one_line(1)) (simp add: plain_columns_def)
  have "parseLine ascii_host [97] Plain [] = Inr (plainEntry [97])"
    by (simp add: parseLine_def parseDefault_def withoutAnsi_def plainEntry_def Let_def hasAnsi_def)
  moreover have "lineAt one_line 0 = Some [97]" by (simp add: lineAt_ll_line one_line ll_line_def)
  ultimately show ?thesis
    using rows_cache_transparent [OF reach, of "[]" 0 "[97]" Plain] by (simp add: plain_columns_def)
qed

text \<open>when a number is given out again the cache shows the wrong row: a line that was read, evicted
  and replaced under its number by a prepended one keeps its old entry.\<close>

theorem stale_row_shown:
  "\<exists>b b' cs seq raw entry. lb_inv b \<and> b' = fold lb_step cs b \<and> Clear \<notin> set cs \<and> lineAt b' seq = Some raw \<and>
     snd (entryFor ascii_host b' seq Plain [] [] (Some (fst (entryFor ascii_host b seq Plain [] [] None)))) = Inr (Some entry) \<and>
     parseLine ascii_host raw Plain [] \<noteq> Inr entry"
proof -
  let ?cs = "[Append [98, NL, 99, NL], Prepend [100, NL]]"
  let ?b' = "fold lb_step ?cs one_line"
  have parse: "parseLine ascii_host [c] Plain [] = Inr (plainEntry [c])" if "c \<noteq> ESC" "c \<noteq> CSI" for c
    using that by (simp add: parseLine_def parseDefault_def withoutAnsi_def plainEntry_def Let_def hasAnsi_def)
  note pre = prepend_refines [OF one_line_more(2), of "[100, NL]"]
  have "lb_abs ?b' = \<lparr>ll_lines = [[100], [98], [99]], ll_first = 0, ll_pending = []\<rparr>" "lb_inv ?b'"
    using pre(1,2) by (simp_all add: one_line_more ll_prepend_def ll_earlier_def strip_cr_def)
  then have now: "lineAt ?b' 0 = Some [100]" by (simp add: lineAt_ll_line ll_line_def)
  have before: "lineAt one_line 0 = Some [97]" by (simp add: lineAt_ll_line one_line ll_line_def)
  have gen: "generation ?b' = generation one_line"
    using pre(5) append_refines(4) [OF one_line(1)] by simp
  have "fst (entryFor ascii_host one_line 0 Plain [] [] None) =
      \<lparr>pc_format = Plain, pc_columnsKey = [], pc_generation = generation one_line, pc_entries = [(0, plainEntry [97])]\<rparr>"
    by (simp add: entryFor_def cache_for_def Let_def before parse PARSE_CACHE_SIZE_def)
  then have "snd (entryFor ascii_host ?b' 0 Plain [] [] (Some (fst (entryFor ascii_host one_line 0 Plain [] [] None))))
      = Inr (Some (plainEntry [97]))"
    using gen by (simp add: entryFor_def cache_for_def Let_def)
  moreover have "parseLine ascii_host [100] Plain [] \<noteq> Inr (plainEntry [97])"
    by (simp add: parse) (simp add: plainEntry_def)
  moreover have "Clear \<notin> set ?cs" by simp
  ultimately show ?thesis using one_line(1) now by blast
qed

text \<open>\<open>indexAt\<close> is the inverse of \<open>topOf\<close>: the row found at an offset is the one whose band, its
  expansion included, contains the offset, and the row found at the top of a row is that row.\<close>

theorem indexAt_topOf:
  fixes first :: int and count :: nat
  assumes "expanded_ok m" and "0 \<le> offset" and "0 \<le> index"
  defines "es \<equiv> expansions m first count"
  shows "topOf es (indexAt es offset) \<le> offset \<and> offset < topOf es (indexAt es offset + 1) \<and>
    indexAt es (topOf es index) = index"
proof -
  have lo: "laid_out 0 es" unfolding es_def by (rule expansions_laid_out [OF assms(1)])
  have "0 \<le> topOf es index"
    using topOf_mono [OF lo, of 0 index] extra_above_low [OF lo, of 0] assms(3)
    by (cases "index = 0") (auto simp: topOf_def)
  note at = topOf_indexAt [OF lo this] and off = topOf_indexAt [OF lo assms(2)]
  have "indexAt es (topOf es index) = index"
  proof (rule ccontr)
    assume "indexAt es (topOf es index) \<noteq> index"
    then consider "index < indexAt es (topOf es index)" | "indexAt es (topOf es index) + 1 \<le> index" by linarith
    then show False
    proof cases
      case 1
      then show ?thesis using topOf_mono [OF lo 1] at by simp
    next
      case 2
      then show ?thesis
        using topOf_mono [OF lo, of "indexAt es (topOf es index) + 1" index] at
        by (cases "indexAt es (topOf es index) + 1 = index") auto
    qed
  qed
  with off show ?thesis by simp
qed

theorem indexAt_topOf_witness:
  "indexAt (expansions [(7, 40)] 5 10) (topOf (expansions [(7, 40)] 5 10) 4) = 4"
  using indexAt_topOf [of "[(7, 40)]" 0 4 5 10] by (simp add: expanded_ok_def)

text \<open>every row that reaches into the viewport is among the rendered ones.\<close>

theorem visible_rows_rendered:
  fixes first :: int and count :: nat
  assumes "expanded_ok m" and "0 \<le> scrollTop" and "0 \<le> viewportHeight" and "0 \<le> index" and "index < int count"
  defines "es \<equiv> expansions m first count"
  assumes "topOf es index \<le> scrollTop + viewportHeight" and "scrollTop < topOf es (index + 1)"
  shows "firstVisible es scrollTop \<le> index \<and> index \<le> lastVisible es count scrollTop viewportHeight"
proof -
  have lo: "laid_out 0 es" unfolding es_def by (rule expansions_laid_out [OF assms(1)])
  note above = topOf_indexAt [OF lo assms(2)]
  note below = topOf_indexAt [OF lo, of "scrollTop + viewportHeight"]
  have "indexAt es scrollTop \<le> index"
  proof (rule ccontr)
    assume "\<not> indexAt es scrollTop \<le> index"
    then have "topOf es (index + 1) \<le> topOf es (indexAt es scrollTop)"
      using topOf_mono [OF lo, of "index + 1" "indexAt es scrollTop"]
      by (cases "index + 1 = indexAt es scrollTop") auto
    with above assms(8) show False by simp
  qed
  moreover have "index \<le> indexAt es (scrollTop + viewportHeight)"
  proof (rule ccontr)
    assume "\<not> index \<le> indexAt es (scrollTop + viewportHeight)"
    then have "topOf es (indexAt es (scrollTop + viewportHeight) + 1) \<le> topOf es index"
      using topOf_mono [OF lo, of "indexAt es (scrollTop + viewportHeight) + 1" index]
      by (cases "indexAt es (scrollTop + viewportHeight) + 1 = index") auto
    with below assms(2,3,7) show False by simp
  qed
  ultimately show ?thesis
    using assms(4,5) by (simp add: firstVisible_def lastVisible_def OVERSCAN_def)
qed

theorem visible_rows_rendered_witness:
  "firstVisible (expansions [] 0 3) 0 \<le> 1 \<and> 1 \<le> lastVisible (expansions [] 0 3) 3 0 30"
  using visible_rows_rendered [of "[]" 0 30 1 3 0]
  by (simp add: expanded_ok_def expansions_alt topOf_def ROW_HEIGHT_def)

text \<open>when an earlier page is put in front, the scroll correction keeps every row where it was on
  the screen, expansions included.\<close>

theorem hold_place_prepend:
  assumes "list_all (\<lambda>x. first \<le> fst x \<and> fst x < first + int count) m"
  shows "topOf (expansions m (first - int n) (count + n)) (seq - (first - int n)) - hold_place first (first - int n) scrollTop
    = topOf (expansions m first count) (seq - first) - scrollTop"
proof -
  have "seq - (first - int n) = (seq - first) + int n" by simp
  then have "topOf (expansions m (first - int n) (count + n)) (seq - (first - int n))
      = topOf (expansions m first count) (seq - first) + of_int (int n) * ROW_HEIGHT"
    unfolding expansions_shift [OF assms] by (simp only: topOf_shift)
  then show ?thesis by (simp add: hold_place_def Let_def)
qed

theorem hold_place_prepend_witness:
  "topOf (expansions [(2, 40)] (0 - int 5) (4 + 5)) (3 - (0 - int 5)) - hold_place 0 (0 - int 5) 10
    = topOf (expansions [(2, 40)] 0 4) (3 - 0) - 10"
  by (rule hold_place_prepend) simp

text \<open>only an upward scroll stops the view from following the tail: an event that does not move up
  never switches following off, and coming back near the end switches it on.\<close>

theorem only_upward_scroll_detaches:
  assumes "onScroll canLoad loading scrollTop scrollHeight clientHeight st = (st', reachTop)"
  shows "(sc_stick st \<and> \<not> sc_stick st' \<longrightarrow> scrollTop < sc_lastTop st) \<and>
    (scrollHeight - scrollTop - clientHeight \<le> STICK_THRESHOLD_PX \<longrightarrow> sc_stick st') \<and>
    (reachTop \<longrightarrow> sc_hasScrolled st' \<and> canLoad \<and> \<not> loading \<and> scrollTop \<le> TOP_THRESHOLD_PX)"
  using assms by (auto simp: onScroll_def Let_def split: if_splits)

theorem only_upward_scroll_detaches_witness:
  "sc_stick (fst (onScroll True False 90 1000 100 \<lparr>sc_top = 80, sc_stick = True, sc_hasScrolled = True, sc_lastTop = 80\<rparr>))"
proof -
  let ?st = "\<lparr>sc_top = 80, sc_stick = True, sc_hasScrolled = True, sc_lastTop = 80\<rparr>"
  have "onScroll True False 90 1000 100 ?st =
      (fst (onScroll True False 90 1000 100 ?st), snd (onScroll True False 90 1000 100 ?st))" by simp
  from only_upward_scroll_detaches [OF this] show ?thesis by simp
qed

end
