(* ===== verification/Term_Channels.thy ===== *)
theory Term_Channels
  imports Js_Date "HOL-Library.Word"
begin

text \<open>
  The two websocket clients of the terminal plugin: \<^verbatim>\<open>plugins/terminal/src/pod/portforward.ts\<close>,
  which turns port-forward frames into the byte stream noVNC reads, and
  \<^verbatim>\<open>plugins/terminal/src/shared/exec.ts\<close>, the exec and attach channel. The socket is what the
  browser provides: its ready state and the frames that arrive are inputs, what is sent and which
  callbacks are called are outputs. The base64 codec is the js-base64 package and is a parameter.
\<close>

type_synonym byte = "8 word"

datatype ready_state = CONNECTING | OPEN | CLOSING | CLOSED

section \<open>The port-forward channel\<close>

definition DATA_CHANNEL :: byte where "DATA_CHANNEL = 0"
definition ERROR_CHANNEL :: byte where "ERROR_CHANNEL = 1"
definition PORT_HEADER_BYTES :: nat where "PORT_HEADER_BYTES = 2"

record pf_channel =
  pf_socket :: ready_state
  pf_pendingHeaderBytes :: "byte \<rightharpoonup> nat"
  pf_opened :: bool

definition new_pf_channel :: "ready_state \<Rightarrow> pf_channel" where
  "new_pf_channel socket = \<lparr>pf_socket = socket,
     pf_pendingHeaderBytes = [DATA_CHANNEL \<mapsto> PORT_HEADER_BYTES, ERROR_CHANNEL \<mapsto> PORT_HEADER_BYTES],
     pf_opened = False\<rparr>"

definition pf_readyState :: "pf_channel \<Rightarrow> ready_state" where
  "pf_readyState c = (if pf_socket c = OPEN \<and> \<not> pf_opened c then CONNECTING else pf_socket c)"

text \<open>\<^verbatim>\<open>send\<close>: the frame handed to the socket.\<close>

definition pf_send :: "byte list \<Rightarrow> byte list" where
  "pf_send payload = DATA_CHANNEL # payload"

text \<open>The callbacks: \<^verbatim>\<open>onopen\<close>, \<^verbatim>\<open>onmessage\<close> with its bytes, and the error pair
  (\<^verbatim>\<open>onStreamError\<close> and \<^verbatim>\<open>onerror\<close>) with the decoded text.\<close>

datatype pf_event = PfOpen | PfMessage "byte list" | PfStreamError jsstring

definition take_header :: "byte \<Rightarrow> byte list \<Rightarrow> pf_channel \<Rightarrow> pf_channel \<times> byte list \<times> pf_event list" where
  "take_header channel payload c =
     (case pf_pendingHeaderBytes c channel of
        None \<Rightarrow> (c, payload, [])
      | Some pending \<Rightarrow>
          if pending = 0 then (c, payload, [])
          else
            (let consumed = min pending (length payload);
                 c1 = c\<lparr>pf_pendingHeaderBytes := (pf_pendingHeaderBytes c)(channel \<mapsto> pending - consumed)\<rparr>
             in if channel = DATA_CHANNEL \<and> pending - consumed = 0
                then (c1\<lparr>pf_opened := True\<rparr>, drop consumed payload, [PfOpen])
                else (c1, drop consumed payload, [])))"

text \<open>A frame that is not binary data is \<open>None\<close> (\<^verbatim>\<open>toUint8Array\<close> gives undefined).\<close>

definition onSocketMessage :: "host \<Rightarrow> byte list option \<Rightarrow> pf_channel \<Rightarrow> pf_channel \<times> pf_event list" where
  "onSocketMessage h data c =
     (case data of
        None \<Rightarrow> (c, [])
      | Some [] \<Rightarrow> (c, [])
      | Some (channel # body) \<Rightarrow>
          (case take_header channel body c of
             (c1, payload, opened) \<Rightarrow>
               (c1, opened @
                 (if payload = [] then []
                  else if channel = ERROR_CHANNEL then [PfStreamError (utf8_decode h (map unat payload))]
                  else if channel = DATA_CHANNEL then [PfMessage payload] else []))))"

fun pf_run :: "host \<Rightarrow> byte list option list \<Rightarrow> pf_channel \<Rightarrow> pf_channel \<times> pf_event list" where
  "pf_run h [] c = (c, [])"
| "pf_run h (d # ds) c =
     (case onSocketMessage h d c of
        (c1, es) \<Rightarrow> (case pf_run h ds c1 of (c2, es') \<Rightarrow> (c2, es @ es')))"

section \<open>What the stream should deliver\<close>

text \<open>The bytes of the data channel in the order they came, whatever the frames.\<close>

definition data_part :: "byte list option \<Rightarrow> byte list" where
  "data_part d = (case d of Some (channel # body) \<Rightarrow> if channel = DATA_CHANNEL then body else [] | _ \<Rightarrow> [])"

definition data_bytes :: "byte list option list \<Rightarrow> byte list" where
  "data_bytes ds = concat (map data_part ds)"

definition delivered :: "pf_event list \<Rightarrow> byte list" where
  "delivered es = concat (map (\<lambda>e. case e of PfMessage b \<Rightarrow> b | _ \<Rightarrow> []) es)"

text \<open>A channel whose data header still lacks \<open>n\<close> bytes.\<close>

definition awaits :: "nat \<Rightarrow> pf_channel \<Rightarrow> bool" where
  "awaits n c \<longleftrightarrow> pf_pendingHeaderBytes c DATA_CHANNEL = Some n \<and> pf_opened c = (n = 0) \<and> n \<le> PORT_HEADER_BYTES"

lemma new_awaits: "awaits PORT_HEADER_BYTES (new_pf_channel s)"
  by (simp add: awaits_def new_pf_channel_def PORT_HEADER_BYTES_def DATA_CHANNEL_def ERROR_CHANNEL_def)

lemma onSocketMessage_spec:
  assumes "awaits n c"
  shows "awaits (n - length (data_part d)) (fst (onSocketMessage h d c))"
    "delivered (snd (onSocketMessage h d c)) = drop n (data_part d)"
    "filter (\<lambda>e. e = PfOpen) (snd (onSocketMessage h d c)) = (if 0 < n \<and> n \<le> length (data_part d) then [PfOpen] else [])"
    "pf_socket (fst (onSocketMessage h d c)) = pf_socket c"
  using assms
  by (auto simp: onSocketMessage_def take_header_def awaits_def data_part_def delivered_def Let_def min_def
      DATA_CHANNEL_def ERROR_CHANNEL_def split: option.splits list.splits)

lemma delivered_append [simp]: "delivered (xs @ ys) = delivered xs @ delivered ys"
  by (simp add: delivered_def)

lemma pf_run_spec:
  "awaits n c \<Longrightarrow> awaits (n - length (data_bytes ds)) (fst (pf_run h ds c)) \<and>
     delivered (snd (pf_run h ds c)) = drop n (data_bytes ds) \<and>
     filter (\<lambda>e. e = PfOpen) (snd (pf_run h ds c)) = (if 0 < n \<and> n \<le> length (data_bytes ds) then [PfOpen] else []) \<and>
     pf_socket (fst (pf_run h ds c)) = pf_socket c"
proof (induction ds arbitrary: c n)
  case (Cons d ds)
  note m = onSocketMessage_spec [OF Cons.prems, where d = d and h = h]
  note IH = Cons.IH [OF m(1)]
  obtain c1 es where s: "onSocketMessage h d c = (c1, es)" by (cases "onSocketMessage h d c")
  obtain c2 es' where r: "pf_run h ds c1 = (c2, es')" by (cases "pf_run h ds c1")
  have bytes: "data_bytes (d # ds) = data_part d @ data_bytes ds" by (simp add: data_bytes_def)
  show ?case
    using m IH by (auto simp: s r bytes)
qed (auto simp add: data_bytes_def delivered_def)

definition delivered_before_open :: "pf_event list \<Rightarrow> byte list" where
  "delivered_before_open es = delivered (takeWhile (\<lambda>e. e \<noteq> PfOpen) es)"

lemma open_member: "filter (\<lambda>e. e = PfOpen) es = (if P then [PfOpen] else []) \<Longrightarrow> PfOpen \<in> set es \<longleftrightarrow> P"
  by (metis (mono_tags, lifting) filter_empty_conv not_Cons_self)

lemma message_before_open:
  assumes "awaits n c" "0 < n"
  shows "delivered_before_open (snd (onSocketMessage h d c)) = []"
  using assms
  by (auto simp: onSocketMessage_def take_header_def awaits_def data_part_def delivered_def delivered_before_open_def
      Let_def min_def DATA_CHANNEL_def ERROR_CHANNEL_def split: option.splits list.splits)

lemma run_before_open: "awaits n c \<Longrightarrow> 0 < n \<Longrightarrow> delivered_before_open (snd (pf_run h ds c)) = []"
proof (induction ds arbitrary: c n)
  case (Cons d ds)
  note m = onSocketMessage_spec [OF Cons.prems(1), where d = d and h = h]
  note first = message_before_open [OF Cons.prems, of h d]
  obtain c1 es where s: "onSocketMessage h d c = (c1, es)" by (cases "onSocketMessage h d c")
  obtain c2 es' where r: "pf_run h ds c1 = (c2, es')" by (cases "pf_run h ds c1")
  show ?case
  proof (cases "PfOpen \<in> set es")
    case True
    then have "takeWhile (\<lambda>e. e \<noteq> PfOpen) (es @ es') = takeWhile (\<lambda>e. e \<noteq> PfOpen) es"
      by (intro takeWhile_append1) auto
    with first show ?thesis by (simp add: s r delivered_before_open_def)
  next
    case False
    then have "0 < n - length (data_part d)"
      using open_member [OF m(3)] Cons.prems(2) by (auto simp: s)
    then have "delivered_before_open es' = []" using Cons.IH [OF m(1)] by (simp add: s r)
    moreover have "delivered es = []"
    proof -
      have "takeWhile (\<lambda>e. e \<noteq> PfOpen) es = es"
        unfolding takeWhile_eq_all_conv using False by blast
      with first show ?thesis by (simp only: s snd_conv delivered_before_open_def)
    qed
    moreover have "takeWhile (\<lambda>e. e \<noteq> PfOpen) (es @ es') = es @ takeWhile (\<lambda>e. e \<noteq> PfOpen) es'"
      using False by (intro takeWhile_append2) auto
    ultimately show ?thesis by (simp add: s r delivered_before_open_def)
  qed
qed (simp add: delivered_before_open_def delivered_def)

section \<open>The exec channel\<close>

text \<open>The codec of js-base64, on strings.\<close>

record base64 =
  b64_encode :: "jsstring \<Rightarrow> jsstring"
  b64_decode :: "jsstring \<Rightarrow> jsstring"

definition STDIN_CHANNEL :: code_unit where "STDIN_CHANNEL = 48"
definition EXEC_ERROR_CHANNEL :: code_unit where "EXEC_ERROR_CHANNEL = 51"
definition RESIZE_CHANNEL :: code_unit where "RESIZE_CHANNEL = 52"

record exec_channel =
  ec_socket :: ready_state
  ec_size :: "(nat \<times> nat) option"
  ec_handlers :: bool
  ec_sent :: "jsstring list"

datatype exec_event = ExOpen | ExData jsstring | ExStreamError jsstring | ExClose jsstring

definition new_exec_channel :: exec_channel where
  "new_exec_channel = \<lparr>ec_socket = CONNECTING, ec_size = None, ec_handlers = True, ec_sent = []\<rparr>"

text \<open>\<^verbatim>\<open>JSON.stringify({ Height: rows, Width: cols })\<close>.\<close>

definition size_json :: "nat \<Rightarrow> nat \<Rightarrow> jsstring" where
  "size_json rows cols = lit ''{\"Height\":'' @ show_nat rows @ lit '',\"Width\":'' @ show_nat cols @ lit ''}''"

definition ec_send :: "jsstring \<Rightarrow> exec_channel \<Rightarrow> exec_channel" where
  "ec_send data c = (if ec_socket c = OPEN then c\<lparr>ec_sent := ec_sent c @ [data]\<rparr> else c)"

definition sendInput :: "base64 \<Rightarrow> jsstring \<Rightarrow> exec_channel \<Rightarrow> exec_channel" where
  "sendInput b data c = ec_send (STDIN_CHANNEL # b64_encode b data) c"

definition sendResize :: "base64 \<Rightarrow> nat \<Rightarrow> nat \<Rightarrow> exec_channel \<Rightarrow> exec_channel" where
  "sendResize b rows cols c =
     ec_send (RESIZE_CHANNEL # b64_encode b (size_json rows cols)) (c\<lparr>ec_size := Some (rows, cols)\<rparr>)"

text \<open>The socket opens: the browser sets its ready state, then calls \<^verbatim>\<open>onopen\<close> unless it was removed.\<close>

definition ec_onopen :: "base64 \<Rightarrow> exec_channel \<Rightarrow> exec_channel \<times> exec_event list" where
  "ec_onopen b c =
     (let c1 = c\<lparr>ec_socket := OPEN\<rparr>
      in if \<not> ec_handlers c then (c1, [])
         else (case ec_size c1 of None \<Rightarrow> c1 | Some (rows, cols) \<Rightarrow> sendResize b rows cols c1, [ExOpen]))"

definition ec_onMessage :: "base64 \<Rightarrow> jsstring \<Rightarrow> exec_channel \<Rightarrow> exec_event list" where
  "ec_onMessage b raw c =
     (if \<not> ec_handlers c then []
      else case raw of
        [] \<Rightarrow> []
      | channel # rest \<Rightarrow>
          (let payload = b64_decode b rest
           in if channel = EXEC_ERROR_CHANNEL then [ExStreamError payload] else [ExData payload]))"

definition ec_onclose :: "bool \<Rightarrow> jsstring \<Rightarrow> exec_channel \<Rightarrow> exec_channel \<times> exec_event list" where
  "ec_onclose wasClean reason c =
     (c\<lparr>ec_socket := CLOSED\<rparr>, if \<not> ec_handlers c \<or> wasClean then [] else [ExClose reason])"

definition ec_destroy :: "exec_channel \<Rightarrow> exec_channel" where
  "ec_destroy c = c\<lparr>ec_handlers := False, ec_socket := (if ec_socket c = CLOSED then CLOSED else CLOSING)\<rparr>"

datatype exec_call = Input jsstring | Resize nat nat

fun exec_call_step :: "base64 \<Rightarrow> exec_call \<Rightarrow> exec_channel \<Rightarrow> exec_channel" where
  "exec_call_step b (Input data) c = sendInput b data c"
| "exec_call_step b (Resize rows cols) c = sendResize b rows cols c"

fun call_frame :: "base64 \<Rightarrow> exec_call \<Rightarrow> jsstring" where
  "call_frame b (Input data) = STDIN_CHANNEL # b64_encode b data"
| "call_frame b (Resize rows cols) = RESIZE_CHANNEL # b64_encode b (size_json rows cols)"

fun last_size :: "(nat \<times> nat) option \<Rightarrow> exec_call list \<Rightarrow> (nat \<times> nat) option" where
  "last_size s [] = s"
| "last_size s (Input d # cs) = last_size s cs"
| "last_size s (Resize r k # cs) = last_size (Some (r, k)) cs"

lemma calls_before_open:
  "ec_socket c \<noteq> OPEN \<Longrightarrow> fold (exec_call_step b) cs c = c\<lparr>ec_size := last_size (ec_size c) cs\<rparr>"
  by (induction "ec_size c" cs arbitrary: c rule: last_size.induct) (simp_all add: sendInput_def sendResize_def ec_send_def)

lemma calls_after_open:
  "ec_socket c = OPEN \<Longrightarrow> fold (exec_call_step b) cs c
     = c\<lparr>ec_size := last_size (ec_size c) cs, ec_sent := ec_sent c @ map (call_frame b) cs\<rparr>"
  by (induction "ec_size c" cs arbitrary: c rule: last_size.induct) (simp_all add: sendInput_def sendResize_def ec_send_def)

section \<open>Properties\<close>

text \<open>C11: however the server cuts the stream into frames, noVNC receives exactly the bytes of the data
  channel after the two-byte port header, sees the channel open exactly once, when the header is
  complete, never receives data before that, and finds it connecting until then.\<close>

theorem portforward_reassembly:
  "delivered (snd (pf_run h frames (new_pf_channel OPEN))) = drop 2 (data_bytes frames) \<and>
   filter (\<lambda>e. e = PfOpen) (snd (pf_run h frames (new_pf_channel OPEN)))
     = (if 2 \<le> length (data_bytes frames) then [PfOpen] else []) \<and>
   delivered_before_open (snd (pf_run h frames (new_pf_channel OPEN))) = [] \<and>
   pf_readyState (fst (pf_run h frames (new_pf_channel OPEN)))
     = (if 2 \<le> length (data_bytes frames) then OPEN else CONNECTING)"
proof -
  have w: "awaits 2 (new_pf_channel OPEN)" using new_awaits [of OPEN] by (simp add: PORT_HEADER_BYTES_def)
  note run = pf_run_spec [OF w, of frames h]
  have "pf_opened (fst (pf_run h frames (new_pf_channel OPEN))) = (2 \<le> length (data_bytes frames))"
    using run by (auto simp: awaits_def)
  moreover have "pf_socket (fst (pf_run h frames (new_pf_channel OPEN))) = OPEN"
    using run by (simp add: new_pf_channel_def)
  ultimately show ?thesis
    using run run_before_open [OF w, of h frames] by (simp add: pf_readyState_def)
qed

text \<open>what was asked for before the socket opened is not lost where it matters: on opening exactly one
  resize goes out, the last size asked for, and from then on every call is sent in order; input typed
  before the socket opened is dropped.\<close>

theorem exec_open_replays_size:
  "ec_sent (fold (exec_call_step b) later (fst (ec_onopen b (fold (exec_call_step b) early new_exec_channel))))
    = (case last_size None early of None \<Rightarrow> [] | Some (rows, cols) \<Rightarrow> [call_frame b (Resize rows cols)])
      @ map (call_frame b) later"
proof -
  have early: "fold (exec_call_step b) early new_exec_channel = new_exec_channel\<lparr>ec_size := last_size None early\<rparr>"
    using calls_before_open [of new_exec_channel b early] by (simp add: new_exec_channel_def)
  show ?thesis
    unfolding early
    by (cases "last_size None early")
      (auto simp: ec_onopen_def calls_after_open sendResize_def ec_send_def new_exec_channel_def Let_def)
qed

text \<open>a frame the server encoded reaches the callback of its channel with the text it carried, and
  nothing reaches any callback once the channel was destroyed.\<close>

theorem exec_message_delivered:
  assumes "b64_decode b (b64_encode b s) = s" and "ec_handlers c"
  shows "ec_onMessage b (channel # b64_encode b s) c
      = [if channel = EXEC_ERROR_CHANNEL then ExStreamError s else ExData s] \<and>
    ec_onMessage b (channel # b64_encode b s) (ec_destroy c) = [] \<and> snd (ec_onopen b (ec_destroy c)) = [] \<and>
    snd (ec_onclose clean reason (ec_destroy c)) = []"
  using assms by (simp add: ec_onMessage_def ec_destroy_def ec_onopen_def ec_onclose_def Let_def)

theorem exec_message_delivered_witness:
  "ec_onMessage \<lparr>b64_encode = rev, b64_decode = rev\<rparr> (49 # rev [97, 98]) new_exec_channel = [ExData [97, 98]]"
  using exec_message_delivered [of "\<lparr>b64_encode = rev, b64_decode = rev\<rparr>" "[97, 98]" new_exec_channel 49]
  by (simp add: new_exec_channel_def EXEC_ERROR_CHANNEL_def)

end
