(* ===== verification/Console_Urls.thy ===== *)
theory Console_Urls
  imports Js_Values
begin

text \<open>
  The URLs the plugins build: \<^verbatim>\<open>consolePath\<close>, the log URLs of
  \<^verbatim>\<open>plugins/logging/src/logs/log-urls.ts\<close>, the websocket URLs of the terminal plugin and the
  rewriting of console core's journal requests in \<^verbatim>\<open>plugins/logging/src/fetch-patch.ts\<close>, on a model
  of \<^verbatim>\<open>encodeURIComponent\<close> and of the serialisation of \<^verbatim>\<open>URLSearchParams\<close>.
\<close>

section \<open>Code points and UTF-8\<close>

abbreviation is_high :: "nat \<Rightarrow> bool" where "is_high c \<equiv> 0xD800 \<le> c \<and> c \<le> 0xDBFF"
abbreviation is_low :: "nat \<Rightarrow> bool" where "is_low c \<equiv> 0xDC00 \<le> c \<and> c \<le> 0xDFFF"

text \<open>The code points of a string; a surrogate without its partner is \<open>None\<close>.\<close>

fun code_points :: "jsstring \<Rightarrow> nat option list" where
  "code_points [] = []"
| "code_points [c] = [if is_high c \<or> is_low c then None else Some c]"
| "code_points (c # d # s) =
     (if is_high c then
        (if is_low d then Some (0x10000 + (c - 0xD800) * 0x400 + (d - 0xDC00)) # code_points s
         else None # code_points (d # s))
      else if is_low c then None # code_points (d # s)
      else Some c # code_points (d # s))"

definition utf8 :: "nat \<Rightarrow> nat list" where
  "utf8 c =
     (if c < 0x80 then [c]
      else if c < 0x800 then [0xC0 + c div 64, 0x80 + c mod 64]
      else if c < 0x10000 then [0xE0 + c div 4096, 0x80 + c div 64 mod 64, 0x80 + c mod 64]
      else [0xF0 + c div 262144, 0x80 + c div 4096 mod 64, 0x80 + c div 64 mod 64, 0x80 + c mod 64])"

definition upper_hex :: "nat \<Rightarrow> code_unit" where
  "upper_hex n = (if n < 10 then 48 + n else 55 + n)"

definition percent :: "nat \<Rightarrow> jsstring" where
  "percent b = [37, upper_hex (b div 16), upper_hex (b mod 16)]"

definition is_alnum :: "code_unit \<Rightarrow> bool" where
  "is_alnum c \<longleftrightarrow> 48 \<le> c \<and> c \<le> 57 \<or> 65 \<le> c \<and> c \<le> 90 \<or> 97 \<le> c \<and> c \<le> 122"

text \<open>\<^verbatim>\<open>encodeURIComponent\<close>; \<open>None\<close> is the URIError of a lone surrogate.\<close>

definition uri_kept :: "code_unit \<Rightarrow> bool" where
  "uri_kept c \<longleftrightarrow> is_alnum c \<or> c \<in> {45, 95, 46, 33, 126, 42, 39, 40, 41}"

definition uri_byte :: "nat \<Rightarrow> jsstring" where
  "uri_byte b = (if uri_kept b then [b] else percent b)"

definition encodeURIComponent :: "jsstring \<Rightarrow> jsstring option" where
  "encodeURIComponent s =
     (if None \<in> set (code_points s) then None
      else Some (concat (map (\<lambda>c. concat (map uri_byte (utf8 (the c)))) (code_points s))))"

text \<open>\<^verbatim>\<open>URLSearchParams.prototype.toString\<close>; a lone surrogate becomes U+FFFD.\<close>

definition form_kept :: "code_unit \<Rightarrow> bool" where
  "form_kept c \<longleftrightarrow> is_alnum c \<or> c \<in> {42, 45, 46, 95}"

definition form_byte :: "nat \<Rightarrow> jsstring" where
  "form_byte b = (if b = 32 then [43] else if form_kept b then [b] else percent b)"

definition scalar :: "nat option \<Rightarrow> nat" where
  "scalar c = (case c of Some n \<Rightarrow> n | None \<Rightarrow> 0xFFFD)"

definition utf8_bytes :: "jsstring \<Rightarrow> nat list" where
  "utf8_bytes s = concat (map (utf8 \<circ> scalar) (code_points s))"

definition form_encode :: "jsstring \<Rightarrow> jsstring" where
  "form_encode s = concat (map form_byte (utf8_bytes s))"

type_synonym params = "(jsstring \<times> jsstring) list"

definition query_string :: "params \<Rightarrow> jsstring" where
  "query_string ps = join [38] (map (\<lambda>(k, v). form_encode k @ [61] @ form_encode v) ps)"

text \<open>\<^verbatim>\<open>set\<close> replaces the first pair of the name and drops the others, \<^verbatim>\<open>append\<close> adds one.\<close>

definition params_set :: "jsstring \<Rightarrow> jsstring \<Rightarrow> params \<Rightarrow> params" where
  "params_set k v ps =
     (if k \<in> fst ` set ps
      then (let kept = takeWhile (\<lambda>p. fst p \<noteq> k) ps
            in kept @ [(k, v)] @ filter (\<lambda>p. fst p \<noteq> k) (drop (length kept + 1) ps))
      else ps @ [(k, v)])"

definition params_append :: "jsstring \<Rightarrow> jsstring \<Rightarrow> params \<Rightarrow> params" where
  "params_append k v ps = ps @ [(k, v)]"

section \<open>Paths under the console\<close>

text \<open>\<open>base_path\<close> is \<^verbatim>\<open>SERVER_FLAGS.basePath\<close>, \<open>None\<close> when it is not set.\<close>

definition consolePath :: "jsstring option \<Rightarrow> jsstring \<Rightarrow> jsstring" where
  "consolePath base_path path =
     trim_end (\<lambda>c. c = 47) (case base_path of None \<Rightarrow> [47] | Some p \<Rightarrow> p) @ path"

record pod_log_query =
  pq_namespace :: jsstring
  pq_podName :: jsstring
  pq_container :: jsstring
  pq_tailLines :: "nat option"
  pq_follow :: bool
  pq_previous :: bool

definition pod_log_params :: "pod_log_query \<Rightarrow> params" where
  "pod_log_params q =
     (let p0 = [(lit ''container'', pq_container q)];
          p1 = (case pq_tailLines q of None \<Rightarrow> p0 | Some n \<Rightarrow> params_set (lit ''tailLines'') (show_nat n) p0);
          p2 = (if pq_follow q then params_set (lit ''follow'') (lit ''true'') p1 else p1)
      in if pq_previous q then params_set (lit ''previous'') (lit ''true'') p2 else p2)"

definition podLogURL :: "jsstring option \<Rightarrow> pod_log_query \<Rightarrow> jsstring option" where
  "podLogURL base q =
     (case (encodeURIComponent (pq_namespace q), encodeURIComponent (pq_podName q)) of
        (Some ns, Some pod) \<Rightarrow>
          Some (consolePath base (lit ''/api/kubernetes/api/v1/namespaces/'' @ ns @ lit ''/pods/'' @ pod @
            lit ''/log?'' @ query_string (pod_log_params q)))
      | _ \<Rightarrow> None)"

record node_journal_query =
  jq_node :: jsstring
  jq_units :: "jsstring list"
  jq_tailLines :: "nat option"
  jq_beforeCursor :: "jsstring option"

definition node_journal_params :: "node_journal_query \<Rightarrow> params" where
  "node_journal_params q =
     (let p0 = params_set (lit ''output'') (lit ''json'') [];
          p1 = params_set (lit ''tailLines'') (show_nat (case jq_tailLines q of None \<Rightarrow> 0 | Some n \<Rightarrow> n)) p0;
          p2 = (case jq_beforeCursor q of None \<Rightarrow> p1 | Some c \<Rightarrow> params_set (lit ''beforeCursor'') c p1)
      in fold (\<lambda>unit. params_append (lit ''unit'') unit) (jq_units q) p2)"

definition nodeJournalURL :: "jsstring option \<Rightarrow> node_journal_query \<Rightarrow> jsstring option" where
  "nodeJournalURL base q =
     map_option (\<lambda>node. consolePath base (lit ''/api/proxy/plugin/logging-console-plugin/api/v1/nodes/'' @ node @
       lit ''/journal?'' @ query_string (node_journal_params q))) (encodeURIComponent (jq_node q))"

text \<open>\<^verbatim>\<open>parseUnits\<close>: split at white space and commas, keep what the backend accepts.\<close>

definition unit_start :: "code_unit \<Rightarrow> bool" where
  "unit_start c \<longleftrightarrow> is_alnum c \<or> c \<in> {64, 58, 46, 95}"

definition UNIT_RE :: "jsstring \<Rightarrow> bool" where
  "UNIT_RE u = (case u of [] \<Rightarrow> False | c # cs \<Rightarrow> unit_start c \<and> list_all (\<lambda>d. unit_start d \<or> d = 45) cs)"

function split_where :: "(code_unit \<Rightarrow> bool) \<Rightarrow> jsstring \<Rightarrow> jsstring list" where
  "split_where P [] = [[]]"
| "split_where P (c # s) =
     (if P c then [] # split_where P (dropWhile P s)
      else (case split_where P s of [] \<Rightarrow> [[c]] | p # ps \<Rightarrow> (c # p) # ps))"
  by pat_completeness auto
termination
  by (relation "measure (\<lambda>(P, s). length s)") (auto simp: le_imp_less_Suc length_dropWhile_le)

definition parseUnits :: "jsstring \<Rightarrow> jsstring list" where
  "parseUnits value =
     filter (\<lambda>unit. unit \<noteq> [] \<and> UNIT_RE unit) (map trim (split_where (\<lambda>c. is_space c \<or> c = 44) value))"

section \<open>Websocket URLs\<close>

record location =
  loc_host :: jsstring
  loc_protocol :: jsstring

definition ws_scheme :: "location \<Rightarrow> jsstring" where
  "ws_scheme l = (if loc_protocol l = lit ''https:'' then lit ''wss:'' else lit ''ws:'')"

definition wsBase :: "jsstring option \<Rightarrow> jsstring \<Rightarrow> jsstring \<Rightarrow> location \<Rightarrow> jsstring option" where
  "wsBase base namespace podName l =
     (case (encodeURIComponent namespace, encodeURIComponent podName) of
        (Some ns, Some pod) \<Rightarrow>
          Some (ws_scheme l @ lit ''//'' @ loc_host l @
            consolePath base (lit ''/api/kubernetes/api/v1/namespaces/'' @ ns) @ lit ''/pods/'' @ pod)
      | _ \<Rightarrow> None)"

definition stream_params :: "jsstring \<Rightarrow> params" where
  "stream_params containerName =
     params_set (lit ''container'') containerName (params_set (lit ''tty'') (lit ''1'')
       (params_set (lit ''stderr'') (lit ''1'') (params_set (lit ''stdin'') (lit ''1'')
         (params_set (lit ''stdout'') (lit ''1'') []))))"

definition attachURL :: "jsstring option \<Rightarrow> jsstring \<Rightarrow> jsstring \<Rightarrow> jsstring \<Rightarrow> location \<Rightarrow> jsstring option" where
  "attachURL base namespace podName containerName l =
     map_option (\<lambda>b. b @ lit ''/attach?'' @ query_string (stream_params containerName)) (wsBase base namespace podName l)"

definition execURL :: "jsstring option \<Rightarrow> jsstring \<Rightarrow> jsstring \<Rightarrow> jsstring \<Rightarrow> jsstring list \<Rightarrow> location \<Rightarrow> jsstring option" where
  "execURL base namespace podName containerName command l =
     map_option (\<lambda>b. b @ lit ''/exec?'' @
         query_string (fold (\<lambda>c. params_append (lit ''command'') c) command (stream_params containerName)))
       (wsBase base namespace podName l)"

definition portForwardURL :: "jsstring option \<Rightarrow> jsstring \<Rightarrow> jsstring \<Rightarrow> nat \<Rightarrow> location \<Rightarrow> jsstring option" where
  "portForwardURL base namespace podName port l =
     map_option (\<lambda>b. b @ lit ''/portforward?ports='' @ show_nat port) (wsBase base namespace podName l)"

section \<open>Reading encoded text back\<close>

definition hex_value :: "code_unit \<Rightarrow> nat" where
  "hex_value c = (if c \<le> 57 then c - 48 else c - 55)"

fun percent_decode :: "bool \<Rightarrow> jsstring \<Rightarrow> nat list" where
  "percent_decode pl (c # a # b # s) =
     (if c = 37 then (16 * hex_value a + hex_value b) # percent_decode pl s
      else (if pl \<and> c = 43 then 32 else c) # percent_decode pl (a # b # s))"
| "percent_decode pl (c # s) = (if pl \<and> c = 43 then 32 else c) # percent_decode pl s"
| "percent_decode pl [] = []"

lemma hex_value_upper: "n < 16 \<Longrightarrow> hex_value (upper_hex n) = n"
  by (simp add: hex_value_def upper_hex_def)

lemma percent_decode_percent: "b < 256 \<Longrightarrow> percent_decode pl (percent b @ s) = b # percent_decode pl s"
  by (simp add: percent_def hex_value_upper less_mult_imp_div_less)

lemma percent_decode_kept: "c \<noteq> 37 \<Longrightarrow> \<not> (pl \<and> c = 43) \<Longrightarrow> percent_decode pl (c # s) = c # percent_decode pl s"
  by (cases s rule: remdups_adj.cases) auto

lemma percent_decode_plus: "percent_decode True (43 # s) = 32 # percent_decode True s"
  by (cases s rule: remdups_adj.cases) auto

lemma form_byte_decode: "b < 256 \<Longrightarrow> percent_decode True (form_byte b @ s) = b # percent_decode True s"
  using percent_decode_percent [of b True s] percent_decode_plus [of s]
  by (auto simp: form_byte_def form_kept_def is_alnum_def percent_decode_kept)

lemma uri_byte_decode: "b < 256 \<Longrightarrow> percent_decode False (uri_byte b @ s) = b # percent_decode False s"
  using percent_decode_percent [of b False s]
  by (auto simp: uri_byte_def uri_kept_def is_alnum_def percent_decode_kept)

lemma form_decode: "list_all (\<lambda>b. b < 256) bs \<Longrightarrow> percent_decode True (concat (map form_byte bs)) = bs"
  by (induction bs) (simp_all add: form_byte_decode)

lemma uri_decode: "list_all (\<lambda>b. b < 256) bs \<Longrightarrow> percent_decode False (concat (map uri_byte bs)) = bs"
  by (induction bs) (simp_all add: uri_byte_decode)

lemma utf8_byte: "c < 0x110000 \<Longrightarrow> list_all (\<lambda>b. b < 256) (utf8 c)"
proof -
  assume c: "c < 0x110000"
  have m: "0x80 + x mod 64 < (256 :: nat)" for x
    using mod_less_divisor [of 64 x] by linarith
  have "c < 0x800 \<Longrightarrow> c div 64 < 64" "c < 0x10000 \<Longrightarrow> c div 4096 < 32" "c div 262144 < 16"
    using c by (simp_all add: less_mult_imp_div_less)
  then show ?thesis by (simp add: utf8_def m)
qed

lemma code_points_range:
  "list_all (\<lambda>c. c < 0x10000) s \<Longrightarrow> list_all (\<lambda>x. scalar x < 0x110000) (code_points s)"
proof (induction s rule: code_points.induct)
  case (3 c d s)
  have "0x10000 + (c - 0xD800) * 0x400 + (d - 0xDC00) < 0x110000" if "is_high c" "is_low d"
  proof -
    have "c - 0xD800 \<le> 0x3FF" "d - 0xDC00 \<le> 0x3FF" using that by auto
    then show ?thesis by linarith
  qed
  with 3 show ?case by (auto simp: scalar_def)
qed (auto simp: scalar_def)

text \<open>A string of 16-bit code units, as every JavaScript string is.\<close>

definition utf16 :: "jsstring \<Rightarrow> bool" where
  "utf16 s \<longleftrightarrow> list_all (\<lambda>c. c < 0x10000) s"

lemma utf8_bytes_range: "utf16 s \<Longrightarrow> list_all (\<lambda>b. b < 256) (utf8_bytes s)"
  using code_points_range [of s] utf8_byte unfolding utf16_def utf8_bytes_def by (fastforce simp: list_all_iff)

lemma form_encode_decode: "utf16 s \<Longrightarrow> percent_decode True (form_encode s) = utf8_bytes s"
  unfolding form_encode_def by (intro form_decode utf8_bytes_range)

lemma concat_map_concat: "concat (map f (concat xss)) = concat (map (\<lambda>xs. concat (map f xs)) xss)"
  by (induction xss) simp_all

lemma encodeURIComponent_bytes:
  assumes "encodeURIComponent s = Some e"
  shows "e = concat (map uri_byte (utf8_bytes s))"
proof -
  have "None \<notin> set (code_points s)" using assms by (auto simp: encodeURIComponent_def split: if_splits)
  then have "encodeURIComponent s = Some (concat (map (\<lambda>c. concat (map uri_byte (utf8 (scalar c)))) (code_points s)))"
    unfolding encodeURIComponent_def
    by (auto simp: scalar_def split: option.splits intro!: arg_cong [where f = concat])
  then show ?thesis
    using assms by (simp add: utf8_bytes_def concat_map_concat comp_def)
qed

lemma encodeURIComponent_decode:
  "encodeURIComponent s = Some e \<Longrightarrow> utf16 s \<Longrightarrow> percent_decode False e = utf8_bytes s"
  using encodeURIComponent_bytes uri_decode utf8_bytes_range by blast

lemma upper_hex_alnum: "n < 16 \<Longrightarrow> is_alnum (upper_hex n)"
  by (auto simp: upper_hex_def is_alnum_def)

lemma percent_chars: "b < 256 \<Longrightarrow> c \<in> set (percent b) \<Longrightarrow> c = 37 \<or> is_alnum c"
  using upper_hex_alnum [of "b div 16"] upper_hex_alnum [of "b mod 16"]
  by (auto simp: percent_def less_mult_imp_div_less)

lemma encodeURIComponent_chars:
  assumes "encodeURIComponent s = Some e" "utf16 s" "c \<in> set e"
  shows "c = 37 \<or> uri_kept c"
proof -
  obtain b where "b \<in> set (utf8_bytes s)" "c \<in> set (uri_byte b)"
    using assms encodeURIComponent_bytes [OF assms(1)] by auto
  with utf8_bytes_range [OF assms(2)] show ?thesis
    using percent_chars [of b c] by (auto simp: uri_byte_def uri_kept_def list_all_iff split: if_splits)
qed

lemma form_encode_chars:
  assumes "utf16 s" "c \<in> set (form_encode s)"
  shows "c = 37 \<or> c = 43 \<or> form_kept c"
proof -
  obtain b where "b \<in> set (utf8_bytes s)" "c \<in> set (form_byte b)"
    using assms by (auto simp: form_encode_def)
  with utf8_bytes_range [OF assms(1)] show ?thesis
    using percent_chars [of b c] by (auto simp: form_byte_def form_kept_def list_all_iff split: if_splits)
qed

text \<open>The server's reading of a query: split at \<open>&\<close> and at the first \<open>=\<close>, decode both sides.\<close>

definition parse_pair :: "jsstring \<Rightarrow> nat list \<times> nat list" where
  "parse_pair p = (percent_decode True (takeWhile (\<lambda>c. c \<noteq> 61) p),
                   percent_decode True (drop 1 (dropWhile (\<lambda>c. c \<noteq> 61) p)))"

definition parse_query :: "jsstring \<Rightarrow> (nat list \<times> nat list) list" where
  "parse_query q = map parse_pair (split_on 38 q)"

lemma parse_pair_encode:
  assumes "utf16 k" "utf16 v"
  shows "parse_pair (form_encode k @ [61] @ form_encode v) = (utf8_bytes k, utf8_bytes v)"
proof -
  have "61 \<notin> set (form_encode k)"
    using form_encode_chars [OF assms(1)] by (force simp: form_kept_def is_alnum_def)
  then show ?thesis
    using assms by (simp add: parse_pair_def takeWhile_append dropWhile_append form_encode_decode)
qed

lemma parse_query_string:
  assumes "ps \<noteq> []" "list_all (\<lambda>(k, v). utf16 k \<and> utf16 v) ps"
  shows "parse_query (query_string ps) = map (\<lambda>(k, v). (utf8_bytes k, utf8_bytes v)) ps"
proof -
  let ?f = "\<lambda>(k, v). form_encode k @ [61] @ form_encode v"
  have amp: "38 \<notin> set (form_encode k)" if "utf16 k" for k
    using form_encode_chars [OF that, of 38] by (auto simp: form_kept_def is_alnum_def)
  have "38 \<notin> set (?f p)" if "p \<in> set ps" for p
    using that assms(2) amp by (cases p) (auto simp: list_all_iff)
  then have "split_on 38 (query_string ps) = map ?f ps"
    using assms(1) unfolding query_string_def by (intro split_on_join) auto
  moreover have "parse_pair (?f p) = (case p of (k, v) \<Rightarrow> (utf8_bytes k, utf8_bytes v))" if "p \<in> set ps" for p
    using that assms(2) by (cases p) (auto simp: list_all_iff simp del: append.simps intro!: parse_pair_encode)
  ultimately show ?thesis by (simp add: parse_query_def)
qed

text \<open>The server's reading of a request target: the decoded path segments and the query.\<close>

definition read_target :: "jsstring \<Rightarrow> nat list list \<times> (nat list \<times> nat list) list" where
  "read_target url =
     (map (percent_decode False) (split_on 47 (takeWhile (\<lambda>c. c \<noteq> 63) url)),
      parse_query (drop 1 (dropWhile (\<lambda>c. c \<noteq> 63) url)))"

lemma split_on_append: "split_on c (s @ c # t) = split_on c s @ split_on c t"
  by (induction s) (auto split: list.splits)

lemma split_on_segments:
  "(\<And>x. x \<in> set segs \<Longrightarrow> c \<notin> set x) \<Longrightarrow>
   split_on c (pre @ concat (map ((#) c) segs)) = split_on c pre @ segs"
proof (induction segs arbitrary: pre)
  case (Cons x segs)
  then show ?case using Cons.IH [of "x"] by (simp add: split_on_append)
qed simp

lemma cut_at:
  assumes "c \<notin> set xs"
  shows "takeWhile (\<lambda>x. x \<noteq> c) (xs @ c # ys) = xs" "dropWhile (\<lambda>x. x \<noteq> c) (xs @ c # ys) = c # ys"
  using assms by (induction xs) auto

lemma read_target_segments:
  assumes "63 \<notin> set pre" "\<And>x. x \<in> set segs \<Longrightarrow> 47 \<notin> set x \<and> 63 \<notin> set x"
  shows "read_target (pre @ concat (map ((#) 47) segs) @ 63 # query) =
           (map (percent_decode False) (split_on 47 pre @ segs), parse_query query)"
proof -
  have "63 \<notin> set (pre @ concat (map ((#) 47) segs))" using assms by auto
  note cut = cut_at [OF this, of query, unfolded append_assoc]
  show ?thesis using assms(2) by (simp only: read_target_def cut) (simp add: split_on_segments)
qed

lemma encodeURIComponent_segment:
  "encodeURIComponent s = Some e \<Longrightarrow> utf16 s \<Longrightarrow> 47 \<notin> set e \<and> 63 \<notin> set e"
  using encodeURIComponent_chars [of s e 47] encodeURIComponent_chars [of s e 63]
  by (auto simp: uri_kept_def is_alnum_def)

lemma utf16_lit [simp]: "utf16 (lit s)"
proof -
  have "of_char c < (0x10000 :: nat)" for c :: char
    by (rule less_trans [OF nat_of_char_less_256]) simp
  then show ?thesis by (auto simp: utf16_def lit_def list_all_iff)
qed

lemma utf16_show_nat [simp]: "utf16 (show_nat n)"
  using show_nat_digits [of n] by (auto simp: utf16_def all_digits_def is_digit_def list_all_iff)

lemma utf16_Nil [simp]: "utf16 []"
  by (simp add: utf16_def)

lemma utf16_Cons [simp]: "utf16 (c # s) \<longleftrightarrow> c < 0x10000 \<and> utf16 s"
  by (simp add: utf16_def)

lemma utf16_append [simp]: "utf16 (a @ b) \<longleftrightarrow> utf16 a \<and> utf16 b"
  by (simp add: utf16_def)

lemma percent_decode_plain: "37 \<notin> set s \<Longrightarrow> percent_decode False s = s"
  by (induction s) (auto simp: percent_decode_kept)

lemma utf8_bytes_lit: "list_all (\<lambda>c. c < 0x80) s \<Longrightarrow> utf8_bytes s = s"
  by (induction s rule: code_points.induct) (auto simp: utf8_bytes_def scalar_def utf8_def)

text \<open>Segments of a path that stand for themselves.\<close>

definition plain_segment :: "jsstring \<Rightarrow> bool" where
  "plain_segment s \<longleftrightarrow> list_all (\<lambda>c. is_alnum c \<or> c = 45) s"

lemma plain_segment_read:
  "plain_segment s \<Longrightarrow> percent_decode False s = s \<and> utf8_bytes s = s \<and> 47 \<notin> set s \<and> 63 \<notin> set s"
proof -
  assume plain: "plain_segment s"
  then have "list_all (\<lambda>c. c < 0x80) s" "37 \<notin> set s" "47 \<notin> set s" "63 \<notin> set s"
    by (fastforce simp: plain_segment_def list_all_iff is_alnum_def)+
  then show ?thesis by (simp add: percent_decode_plain utf8_bytes_lit)
qed

definition params_ok :: "params \<Rightarrow> bool" where
  "params_ok ps \<longleftrightarrow> ps \<noteq> [] \<and> list_all (\<lambda>(k, v). utf16 k \<and> utf16 v) ps"

lemma params_set_ok: "utf16 k \<Longrightarrow> utf16 v \<Longrightarrow> ps = [] \<or> params_ok ps \<Longrightarrow> params_ok (params_set k v ps)"
  by (auto simp: params_ok_def params_set_def Let_def list_all_iff dest!: set_takeWhileD in_set_dropD)

lemma params_append_ok: "utf16 k \<Longrightarrow> utf16 v \<Longrightarrow> params_ok ps \<Longrightarrow> params_ok (params_append k v ps)"
  by (auto simp: params_ok_def params_append_def)

lemma pod_log_params_ok: "utf16 (pq_container q) \<Longrightarrow> params_ok (pod_log_params q)"
  unfolding pod_log_params_def Let_def
  by (auto split: option.splits intro!: params_set_ok) (auto simp: params_ok_def)

definition request :: "jsstring list \<Rightarrow> params \<Rightarrow> nat list list \<times> (nat list \<times> nat list) list" where
  "request segs ps = (map utf8_bytes segs, map (\<lambda>(k, v). (utf8_bytes k, utf8_bytes v)) ps)"

lemma pod_path_read:
  assumes "63 \<notin> set base" "utf16 ns" "utf16 pod" "encodeURIComponent ns = Some n" "encodeURIComponent pod = Some p"
    and "list_all plain_segment before" "plain_segment mid" "list_all plain_segment after" "params_ok ps"
  shows "read_target (base @ concat (map ((#) 47) (before @ n # mid # p # after)) @ 63 # query_string ps) =
    (map (percent_decode False) (split_on 47 base) @ fst (request (before @ ns # mid # pod # after) ps),
     snd (request (before @ ns # mid # pod # after) ps))"
proof -
  have "47 \<notin> set x \<and> 63 \<notin> set x" if "x \<in> set (before @ n # mid # p # after)" for x
    using that assms encodeURIComponent_segment plain_segment_read by (auto simp: list_all_iff)
  note read = read_target_segments [OF assms(1) this]
  have keep: "map (percent_decode False) xs = map utf8_bytes xs" if "list_all plain_segment xs" for xs
    using that plain_segment_read by (auto simp: list_all_iff)
  show ?thesis
    using assms plain_segment_read [OF assms(7)]
    by (subst read) (simp_all add: request_def keep encodeURIComponent_decode parse_query_string params_ok_def)
qed

lemma plain_lit: "plain_segment (lit ''api'')" "plain_segment (lit ''v1'')" "plain_segment (lit ''kubernetes'')"
  "plain_segment (lit ''namespaces'')" "plain_segment (lit ''pods'')" "plain_segment (lit ''log'')"
  "plain_segment (lit ''exec'')" "plain_segment (lit ''attach'')"
  by code_simp+

definition pod_segments :: "jsstring list" where
  "pod_segments = [lit ''api'', lit ''kubernetes'', lit ''api'', lit ''v1'', lit ''namespaces'']"

definition console_root :: "jsstring option \<Rightarrow> jsstring" where
  "console_root base = consolePath base []"

lemma podLogURL_defined:
  "podLogURL base q = None \<longleftrightarrow> None \<in> set (code_points (pq_namespace q)) \<union> set (code_points (pq_podName q))"
  by (auto simp: podLogURL_def encodeURIComponent_def)

lemma execURL_defined:
  "execURL base namespace podName c cmd l = None \<longleftrightarrow> None \<in> set (code_points namespace) \<union> set (code_points podName)"
  by (auto simp: execURL_def wsBase_def encodeURIComponent_def)

lemma console_root_None [simp]: "console_root None = []"
  by (simp add: console_root_def consolePath_def trim_end_def)

text \<open>A request for a pod's log reaches the pod it names, whatever characters the names contain:
  the API server, splitting the target at slashes and the query at \<open>&\<close> and \<open>=\<close> and decoding the parts,
  reads the namespace, the pod and exactly the parameters asked for, under the console's base path.\<close>

theorem podLogURL_read:
  assumes "podLogURL base q = Some url"
    and "utf16 (pq_namespace q)" "utf16 (pq_podName q)" "utf16 (pq_container q)"
    and "63 \<notin> set (console_root base)"
  shows "read_target url =
    (map (percent_decode False) (split_on 47 (console_root base)) @
       fst (request (pod_segments @ [pq_namespace q, lit ''pods'', pq_podName q, lit ''log'']) (pod_log_params q)),
     snd (request [] (pod_log_params q)))"
proof -
  obtain n p where e: "encodeURIComponent (pq_namespace q) = Some n" "encodeURIComponent (pq_podName q) = Some p"
    "url = console_root base @ concat (map ((#) 47) (pod_segments @ n # lit ''pods'' # p # [lit ''log''])) @ 63 # query_string (pod_log_params q)"
    using assms(1) by (auto simp: podLogURL_def consolePath_def console_root_def pod_segments_def split: option.splits)
  have "list_all plain_segment pod_segments" "list_all plain_segment [lit ''log'']"
    by (simp_all add: pod_segments_def plain_lit del: lit_Cons)
  from pod_path_read [OF assms(5) assms(2,3) e(1,2) this(1) plain_lit(5) this(2) pod_log_params_ok [OF assms(4)]]
  show ?thesis by (simp add: e(3) request_def del: lit_Cons)
qed

definition plain_query :: pod_log_query where
  "plain_query = \<lparr>pq_namespace = lit ''a/b'', pq_podName = lit ''p?'', pq_container = lit ''c&d'',
     pq_tailLines = None, pq_follow = True, pq_previous = False\<rparr>"

lemma podLogURL_read_witness:
  "read_target (the (podLogURL None plain_query)) =
    (map (percent_decode False) (split_on 47 (console_root None)) @
       fst (request (pod_segments @ [lit ''a/b'', lit ''pods'', lit ''p?'', lit ''log'']) (pod_log_params plain_query)),
     snd (request [] (pod_log_params plain_query)))"
proof -
  have "podLogURL None plain_query \<noteq> None" by (simp add: podLogURL_defined plain_query_def)
  then obtain url where "podLogURL None plain_query = Some url" by auto
  then show ?thesis
    using podLogURL_read [of None plain_query url] by (simp add: plain_query_def del: lit_Cons)
qed

lemma fold_params_append: "fold (params_append k) vs ps = ps @ map (Pair k) vs"
  by (induction vs arbitrary: ps) (simp_all add: params_append_def)

lemma stream_params_ok: "utf16 c \<Longrightarrow> params_ok (stream_params c)"
  unfolding stream_params_def by (auto intro!: params_set_ok)

text \<open>An exec request carries its command through unchanged: the URL is the websocket form of the
  console's own origin, and the API server reads back from it the namespace, the pod, the container and the
  command's words in their order, whatever characters they contain.\<close>

theorem execURL_read:
  assumes "execURL base namespace podName containerName command l = Some url"
    and "utf16 namespace" "utf16 podName" "utf16 containerName" "list_all utf16 command"
    and "63 \<notin> set (console_root base)"
  shows "\<exists>target. url = ws_scheme l @ lit ''//'' @ loc_host l @ target \<and>
    read_target target =
      (map (percent_decode False) (split_on 47 (console_root base)) @
         fst (request (pod_segments @ [namespace, lit ''pods'', podName, lit ''exec'']) []),
       snd (request [] (stream_params containerName @ map (Pair (lit ''command'')) command)))"
proof -
  let ?ps = "stream_params containerName @ map (Pair (lit ''command'')) command"
  obtain n p where e: "encodeURIComponent namespace = Some n" "encodeURIComponent podName = Some p"
    "url = ws_scheme l @ lit ''//'' @ loc_host l @ console_root base @
       concat (map ((#) 47) (pod_segments @ n # lit ''pods'' # p # [lit ''exec''])) @ 63 # query_string ?ps"
    using assms(1)
    by (auto simp: execURL_def wsBase_def consolePath_def console_root_def pod_segments_def fold_params_append
        split: option.splits)
  have segs: "list_all plain_segment pod_segments" "list_all plain_segment [lit ''exec'']"
    by (simp_all add: pod_segments_def plain_lit del: lit_Cons)
  have "params_ok ?ps"
    using stream_params_ok [OF assms(4)] assms(5) by (auto simp: params_ok_def list_all_iff)
  from pod_path_read [OF assms(6) assms(2,3) e(1,2) segs(1) plain_lit(5) segs(2) this]
  show ?thesis by (intro exI conjI, subst e(3)) (simp_all add: request_def del: lit_Cons)
qed

lemma execURL_read_witness:
  "\<exists>target. the (execURL None (lit ''n'') (lit ''p'') (lit ''c'') [lit ''sh'', lit ''-c &'']
      \<lparr>loc_host = lit ''h'', loc_protocol = lit ''https:''\<rparr>) = lit ''wss:'' @ lit ''//'' @ lit ''h'' @ target \<and>
    read_target target =
      (map (percent_decode False) (split_on 47 (console_root None)) @
         fst (request (pod_segments @ [lit ''n'', lit ''pods'', lit ''p'', lit ''exec'']) []),
       snd (request [] (stream_params (lit ''c'') @ map (Pair (lit ''command'')) [lit ''sh'', lit ''-c &''])))"
proof -
  let ?l = "\<lparr>loc_host = lit ''h'', loc_protocol = lit ''https:''\<rparr>"
  have "execURL None (lit ''n'') (lit ''p'') (lit ''c'') [lit ''sh'', lit ''-c &''] ?l \<noteq> None" by (simp add: execURL_defined)
  then obtain url where "execURL None (lit ''n'') (lit ''p'') (lit ''c'') [lit ''sh'', lit ''-c &''] ?l = Some url" by auto
  then show ?thesis
    using execURL_read [of None "lit ''n''" "lit ''p''" "lit ''c''" "[lit ''sh'', lit ''-c &'']" ?l url]
    by (simp add: ws_scheme_def del: lit_Cons)
qed

subsection \<open>The units of a journal request\<close>

lemma split_where_notin: "\<forall>c \<in> set s. \<not> P c \<Longrightarrow> split_where P s = [s]"
  by (induction s) simp_all

lemma split_where_append:
  "\<forall>c \<in> set s. \<not> P c \<Longrightarrow> P d \<Longrightarrow> t \<noteq> [] \<Longrightarrow> \<not> P (hd t) \<Longrightarrow>
   split_where P (s @ d # t) = s # split_where P t"
  by (induction s) (auto simp: neq_Nil_conv)

lemma split_where_join:
  "us \<noteq> [] \<Longrightarrow> P d \<Longrightarrow> (\<And>u. u \<in> set us \<Longrightarrow> u \<noteq> [] \<and> (\<forall>c \<in> set u. \<not> P c)) \<Longrightarrow> split_where P (join [d] us) = us"
proof (induction us)
  case (Cons u us)
  show ?case
  proof (cases us)
    case Nil
    then show ?thesis using Cons.prems by (simp add: split_where_notin)
  next
    case (Cons v vs)
    then have "join [d] us \<noteq> []" "\<not> P (hd (join [d] us))"
      using Cons.prems(3) [of v] by (cases vs; auto simp: hd_append)+
    moreover have "split_where P (join [d] us) = us"
      using Cons Cons.prems by (intro Cons.IH) auto
    moreover have "\<forall>c \<in> set u. \<not> P c" using Cons.prems(3) [of u] by simp
    ultimately show ?thesis
      using Cons Cons.prems(2) split_where_append [of u P d "join [d] us"] by simp
  qed
qed simp

lemma unit_not_separator: "unit_start c \<or> c = 45 \<Longrightarrow> \<not> (is_space c \<or> c = 44)"
  by (auto simp: unit_start_def is_alnum_def is_space_def)

lemma trim_id: "\<forall>c \<in> set s. \<not> is_space c \<Longrightarrow> trim s = s"
  by (cases s) (auto simp: trim_def trim_end_id)

lemma UNIT_RE_chars: "UNIT_RE u \<Longrightarrow> u \<noteq> [] \<and> (\<forall>c \<in> set u. unit_start c \<or> c = 45)"
  by (auto simp: UNIT_RE_def list_all_iff split: list.splits)

text \<open>Parsing units returns exactly the units asked for: from a list of acceptable names joined by a space
  or a comma \<^verbatim>\<open>parseUnits\<close> recovers the list, and whatever the input, it returns only names the backend
  accepts.\<close>

theorem parseUnits_roundtrip:
  assumes "list_all UNIT_RE us" "d = 32 \<or> d = 44"
  shows "parseUnits (join [d] us) = us \<and> list_all UNIT_RE (parseUnits s)"
proof (cases "us = []")
  case False
  have chars: "u \<noteq> []" "\<forall>c \<in> set u. \<not> (is_space c \<or> c = 44)" if "u \<in> set us" for u
    using that assms(1) UNIT_RE_chars unit_not_separator by (fastforce simp: list_all_iff)+
  then have "map trim us = us" by (auto intro!: map_idI trim_id)
  moreover have "split_where (\<lambda>c. is_space c \<or> c = 44) (join [d] us) = us"
    using False assms(2) chars by (intro split_where_join) (auto simp: is_space_def)
  ultimately show ?thesis
    using assms(1) chars by (auto simp: parseUnits_def list_all_iff)
qed (auto simp: parseUnits_def list_all_iff)

lemma parseUnits_roundtrip_witness:
  "parseUnits (join [44] [lit ''sshd.service'', lit ''kubelet'']) = [lit ''sshd.service'', lit ''kubelet''] \<and>
   list_all UNIT_RE (parseUnits (lit ''-x y''))"
proof -
  have "list_all UNIT_RE [lit ''sshd.service'', lit ''kubelet'']" by code_simp
  then show ?thesis by (intro parseUnits_roundtrip) auto
qed

end
