(* ===== verification/Stable_Sort.thy ===== *)
theory Stable_Sort
  imports Prelude "HOL-Library.Multiset"
begin

text \<open>
  \<^verbatim>\<open>Array.prototype.sort\<close>: the sort of the language is stable, and where the comparison is a total preorder its result is
  determined. It is written here as insertion from the right; what its callers rely on is proved in the locale \<open>row_order\<close>,
  relative to the elements on which the comparison is one.
\<close>

fun insert_by :: "('a \<Rightarrow> 'a \<Rightarrow> bool) \<Rightarrow> 'a \<Rightarrow> 'a list \<Rightarrow> 'a list" where
  "insert_by le x [] = [x]"
| "insert_by le x (y # ys) = (if le x y then x # y # ys else y # insert_by le x ys)"

definition sort_by :: "('a \<Rightarrow> 'a \<Rightarrow> bool) \<Rightarrow> 'a list \<Rightarrow> 'a list" where
  "sort_by le xs = foldr (insert_by le) xs []"

lemma insert_by_key:
  "(\<And>y. y \<in> set ys \<Longrightarrow> le x y \<longleftrightarrow> f x \<le> f y) \<Longrightarrow> insert_by le x ys = insort_key f x ys"
  by (induction ys) auto

lemma sort_by_key:
  "sorted_wrt (\<lambda>x y. le x y \<longleftrightarrow> f x \<le> f y) xs \<Longrightarrow> sort_by le xs = sort_key f xs"
  by (induction xs) (auto simp: sort_by_def sort_key_def insert_by_key
      simp flip: sort_key_def intro!: insert_by_key)

lemma mset_insert_by [simp]: "mset (insert_by le x ys) = add_mset x (mset ys)"
  by (induction ys) auto

lemma set_insert_by [simp]: "set (insert_by le x ys) = insert x (set ys)"
  by (induction ys) auto

lemma sort_by_Cons: "sort_by le (x # xs) = insert_by le x (sort_by le xs)"
  by (simp add: sort_by_def)

lemma sort_by_Nil [simp]: "sort_by le [] = []"
  by (simp add: sort_by_def)

lemma mset_sort_by [simp]: "mset (sort_by le xs) = mset xs"
  by (induction xs) (simp_all add: sort_by_Cons)

lemma set_sort_by [simp]: "set (sort_by le xs) = set xs"
  by (induction xs) (simp_all add: sort_by_Cons)

locale row_order =
  fixes le :: "'a \<Rightarrow> 'a \<Rightarrow> bool" and fine :: "'a \<Rightarrow> bool"
  assumes le_total: "fine x \<Longrightarrow> fine y \<Longrightarrow> le x y \<or> le y x"
    and le_trans: "fine x \<Longrightarrow> fine y \<Longrightarrow> fine z \<Longrightarrow> le x y \<Longrightarrow> le y z \<Longrightarrow> le x z"
begin

lemma sorted_insert: "fine x \<Longrightarrow> list_all fine ys \<Longrightarrow> sorted_wrt le ys \<Longrightarrow> sorted_wrt le (insert_by le x ys)"
  by (induction ys) (auto simp: list_all_iff dest: le_total intro: le_trans)

lemma sorted_sort: "list_all fine xs \<Longrightarrow> sorted_wrt le (sort_by le xs)"
  by (induction xs) (auto simp: sort_by_Cons list_all_iff intro!: sorted_insert)

text \<open>Elements that come after each other either way keep their order.\<close>

lemma filter_insert:
  "(\<And>y. y \<in> set ys \<Longrightarrow> P x \<Longrightarrow> P y \<Longrightarrow> le x y) \<Longrightarrow> filter P (insert_by le x ys) = (if P x then x # filter P ys else filter P ys)"
  by (induction ys) auto

lemma stable_sort:
  assumes "\<And>x y. x \<in> set xs \<Longrightarrow> y \<in> set xs \<Longrightarrow> P x \<Longrightarrow> P y \<Longrightarrow> le x y"
  shows "filter P (sort_by le xs) = filter P xs"
  using assms
proof (induction xs)
  case (Cons a xs)
  have "filter P (insert_by le a (sort_by le xs)) = (if P a then a # filter P (sort_by le xs) else filter P (sort_by le xs))"
    using Cons.prems by (intro filter_insert) simp
  then show ?case using Cons by (simp add: sort_by_Cons)
qed simp

lemma sort_least:
  assumes "list_all fine xs" "sort_by le xs = x # ys" "y \<in> set xs"
  shows "le x y"
proof -
  have "sorted_wrt le (x # ys)" using sorted_sort [OF assms(1)] assms(2) by simp
  moreover have "x \<in> set xs" "y = x \<or> y \<in> set ys" using set_sort_by [of le xs] assms(2,3) by auto
  ultimately show ?thesis using assms(1) le_total [of x x] by (auto simp: list_all_iff)
qed

end

end
