(* ===== verification/Term_Vnc.thy ===== *)
theory Term_Vnc
  imports Complex_Main Js_Values Stable_Sort "HOL-Library.Product_Lexorder" "HOL-Library.Sublist" "HOL-Library.Multiset"
begin

text \<open>
  The VNC side of the terminal plugin: the endpoints a pod declares
  (\<^verbatim>\<open>plugins/terminal/src/pod/endpoints.ts\<close>), the merged list of connections and
  the selection among them (\<^verbatim>\<open>transport.tsx\<close>, \<^verbatim>\<open>PodTerminalTab.tsx\<close>) and the key
  events that type a text into a session (\<^verbatim>\<open>typeText.ts\<close>).
\<close>

section \<open>Endpoints of a pod\<close>

definition VNC_ENABLED_LABEL :: jsstring where
  "VNC_ENABLED_LABEL = lit ''vnc.container.kubernetes.io/enabled''"
definition VNC_ENDPOINTS_ANNOTATION :: jsstring where
  "VNC_ENDPOINTS_ANNOTATION = lit ''vnc.container.kubernetes.io/endpoints''"
definition DEFAULT_VNC_PORT :: nat where "DEFAULT_VNC_PORT = 5900"
definition DEFAULT_SECRET_KEY :: jsstring where "DEFAULT_SECRET_KEY = lit ''password''"
definition MAX_PORT :: nat where "MAX_PORT = 65535"

text \<open>The subset of a Pod the plugin reads; an absent map is the empty one.\<close>

record pod_kind =
  pod_name :: "jsstring option"
  pod_namespace :: "jsstring option"
  pod_labels :: "jsstring \<rightharpoonup> jsstring"
  pod_annotations :: "jsstring \<rightharpoonup> jsstring"
  pod_containers :: "jsstring list"
  pod_os :: "jsstring option"

datatype vnc_auth = Password jsstring | SecretRef jsstring "jsstring option"

record vnc_endpoint =
  ep_port :: nat
  ep_auth :: "vnc_auth option"
  ep_label :: "jsstring option"
  ep_priority :: "jsnum option"

definition isVncPod :: "pod_kind \<Rightarrow> bool" where
  "isVncPod obj \<longleftrightarrow> pod_labels obj VNC_ENABLED_LABEL = Some (lit ''true'')"

definition port_number :: "jsnum \<Rightarrow> nat option" where
  "port_number n =
     (case num_integer n of
        Some i \<Rightarrow> if 1 \<le> i \<and> i \<le> int MAX_PORT then Some (nat i) else None
      | None \<Rightarrow> None)"

definition parsePort :: "jsval \<Rightarrow> nat option" where
  "parsePort raw =
     (case raw of
        JUndef \<Rightarrow> Some DEFAULT_VNC_PORT
      | JNum n \<Rightarrow> port_number n
      | JStr s \<Rightarrow> if all_digits s then port_number (to_number s) else None
      | _ \<Rightarrow> None)"

definition parsePriority :: "jsval \<Rightarrow> jsnum option" where
  "parsePriority raw = (case raw of JNum n \<Rightarrow> if is_finite n then Some n else None | _ \<Rightarrow> None)"

fun nonempty_string :: "jsval \<Rightarrow> jsstring option" where
  "nonempty_string (JStr s) = (if s = [] then None else Some s)"
| "nonempty_string _ = None"

definition parseAuth :: "jsval \<Rightarrow> vnc_auth option" where
  "parseAuth raw =
     (if \<not> is_object raw then None
      else case nonempty_string (get_prop raw (lit ''password'')) of
        Some p \<Rightarrow> Some (Password p)
      | None \<Rightarrow>
          (let secretRef = get_prop raw (lit ''secretRef'')
           in if \<not> is_object secretRef then None
              else case nonempty_string (get_prop secretRef (lit ''name'')) of
                Some name \<Rightarrow> Some (SecretRef name (nonempty_string (get_prop secretRef (lit ''key''))))
              | None \<Rightarrow> None))"

record vnc_connection = vnc_endpoint +
  containerName :: jsstring

text \<open>One entry of the annotation, before ports are claimed; \<open>None\<close> is an entry that is dropped.\<close>

definition entry_connection :: "jsstring list \<Rightarrow> jsval \<Rightarrow> vnc_connection option" where
  "entry_connection containerNames rawEntry =
     (if \<not> is_object rawEntry then None
      else case get_prop rawEntry (lit ''container'') of
        JStr c \<Rightarrow>
          (if c \<notin> set containerNames then None
           else case parsePort (get_prop rawEntry (lit ''port'')) of
             None \<Rightarrow> None
           | Some p \<Rightarrow> Some \<lparr>ep_port = p, ep_auth = parseAuth (get_prop rawEntry (lit ''auth'')),
               ep_label = nonempty_string (get_prop rawEntry (lit ''label'')),
               ep_priority = parsePriority (get_prop rawEntry (lit ''priority'')), containerName = c\<rparr>)
      | _ \<Rightarrow> None)"

text \<open>The loop over the entries, with the set of ports claimed so far.\<close>

fun claim_entries :: "jsstring list \<Rightarrow> nat set \<Rightarrow> jsval list \<Rightarrow> vnc_connection list" where
  "claim_entries names claimed [] = []"
| "claim_entries names claimed (raw # entries) =
     (case entry_connection names raw of
        None \<Rightarrow> claim_entries names claimed entries
      | Some c \<Rightarrow>
          if ep_port c \<in> claimed then claim_entries names claimed entries
          else c # claim_entries names (insert (ep_port c) claimed) entries)"

definition vncConnections :: "pod_kind \<Rightarrow> vnc_connection list" where
  "vncConnections obj =
     (if \<not> isVncPod obj then []
      else case map_option trim (pod_annotations obj VNC_ENDPOINTS_ANNOTATION) of
        Some (c # cs) \<Rightarrow>
          (case json_parse (c # cs) of
             Some (JArr entries) \<Rightarrow> claim_entries (pod_containers obj) {} entries
           | _ \<Rightarrow> [])
      | _ \<Rightarrow>
          (case pod_containers obj of
             [] \<Rightarrow> []
           | n # ns \<Rightarrow> [\<lparr>ep_port = DEFAULT_VNC_PORT, ep_auth = None, ep_label = None, ep_priority = None,
                       containerName = n\<rparr>]))"

text \<open>
  Grouping by container in a plain object: \<^verbatim>\<open>endpoints[name] ??= []\<close> finds the members every object
  inherits, and \<^verbatim>\<open>push\<close> on one of those is a TypeError.
\<close>

definition endpoint_of :: "vnc_connection \<Rightarrow> vnc_endpoint" where
  "endpoint_of c = \<lparr>ep_port = ep_port c, ep_auth = ep_auth c, ep_label = ep_label c, ep_priority = ep_priority c\<rparr>"

fun group_push :: "jsstring \<Rightarrow> 'a \<Rightarrow> (jsstring \<times> 'a list) list \<Rightarrow> (jsstring \<times> 'a list) list" where
  "group_push k v [] = [(k, [v])]"
| "group_push k v ((k', vs) # gs) = (if k = k' then (k, vs @ [v]) # gs else (k', vs) # group_push k v gs)"

fun group_connections :: "vnc_connection list \<Rightarrow> (jsstring \<times> vnc_endpoint list) list \<Rightarrow>
    (jsstring \<times> vnc_endpoint list) list option" where
  "group_connections [] endpoints = Some endpoints"
| "group_connections (c # cs) endpoints =
     (if map_of endpoints (containerName c) = None \<and> object_inherited (containerName c) \<noteq> None then None
      else group_connections cs (group_push (containerName c) (endpoint_of c) endpoints))"

definition vncEndpoints :: "pod_kind \<Rightarrow> (jsstring \<times> vnc_endpoint list) list option" where
  "vncEndpoints obj = group_connections (vncConnections obj) []"

datatype container_endpoints = Endpoints "vnc_endpoint list" | InheritedMember | PushFails

definition vncEndpointsForContainer :: "pod_kind \<Rightarrow> jsstring \<Rightarrow> container_endpoints" where
  "vncEndpointsForContainer obj name =
     (case vncEndpoints obj of
        None \<Rightarrow> PushFails
      | Some endpoints \<Rightarrow>
          (case map_of endpoints name of
             Some es \<Rightarrow> Endpoints es
           | None \<Rightarrow> if object_inherited name \<noteq> None then InheritedMember else Endpoints []))"

section \<open>The list of connections and the selection\<close>

record vnc_option =
  opt_id :: jsstring
  opt_container :: jsstring
  opt_label :: jsstring
  opt_priority :: "jsnum option"

definition listVncConnections :: "pod_kind \<Rightarrow> vnc_option list" where
  "listVncConnections obj =
     map (\<lambda>c. \<lparr>opt_id = show_nat (ep_port c), opt_container = containerName c,
       opt_label = (case ep_label c of Some l \<Rightarrow> l | None \<Rightarrow> lit ''VNC ('' @ containerName c @ lit '')''),
       opt_priority = ep_priority c\<rparr>) (vncConnections obj)"

text \<open>
  \<^verbatim>\<open>sortByPriority\<close>: items paired with their index, sorted by the comparator. The language
  specifies the result of \<^verbatim>\<open>sort\<close> by the order the comparator induces; insertion computes it.
\<close>

fun num_value :: "jsnum \<Rightarrow> rat" where
  "num_value (Dec m e) = (if e \<ge> 0 then of_int m * 10 ^ nat e else of_int m / 10 ^ nat (- e))"
| "num_value _ = 0"

definition priority_before :: "(jsnum option \<times> nat) \<Rightarrow> (jsnum option \<times> nat) \<Rightarrow> bool" where
  "priority_before a b =
     (case (fst a, fst b) of
        (Some p, Some q) \<Rightarrow> if num_value p \<noteq> num_value q then num_value p < num_value q else snd a \<le> snd b
      | (Some p, None) \<Rightarrow> True
      | (None, Some q) \<Rightarrow> False
      | (None, None) \<Rightarrow> snd a \<le> snd b)"

definition sortByPriority :: "('a \<Rightarrow> jsnum option) \<Rightarrow> 'a list \<Rightarrow> 'a list" where
  "sortByPriority priority items =
     map fst (sort_by (\<lambda>a b. priority_before (priority (fst a), snd a) (priority (fst b), snd b))
       (zip items [0 ..< length items]))"

record entry =
  entry_value :: jsstring
  entry_label :: jsstring
  entry_container :: jsstring
  connectionId :: "jsstring option"

definition vncEntries :: "pod_kind \<Rightarrow> entry list" where
  "vncEntries obj =
     map (\<lambda>c. \<lparr>entry_value = lit ''vnc:'' @ opt_id c, entry_label = opt_label c,
       entry_container = opt_container c, connectionId = Some (opt_id c)\<rparr>)
       (sortByPriority opt_priority (listVncConnections obj))"

definition terminalEntries :: "pod_kind \<Rightarrow> entry list" where
  "terminalEntries obj =
     map (\<lambda>n. \<lparr>entry_value = lit ''terminal:'' @ n, entry_label = n, entry_container = n, connectionId = None\<rparr>)
       (pod_containers obj)"

definition allEntries :: "pod_kind \<Rightarrow> entry list" where
  "allEntries obj = vncEntries obj @ terminalEntries obj"

definition preferredContainerName :: "pod_kind \<Rightarrow> jsstring option" where
  "preferredContainerName obj = pod_annotations obj (lit ''kubectl.kubernetes.io/default-container'')"

definition first_entry :: "entry list \<Rightarrow> entry option" where
  "first_entry es = (case es of [] \<Rightarrow> None | e # _ \<Rightarrow> Some e)"

text \<open>An empty string is falsy, so it neither selects nor prefers.\<close>

definition activeEntry :: "pod_kind \<Rightarrow> jsstring option \<Rightarrow> entry option" where
  "activeEntry obj selectedValue =
     (let es = allEntries obj;
          selected = (case selectedValue of
              Some (c # cs) \<Rightarrow> find (\<lambda>e. entry_value e = c # cs) es
            | _ \<Rightarrow> None)
      in case selected of
           Some e \<Rightarrow> Some e
         | None \<Rightarrow>
             (case preferredContainerName obj of
                Some (c # cs) \<Rightarrow>
                  (case find (\<lambda>e. entry_container e = c # cs) es of Some e \<Rightarrow> Some e | None \<Rightarrow> first_entry es)
              | _ \<Rightarrow> first_entry es))"

text \<open>The endpoint \<^verbatim>\<open>VncPodConsole\<close> connects to.\<close>

definition selected_endpoint :: "vnc_endpoint list \<Rightarrow> jsstring \<Rightarrow> vnc_endpoint option" where
  "selected_endpoint endpoints cid =
     (case if cid = [] then None else find (\<lambda>e. show_nat (ep_port e) = cid) endpoints of
        Some e \<Rightarrow> Some e
      | None \<Rightarrow> (case endpoints of [] \<Rightarrow> None | e # _ \<Rightarrow> Some e))"

section \<open>Properties of the endpoints\<close>

definition candidates :: "jsstring list \<Rightarrow> jsval list \<Rightarrow> vnc_connection list" where
  "candidates names entries = List.map_filter (entry_connection names) entries"

lemma candidates_simps [simp]:
  "candidates names [] = []"
  "candidates names (raw # entries) =
     (case entry_connection names raw of None \<Rightarrow> [] | Some c \<Rightarrow> [c]) @ candidates names entries"
  by (simp_all add: candidates_def map_filter_def split: option.splits)

lemma port_number_range: "port_number n = Some p \<Longrightarrow> 1 \<le> p \<and> p \<le> MAX_PORT"
  by (auto simp: port_number_def split: option.splits if_splits)

lemma parsePort_range: "parsePort raw = Some p \<Longrightarrow> 1 \<le> p \<and> p \<le> MAX_PORT"
  using port_number_range
  by (auto simp: parsePort_def DEFAULT_VNC_PORT_def MAX_PORT_def split: jsval.splits if_splits)

lemma entry_connection_ok:
  "entry_connection names raw = Some c \<Longrightarrow> 1 \<le> ep_port c \<and> ep_port c \<le> MAX_PORT \<and> containerName c \<in> set names"
  using parsePort_range by (fastforce simp: entry_connection_def split: if_splits jsval.splits option.splits)

lemma claim_entries_ports:
  "distinct (map ep_port (claim_entries names claimed entries)) \<and>
   (\<forall>c \<in> set (claim_entries names claimed entries).
      ep_port c \<notin> claimed \<and> 1 \<le> ep_port c \<and> ep_port c \<le> MAX_PORT \<and> containerName c \<in> set names)"
proof (induction entries arbitrary: claimed)
  case (Cons raw entries)
  show ?case
  proof (cases "entry_connection names raw")
    case None
    then show ?thesis using Cons by simp
  next
    case (Some c)
    then show ?thesis
      using Cons [of claimed] Cons [of "insert (ep_port c) claimed"] entry_connection_ok [OF Some] by auto
  qed
qed simp

lemma claim_entries_find:
  "p \<notin> claimed \<Longrightarrow>
   find (\<lambda>c. ep_port c = p) (claim_entries names claimed entries) = find (\<lambda>c. ep_port c = p) (candidates names entries)"
  by (induction entries arbitrary: claimed) (auto split: option.splits)

lemma claim_entries_subseq: "subseq (claim_entries names claimed entries) (candidates names entries)"
  by (induction entries arbitrary: claimed) (auto split: option.splits)

lemma vncConnections_cases:
  obtains entries where "vncConnections obj = claim_entries (pod_containers obj) {} entries"
  | n ns where "pod_containers obj = n # ns" "vncConnections obj =
      [\<lparr>ep_port = DEFAULT_VNC_PORT, ep_auth = None, ep_label = None, ep_priority = None, containerName = n\<rparr>]"
proof -
  let ?d = "\<lambda>n. [\<lparr>ep_port = DEFAULT_VNC_PORT, ep_auth = None, ep_label = None, ep_priority = None, containerName = n\<rparr>]"
  have "(\<exists>entries. vncConnections obj = claim_entries (pod_containers obj) {} entries) \<or>
        (\<exists>n ns. pod_containers obj = n # ns \<and> vncConnections obj = ?d n)"
  proof (cases "vncConnections obj = []")
    case True
    then have "vncConnections obj = claim_entries (pod_containers obj) {} []" by simp
    then show ?thesis by blast
  next
    case False
    then show ?thesis
      unfolding vncConnections_def by (auto split: if_splits option.splits list.splits jsval.splits)
  qed
  then show thesis using that by blast
qed

lemma vncConnections_ok:
  "distinct (map ep_port (vncConnections obj)) \<and>
   list_all (\<lambda>c. 1 \<le> ep_port c \<and> ep_port c \<le> MAX_PORT \<and> containerName c \<in> set (pod_containers obj)) (vncConnections obj)"
proof (cases rule: vncConnections_cases [of obj])
  case (1 entries)
  then show ?thesis using claim_entries_ports [of "pod_containers obj" "{}" entries] by (auto simp: list_all_iff)
qed (simp add: MAX_PORT_def DEFAULT_VNC_PORT_def)

text \<open>Whatever the annotation says, the connections of a pod are usable targets: every port is a TCP port,
  no two connections share one (the containers share the network namespace), and every connection names a
  container of the pod.\<close>

theorem vncConnections_wf:
  "distinct (map ep_port (vncConnections obj)) \<and>
   list_all (\<lambda>c. 1 \<le> ep_port c \<and> ep_port c \<le> 65535 \<and> containerName c \<in> set (pod_containers obj)) (vncConnections obj)"
  using vncConnections_ok [of obj] by (simp add: MAX_PORT_def)

text \<open>A port belongs to the first entry of the annotation that validly claims it: the connections are the
  valid entries in annotation order, without those whose port an earlier valid entry has.\<close>

theorem vncConnections_first_claim:
  assumes "isVncPod obj" "pod_annotations obj VNC_ENDPOINTS_ANNOTATION = Some a" "trim a \<noteq> []"
    and "json_parse (trim a) = Some (JArr entries)"
  shows "find (\<lambda>c. ep_port c = p) (vncConnections obj) =
           find (\<lambda>c. ep_port c = p) (candidates (pod_containers obj) entries) \<and>
         subseq (vncConnections obj) (candidates (pod_containers obj) entries)"
proof -
  have "vncConnections obj = claim_entries (pod_containers obj) {} entries"
    using assms by (auto simp: vncConnections_def split: list.splits)
  then show ?thesis using claim_entries_find [of p "{}"] claim_entries_subseq by simp
qed

lemma group_push_map_of:
  "map_of (group_push k v gs) k' =
     (if k' = k then Some ((case map_of gs k of None \<Rightarrow> [] | Some vs \<Rightarrow> vs) @ [v]) else map_of gs k')"
  by (induction gs) (auto split: option.splits)

lemma group_connections_lookup:
  "(\<forall>c \<in> set cs. object_inherited (containerName c) = None) \<Longrightarrow>
   \<exists>gs'. group_connections cs gs = Some gs' \<and>
     (case map_of gs' k of None \<Rightarrow> [] | Some es \<Rightarrow> es) =
       (case map_of gs k of None \<Rightarrow> [] | Some es \<Rightarrow> es) @ map endpoint_of (filter (\<lambda>c. containerName c = k) cs)"
proof (induction cs arbitrary: gs)
  case (Cons c cs)
  from Cons.IH [of "group_push (containerName c) (endpoint_of c) gs"] Cons.prems
  show ?case by (auto simp: group_push_map_of split: option.splits)
qed simp

lemma group_connections_fails:
  "map_of gs k = None \<Longrightarrow> object_inherited k \<noteq> None \<Longrightarrow> k \<in> containerName ` set cs \<Longrightarrow> group_connections cs gs = None"
proof (induction cs arbitrary: gs)
  case (Cons c cs)
  show ?case
  proof (cases "containerName c = k")
    case False
    then have "group_connections cs (group_push (containerName c) (endpoint_of c) gs) = None"
      using Cons.prems by (intro Cons.IH) (auto simp: group_push_map_of)
    then show ?thesis by simp
  qed (use Cons.prems in simp)
qed simp

lemma vncEndpointsForContainer_filter:
  assumes "list_all (\<lambda>n. object_inherited n = None) (name # pod_containers obj)"
  shows "vncEndpointsForContainer obj name =
    Endpoints (map endpoint_of (filter (\<lambda>c. containerName c = name) (vncConnections obj)))"
proof -
  have "\<forall>c \<in> set (vncConnections obj). object_inherited (containerName c) = None"
    using assms vncConnections_ok [of obj] by (auto simp: list_all_iff)
  from group_connections_lookup [OF this, of "[]" name] show ?thesis
    using assms by (auto simp: vncEndpointsForContainer_def vncEndpoints_def split: option.splits)
qed

text \<open>Looking up a container's endpoints returns exactly that container's connections, in annotation order,
  provided no container of the pod has the name of a member every object inherits; a connection of a container
  named so (\<^verbatim>\<open>constructor\<close> is a legal container name) makes the grouping throw.\<close>

theorem vncEndpointsForContainer_spec:
  "(list_all (\<lambda>n. object_inherited n = None) (name # pod_containers obj) \<longrightarrow>
      vncEndpointsForContainer obj name =
        Endpoints (map endpoint_of (filter (\<lambda>c. containerName c = name) (vncConnections obj)))) \<and>
   ((\<exists>c \<in> set (vncConnections obj). object_inherited (containerName c) \<noteq> None) \<longrightarrow>
      vncEndpointsForContainer obj name = PushFails)"
proof (intro conjI impI)
  assume "\<exists>c \<in> set (vncConnections obj). object_inherited (containerName c) \<noteq> None"
  then have "group_connections (vncConnections obj) [] = None"
    using group_connections_fails [of "[]" _ "vncConnections obj"] by auto
  then show "vncEndpointsForContainer obj name = PushFails"
    by (simp add: vncEndpointsForContainer_def vncEndpoints_def)
qed (rule vncEndpointsForContainer_filter)

section \<open>Properties of the selection\<close>

lemma map_insort_key: "map g (insort_key (\<lambda>x. f (g x)) x ys) = insort_key f (g x) (map g ys)"
  by (induction ys) auto

lemma map_sort_key: "map g (sort_key (\<lambda>x. f (g x)) xs) = sort_key f (map g xs)"
  by (induction xs) (simp_all add: map_insort_key)

text \<open>The rank of an item: those with a priority first, by its value.\<close>

definition priority_rank :: "jsnum option \<Rightarrow> bool \<times> rat" where
  "priority_rank p = (case p of None \<Rightarrow> (True, 0) | Some n \<Rightarrow> (False, num_value n))"

lemma priority_before_rank:
  "i \<le> j \<Longrightarrow> priority_before (p, i) (q, j) \<longleftrightarrow> priority_rank p \<le> priority_rank q"
  by (auto simp: priority_before_def priority_rank_def less_eq_prod_def split: option.splits)

lemma sortByPriority_rank: "sortByPriority priority items = sort_key (\<lambda>x. priority_rank (priority x)) items"
proof -
  let ?le = "\<lambda>a b. priority_before (priority (fst a), snd a) (priority (fst b), snd b)"
  let ?z = "zip items [0 ..< length items]"
  have "sorted_wrt (\<lambda>a b. ?le a b \<longleftrightarrow> priority_rank (priority (fst a)) \<le> priority_rank (priority (fst b))) ?z"
    by (simp add: sorted_wrt_iff_nth_less priority_before_rank)
  then have "sortByPriority priority items = map fst (sort_key (\<lambda>a. priority_rank (priority (fst a))) ?z)"
    unfolding sortByPriority_def by (subst sort_by_key) simp_all
  also have "\<dots> = sort_key (\<lambda>x. priority_rank (priority x)) (map fst ?z)"
    by (rule map_sort_key)
  finally show ?thesis by simp
qed

text \<open>The sort of the connections is the stable sort by priority: ascending by value, items without one
  last, and items that tie keep their order; nothing is lost or repeated.\<close>

theorem sortByPriority_stable:
  "sorted (map (\<lambda>x. priority_rank (priority x)) (sortByPriority priority items)) \<and>
   mset (sortByPriority priority items) = mset items \<and>
   filter (\<lambda>x. priority_rank (priority x) = r) (sortByPriority priority items) =
     filter (\<lambda>x. priority_rank (priority x) = r) items"
  by (simp add: sortByPriority_rank filter_insort_triv sort_key_stable)

lemma sortByPriority_set [simp]: "set (sortByPriority priority items) = set items"
  by (simp add: sortByPriority_rank)

lemma sortByPriority_distinct: "distinct (map f items) \<Longrightarrow> distinct (map f (sortByPriority priority items))"
  by (metis distinct_map distinct_sort set_sort sortByPriority_rank)

lemma ep_port_endpoint_of: "ep_port (endpoint_of c) = ep_port c"
  by (simp add: endpoint_of_def)

lemma entry_values_distinct:
  assumes "distinct (pod_containers obj)"
  shows "distinct (map entry_value (allEntries obj))"
proof -
  have "distinct (map opt_id (listVncConnections obj))"
    using vncConnections_ok [of obj] by (auto simp: listVncConnections_def distinct_map inj_on_def show_nat_inj)
  from sortByPriority_distinct [OF this, of opt_priority]
  have "distinct (map entry_value (vncEntries obj))"
    by (auto simp: vncEntries_def distinct_map inj_on_def)
  moreover have "distinct (map entry_value (terminalEntries obj))"
    using assms by (auto simp: terminalEntries_def distinct_map inj_on_def)
  ultimately show ?thesis
    by (auto simp: allEntries_def vncEntries_def terminalEntries_def)
qed

text \<open>Every entry of the merged dropdown can be chosen: the entries' values are distinct, so choosing one makes
  it the active entry; and a VNC entry leads to the endpoint it was made from: among its container's endpoints the
  console selects the one with the entry's port.\<close>

theorem chosen_entry_is_active:
  assumes "distinct (pod_containers obj)" "list_all (\<lambda>n. object_inherited n = None) (pod_containers obj)"
    and "e \<in> set (allEntries obj)"
  shows "activeEntry obj (Some (entry_value e)) = Some e \<and>
    (\<forall>cid. connectionId e = Some cid \<longrightarrow>
      (\<exists>es ep. vncEndpointsForContainer obj (entry_container e) = Endpoints es \<and>
         selected_endpoint es cid = Some ep \<and> ep \<in> set es \<and> show_nat (ep_port ep) = cid))"
proof (intro conjI allI impI)
  have "entry_value e \<noteq> []" using assms(3) by (auto simp: allEntries_def vncEntries_def terminalEntries_def)
  then show "activeEntry obj (Some (entry_value e)) = Some e"
    using find_distinct [OF entry_values_distinct [OF assms(1)] assms(3)]
    by (auto simp: activeEntry_def Let_def split: list.splits)
next
  fix cid assume cid: "connectionId e = Some cid"
  then obtain c where c: "c \<in> set (vncConnections obj)" "entry_container e = containerName c" "cid = show_nat (ep_port c)"
    using assms(3) by (auto simp: allEntries_def vncEntries_def terminalEntries_def listVncConnections_def)
  let ?es = "map endpoint_of (filter (\<lambda>d. containerName d = containerName c) (vncConnections obj))"
  have "containerName c \<in> set (pod_containers obj)" using c vncConnections_ok [of obj] by (auto simp: list_all_iff)
  then have "vncEndpointsForContainer obj (entry_container e) = Endpoints ?es"
    using assms(2) c by (simp add: vncEndpointsForContainer_filter list_all_iff)
  moreover
  have same: "endpoint_of d = endpoint_of c" if "d \<in> set (vncConnections obj)" "ep_port d = ep_port c" for d
    using that c(1) vncConnections_ok [of obj] by (auto simp: distinct_map inj_on_def)
  have "find (\<lambda>e. show_nat (ep_port e) = cid) ?es = Some (endpoint_of c)"
  proof (rule find_unique)
    fix y assume "y \<in> set ?es" "show_nat (ep_port y) = cid"
    then obtain d where "d \<in> set (vncConnections obj)" "y = endpoint_of d" "ep_port d = ep_port c"
      using c(3) by (auto simp: show_nat_inj ep_port_endpoint_of)
    then show "y = endpoint_of c" using same by blast
  qed (use c in \<open>auto simp: ep_port_endpoint_of\<close>)
  then have "selected_endpoint ?es cid = Some (endpoint_of c)"
    using c(3) show_nat_digits [of "ep_port c"] by (simp add: selected_endpoint_def all_digits_def)
  moreover have "endpoint_of c \<in> set ?es" "show_nat (ep_port (endpoint_of c)) = cid"
    using c by (auto simp: ep_port_endpoint_of)
  ultimately show "\<exists>es ep. vncEndpointsForContainer obj (entry_container e) = Endpoints es \<and>
      selected_endpoint es cid = Some ep \<and> ep \<in> set es \<and> show_nat (ep_port ep) = cid"
    by blast
qed

subsection \<open>Sample pods\<close>

definition two_claims :: jsstring where
  "two_claims = lit ''[{\"container\":\"a\",\"port\":1},{\"container\":\"b\",\"port\":1}]''"

definition claim :: "jsstring \<Rightarrow> jsval" where
  "claim n = JObj [(lit ''container'', JStr n), (lit ''port'', JNum (Dec 1 0))]"

lemma two_claims_json:
  "trim two_claims \<noteq> []" "json_parse (trim two_claims) = Some (JArr [claim (lit ''a''), claim (lit ''b'')])"
  by code_simp+

definition sample_pod :: "jsstring list \<Rightarrow> jsstring option \<Rightarrow> pod_kind" where
  "sample_pod names a = \<lparr>pod_name = Some (lit ''p''), pod_namespace = Some (lit ''n''),
     pod_labels = [VNC_ENABLED_LABEL \<mapsto> lit ''true''],
     pod_annotations = (\<lambda>k. if k = VNC_ENDPOINTS_ANNOTATION then a else None), pod_containers = names, pod_os = None\<rparr>"

lemma sample_pod_simps [simp]:
  "isVncPod (sample_pod names a)" "pod_containers (sample_pod names a) = names"
  "pod_annotations (sample_pod names a) VNC_ENDPOINTS_ANNOTATION = a"
  by (simp_all add: sample_pod_def isVncPod_def)

lemma sample_default:
  "vncConnections (sample_pod (n # ns) None) =
     [\<lparr>ep_port = 5900, ep_auth = None, ep_label = None, ep_priority = None, containerName = n\<rparr>]"
  by (simp add: vncConnections_def DEFAULT_VNC_PORT_def)

lemma vncConnections_first_claim_witness:
  "find (\<lambda>c. ep_port c = 1) (vncConnections (sample_pod [lit ''a'', lit ''b''] (Some two_claims))) =
     find (\<lambda>c. ep_port c = 1) (candidates [lit ''a'', lit ''b''] [claim (lit ''a''), claim (lit ''b'')]) \<and>
   subseq (vncConnections (sample_pod [lit ''a'', lit ''b''] (Some two_claims)))
     (candidates [lit ''a'', lit ''b''] [claim (lit ''a''), claim (lit ''b'')])"
  using vncConnections_first_claim [OF sample_pod_simps(1) sample_pod_simps(3) two_claims_json] unfolding sample_pod_simps .

lemma inherited_names:
  "object_inherited (lit ''a'') = None" "object_inherited (lit ''constructor'') \<noteq> None"
  by code_simp+

lemma vncEndpointsForContainer_spec_witness:
  "vncEndpointsForContainer (sample_pod [lit ''a''] None) (lit ''a'') =
     Endpoints (map endpoint_of (filter (\<lambda>c. containerName c = lit ''a'') (vncConnections (sample_pod [lit ''a''] None)))) \<and>
   vncEndpointsForContainer (sample_pod [lit ''constructor''] None) (lit ''a'') = PushFails"
  using vncEndpointsForContainer_spec [of "lit ''a''" "sample_pod [lit ''a''] None"]
    vncEndpointsForContainer_spec [of "lit ''a''" "sample_pod [lit ''constructor''] None"] inherited_names
  by (simp add: sample_default del: lit_Cons)

lemma chosen_entry_is_active_witness:
  "activeEntry (sample_pod [lit ''a''] None) (Some (entry_value (hd (allEntries (sample_pod [lit ''a''] None))))) =
     Some (hd (allEntries (sample_pod [lit ''a''] None)))"
proof -
  have "allEntries (sample_pod [lit ''a''] None) \<noteq> []"
    by (simp add: allEntries_def terminalEntries_def)
  then show ?thesis
    using chosen_entry_is_active [of "sample_pod [lit ''a''] None" "hd (allEntries (sample_pod [lit ''a''] None))"]
      inherited_names by (simp del: lit_Cons)
qed

end
