(* ===== verification/Term_Typing.thy ===== *)
theory Term_Typing
  imports Prelude
begin

text \<open>
  Typing a text into a VNC session, \<^verbatim>\<open>plugins/terminal/src/pod/typeText.ts\<close>: the key
  events sent for each character of a text on a US keyboard.

  The keysym tables of noVNC are not part of the repository: they are a parameter, the record
  \<open>keysyms\<close>. So is the session's \<^verbatim>\<open>sendKey\<close>, which may throw: \<open>fails sent ev\<close> tells whether
  it throws on \<open>ev\<close> after the events \<open>sent\<close>. The pauses between events do not change the sequence.
\<close>

section \<open>The keyboard\<close>

record keysyms =
  XK_Return :: nat
  XK_Tab :: nat
  XK_Shift_L :: nat
  keysym_lookup :: "nat \<Rightarrow> nat"

definition KEY_EVENT_GAP_MS :: nat where "KEY_EVENT_GAP_MS = 10"
definition CHAR_GAP_MS :: nat where "CHAR_GAP_MS = 25"

record us_key =
  code :: jsstring
  shift :: bool

definition unshifted :: "jsstring \<Rightarrow> us_key" where "unshifted c = \<lparr>code = c, shift = False\<rparr>"
definition shifted :: "jsstring \<Rightarrow> us_key" where "shifted c = \<lparr>code = c, shift = True\<rparr>"

text \<open>The spread order of the source: punctuation, then digits with their symbols, then letters.\<close>

definition punctuation_keys :: "(nat \<times> us_key) list" where
  "punctuation_keys =
    [(32, unshifted (lit ''Space'')),
     (96, unshifted (lit ''Backquote'')), (126, shifted (lit ''Backquote'')),
     (45, unshifted (lit ''Minus'')), (95, shifted (lit ''Minus'')),
     (61, unshifted (lit ''Equal'')), (43, shifted (lit ''Equal'')),
     (91, unshifted (lit ''BracketLeft'')), (123, shifted (lit ''BracketLeft'')),
     (93, unshifted (lit ''BracketRight'')), (125, shifted (lit ''BracketRight'')),
     (92, unshifted (lit ''Backslash'')), (124, shifted (lit ''Backslash'')),
     (59, unshifted (lit ''Semicolon'')), (58, shifted (lit ''Semicolon'')),
     (39, unshifted (lit ''Quote'')), (34, shifted (lit ''Quote'')),
     (44, unshifted (lit ''Comma'')), (60, shifted (lit ''Comma'')),
     (46, unshifted (lit ''Period'')), (62, shifted (lit ''Period'')),
     (47, unshifted (lit ''Slash'')), (63, shifted (lit ''Slash''))]"

definition digit_keys :: "(nat \<times> us_key) list" where
  "digit_keys = concat (map (\<lambda>(symbol, digit).
       [(48 + digit, unshifted (lit ''Digit'' @ show_nat digit)), (symbol, shifted (lit ''Digit'' @ show_nat digit))])
     (zip (lit '')!@#$%^&*('') [0 ..< 10]))"

definition letter_keys :: "(nat \<times> us_key) list" where
  "letter_keys = concat (map (\<lambda>letter.
       [(letter, unshifted (lit ''Key'' @ [letter - 32])), (letter - 32, shifted (lit ''Key'' @ [letter - 32]))])
     (lit ''abcdefghijklmnopqrstuvwxyz''))"

definition US_LAYOUT :: "(nat \<times> us_key) list" where
  "US_LAYOUT = punctuation_keys @ digit_keys @ letter_keys"

definition CONTROL_KEYS :: "keysyms \<Rightarrow> nat \<Rightarrow> (nat \<times> jsstring) option" where
  "CONTROL_KEYS ks ch =
     (if ch = 10 then Some (XK_Return ks, lit ''Enter'')
      else if ch = 9 then Some (XK_Tab ks, lit ''Tab'') else None)"

section \<open>The events of a text\<close>

record key_event =
  keysym :: nat
  key_code :: jsstring
  down :: bool

text \<open>\<^verbatim>\<open>text.replace(/\r\n?/g, '\n')\<close>.\<close>

fun normalize_breaks :: "jsstring \<Rightarrow> jsstring" where
  "normalize_breaks [] = []"
| "normalize_breaks [c] = [if c = 13 then 10 else c]"
| "normalize_breaks (c # d # s) =
     (if c = 13 \<and> d = 10 then 10 # normalize_breaks s
      else (if c = 13 then 10 else c) # normalize_breaks (d # s))"

text \<open>The characters a \<^verbatim>\<open>for ... of\<close> visits: code points, a lone surrogate as itself.\<close>

fun string_chars :: "jsstring \<Rightarrow> nat list" where
  "string_chars (c # d # s) =
     (if 0xD800 \<le> c \<and> c \<le> 0xDBFF \<and> 0xDC00 \<le> d \<and> d \<le> 0xDFFF
      then (0x10000 + (c - 0xD800) * 0x400 + (d - 0xDC00)) # string_chars s
      else c # string_chars (d # s))"
| "string_chars s = s"

definition shift_event :: "keysyms \<Rightarrow> bool \<Rightarrow> key_event" where
  "shift_event ks d = \<lparr>keysym = XK_Shift_L ks, key_code = lit ''ShiftLeft'', down = d\<rparr>"

text \<open>One \<^verbatim>\<open>sendKey\<close>: the events sent so far with the new one, or the exception.\<close>

type_synonym sender = "key_event list \<Rightarrow> key_event \<Rightarrow> bool"

definition sendKey :: "sender \<Rightarrow> key_event \<Rightarrow> key_event list \<Rightarrow> key_event list \<times> bool" where
  "sendKey fails ev sent = (if fails sent ev then (sent, False) else (sent @ [ev], True))"

definition char_key :: "keysyms \<Rightarrow> nat \<Rightarrow> bool \<Rightarrow> key_event" where
  "char_key ks ch d =
     (let control = CONTROL_KEYS ks ch; key = map_of US_LAYOUT ch
      in \<lparr>keysym = (case control of Some (k, _) \<Rightarrow> k | None \<Rightarrow> keysym_lookup ks ch),
          key_code = (case control of Some (_, c) \<Rightarrow> c | None \<Rightarrow> (case key of Some k \<Rightarrow> code k | None \<Rightarrow> [])),
          down = d\<rparr>)"

definition needs_shift :: "nat \<Rightarrow> bool" where
  "needs_shift ch = (case map_of US_LAYOUT ch of Some k \<Rightarrow> shift k | None \<Rightarrow> False)"

text \<open>The body of the loop: Shift pressed, the key pressed and released, Shift released in \<^verbatim>\<open>finally\<close>.\<close>

definition press_release :: "keysyms \<Rightarrow> sender \<Rightarrow> nat \<Rightarrow> key_event list \<Rightarrow> key_event list \<times> bool" where
  "press_release ks fails ch sent =
     (case sendKey fails (char_key ks ch True) sent of
        (sent', True) \<Rightarrow> sendKey fails (char_key ks ch False) sent'
      | (sent', False) \<Rightarrow> (sent', False))"

definition type_char :: "keysyms \<Rightarrow> sender \<Rightarrow> nat \<Rightarrow> key_event list \<Rightarrow> key_event list \<times> bool" where
  "type_char ks fails ch sent =
     (if needs_shift ch then
        (case sendKey fails (shift_event ks True) sent of
           (sent1, False) \<Rightarrow> (sent1, False)
         | (sent1, True) \<Rightarrow>
             (case press_release ks fails ch sent1 of
                (sent2, ok) \<Rightarrow>
                  (case sendKey fails (shift_event ks False) sent2 of
                     (sent3, ok') \<Rightarrow> (sent3, ok \<and> ok'))))
      else press_release ks fails ch sent)"

fun type_chars :: "keysyms \<Rightarrow> sender \<Rightarrow> nat list \<Rightarrow> key_event list \<Rightarrow> key_event list \<times> bool" where
  "type_chars ks fails [] sent = (sent, True)"
| "type_chars ks fails (ch # chs) sent =
     (case type_char ks fails ch sent of
        (sent', True) \<Rightarrow> type_chars ks fails chs sent'
      | (sent', False) \<Rightarrow> (sent', False))"

definition typeText :: "keysyms \<Rightarrow> sender \<Rightarrow> jsstring \<Rightarrow> key_event list \<times> bool" where
  "typeText ks fails s = type_chars ks fails (string_chars (normalize_breaks s)) []"

section \<open>A US keyboard at the other end\<close>

text \<open>
  A machine that knows only physical keys: it keeps whether Shift is held and, on each press of another key, types the
  character engraved there. The engravings are those of the standard US keyboard, key by key and row by row, each key under
  the name the UI Events standard gives it, with the character it types alone and the one it types with Shift. The table is
  written from the keyboard and not from the source's \<open>US_LAYOUT\<close>, which goes from characters to keys.
\<close>

definition us_digit_row :: "(jsstring \<times> jsstring) list" where
  "us_digit_row =
    [(lit ''Backquote'', [96, 126]), (lit ''Digit1'', lit ''1!''), (lit ''Digit2'', lit ''2@''),
     (lit ''Digit3'', lit ''3#''), (lit ''Digit4'', lit ''4$''), (lit ''Digit5'', lit ''5%''),
     (lit ''Digit6'', lit ''6^''), (lit ''Digit7'', lit ''7&''), (lit ''Digit8'', lit ''8*''),
     (lit ''Digit9'', lit ''9(''), (lit ''Digit0'', lit ''0)''), (lit ''Minus'', lit ''-_''),
     (lit ''Equal'', lit ''=+'')]"

definition us_top_row :: "(jsstring \<times> jsstring) list" where
  "us_top_row =
    [(lit ''Tab'', [9, 9]), (lit ''KeyQ'', lit ''qQ''), (lit ''KeyW'', lit ''wW''), (lit ''KeyE'', lit ''eE''),
     (lit ''KeyR'', lit ''rR''), (lit ''KeyT'', lit ''tT''), (lit ''KeyY'', lit ''yY''), (lit ''KeyU'', lit ''uU''),
     (lit ''KeyI'', lit ''iI''), (lit ''KeyO'', lit ''oO''), (lit ''KeyP'', lit ''pP''),
     (lit ''BracketLeft'', lit ''[{''), (lit ''BracketRight'', lit '']}''), (lit ''Backslash'', [92, 124])]"

definition us_home_row :: "(jsstring \<times> jsstring) list" where
  "us_home_row =
    [(lit ''KeyA'', lit ''aA''), (lit ''KeyS'', lit ''sS''), (lit ''KeyD'', lit ''dD''), (lit ''KeyF'', lit ''fF''),
     (lit ''KeyG'', lit ''gG''), (lit ''KeyH'', lit ''hH''), (lit ''KeyJ'', lit ''jJ''), (lit ''KeyK'', lit ''kK''),
     (lit ''KeyL'', lit ''lL''), (lit ''Semicolon'', lit '';:''), (lit ''Quote'', [39, 34]), (lit ''Enter'', [10, 10])]"

definition us_bottom_row :: "(jsstring \<times> jsstring) list" where
  "us_bottom_row =
    [(lit ''KeyZ'', lit ''zZ''), (lit ''KeyX'', lit ''xX''), (lit ''KeyC'', lit ''cC''), (lit ''KeyV'', lit ''vV''),
     (lit ''KeyB'', lit ''bB''), (lit ''KeyN'', lit ''nN''), (lit ''KeyM'', lit ''mM''), (lit ''Comma'', lit '',<''),
     (lit ''Period'', lit ''.>''), (lit ''Slash'', lit ''/?''), (lit ''Space'', [32, 32])]"

definition us_ansi :: "(jsstring \<times> jsstring) list" where
  "us_ansi = us_digit_row @ us_top_row @ us_home_row @ us_bottom_row"

definition layout_char :: "jsstring \<Rightarrow> bool \<Rightarrow> nat option" where
  "layout_char c sh = map_option (\<lambda>cs. cs ! (if sh then 1 else 0)) (map_of us_ansi c)"

fun us_keyboard :: "bool \<Rightarrow> key_event list \<Rightarrow> nat option list" where
  "us_keyboard sh [] = []"
| "us_keyboard sh (ev # evs) =
     (if key_code ev = lit ''ShiftLeft'' then us_keyboard (down ev) evs
      else if down ev then layout_char (key_code ev) sh # us_keyboard sh evs
      else us_keyboard sh evs)"

fun shift_held :: "bool \<Rightarrow> key_event list \<Rightarrow> bool" where
  "shift_held sh [] = sh"
| "shift_held sh (ev # evs) = shift_held (if key_code ev = lit ''ShiftLeft'' then down ev else sh) evs"

section \<open>Properties\<close>

lemma upt_10: "[0 ..< 10] = [0, 1, 2, 3, 4, 5, 6, 7, 8, 9 :: nat]"
  by (simp add: upt_rec)

lemma layout_chars: "map fst US_LAYOUT =
  [32, 96, 126, 45, 95, 61, 43, 91, 123, 93, 125, 92, 124, 59, 58, 39, 34, 44, 60, 46, 62, 47, 63,
   48, 41, 49, 33, 50, 64, 51, 35, 52, 36, 53, 37, 54, 94, 55, 38, 56, 42, 57, 40,
   97, 65, 98, 66, 99, 67, 100, 68, 101, 69, 102, 70, 103, 71, 104, 72, 105, 73, 106, 74, 107, 75, 108, 76,
   109, 77, 110, 78, 111, 79, 112, 80, 113, 81, 114, 82, 115, 83, 116, 84, 117, 85, 118, 86, 119, 87, 120, 88,
   121, 89, 122, 90]"
  by (simp add: US_LAYOUT_def punctuation_keys_def digit_keys_def letter_keys_def upt_10 del: upt.simps)

lemma layout_chars_distinct: "distinct (map fst US_LAYOUT)"
  unfolding layout_chars by simp

lemma layout_chars_set: "set (map fst US_LAYOUT) = {32 .. 126}"
proof (rule card_subset_eq)
  show "set (map fst US_LAYOUT) \<subseteq> {32 .. 126}" unfolding layout_chars by simp
  have "card (set (map fst US_LAYOUT)) = length (map fst US_LAYOUT)"
    by (rule distinct_card [OF layout_chars_distinct])
  then show "card (set (map fst US_LAYOUT)) = card {32 .. 126 :: nat}" unfolding layout_chars by simp
qed simp

lemma layout_codes: "list_all (\<lambda>(_, k). code k \<noteq> lit ''ShiftLeft'') US_LAYOUT"
  by (simp add: US_LAYOUT_def punctuation_keys_def digit_keys_def letter_keys_def upt_10 unshifted_def shifted_def
      show_nat.simps del: upt.simps)

text \<open>No key is in the keyboard twice, so each key is found with its engraving.\<close>

lemma us_ansi_distinct: "distinct (map fst us_ansi)"
  by (simp add: us_ansi_def us_digit_row_def us_top_row_def us_home_row_def us_bottom_row_def)

lemma us_row_lookup:
  "row \<in> {us_digit_row, us_top_row, us_home_row, us_bottom_row} \<Longrightarrow> list_all (\<lambda>(c, cs). map_of us_ansi c = Some cs) row"
  using map_of_is_SomeI [OF us_ansi_distinct] by (auto simp: list_all_iff us_ansi_def)

lemmas us_keys = us_row_lookup [of us_digit_row, unfolded us_digit_row_def, simplified]
  us_row_lookup [of us_top_row, unfolded us_top_row_def, simplified]
  us_row_lookup [of us_home_row, unfolded us_home_row_def, simplified]
  us_row_lookup [of us_bottom_row, unfolded us_bottom_row_def, simplified]

lemma layout_control: "layout_char (lit ''Enter'') sh = Some 10" "layout_char (lit ''Tab'') sh = Some 9"
  by (simp_all add: layout_char_def us_keys)

text \<open>The source's table against the keyboard: every character's key, with its Shift state, types that character.\<close>

lemma layout_engraved: "list_all (\<lambda>(ch, k). layout_char (code k) (shift k) = Some ch) US_LAYOUT"
  by (simp add: US_LAYOUT_def punctuation_keys_def digit_keys_def letter_keys_def upt_10 unshifted_def shifted_def
      show_nat.simps layout_char_def us_keys del: upt.simps)

lemma layout_key:
  assumes "(ch, k) \<in> set US_LAYOUT"
  shows "layout_char (code k) (shift k) = Some ch" "map_of US_LAYOUT ch = Some k" "code k \<noteq> lit ''ShiftLeft''"
proof -
  show "map_of US_LAYOUT ch = Some k"
    using assms layout_chars_distinct by (rule map_of_is_SomeI [rotated])
  show "layout_char (code k) (shift k) = Some ch" "code k \<noteq> lit ''ShiftLeft''"
    using layout_engraved layout_codes assms by (auto simp: list_all_iff simp del: lit_Cons)
qed

lemma char_key_code: "key_code (char_key ks ch d) \<noteq> lit ''ShiftLeft''"
proof (cases "map_of US_LAYOUT ch")
  case None
  then show ?thesis by (simp add: char_key_def CONTROL_KEYS_def Let_def)
next
  case (Some k)
  then have "code k \<noteq> lit ''ShiftLeft''" using layout_key(3) map_of_SomeD by metis
  with Some show ?thesis by (simp add: char_key_def CONTROL_KEYS_def Let_def)
qed

lemma shift_held_append: "shift_held sh (as @ bs) = shift_held (shift_held sh as) bs"
  by (induction sh as rule: shift_held.induct) simp_all

lemma us_keyboard_append: "us_keyboard sh (as @ bs) = us_keyboard sh as @ us_keyboard (shift_held sh as) bs"
  by (induction sh as rule: us_keyboard.induct) auto

lemma shift_event_code [simp]: "key_code (shift_event ks d) = lit ''ShiftLeft''" "down (shift_event ks d) = d"
  by (simp_all add: shift_event_def)

lemma char_key_down [simp]: "down (char_key ks ch d) = d"
  by (simp add: char_key_def Let_def)

text \<open>Pressing and releasing a key adds the press, and the release if the press went through.\<close>

lemma press_release_held:
  "shift_held sh (fst (press_release ks fails ch sent)) = shift_held sh sent"
  by (auto simp: press_release_def sendKey_def shift_held_append char_key_code simp del: lit_Cons)

lemma type_char_held:
  assumes "\<And>sent. \<not> fails sent (shift_event ks False)" "\<not> shift_held False sent"
  shows "\<not> shift_held False (fst (type_char ks fails ch sent))"
  using assms press_release_held [of False ks fails ch]
  by (auto simp: type_char_def sendKey_def shift_held_append split: prod.splits simp del: lit_Cons)

lemma type_chars_held:
  assumes "\<And>sent. \<not> fails sent (shift_event ks False)"
  shows "\<not> shift_held False sent \<Longrightarrow> \<not> shift_held False (fst (type_chars ks fails chs sent))"
proof (induction chs arbitrary: sent)
  case (Cons ch chs)
  obtain sent' ok where t: "type_char ks fails ch sent = (sent', ok)" by fastforce
  with type_char_held [of fails ks sent ch, OF assms Cons.prems] have "\<not> shift_held False sent'" by simp
  with t Cons.IH show ?case by (cases ok) simp_all
qed simp

text \<open>Typing never leaves Shift held: whatever the text, and even when \<^verbatim>\<open>sendKey\<close> throws in
  the middle of a character and the typing stops there, the keyboard at the other end has Shift released,
  provided only that the release itself can be sent.\<close>

theorem typeText_releases_shift:
  assumes "\<forall>sent. \<not> fails sent (shift_event ks False)"
  shows "\<not> shift_held False (fst (typeText ks fails s))"
  using type_chars_held [of fails ks "[]"] assms by (simp add: typeText_def)

text \<open>A text a US keyboard can type: printable ASCII, tabs and line breaks.\<close>

definition typeable :: "nat \<Rightarrow> bool" where
  "typeable c \<longleftrightarrow> c = 9 \<or> c = 10 \<or> 32 \<le> c \<and> c \<le> 126"

definition char_events :: "keysyms \<Rightarrow> nat \<Rightarrow> key_event list" where
  "char_events ks ch =
     (if needs_shift ch then [shift_event ks True] else []) @ [char_key ks ch True, char_key ks ch False] @
     (if needs_shift ch then [shift_event ks False] else [])"

lemma type_chars_events:
  "type_chars ks (\<lambda>_ _. False) chs sent = (sent @ concat (map (char_events ks) chs), True)"
  by (induction chs arbitrary: sent)
    (simp_all add: type_char_def press_release_def sendKey_def char_events_def)

lemma layout_typeable:
  assumes "typeable ch"
  shows "layout_char (key_code (char_key ks ch d)) (needs_shift ch) = Some ch"
proof (cases "32 \<le> ch \<and> ch \<le> 126")
  case True
  then have "ch \<in> set (map fst US_LAYOUT)" by (simp only: layout_chars_set atLeastAtMost_iff)
  then obtain k where "(ch, k) \<in> set US_LAYOUT" by auto
  from layout_key [OF this] True show ?thesis
    by (simp add: char_key_def CONTROL_KEYS_def needs_shift_def Let_def)
next
  case False
  then show ?thesis
    using assms by (auto simp: typeable_def layout_control char_key_def CONTROL_KEYS_def Let_def simp del: lit_Cons)
qed

lemma char_events_typed:
  assumes "typeable ch"
  shows "us_keyboard False (char_events ks ch) = [Some ch]" "\<not> shift_held False (char_events ks ch)"
  using layout_typeable [OF assms, of ks True] char_key_code [of ks ch]
  by (auto simp: char_events_def simp del: lit_Cons)

lemma events_typed:
  "list_all typeable chs \<Longrightarrow>
   us_keyboard False (concat (map (char_events ks) chs)) = map Some chs \<and>
   \<not> shift_held False (concat (map (char_events ks) chs))"
  by (induction chs) (simp_all add: us_keyboard_append shift_held_append char_events_typed)

lemma string_chars_ascii: "list_all typeable s \<Longrightarrow> string_chars s = s"
  by (induction s rule: string_chars.induct) (auto simp: typeable_def)

text \<open>C12: A text of printable ASCII, tabs and line breaks arrives as it was: a machine that looks only at
  the physical keys and the Shift state, and types what a standard US keyboard has engraved on them, types exactly the
  text, every line break (also a Windows one) as one Return. The engravings are a table of their own, so a wrong key in the
  source's layout table breaks this.\<close>

theorem typeText_arrives:
  assumes "list_all typeable (normalize_breaks s)"
  shows "\<exists>evs. typeText ks (\<lambda>_ _. False) s = (evs, True) \<and> us_keyboard False evs = map Some (normalize_breaks s)"
  using assms events_typed [OF assms, of ks] by (simp add: typeText_def type_chars_events string_chars_ascii)

definition sample_keysyms :: keysyms where
  "sample_keysyms = \<lparr>XK_Return = 0xff0d, XK_Tab = 0xff09, XK_Shift_L = 0xffe1, keysym_lookup = (\<lambda>c. c)\<rparr>"

lemma typeText_arrives_witness:
  "\<exists>evs. typeText sample_keysyms (\<lambda>_ _. False) (lit ''A|b'' @ [13, 10]) = (evs, True) \<and>
     us_keyboard False evs = map Some (lit ''A|b'' @ [10])"
proof -
  have "normalize_breaks (lit ''A|b'' @ [13, 10]) = lit ''A|b'' @ [10]" by simp
  moreover have "list_all typeable (lit ''A|b'' @ [10])" by (simp add: typeable_def)
  ultimately show ?thesis using typeText_arrives [of "lit ''A|b'' @ [13, 10]" sample_keysyms] by metis
qed

lemma typeText_releases_shift_witness:
  "\<not> shift_held False (fst (typeText sample_keysyms (\<lambda>_ ev. keysym ev = 124) (lit ''|'')))"
  using typeText_releases_shift [of "\<lambda>_ ev. keysym ev = 124" sample_keysyms "lit ''|''"]
  by (simp add: shift_event_def sample_keysyms_def)

end
