(* ===== verification/Event_System.thy ===== *)
theory Event_System
  imports Prelude
begin

text \<open>
  What the components whose state changes by events have in common: the states they start in, the events that may happen in
  a state, what an event does, and the states that can be reached. The invariants of the virtual machine console, the node
  terminal, the file browser and the memoised requests are proved by the rules of this locale, and their runs on concrete
  events too.
\<close>

fun events_ok :: "('e \<Rightarrow> 's \<Rightarrow> bool) \<Rightarrow> ('e \<Rightarrow> 's \<Rightarrow> 's) \<Rightarrow> 'e list \<Rightarrow> 's \<Rightarrow> bool" where
  "events_ok may app [] s = True"
| "events_ok may app (e # es) s = (may e s \<and> events_ok may app es (app e s))"

lemma events_ok_append:
  "events_ok may app (es @ es') s \<longleftrightarrow> events_ok may app es s \<and> events_ok may app es' (fold app es s)"
  by (induction es arbitrary: s) auto

locale event_system =
  fixes initial :: "'s \<Rightarrow> bool" and may :: "'e \<Rightarrow> 's \<Rightarrow> bool" and app :: "'e \<Rightarrow> 's \<Rightarrow> 's" and reached :: "'s \<Rightarrow> bool"
  assumes reached_initial: "initial s \<Longrightarrow> reached s"
    and reached_event: "reached s \<Longrightarrow> may e s \<Longrightarrow> reached (app e s)"
    and reached_cases: "reached s \<Longrightarrow> (\<And>s. initial s \<Longrightarrow> P s) \<Longrightarrow>
      (\<And>s e. reached s \<Longrightarrow> may e s \<Longrightarrow> P s \<Longrightarrow> P (app e s)) \<Longrightarrow> P s"
begin

text \<open>An inductive invariant, and one that rests on another.\<close>

lemma always:
  assumes "reached s" "\<And>s. initial s \<Longrightarrow> P s" "\<And>s e. P s \<Longrightarrow> may e s \<Longrightarrow> P (app e s)"
  shows "P s"
  using assms(1) by (rule reached_cases) (use assms(2,3) in blast)+

lemma always_relative:
  assumes "reached s" "\<And>s. reached s \<Longrightarrow> I s" "\<And>s. initial s \<Longrightarrow> P s" "\<And>s e. I s \<Longrightarrow> P s \<Longrightarrow> may e s \<Longrightarrow> P (app e s)"
  shows "P s"
  using assms(1) by (rule reached_cases) (use assms(2-4) in blast)+

text \<open>Runs.\<close>

lemma reached_run: "reached s \<Longrightarrow> events_ok may app es s \<Longrightarrow> reached (fold app es s)"
  by (induction es arbitrary: s) (simp_all add: reached_event)

lemma reached_by_run: "reached s \<longleftrightarrow> (\<exists>s0 es. initial s0 \<and> events_ok may app es s0 \<and> s = fold app es s0)"
proof
  assume "reached s"
  then show "\<exists>s0 es. initial s0 \<and> events_ok may app es s0 \<and> s = fold app es s0"
  proof (rule reached_cases)
    show "\<exists>s0 es. initial s0 \<and> events_ok may app es s0 \<and> s = fold app es s0" if "initial s" for s
      using that by (intro exI [of _ s] exI [of _ "[]"]) simp
  next
    fix s e
    assume "may e s" "\<exists>s0 es. initial s0 \<and> events_ok may app es s0 \<and> s = fold app es s0"
    then obtain s0 es where "initial s0" "events_ok may app (es @ [e]) s0" "app e s = fold app (es @ [e]) s0"
      by (auto simp: events_ok_append)
    then show "\<exists>s0 es. initial s0 \<and> events_ok may app es s0 \<and> app e s = fold app es s0" by blast
  qed
next
  assume "\<exists>s0 es. initial s0 \<and> events_ok may app es s0 \<and> s = fold app es s0"
  then show "reached s" using reached_initial reached_run by blast
qed

text \<open>What every event keeps is kept by every run.\<close>

lemma kept_by_run:
  assumes "reached s" "R s" "events_ok may app es s" "\<And>s e. reached s \<Longrightarrow> R s \<Longrightarrow> may e s \<Longrightarrow> R (app e s)"
  shows "R (fold app es s)"
  using assms(1-3) by (induction es arbitrary: s) (simp_all add: reached_event assms(4))

end

end
