(* ===== verification/Term_Session.thy ===== *)
theory Term_Session
  imports Term_Vnc Event_System
begin

text \<open>
  The session of a VNC console, \<^verbatim>\<open>plugins/terminal/src/pod/VncPodConsole.tsx\<close>: the effect that opens
  a connection, the handlers of the connection's events, the automatic reconnect with its backoff, the password
  prompt and the guard of Type Clipboard.

  One run of the connect effect is a \<open>vnc_run\<close>, numbered in the order the runs start; it owns a \<^verbatim>\<open>cancelled\<close>
  and a \<^verbatim>\<open>reportedSpecificError\<close> variable and one noVNC object. Refs and React state are fields of the
  session. noVNC itself is not part of the repository: its events are steps that may happen at any time, with
  what its documentation says of them as guards in \<open>vnc_enabled\<close> (a connection that has been closed by
  \<^verbatim>\<open>disconnect()\<close> reports no success any more, and asks for no credentials, but its \<^verbatim>\<open>disconnect\<close> event still comes).
\<close>

section \<open>State\<close>

datatype connection_state = Connecting | Connected | Disconnected

definition INITIAL_BACKOFF_MS :: nat where "INITIAL_BACKOFF_MS = 500"
definition MAX_BACKOFF_MS :: nat where "MAX_BACKOFF_MS = 64000"

text \<open>What the toolbar shows; \<open>Said\<close> is a text taken from elsewhere, the others are fixed translations.\<close>

datatype vnc_error = Said jsstring | LostConnection jsstring nat | Rejected | UnsupportedAuth | CannotResolve jsstring

text \<open>The values a render derives from its props.\<close>

record target =
  tg_namespace :: "jsstring option"
  tg_pod :: "jsstring option"
  tg_container :: jsstring
  tg_port :: "nat option"
  tg_auth :: "vnc_auth option"

record vnc_run =
  run_target :: target
  cancelled :: bool
  reportedSpecificError :: bool
  run_connected :: bool

record vnc_session =
  vs_target :: target
  vs_attempt :: nat
  vs_ran_attempt :: nat
  vs_state :: connection_state
  hasConnected :: bool
  backoffMs :: nat
  reconnectTimer :: "nat option"
  vs_timers :: "(nat \<times> nat \<times> nat) list"
  vs_next_timer :: nat
  vs_runs :: "vnc_run list"
  rfbRef :: "nat option"
  needsManualPassword :: bool
  manualPassword :: jsstring
  vs_error :: "vnc_error option"
  vs_resolving :: "nat list"
  vs_credentials :: "(nat \<times> jsstring) list"
  typing :: bool
  typings_active :: nat

text \<open>
  \<open>vs_target\<close> and \<open>vs_ran_attempt\<close> are the dependencies the effects last ran with. \<open>vs_timers\<close> holds
  the pending timeouts as (id, run, delay), \<open>vs_resolving\<close> the runs with a password being resolved,
  \<open>vs_credentials\<close> every password sent, with the run whose connection it went to.
\<close>

definition run_of :: "vnc_session \<Rightarrow> nat \<Rightarrow> vnc_run" where
  "run_of s r = vs_runs s ! r"

definition update_run :: "nat \<Rightarrow> (vnc_run \<Rightarrow> vnc_run) \<Rightarrow> vnc_session \<Rightarrow> vnc_session" where
  "update_run r f s = s\<lparr>vs_runs := (vs_runs s)[r := f (vs_runs s ! r)]\<rparr>"

section \<open>The effects\<close>

definition clear_timer :: "vnc_session \<Rightarrow> vnc_session" where
  "clear_timer s =
     (case reconnectTimer s of
        None \<Rightarrow> s
      | Some i \<Rightarrow> s\<lparr>reconnectTimer := None, vs_timers := filter (\<lambda>t. fst t \<noteq> i) (vs_timers s)\<rparr>)"

text \<open>The effect's cleanup; the \<^verbatim>\<open>disconnect()\<close> it calls is why \<open>vnc_enabled\<close> allows no success afterwards.\<close>

definition cleanup :: "vnc_session \<Rightarrow> vnc_session" where
  "cleanup s =
     (case rfbRef s of
        None \<Rightarrow> s
      | Some r \<Rightarrow> (clear_timer (update_run r (\<lambda>n. n\<lparr>cancelled := True\<rparr>) s))\<lparr>rfbRef := None\<rparr>)"

definition present :: "jsstring option \<Rightarrow> bool" where
  "present v \<longleftrightarrow> v \<noteq> None \<and> v \<noteq> Some []"

definition connect :: "target \<Rightarrow> vnc_session \<Rightarrow> vnc_session" where
  "connect tg s =
     (if \<not> present (tg_namespace tg) \<or> \<not> present (tg_pod tg) \<or> tg_port tg = None then s
      else s\<lparr>vs_state := Connecting, needsManualPassword := False, vs_error := None,
             vs_runs := vs_runs s @ [\<lparr>run_target = tg, cancelled = False, reportedSpecificError = False,
                                      run_connected = False\<rparr>],
             rfbRef := Some (length (vs_runs s))\<rparr>)"

definition session_key :: "target \<Rightarrow> jsstring option \<times> jsstring option \<times> nat option" where
  "session_key tg = (tg_namespace tg, tg_pod tg, tg_port tg)"

definition new_session :: "vnc_session \<Rightarrow> vnc_session" where
  "new_session s = s\<lparr>hasConnected := False, backoffMs := INITIAL_BACKOFF_MS\<rparr>"

text \<open>
  A render with the props' target: React runs the cleanup of a changed effect, then the changed effects in the
  order they are declared.
\<close>

definition render :: "target \<Rightarrow> vnc_session \<Rightarrow> vnc_session" where
  "render tg s =
     (let reset = session_key tg \<noteq> session_key (vs_target s);
          again = reset \<or> tg_container tg \<noteq> tg_container (vs_target s) \<or> vs_attempt s \<noteq> vs_ran_attempt s;
          s1 = (if again then cleanup s else s);
          s2 = (if reset then new_session s1 else s1);
          s3 = (if again then connect tg s2 else s2)
      in if again then s3\<lparr>vs_target := tg, vs_ran_attempt := vs_attempt s3\<rparr> else s3)"

definition mount :: "target \<Rightarrow> vnc_session" where
  "mount tg =
     connect tg \<lparr>vs_target = tg, vs_attempt = 0, vs_ran_attempt = 0, vs_state = Connecting, hasConnected = False,
       backoffMs = INITIAL_BACKOFF_MS, reconnectTimer = None, vs_timers = [], vs_next_timer = 0, vs_runs = [],
       rfbRef = None, needsManualPassword = False, manualPassword = [], vs_error = None, vs_resolving = [],
       vs_credentials = [], typing = False, typings_active = 0\<rparr>"

section \<open>Events of a connection\<close>

definition on_connect :: "nat \<Rightarrow> vnc_session \<Rightarrow> vnc_session" where
  "on_connect r s = (update_run r (\<lambda>n. n\<lparr>run_connected := True\<rparr>) s)
     \<lparr>vs_state := Connected, needsManualPassword := False, vs_error := None, hasConnected := True,
      backoffMs := INITIAL_BACKOFF_MS\<rparr>"

definition schedule_reconnect :: "nat \<Rightarrow> vnc_session \<Rightarrow> vnc_session" where
  "schedule_reconnect r s =
     s\<lparr>backoffMs := min (backoffMs s * 2) MAX_BACKOFF_MS,
       vs_timers := vs_timers s @ [(vs_next_timer s, r, backoffMs s)],
       reconnectTimer := Some (vs_next_timer s), vs_next_timer := Suc (vs_next_timer s)\<rparr>"

definition lost_error :: "bool \<Rightarrow> nat \<Rightarrow> vnc_session \<Rightarrow> vnc_error option" where
  "lost_error clean r s =
     (if \<not> clean \<and> \<not> reportedSpecificError (run_of s r)
      then Some (LostConnection (tg_container (run_target (run_of s r))) (the (tg_port (run_target (run_of s r)))))
      else vs_error s)"

definition on_disconnect :: "nat \<Rightarrow> bool \<Rightarrow> vnc_session \<Rightarrow> vnc_session" where
  "on_disconnect r clean s =
     (let s1 = s\<lparr>vs_state := Disconnected, vs_error := lost_error clean r s\<rparr>
      in if hasConnected s1 \<and> \<not> cancelled (run_of s1 r) then schedule_reconnect r s1 else s1)"

definition timer_fires :: "nat \<times> nat \<times> nat \<Rightarrow> vnc_session \<Rightarrow> vnc_session" where
  "timer_fires t s =
     (case t of (i, r, delay) \<Rightarrow>
        (let s1 = s\<lparr>vs_timers := filter (\<lambda>u. fst u \<noteq> i) (vs_timers s)\<rparr>
         in if cancelled (run_of s r) then s1 else s1\<lparr>vs_attempt := vs_attempt s + 1\<rparr>))"

definition report :: "nat \<Rightarrow> vnc_error \<Rightarrow> vnc_session \<Rightarrow> vnc_session" where
  "report r e s = (update_run r (\<lambda>n. n\<lparr>reportedSpecificError := True\<rparr>) s)\<lparr>vs_error := Some e\<rparr>"

definition on_securityfailure :: "nat \<Rightarrow> jsstring \<Rightarrow> vnc_session \<Rightarrow> vnc_session" where
  "on_securityfailure r reason s = report r (if reason = [] then Rejected else Said reason) s"

definition on_credentialsrequired :: "nat \<Rightarrow> jsstring list option \<Rightarrow> vnc_session \<Rightarrow> vnc_session" where
  "on_credentialsrequired r types s =
     (if (case types of None \<Rightarrow> [lit ''password''] | Some ts \<Rightarrow> ts) \<noteq> [lit ''password''] then report r UnsupportedAuth s
      else if tg_auth (run_target (run_of s r)) = None then s\<lparr>needsManualPassword := True\<rparr>
      else s\<lparr>vs_resolving := vs_resolving s @ [r]\<rparr>)"

text \<open>
  \<^verbatim>\<open>resolveVncPassword\<close>: \<open>fetch\<close> is the console's API (an error message, or the data of the secret) and
  \<open>atob\<close> the browser's base64 decoder, \<open>None\<close> where it throws.
\<close>

definition resolveVncPassword :: "(jsstring \<Rightarrow> jsstring \<Rightarrow> jsstring + (jsstring \<rightharpoonup> jsstring)) \<Rightarrow>
    (jsstring \<Rightarrow> jsstring + jsstring) \<Rightarrow> vnc_auth \<Rightarrow> jsstring \<Rightarrow> jsstring + jsstring" where
  "resolveVncPassword fetch atob auth namespace =
     (case auth of
        Password p \<Rightarrow> Inr p
      | SecretRef name key \<Rightarrow>
          (let k = (case key of Some k \<Rightarrow> k | None \<Rightarrow> DEFAULT_SECRET_KEY)
           in case fetch namespace name of
                Inl e \<Rightarrow> Inl e
              | Inr secret \<Rightarrow>
                  (case secret k of
                     None \<Rightarrow> Inl (lit ''Secret \"'' @ name @ lit ''\" has no key \"'' @ k @ lit ''\"'')
                   | Some v \<Rightarrow> atob v)))"

definition sendCredentials :: "nat \<Rightarrow> jsstring \<Rightarrow> vnc_session \<Rightarrow> vnc_session" where
  "sendCredentials r p s = s\<lparr>vs_credentials := vs_credentials s @ [(r, p)]\<rparr>"

definition password_resolved :: "nat \<Rightarrow> jsstring + jsstring \<Rightarrow> vnc_session \<Rightarrow> vnc_session" where
  "password_resolved r result s =
     (let s1 = s\<lparr>vs_resolving := remove1 r (vs_resolving s)\<rparr>
      in if cancelled (run_of s r) then s1
         else case result of
           Inr p \<Rightarrow> sendCredentials r p s1
         | Inl e \<Rightarrow> (report r (CannotResolve e) s1)\<lparr>needsManualPassword := True\<rparr>)"

definition on_stream_error :: "jsstring \<Rightarrow> vnc_session \<Rightarrow> vnc_session" where
  "on_stream_error e s = s\<lparr>vs_error := Some (Said e)\<rparr>"

section \<open>The user's actions\<close>

definition reconnect :: "vnc_session \<Rightarrow> vnc_session" where
  "reconnect s = (clear_timer s)\<lparr>backoffMs := INITIAL_BACKOFF_MS, vs_attempt := vs_attempt s + 1\<rparr>"

definition submitManualPassword :: "vnc_session \<Rightarrow> vnc_session" where
  "submitManualPassword s =
     (case rfbRef s of None \<Rightarrow> s | Some r \<Rightarrow> sendCredentials r (manualPassword s) s)
     \<lparr>needsManualPassword := False, manualPassword := []\<rparr>"

definition enter_password :: "jsstring \<Rightarrow> vnc_session \<Rightarrow> vnc_session" where
  "enter_password p s = s\<lparr>manualPassword := p\<rparr>"

definition type_clipboard :: "vnc_session \<Rightarrow> vnc_session" where
  "type_clipboard s = (if typing s then s else s\<lparr>typing := True, typings_active := typings_active s + 1\<rparr>)"

text \<open>The end of a typing, with the message where the clipboard could not be read.\<close>

definition typing_done :: "jsstring option \<Rightarrow> vnc_session \<Rightarrow> vnc_session" where
  "typing_done failure s =
     s\<lparr>typing := False, typings_active := typings_active s - 1,
       vs_error := (case failure of None \<Rightarrow> vs_error s
         | Some e \<Rightarrow> Some (Said (lit ''Could not read the clipboard: '' @ e)))\<rparr>"

datatype vnc_event = Render target | Connect nat | Disconnect nat bool | Timer "nat \<times> nat \<times> nat"
  | SecurityFailure nat jsstring | CredentialsRequired nat "jsstring list option"
  | Resolved nat "jsstring + jsstring" | StreamError nat jsstring | Reconnect | Submit | Enter jsstring
  | TypeClipboard | TypingDone "jsstring option"

fun vnc_apply :: "vnc_event \<Rightarrow> vnc_session \<Rightarrow> vnc_session" where
  "vnc_apply (Render tg) s = render tg s"
| "vnc_apply (Connect r) s = on_connect r s"
| "vnc_apply (Disconnect r clean) s = on_disconnect r clean s"
| "vnc_apply (Timer t) s = timer_fires t s"
| "vnc_apply (SecurityFailure r reason) s = on_securityfailure r reason s"
| "vnc_apply (CredentialsRequired r types) s = on_credentialsrequired r types s"
| "vnc_apply (Resolved r result) s = password_resolved r result s"
| "vnc_apply (StreamError r e) s = on_stream_error e s"
| "vnc_apply Reconnect s = reconnect s"
| "vnc_apply Submit s = submitManualPassword s"
| "vnc_apply (Enter p) s = enter_password p s"
| "vnc_apply TypeClipboard s = type_clipboard s"
| "vnc_apply (TypingDone failure) s = typing_done failure s"

definition live_run :: "vnc_session \<Rightarrow> nat \<Rightarrow> bool" where
  "live_run s r \<longleftrightarrow> r < length (vs_runs s) \<and> \<not> cancelled (run_of s r)"

fun vnc_enabled :: "vnc_event \<Rightarrow> vnc_session \<Rightarrow> bool" where
  "vnc_enabled (Connect r) s = live_run s r"
| "vnc_enabled (Disconnect r clean) s = (r < length (vs_runs s))"
| "vnc_enabled (Timer t) s = (t \<in> set (vs_timers s))"
| "vnc_enabled (SecurityFailure r reason) s = live_run s r"
| "vnc_enabled (CredentialsRequired r types) s = live_run s r"
| "vnc_enabled (Resolved r result) s = (r \<in> set (vs_resolving s))"
| "vnc_enabled (StreamError r e) s = (r < length (vs_runs s))"
| "vnc_enabled (TypingDone failure) s = typing s"
| "vnc_enabled _ s = True"

inductive vnc_reach :: "vnc_session \<Rightarrow> bool" where
  reach_mount: "vnc_reach (mount tg)"
| reach_step: "vnc_reach s \<Longrightarrow> vnc_enabled e s \<Longrightarrow> vnc_reach (vnc_apply e s)"

interpretation vnc: event_system "\<lambda>s. \<exists>tg. s = mount tg" vnc_enabled vnc_apply vnc_reach
  by (unfold_locales, auto intro: vnc_reach.intros) (erule vnc_reach.induct, auto)

section \<open>The invariant\<close>

definition backoff_value :: "nat \<Rightarrow> bool" where
  "backoff_value b \<longleftrightarrow> (\<exists>k \<le> 7. b = 500 * 2 ^ k)"

lemma backoff_initial [simp]: "backoff_value INITIAL_BACKOFF_MS"
  unfolding backoff_value_def INITIAL_BACKOFF_MS_def by (intro exI [of _ 0]) simp

lemma backoff_double:
  assumes "backoff_value b"
  shows "backoff_value (min (b * 2) MAX_BACKOFF_MS)"
proof -
  obtain k where k: "k \<le> 7" "b = 500 * 2 ^ k" using assms by (auto simp: backoff_value_def)
  have "min (b * 2) MAX_BACKOFF_MS = 500 * 2 ^ min (Suc k) 7"
  proof (cases "k = 7")
    case True
    then show ?thesis by (simp add: k MAX_BACKOFF_MS_def)
  next
    case False
    then have "(2 :: nat) ^ Suc k \<le> 2 ^ 7" using k(1) by (intro power_increasing) auto
    then show ?thesis using False k by (simp add: MAX_BACKOFF_MS_def)
  qed
  then show ?thesis unfolding backoff_value_def by (intro exI [of _ "min (Suc k) 7"]) simp
qed

text \<open>The runs and the live connection; the timers; the backoff and the memory of a success.\<close>

definition connectable :: "target \<Rightarrow> bool" where
  "connectable tg \<longleftrightarrow> present (tg_namespace tg) \<and> present (tg_pod tg) \<and> tg_port tg \<noteq> None"

definition runs_inv :: "vnc_session \<Rightarrow> bool" where
  "runs_inv s \<longleftrightarrow> (\<forall>r. live_run s r \<longleftrightarrow> rfbRef s = Some r) \<and>
     (\<forall>r. rfbRef s = Some r \<longrightarrow> connectable (vs_target s) \<and>
        session_key (run_target (run_of s r)) = session_key (vs_target s)) \<and>
     list_all (\<lambda>r. r < length (vs_runs s)) (vs_resolving s)"

definition timer_ok :: "vnc_session \<Rightarrow> nat \<times> nat \<times> nat \<Rightarrow> bool" where
  "timer_ok s t \<longleftrightarrow> fst t < vs_next_timer s \<and> fst (snd t) < length (vs_runs s) \<and> backoff_value (snd (snd t)) \<and>
     (rfbRef s = Some (fst (snd t)) \<longrightarrow> hasConnected s)"

definition timers_inv :: "vnc_session \<Rightarrow> bool" where
  "timers_inv s \<longleftrightarrow> distinct (map fst (vs_timers s)) \<and> (\<forall>t \<in> set (vs_timers s). timer_ok s t)"

definition memory_inv :: "vnc_session \<Rightarrow> bool" where
  "memory_inv s \<longleftrightarrow> backoff_value (backoffMs s) \<and>
     (hasConnected s \<longrightarrow> (\<exists>r < length (vs_runs s). run_connected (run_of s r) \<and>
        session_key (run_target (run_of s r)) = session_key (vs_target s))) \<and>
     typings_active s = (if typing s then 1 else 0) \<and> vs_ran_attempt s \<le> vs_attempt s"

definition session_inv :: "vnc_session \<Rightarrow> bool" where
  "session_inv s \<longleftrightarrow> runs_inv s \<and> timers_inv s \<and> memory_inv s"

lemmas session_inv_defs = session_inv_def runs_inv_def timers_inv_def timer_ok_def memory_inv_def live_run_def run_of_def

lemma update_run_simps [simp]:
  "length (vs_runs (update_run r f s)) = length (vs_runs s)"
  "rfbRef (update_run r f s) = rfbRef s" "vs_timers (update_run r f s) = vs_timers s"
  "hasConnected (update_run r f s) = hasConnected s" "backoffMs (update_run r f s) = backoffMs s"
  "vs_target (update_run r f s) = vs_target s" "vs_next_timer (update_run r f s) = vs_next_timer s"
  "vs_resolving (update_run r f s) = vs_resolving s" "typing (update_run r f s) = typing s"
  "typings_active (update_run r f s) = typings_active s" "reconnectTimer (update_run r f s) = reconnectTimer s"
  "vs_attempt (update_run r f s) = vs_attempt s" "vs_ran_attempt (update_run r f s) = vs_ran_attempt s" "vs_credentials (update_run r f s) = vs_credentials s"
  "r < length (vs_runs s) \<Longrightarrow> vs_runs (update_run r f s) ! q = (if q = r then f (vs_runs s ! r) else vs_runs s ! q)"
  by (simp_all add: update_run_def nth_list_update)

text \<open>An operation that touches none of the fields the invariant speaks of.\<close>

lemma session_inv_frame:
  assumes "session_inv s" "vs_runs s' = vs_runs s" "rfbRef s' = rfbRef s" "vs_timers s' = vs_timers s"
    "hasConnected s' = hasConnected s" "backoffMs s' = backoffMs s" "vs_target s' = vs_target s"
    "vs_next_timer s' = vs_next_timer s" "vs_resolving s' = vs_resolving s" "typing s' = typing s"
    "typings_active s' = typings_active s" "vs_attempt s' = vs_attempt s" "vs_ran_attempt s' = vs_ran_attempt s"
  shows "session_inv s'"
proof -
  have "session_inv s' \<longleftrightarrow> session_inv s" unfolding session_inv_defs by (simp only: assms(2-))
  with assms(1) show ?thesis by simp
qed

lemma clear_timer_simps [simp]:
  "vs_runs (clear_timer s) = vs_runs s" "rfbRef (clear_timer s) = rfbRef s" "hasConnected (clear_timer s) = hasConnected s"
  "backoffMs (clear_timer s) = backoffMs s" "vs_target (clear_timer s) = vs_target s"
  "vs_next_timer (clear_timer s) = vs_next_timer s" "vs_resolving (clear_timer s) = vs_resolving s"
  "typing (clear_timer s) = typing s" "typings_active (clear_timer s) = typings_active s"
  "vs_attempt (clear_timer s) = vs_attempt s" "vs_ran_attempt (clear_timer s) = vs_ran_attempt s" "vs_credentials (clear_timer s) = vs_credentials s"
  by (simp_all add: clear_timer_def split: option.splits)

lemma clear_timer_timers:
  "set (vs_timers (clear_timer s)) \<subseteq> set (vs_timers s)"
  "distinct (map fst (vs_timers s)) \<Longrightarrow> distinct (map fst (vs_timers (clear_timer s)))"
  by (auto simp: clear_timer_def distinct_map_filter split: option.splits)

lemma clear_timer_inv: "session_inv s \<Longrightarrow> session_inv (clear_timer s)"
  using clear_timer_timers [of s] by (auto simp: session_inv_defs)

lemma mount_inv: "session_inv (mount tg)"
  by (auto simp: mount_def connect_def connectable_def session_inv_defs less_Suc_eq nth_append)

lemma clear_timer_rfbRef: "(clear_timer s)\<lparr>rfbRef := None\<rparr> = clear_timer (s\<lparr>rfbRef := None\<rparr>)"
  by (simp add: clear_timer_def split: option.splits)

lemma cancel_inv:
  assumes "session_inv s" "rfbRef s = Some r"
  shows "session_inv ((update_run r (\<lambda>n. n\<lparr>cancelled := True\<rparr>) s)\<lparr>rfbRef := None\<rparr>)"
proof -
  have "r < length (vs_runs s)" using assms by (auto simp: session_inv_defs)
  with assms show ?thesis by (auto simp: session_inv_defs)
qed

lemma cleanup_inv:
  assumes "session_inv s"
  shows "session_inv (cleanup s)" "rfbRef (cleanup s) = None"
  using assms cancel_inv clear_timer_inv
  by (auto simp: cleanup_def clear_timer_rfbRef split: option.splits)

lemma new_session_inv: "session_inv s \<Longrightarrow> rfbRef s = None \<Longrightarrow> session_inv (new_session s)"
  by (auto simp: new_session_def session_inv_defs)

lemma retarget_inv:
  assumes "session_inv s" "rfbRef s = None" "session_key tg = session_key (vs_target s) \<or> \<not> hasConnected s"
    "a \<le> vs_attempt s"
  shows "session_inv (s\<lparr>vs_target := tg, vs_ran_attempt := a\<rparr>)"
  using assms by (auto simp: session_inv_defs)

lemma start_inv:
  assumes "session_inv s" "rfbRef s = None" "session_key (run_target n) = session_key (vs_target s)" "\<not> cancelled n"
    "connectable (vs_target s)"
  shows "session_inv (s\<lparr>vs_runs := vs_runs s @ [n], rfbRef := Some (length (vs_runs s))\<rparr>)"
proof -
  have r: "runs_inv (s\<lparr>vs_runs := vs_runs s @ [n], rfbRef := Some (length (vs_runs s))\<rparr>)"
    using assms by (auto simp: session_inv_defs nth_append less_Suc_eq list_all_iff)
  have t: "timers_inv (s\<lparr>vs_runs := vs_runs s @ [n], rfbRef := Some (length (vs_runs s))\<rparr>)"
    using assms by (auto simp: session_inv_defs less_Suc_eq)
  have "memory_inv (s\<lparr>vs_runs := vs_runs s @ [n], rfbRef := Some (length (vs_runs s))\<rparr>)"
    using assms by (auto simp: session_inv_defs nth_append less_Suc_eq)
  with r t show ?thesis by (simp add: session_inv_def)
qed

lemma connect_inv:
  assumes "session_inv s" "rfbRef s = None" "session_key tg = session_key (vs_target s) \<or> \<not> hasConnected s"
    "a \<le> vs_attempt s"
  shows "session_inv ((connect tg s)\<lparr>vs_target := tg, vs_ran_attempt := a\<rparr>)"
proof -
  let ?n = "\<lparr>run_target = tg, cancelled = False, reportedSpecificError = False, run_connected = False\<rparr>"
  note q = retarget_inv [OF assms]
  show ?thesis
  proof (cases "\<not> present (tg_namespace tg) \<or> \<not> present (tg_pod tg) \<or> tg_port tg = None")
    case True
    then have "connect tg s = s" by (auto simp: connect_def)
    with q show ?thesis by simp
  next
    case False
    have "session_inv ((s\<lparr>vs_target := tg, vs_ran_attempt := a\<rparr>)\<lparr>vs_runs := vs_runs s @ [?n], rfbRef := Some (length (vs_runs s))\<rparr>)"
      using start_inv [OF q, of ?n] assms(2) False by (simp add: connectable_def)
    then show ?thesis
      by (rule session_inv_frame) (use False in \<open>auto simp: connect_def\<close>)
  qed
qed

lemma render_inv:
  assumes "session_inv s"
  shows "session_inv (render tg s)"
proof -
  define reset where "reset \<longleftrightarrow> session_key tg \<noteq> session_key (vs_target s)"
  define s2 where "s2 = (if reset then new_session (cleanup s) else cleanup s)"
  have vt: "vs_target (cleanup s) = vs_target s" by (simp add: cleanup_def split: option.splits)
  have "session_inv s2" "rfbRef s2 = None"
    using cleanup_inv [OF assms] new_session_inv by (auto simp: s2_def) (simp add: new_session_def)
  moreover have "session_key tg = session_key (vs_target s2) \<or> \<not> hasConnected s2"
    by (auto simp: s2_def reset_def vt new_session_def)
  moreover have "vs_attempt (connect tg s2) = vs_attempt s2" by (simp add: connect_def)
  ultimately have *: "session_inv ((connect tg s2)\<lparr>vs_target := tg, vs_ran_attempt := vs_attempt (connect tg s2)\<rparr>)"
    by (intro connect_inv) simp_all
  show ?thesis
  proof (cases "reset \<or> tg_container tg \<noteq> tg_container (vs_target s) \<or> vs_attempt s \<noteq> vs_ran_attempt s")
    case True
    then show ?thesis using * by (auto simp: render_def Let_def s2_def reset_def)
  next
    case False
    then show ?thesis using assms by (auto simp: render_def Let_def reset_def)
  qed
qed

lemma on_connect_inv:
  assumes "session_inv s" "live_run s r"
  shows "session_inv (on_connect r s)"
proof -
  have "rfbRef s = Some r" "r < length (vs_runs s)"
    using assms by (auto simp: session_inv_defs)
  with assms show ?thesis by (auto simp: on_connect_def session_inv_defs)
qed

lemma on_disconnect_inv:
  assumes "session_inv s" "r < length (vs_runs s)"
  shows "session_inv (on_disconnect r clean s)"
proof -
  let ?s = "s\<lparr>vs_state := Disconnected, vs_error := lost_error clean r s\<rparr>"
  have s: "session_inv ?s" using assms(1) by (rule session_inv_frame) simp_all
  have "session_inv (schedule_reconnect r ?s)" if "hasConnected s"
    using s assms(2) that backoff_double
    by (fastforce simp: schedule_reconnect_def session_inv_defs less_Suc_eq)
  with s show ?thesis by (simp add: on_disconnect_def Let_def)
qed

lemma timer_fires_inv: "session_inv s \<Longrightarrow> session_inv (timer_fires t s)"
  by (cases t) (auto simp: timer_fires_def session_inv_defs distinct_map_filter Let_def)

lemma report_inv:
  assumes "session_inv s" "r < length (vs_runs s)"
  shows "session_inv (report r e s)"
  using assms by (auto simp: report_def session_inv_defs)

lemma on_credentialsrequired_inv:
  assumes "session_inv s" "r < length (vs_runs s)"
  shows "session_inv (on_credentialsrequired r types s)"
  using assms report_inv [OF assms]
  by (auto simp: on_credentialsrequired_def session_inv_defs list_all_iff)

lemma password_resolved_inv:
  assumes "session_inv s" "r \<in> set (vs_resolving s)"
  shows "session_inv (password_resolved r result s)"
proof -
  let ?s = "s\<lparr>vs_resolving := remove1 r (vs_resolving s)\<rparr>"
  have s: "session_inv ?s"
    using assms(1) set_remove1_subset [of r "vs_resolving s"] by (auto simp: session_inv_defs list_all_iff)
  have r: "r < length (vs_runs s)" using assms by (auto simp: session_inv_defs list_all_iff)
  have "session_inv ((report r (CannotResolve e) ?s)\<lparr>needsManualPassword := True\<rparr>)" for e
    by (rule session_inv_frame [OF report_inv [OF s]]) (use r in simp_all)
  moreover have "session_inv (sendCredentials r p ?s)" for p
    by (rule session_inv_frame [OF s]) (simp_all add: sendCredentials_def)
  ultimately show ?thesis using s by (simp add: password_resolved_def Let_def split: sum.splits)
qed

lemma reconnect_inv: "session_inv s \<Longrightarrow> session_inv (reconnect s)"
  using clear_timer_inv [of s] by (auto simp: reconnect_def session_inv_defs)

lemma typing_inv:
  "session_inv s \<Longrightarrow> session_inv (type_clipboard s)"
  "session_inv s \<Longrightarrow> typing s \<Longrightarrow> session_inv (typing_done failure s)"
  by (auto simp: type_clipboard_def typing_done_def session_inv_defs)

lemma vnc_apply_inv:
  assumes "session_inv s" "vnc_enabled e s"
  shows "session_inv (vnc_apply e s)"
proof (cases e)
  case Submit
  show ?thesis unfolding Submit
    by (simp, rule session_inv_frame [OF assms(1)])
      (simp_all add: submitManualPassword_def sendCredentials_def split: option.splits)
next
  case (Enter p)
  show ?thesis unfolding Enter
    by (simp, rule session_inv_frame [OF assms(1)]) (simp_all add: enter_password_def)
next
  case (StreamError r m)
  show ?thesis unfolding StreamError
    by (simp, rule session_inv_frame [OF assms(1)]) (simp_all add: on_stream_error_def)
qed (use assms in \<open>auto simp: on_securityfailure_def live_run_def
    intro: render_inv on_disconnect_inv timer_fires_inv report_inv on_credentialsrequired_inv
      password_resolved_inv reconnect_inv typing_inv on_connect_inv [unfolded live_run_def]\<close>)

lemma reach_inv: "vnc_reach s \<Longrightarrow> session_inv s"
  by (erule vnc.always) (auto intro: mount_inv vnc_apply_inv)

lemma cleanup_simps [simp]:
  "length (vs_runs (cleanup s)) = length (vs_runs s)" "vs_attempt (cleanup s) = vs_attempt s"
  "vs_credentials (cleanup s) = vs_credentials s"
  by (simp_all add: cleanup_def split: option.splits)

lemma render_again:
  assumes "vs_attempt s \<noteq> vs_ran_attempt s" "connectable (vs_target s)" "s' = render (vs_target s) s"
  shows "rfbRef s' = Some (length (vs_runs s)) \<and> vs_state s' = Connecting \<and> live_run s' (length (vs_runs s)) \<and>
    run_target (run_of s' (length (vs_runs s))) = vs_target s"
  using assms by (simp add: render_def Let_def connect_def connectable_def live_run_def run_of_def nth_append)

section \<open>Properties\<close>

text \<open>C8: At every moment of a session at most one connection is live, the one the console drives, and every
  other has been cancelled; the pauses before a reconnect, current and pending, are \<open>500 \<sqdot> 2\<^sup>k\<close> milliseconds and
  at most 64 seconds; and no two clipboards are being typed at once.\<close>

theorem vnc_session_invariant:
  assumes "vnc_reach s"
  shows "(\<forall>r. live_run s r \<longleftrightarrow> rfbRef s = Some r) \<and>
    (\<forall>b \<in> set (backoffMs s # map (snd \<circ> snd) (vs_timers s)). \<exists>k \<le> 7. b = 500 * 2 ^ k) \<and>
    typings_active s \<le> 1"
  using reach_inv [OF assms] by (auto simp: session_inv_def runs_inv_def timers_inv_def timer_ok_def memory_inv_def backoff_value_def)

text \<open>The console reconnects on its own only a session that has worked: when a timer starts another attempt,
  the connection it was set for is the current one and some earlier connection to the same namespace, pod and
  port had succeeded. A server that never answered is not tried again unasked.\<close>

theorem vnc_reconnect_only_after_success:
  assumes "vnc_reach s" "(i, r, d) \<in> set (vs_timers s)"
    and "vs_attempt (vnc_apply (Timer (i, r, d)) s) \<noteq> vs_attempt s"
  shows "rfbRef s = Some r \<and>
    (\<exists>q < length (vs_runs s). run_connected (run_of s q) \<and>
       session_key (run_target (run_of s q)) = session_key (run_target (run_of s r)))"
proof -
  note inv = reach_inv [OF assms(1)]
  have ok: "timer_ok s (i, r, d)" using inv assms(2) by (auto simp: session_inv_def timers_inv_def)
  have "\<not> cancelled (run_of s r)" using assms(3) by (auto simp: timer_fires_def Let_def split: if_splits)
  with ok have "live_run s r" by (simp add: live_run_def timer_ok_def)
  with inv have r: "rfbRef s = Some r" by (simp add: session_inv_def runs_inv_def)
  with ok have "hasConnected s" by (simp add: timer_ok_def)
  with r inv show ?thesis by (auto simp: session_inv_def runs_inv_def memory_inv_def)
qed

text \<open>C13: A session that has worked comes back: when its connection drops, a timer is set with the current pause,
  and once it fires and the console renders, a new connection to the same target is under way.\<close>

theorem vnc_drop_reconnects:
  assumes "vnc_reach s" "rfbRef s = Some r" "hasConnected s"
  shows "\<exists>t. t \<in> set (vs_timers (vnc_apply (Disconnect r clean) s)) \<and> snd t = (r, backoffMs s) \<and>
    (let s' = vnc_apply (Render (vs_target s)) (vnc_apply (Timer t) (vnc_apply (Disconnect r clean) s))
     in rfbRef s' = Some (length (vs_runs s)) \<and> vs_state s' = Connecting \<and> live_run s' (length (vs_runs s)) \<and>
        run_target (run_of s' (length (vs_runs s))) = vs_target s)"
proof -
  note inv = reach_inv [OF assms(1)]
  have live: "live_run s r" "connectable (vs_target s)" using inv assms(2) by (auto simp: session_inv_def runs_inv_def)
  let ?t = "(vs_next_timer s, r, backoffMs s)"
  let ?s1 = "vnc_apply (Disconnect r clean) s"
  have s1: "?t \<in> set (vs_timers ?s1)" "rfbRef ?s1 = Some r" "vs_runs ?s1 = vs_runs s" "vs_target ?s1 = vs_target s"
    "vs_attempt ?s1 = vs_attempt s"
    using assms live by (auto simp: on_disconnect_def schedule_reconnect_def Let_def live_run_def run_of_def)
  let ?s2 = "vnc_apply (Timer ?t) ?s1"
  have s2: "vs_attempt ?s2 = vs_attempt s + 1" "vs_runs ?s2 = vs_runs s" "vs_target ?s2 = vs_target s"
    "vs_ran_attempt ?s2 = vs_ran_attempt s"
    using assms live
    by (auto simp: timer_fires_def on_disconnect_def schedule_reconnect_def Let_def live_run_def run_of_def)
  moreover have "vs_ran_attempt s \<le> vs_attempt s" using inv by (simp add: session_inv_def memory_inv_def)
  ultimately show ?thesis
    using render_again [of ?s2 "render (vs_target s) ?s2"] live(2) s1(1)
    by (intro exI [of _ ?t]) (simp add: Let_def)
qed

text \<open>A password goes only to the connection in use: each event sends at most one, and only to the connection the
  console currently drives, never to one it has abandoned.\<close>

theorem vnc_credentials_current:
  assumes "vnc_reach s" "vnc_enabled e s"
  shows "vs_credentials (vnc_apply e s) = vs_credentials s \<or>
    (\<exists>r p. vs_credentials (vnc_apply e s) = vs_credentials s @ [(r, p)] \<and> rfbRef s = Some r)"
proof -
  have live: "rfbRef s = Some r" if "r < length (vs_runs s)" "\<not> cancelled (run_of s r)" for r
    using reach_inv [OF assms(1)] that unfolding session_inv_def runs_inv_def live_run_def by blast
  have res: "r < length (vs_runs s)" if "r \<in> set (vs_resolving s)" for r
    using reach_inv [OF assms(1)] that by (auto simp: session_inv_def runs_inv_def list_all_iff)
  show ?thesis
  proof (cases e)
    case (Render tg)
    then show ?thesis by (simp add: render_def Let_def connect_def new_session_def)
  next
    case (Resolved r result)
    then show ?thesis
      using assms(2) live [OF res] by (auto simp: password_resolved_def Let_def report_def sendCredentials_def split: sum.splits)
  qed (auto simp: on_connect_def on_disconnect_def schedule_reconnect_def timer_fires_def on_securityfailure_def
      report_def on_credentialsrequired_def on_stream_error_def reconnect_def submitManualPassword_def
      sendCredentials_def enter_password_def type_clipboard_def typing_done_def Let_def split: prod.splits option.splits)
qed

subsection \<open>Sample sessions\<close>

definition sample_target :: "nat \<Rightarrow> target" where
  "sample_target p = \<lparr>tg_namespace = Some (lit ''n''), tg_pod = Some (lit ''p''), tg_container = lit ''c'',
     tg_port = Some p, tg_auth = None\<rparr>"

definition connected_session :: vnc_session where
  "connected_session = vnc_apply (Connect 0) (mount (sample_target 5900))"

definition dropped_session :: vnc_session where
  "dropped_session = vnc_apply (Disconnect 0 False) connected_session"

lemmas session_ops = mount_def connect_def present_def sample_target_def on_connect_def update_run_def on_disconnect_def
  schedule_reconnect_def lost_error_def run_of_def live_run_def INITIAL_BACKOFF_MS_def MAX_BACKOFF_MS_def
  timer_fires_def render_def cleanup_def clear_timer_def new_session_def session_key_def Let_def

lemma connected_reach: "vnc_reach connected_session"
  unfolding connected_session_def
  by (intro reach_step reach_mount) (simp add: session_ops)

lemma dropped_reach: "vnc_reach dropped_session"
  unfolding dropped_session_def by (intro reach_step connected_reach) (simp add: connected_session_def session_ops)

lemma vnc_session_invariant_witness:
  "rfbRef dropped_session = Some 0 \<and> live_run dropped_session 0 \<and> backoffMs dropped_session = 1000 \<and>
   typings_active dropped_session \<le> 1"
proof -
  have "rfbRef dropped_session = Some 0" "backoffMs dropped_session = 1000" by (simp_all add: dropped_session_def connected_session_def session_ops)
  then show ?thesis using vnc_session_invariant [OF dropped_reach] by simp
qed

lemma vnc_reconnect_only_after_success_witness:
  "rfbRef dropped_session = Some 0 \<and>
    (\<exists>q < length (vs_runs dropped_session). run_connected (run_of dropped_session q) \<and>
       session_key (run_target (run_of dropped_session q)) = session_key (run_target (run_of dropped_session 0)))"
proof -
  have "(0, 0, 500) \<in> set (vs_timers dropped_session)"
    "vs_attempt (vnc_apply (Timer (0, 0, 500)) dropped_session) \<noteq> vs_attempt dropped_session"
    by (simp_all add: dropped_session_def connected_session_def session_ops)
  from vnc_reconnect_only_after_success [OF dropped_reach this] show ?thesis .
qed

lemma vnc_drop_reconnects_witness:
  "\<exists>t. t \<in> set (vs_timers dropped_session) \<and> snd t = (0, 500) \<and>
    (let s' = vnc_apply (Render (sample_target 5900)) (vnc_apply (Timer t) dropped_session)
     in rfbRef s' = Some 1 \<and> vs_state s' = Connecting \<and> live_run s' 1 \<and> run_target (run_of s' 1) = sample_target 5900)"
proof -
  have "rfbRef connected_session = Some 0" "hasConnected connected_session" by (simp_all add: dropped_session_def connected_session_def session_ops)
  moreover have "vs_target connected_session = sample_target 5900" "backoffMs connected_session = 500"
    "length (vs_runs connected_session) = 1"
    by (simp_all add: dropped_session_def connected_session_def session_ops)
  ultimately show ?thesis
    using vnc_drop_reconnects [OF connected_reach, of 0 False] unfolding dropped_session_def by simp
qed

lemma vnc_credentials_current_witness:
  "vs_credentials (vnc_apply Submit connected_session) = vs_credentials connected_session \<or>
    (\<exists>r p. vs_credentials (vnc_apply Submit connected_session) = vs_credentials connected_session @ [(r, p)] \<and>
       rfbRef connected_session = Some r)"
  using vnc_credentials_current [OF connected_reach, of Submit] by simp

text \<open>The \<^verbatim>\<open>disconnect\<close> event of an abandoned connection is still taken for the current one's: after the user
  has switched to another endpoint and its connection has succeeded, the late event of the first one makes the
  console show the live session as disconnected, and no timer is set to repair it.\<close>

theorem stale_disconnect_shown:
  "\<exists>s. vnc_reach s \<and> rfbRef s = Some 1 \<and> live_run s 1 \<and> run_connected (run_of s 1) \<and>
     cancelled (run_of s 0) \<and> vs_state s = Connected \<and>
     vnc_enabled (Disconnect 0 True) s \<and> vs_state (vnc_apply (Disconnect 0 True) s) = Disconnected \<and>
     rfbRef (vnc_apply (Disconnect 0 True) s) = Some 1 \<and> vs_timers (vnc_apply (Disconnect 0 True) s) = []"
proof -
  let ?s = "vnc_apply (Connect 1) (vnc_apply (Render (sample_target 5901)) connected_session)"
  have e: "vnc_enabled (Connect 1) (vnc_apply (Render (sample_target 5901)) connected_session)" by (simp add: dropped_session_def connected_session_def session_ops)
  have "vnc_reach (vnc_apply (Render (sample_target 5901)) connected_session)"
    by (intro reach_step connected_reach) simp
  then have "vnc_reach ?s" using e by (rule reach_step)
  moreover have "rfbRef ?s = Some 1 \<and> live_run ?s 1 \<and> run_connected (run_of ?s 1) \<and>
     cancelled (run_of ?s 0) \<and> vs_state ?s = Connected \<and>
     vnc_enabled (Disconnect 0 True) ?s \<and> vs_state (vnc_apply (Disconnect 0 True) ?s) = Disconnected \<and>
     rfbRef (vnc_apply (Disconnect 0 True) ?s) = Some 1 \<and> vs_timers (vnc_apply (Disconnect 0 True) ?s) = []"
    by (simp add: dropped_session_def connected_session_def session_ops)
  ultimately show ?thesis by blast
qed

end
