(* ===== verification/Term_DebugPod.thy ===== *)
theory Term_DebugPod
  imports Js_Date "HOL-Library.Sublist"
begin

text \<open>
  The debug pod of the Node Terminal tab: the pod specification built from the template or from the cluster's
  ConfigMaps (\<^verbatim>\<open>plugins/terminal/src/node/debugPod.ts\<close>), the user name requested for the session
  (\<^verbatim>\<open>currentUser.ts\<close>) and the check the node-terminal shim makes of it
  (\<^verbatim>\<open>node-terminal/src/identity.c\<close>).

  The Kubernetes API and the YAML parser are parameters: \<open>configMap name\<close> is the \<^verbatim>\<open>data.spec\<close> of a
  ConfigMap (\<open>None\<close> where the request fails or the key is absent), \<open>loadYAML\<close> is \<open>None\<close> where it throws.
  Objects are \<^typ>\<open>jsval\<close>s. A property set on an array is not kept: it does not survive the request's JSON.
\<close>

section \<open>The user name\<close>

definition user_char :: "code_unit \<Rightarrow> bool" where
  "user_char c \<longleftrightarrow> 97 \<le> c \<and> c \<le> 122 \<or> is_digit c \<or> c = 95 \<or> c = 45"

text \<open>\<^verbatim>\<open>replace(/[^a-z0-9_-]+/g, '-')\<close>: each maximal run of other characters becomes one dash.\<close>

fun dash_runs :: "bool \<Rightarrow> jsstring \<Rightarrow> jsstring" where
  "dash_runs in_run [] = []"
| "dash_runs in_run (c # s) =
     (if user_char c then c # dash_runs False s
      else if in_run then dash_runs True s else 45 # dash_runs True s)"

definition user_start :: "code_unit \<Rightarrow> bool" where
  "user_start c \<longleftrightarrow> 97 \<le> c \<and> c \<le> 122 \<or> c = 95"

definition sanitizeUsername :: "host \<Rightarrow> jsstring \<Rightarrow> jsstring" where
  "sanitizeUsername h raw =
     (let localPart = hd (split_on 64 (toLowerCase h raw));
          cleaned = take 32 (trim_end (\<lambda>c. c = 45) (dropWhile (\<lambda>c. c = 45) (dash_runs False localPart)))
      in case cleaned of [] \<Rightarrow> [] | c # _ \<Rightarrow> if user_start c then cleaned else [])"

text \<open>The shim's own check, on bytes.\<close>

definition SHIM_USERNAME_MAX :: nat where "SHIM_USERNAME_MAX = 64"

definition identity_valid_username :: "nat list \<Rightarrow> bool" where
  "identity_valid_username u =
     (case u of
        [] \<Rightarrow> False
      | c0 # cs \<Rightarrow> \<not> length u > SHIM_USERNAME_MAX - 1 \<and> (97 \<le> c0 \<and> c0 \<le> 122 \<or> c0 = 95) \<and>
          list_all (\<lambda>c. 97 \<le> c \<and> c \<le> 122 \<or> 48 \<le> c \<and> c \<le> 57 \<or> c = 95 \<or> c = 45) cs)"

section \<open>Merging specifications\<close>

fun deepMergePodSpec :: "jsval \<Rightarrow> jsval \<Rightarrow> jsval"
  and merge_fields :: "jsval \<Rightarrow> (jsstring \<times> jsval) list \<Rightarrow> (jsstring \<times> jsval) list \<Rightarrow> (jsstring \<times> jsval) list" where
  "deepMergePodSpec target (JObj fs) =
     (case target of JObj ts \<Rightarrow> JObj (merge_fields target fs ts) | _ \<Rightarrow> JObj fs)"
| "deepMergePodSpec target JNull = target"
| "deepMergePodSpec target JUndef = target"
| "deepMergePodSpec target (JBool b) = JBool b"
| "deepMergePodSpec target (JNum n) = JNum n"
| "deepMergePodSpec target (JStr s) = JStr s"
| "deepMergePodSpec target (JArr xs) = JArr xs"
| "deepMergePodSpec target JFun = JFun"
| "merge_fields target [] out = out"
| "merge_fields target ((key, v) # fs) out =
     merge_fields target fs (obj_put key (deepMergePodSpec (get_prop target key) v) out)"

definition set_prop :: "jsstring \<Rightarrow> jsval \<Rightarrow> jsval \<Rightarrow> jsval" where
  "set_prop k v obj = (case obj of JObj fs \<Rightarrow> JObj (obj_put k v fs) | _ \<Rightarrow> obj)"

definition safeYAMLToJS :: "(jsstring \<Rightarrow> jsval option) \<Rightarrow> jsstring \<Rightarrow> jsval" where
  "safeYAMLToJS loadYAML yaml = (case loadYAML yaml of Some v \<Rightarrow> v | None \<Rightarrow> JNull)"

definition getOverridePodSpecFromConfigMap :: "(jsstring \<Rightarrow> jsstring option) \<Rightarrow> (jsstring \<Rightarrow> jsval option) \<Rightarrow>
    jsstring \<Rightarrow> jsstring \<Rightarrow> jsval option" where
  "getOverridePodSpecFromConfigMap configMap loadYAML nodeName configMapName =
     (case configMap configMapName of
        Some (c # cs) \<Rightarrow>
          (let parsed = safeYAMLToJS loadYAML (c # cs)
           in if is_object parsed then Some (set_prop (lit ''nodeName'') (JStr nodeName) parsed) else None)
      | _ \<Rightarrow> None)"

definition DEFAULT_CONFIGMAP_NAME :: jsstring where "DEFAULT_CONFIGMAP_NAME = lit ''node-terminal''"

record node_kind =
  node_name :: jsstring
  node_specReference :: "jsstring option"
  node_operatingSystem :: "jsstring option"

text \<open>The override for a node: the cluster's, with the one the node's annotation names merged over it.\<close>

definition overrideSpec :: "(jsstring \<Rightarrow> jsstring option) \<Rightarrow> (jsstring \<Rightarrow> jsval option) \<Rightarrow> node_kind \<Rightarrow> jsval option" where
  "overrideSpec configMap loadYAML node =
     (let base = getOverridePodSpecFromConfigMap configMap loadYAML (node_name node) DEFAULT_CONFIGMAP_NAME
      in case node_specReference node of
           Some (c # cs) \<Rightarrow>
             (case getOverridePodSpecFromConfigMap configMap loadYAML (node_name node) (c # cs) of
                Some nodeOverride \<Rightarrow>
                  Some (set_prop (lit ''nodeName'') (JStr (node_name node))
                    (deepMergePodSpec (case base of Some b \<Rightarrow> b | None \<Rightarrow> JObj []) nodeOverride))
              | None \<Rightarrow> base)
         | _ \<Rightarrow> base)"

section \<open>The environment of the first container\<close>

definition env_has :: "jsstring \<Rightarrow> jsval list \<Rightarrow> bool" where
  "env_has name env = list_ex (\<lambda>e. get_prop e (lit ''name'') = JStr name) env"

definition env_var :: "jsstring \<Rightarrow> jsstring \<Rightarrow> jsval" where
  "env_var name v = JObj [(lit ''name'', JStr name), (lit ''value'', JStr v)]"

definition env_add :: "jsstring \<Rightarrow> jsval list \<Rightarrow> jsval list \<Rightarrow> jsval list" where
  "env_add name added env = (if env_has name env then env else env @ added)"

definition pod_uid_var :: jsval where
  "pod_uid_var = JObj [(lit ''name'', JStr (lit ''NODE_TERMINAL_POD_UID'')),
     (lit ''valueFrom'', JObj [(lit ''fieldRef'', JObj [(lit ''fieldPath'', JStr (lit ''metadata.uid''))])])]"

text \<open>\<open>tz\<close> is \<^verbatim>\<open>sessionTimeZone()\<close>: the IANA name and the POSIX string.\<close>

definition session_env :: "jsstring option \<Rightarrow> (jsstring \<times> jsstring) option \<Rightarrow> jsval list \<Rightarrow> jsval list" where
  "session_env requestedUsername tz env =
     (let env1 = env_add (lit ''HAVE_SIXEL_SUPPORT'') [env_var (lit ''HAVE_SIXEL_SUPPORT'') (lit ''true'')] env;
          env2 = (case requestedUsername of
              Some (c # cs) \<Rightarrow> env_add (lit ''NODE_TERMINAL_REQUESTED_USER'')
                [env_var (lit ''NODE_TERMINAL_REQUESTED_USER'') (c # cs)] env1
            | _ \<Rightarrow> env1);
          env3 = (case tz of
              Some (name, posix) \<Rightarrow> env_add (lit ''NODE_TERMINAL_TZ'')
                [env_var (lit ''NODE_TERMINAL_TZ'') name, env_var (lit ''NODE_TERMINAL_TZ_POSIX'') posix] env2
            | None \<Rightarrow> env2);
          env4 = env_add (lit ''NODE_TERMINAL_EXEC_MODE'') [env_var (lit ''NODE_TERMINAL_EXEC_MODE'') (lit ''true'')] env3
      in env_add (lit ''NODE_TERMINAL_POD_UID'') [pod_uid_var] env4)"

text \<open>
  \<^verbatim>\<open>c0.env = c0.env || []\<close> and the additions: \<open>None\<close> is the TypeError of a container that is not an object
  or whose \<^verbatim>\<open>env\<close> has no \<^verbatim>\<open>some\<close>.
\<close>

definition container_env :: "jsval \<Rightarrow> jsval list option" where
  "container_env c0 =
     (if \<not> is_object c0 then None
      else let env = get_prop c0 (lit ''env'')
           in if falsy env then Some [] else case env of JArr es \<Rightarrow> Some es | _ \<Rightarrow> None)"

definition with_session_env :: "jsstring option \<Rightarrow> (jsstring \<times> jsstring) option \<Rightarrow> jsval \<Rightarrow> jsval option" where
  "with_session_env requestedUsername tz spec =
     (case get_prop spec (lit ''containers'') of
        JArr (c0 # cs) \<Rightarrow>
          map_option (\<lambda>env. set_prop (lit ''containers'')
              (JArr (set_prop (lit ''env'') (JArr (session_env requestedUsername tz env)) c0 # cs)) spec)
            (container_env c0)
      | _ \<Rightarrow> Some spec)"

section \<open>The pod\<close>

definition source_container :: "jsval \<Rightarrow> jsval" where
  "source_container spec =
     (case get_prop spec (lit ''containers'') of
        JArr (c0 # cs) \<Rightarrow> (let n = get_prop c0 (lit ''name'') in if falsy n then JStr (lit ''container-00'') else n)
      | _ \<Rightarrow> JStr (lit ''container-00''))"

definition debug_pod :: "jsstring \<Rightarrow> jsstring \<Rightarrow> jsstring \<Rightarrow> jsval \<Rightarrow> jsval \<Rightarrow> jsval" where
  "debug_pod name namespace nodeName source spec =
     JObj [(lit ''kind'', JStr (lit ''Pod'')), (lit ''apiVersion'', JStr (lit ''v1'')),
       (lit ''metadata'', JObj [(lit ''name'', JStr name), (lit ''namespace'', JStr namespace),
          (lit ''annotations'', JObj [(lit ''debug.openshift.io/source-container'', source),
             (lit ''debug.openshift.io/source-resource'', JStr (lit ''/v1, Resource=nodes/'' @ nodeName)),
             (lit ''openshift.io/scc'', JStr (lit ''privileged''))])]),
       (lit ''spec'', spec)]"

definition host_volume :: jsval where
  "host_volume = JObj [(lit ''name'', JStr (lit ''host'')),
     (lit ''hostPath'', JObj [(lit ''path'', JStr (lit ''/'')), (lit ''type'', JStr (lit ''Directory''))])]"

definition security_context :: "bool \<Rightarrow> jsval" where
  "security_context isWindows =
     (if isWindows then JObj [(lit ''windowsOptions'', JObj [(lit ''runAsUserName'', JStr (lit ''ContainerUser''))])]
      else JObj [(lit ''privileged'', JBool True), (lit ''runAsUser'', JNum (Dec 0 0))])"

definition template_container :: "bool \<Rightarrow> jsstring \<Rightarrow> jsval" where
  "template_container isWindows img =
     JObj [(lit ''command'', JArr [JStr (lit ''/bin/sh'')]),
       (lit ''env'', JArr [env_var (lit ''TMOUT'') (lit ''900''), env_var (lit ''HOST'') (lit ''/host'')]),
       (lit ''image'', JStr img), (lit ''name'', JStr (lit ''container-00'')), (lit ''resources'', JObj []),
       (lit ''securityContext'', security_context isWindows),
       (lit ''stdin'', JBool True), (lit ''stdinOnce'', JBool True), (lit ''tty'', JBool True),
       (lit ''volumeMounts'', JArr [JObj [(lit ''name'', JStr (lit ''host'')), (lit ''mountPath'', JStr (lit ''/host''))]])]"

definition template_spec :: "bool \<Rightarrow> jsstring \<Rightarrow> jsstring \<Rightarrow> jsval" where
  "template_spec isWindows img nodeName =
     JObj ([(lit ''containers'', JArr [template_container isWindows img]),
       (lit ''hostIPC'', JBool (\<not> isWindows)), (lit ''hostPID'', JBool (\<not> isWindows)),
       (lit ''hostNetwork'', JBool True), (lit ''nodeName'', JStr nodeName),
       (lit ''restartPolicy'', JStr (lit ''Never'')), (lit ''volumes'', JArr [host_volume])] @
       (if isWindows then [(lit ''OS'', JStr (lit ''windows''))] else []))"

definition getDebugImage :: "jsstring option \<Rightarrow> jsstring" where
  "getDebugImage istag = (case istag of Some i \<Rightarrow> i | None \<Rightarrow> lit ''registry.redhat.io/rhel8/support-tools'')"

definition getDebugPod :: "(jsstring \<Rightarrow> jsstring option) \<Rightarrow> (jsstring \<Rightarrow> jsval option) \<Rightarrow> jsstring option \<Rightarrow>
    (jsstring \<times> jsstring) option \<Rightarrow> jsstring \<Rightarrow> jsstring \<Rightarrow> node_kind \<Rightarrow> jsstring option \<Rightarrow> jsval option" where
  "getDebugPod configMap loadYAML istag tz name namespace node requestedUsername =
     (case overrideSpec configMap loadYAML node of
        Some spec \<Rightarrow>
          map_option (\<lambda>spec'. debug_pod name namespace (node_name node) (source_container spec') spec')
            (with_session_env requestedUsername tz spec)
      | None \<Rightarrow>
          Some (debug_pod name namespace (node_name node) (JStr (lit ''container-00''))
            (template_spec (node_operatingSystem node = Some (lit ''windows'')) (getDebugImage istag) (node_name node))))"

section \<open>Properties of the user name\<close>

lemma dash_runs_chars: "c \<in> set (dash_runs b s) \<Longrightarrow> user_char c"
  by (induction b s rule: dash_runs.induct) (auto simp: user_char_def split: if_splits)

text \<open>Whatever name the identity provider has for the user, the name the console asks for is either empty (and
  then not asked for) or one the shim accepts as a host account, within 32 characters.\<close>

theorem sanitizeUsername_accepted:
  "sanitizeUsername h raw = [] \<or>
   identity_valid_username (sanitizeUsername h raw) \<and> length (sanitizeUsername h raw) \<le> 32"
proof -
  define cleaned where "cleaned = take 32 (trim_end (\<lambda>c. c = 45) (dropWhile (\<lambda>c. c = 45)
    (dash_runs False (hd (split_on 64 (toLowerCase h raw))))))"
  have len: "length cleaned \<le> 32" by (simp add: cleaned_def)
  have "user_char c" if "c \<in> set cleaned" for c
    using that set_trim_end dash_runs_chars unfolding cleaned_def
    by (meson in_set_takeD in_mono set_dropWhileD)
  then have "list_all user_char cleaned" by (simp add: list_all_iff)
  moreover have "sanitizeUsername h raw =
      (case cleaned of [] \<Rightarrow> [] | c # _ \<Rightarrow> if user_start c then cleaned else [])"
    by (simp only: sanitizeUsername_def cleaned_def Let_def)
  ultimately show ?thesis
    using len by (auto simp: identity_valid_username_def SHIM_USERNAME_MAX_def user_start_def list_all_iff
        user_char_def is_digit_def split: list.splits)
qed

lemma dash_runs_id: "list_all user_char s \<Longrightarrow> dash_runs b s = s"
  by (induction s arbitrary: b) simp_all

text \<open>A name that is already a proper account name is asked for as it is, whatever mail domain follows it.\<close>

theorem sanitizeUsername_keeps:
  assumes "list_all user_char u" "u \<noteq> []" "user_start (hd u)" "last u \<noteq> 45" "length u \<le> 32"
    and "toLowerCase h (u @ domain) = u @ domain" "domain = [] \<or> hd domain = 64"
  shows "sanitizeUsername h (u @ domain) = u"
proof -
  have "64 \<notin> set u" using assms(1) by (auto simp: list_all_iff user_char_def is_digit_def)
  then have "hd (split_on 64 (u @ domain)) = u"
    using assms(7) by (cases domain) auto
  moreover have "dropWhile (\<lambda>c. c = 45) u = u"
    using assms(2,3) by (cases u) (auto simp: user_start_def)
  ultimately show ?thesis
    using assms by (auto simp: sanitizeUsername_def dash_runs_id trim_end_id neq_Nil_conv)
qed

lemma sanitizeUsername_keeps_witness:
  "sanitizeUsername ascii_host (lit ''jane-doe'' @ lit ''@example.org'') = lit ''jane-doe''"
proof -
  have "toLowerCase ascii_host (lit ''jane-doe'' @ lit ''@example.org'') = lit ''jane-doe'' @ lit ''@example.org''"
    by (simp add: ascii_host_def ascii_lower_def)
  then show ?thesis
    by (intro sanitizeUsername_keeps) (simp_all add: user_char_def user_start_def is_digit_def)
qed

section \<open>Properties of the merge\<close>

fun path_get :: "jsval \<Rightarrow> jsstring list \<Rightarrow> jsval option" where
  "path_get v [] = Some v"
| "path_get (JObj fs) (k # p) = (case own fs k of None \<Rightarrow> None | Some x \<Rightarrow> path_get x p)"
| "path_get _ (k # p) = None"

text \<open>The path leaves the override: at some object on the way the next key is missing.\<close>

fun misses :: "jsval \<Rightarrow> jsstring list \<Rightarrow> bool" where
  "misses (JObj fs) (k # p) = (case own fs k of None \<Rightarrow> True | Some x \<Rightarrow> misses x p)"
| "misses _ _ = False"

lemma own_Cons: "own ((key, v) # fs) k = (if k = key then Some v else own fs k)"
  by (simp add: own_def)

lemma merge_fields_own:
  "distinct (map fst fs) \<Longrightarrow>
   own (merge_fields target fs out) k =
     (case own fs k of None \<Rightarrow> own out k | Some v \<Rightarrow> Some (deepMergePodSpec (get_prop target k) v))"
proof (induction fs arbitrary: out)
  case Nil
  then show ?case by (simp add: own_def)
next
  case (Cons f fs)
  obtain key v where f: "f = (key, v)" by fastforce
  from Cons.prems f have "own fs key = None" by (auto simp: own_def map_of_eq_None_iff image_iff)
  with Cons show ?case by (auto simp: f own_obj_put own_Cons split: option.splits)
qed

fun wf_json :: "jsval \<Rightarrow> bool" where
  "wf_json (JObj fs) = (distinct (map fst fs) \<and> list_all (\<lambda>f. wf_json (snd f)) fs)"
| "wf_json (JArr xs) = list_all wf_json xs"
| "wf_json _ = True"

definition leaf :: "jsval \<Rightarrow> bool" where
  "leaf v = (case v of JObj _ \<Rightarrow> False | JNull \<Rightarrow> False | JUndef \<Rightarrow> False | _ \<Rightarrow> True)"

lemma wf_own: "wf_json (JObj fs) \<Longrightarrow> own fs k = Some v \<Longrightarrow> wf_json v"
  by (auto simp: own_def list_all_iff dest!: map_of_SomeD)

lemma merge_leaf:
  "wf_json s \<Longrightarrow> path_get s p = Some v \<Longrightarrow> leaf v \<Longrightarrow> path_get (deepMergePodSpec t s) p = Some v"
proof (induction s p arbitrary: t rule: path_get.induct)
  case (1 s)
  then show ?case by (cases s) (auto simp: leaf_def)
next
  case (2 fs k p)
  then obtain x where x: "own fs k = Some x" "path_get x p = Some v" by (auto split: option.splits)
  then have "path_get (deepMergePodSpec u x) p = Some v" for u
    using 2 wf_own by blast
  with x 2(2) show ?case by (cases t) (auto simp: merge_fields_own)
qed simp_all

lemma merge_missed:
  "wf_json s \<Longrightarrow> misses s p \<Longrightarrow> path_get (deepMergePodSpec t s) p = path_get t p"
proof (induction s p arbitrary: t rule: misses.induct)
  case (1 fs k p)
  have none: "path_get s q = None" if "misses s q" for s q
    using that by (induction s q rule: misses.induct) (auto split: option.splits)
  show ?case
  proof (cases t)
    case (JObj ts)
    then show ?thesis
    proof (cases "own fs k")
      case None
      with JObj 1(2) show ?thesis by (simp add: merge_fields_own)
    next
      case (Some x)
      then have IH: "path_get (deepMergePodSpec u x) p = path_get u p" for u using 1 wf_own by fastforce
      have "path_get u p = None" if "u = JFun \<or> u = JObj [] \<or> u = JUndef" for u
        using that IH [of u] Some 1(3) by (cases p) (auto simp: own_def)
      then show ?thesis
        using JObj 1(2) Some IH
        by (auto simp: merge_fields_own get_prop_def obj_lookup_def object_inherited_def split: option.splits)
    qed
  qed (use none [of "JObj fs" "k # p"] 1(3) in auto)
qed simp_all

text \<open>The node's own specification overrides the cluster's field by field: a value the override gives (a scalar or
  an array, at any depth) is the value of the merged specification, and a path the override does not mention keeps
  what the base had there.\<close>

theorem deepMergePodSpec_overrides:
  assumes "wf_json s"
  shows "(\<forall>p v. path_get s p = Some v \<and> leaf v \<longrightarrow> path_get (deepMergePodSpec t s) p = Some v) \<and>
    (\<forall>p. misses s p \<longrightarrow> path_get (deepMergePodSpec t s) p = path_get t p)"
  using assms merge_leaf merge_missed by blast

lemma deepMergePodSpec_overrides_witness:
  "path_get (deepMergePodSpec (JObj [(lit ''a'', JObj [(lit ''b'', JNull)])]) (JObj [(lit ''a'', JObj [(lit ''c'', JBool True)])]))
     [lit ''a'', lit ''c''] = Some (JBool True) \<and>
   path_get (deepMergePodSpec (JObj [(lit ''a'', JObj [(lit ''b'', JNull)])]) (JObj [(lit ''a'', JObj [(lit ''c'', JBool True)])]))
     [lit ''a'', lit ''b''] = Some JNull"
proof -
  let ?s = "JObj [(lit ''a'', JObj [(lit ''c'', JBool True)])]"
  let ?t = "JObj [(lit ''a'', JObj [(lit ''b'', JNull)])]"
  have wf: "wf_json ?s" by simp
  have "path_get ?s [lit ''a'', lit ''c''] = Some (JBool True)" "leaf (JBool True)" "misses ?s [lit ''a'', lit ''b'']"
    "path_get ?t [lit ''a'', lit ''b''] = Some JNull"
    by (simp_all add: own_def leaf_def)
  then show ?thesis using deepMergePodSpec_overrides [OF wf, of ?t] by (simp only: simp_thms)
qed

section \<open>Properties of the pod\<close>

lemma set_prop_own: "set_prop k v obj = JObj fs \<Longrightarrow> own fs k = Some v"
  by (auto simp: set_prop_def own_obj_put split: jsval.splits)

lemma set_prop_other: "set_prop k v obj = JObj fs \<Longrightarrow> k' \<noteq> k \<Longrightarrow> \<exists>gs. obj = JObj gs \<and> own fs k' = own gs k'"
  by (auto simp: set_prop_def own_obj_put split: jsval.splits)

lemma overrideSpec_nodeName:
  "overrideSpec configMap loadYAML node = Some (JObj fs) \<Longrightarrow> own fs (lit ''nodeName'') = Some (JStr (node_name node))"
  by (auto simp: overrideSpec_def getOverridePodSpecFromConfigMap_def Let_def simp del: lit_Cons
      split: option.splits list.splits if_splits dest!: set_prop_own)

lemma with_session_env_nodeName:
  assumes "with_session_env u tz spec = Some (JObj fs)"
  obtains gs where "spec = JObj gs" "own fs (lit ''nodeName'') = own gs (lit ''nodeName'')"
  using assms set_prop_other [of "lit ''containers''" _ spec fs "lit ''nodeName''"]
  by (auto simp: with_session_env_def split: jsval.splits list.splits)

lemma debug_pod_paths:
  "path_get (debug_pod name namespace nodeName source spec) (lit ''spec'' # p) = path_get spec p"
  "path_get (debug_pod name namespace nodeName source spec) [lit ''metadata'', lit ''namespace''] = Some (JStr namespace)"
  "path_get (debug_pod name namespace nodeName source spec) [lit ''metadata'', lit ''name''] = Some (JStr name)"
  by (simp_all add: debug_pod_def own_def)

text \<open>C34: The debug pod runs on the node it was opened for and in the namespace made for it, whatever the cluster's
  ConfigMaps say.\<close>

theorem debug_pod_pinned:
  assumes "getDebugPod configMap loadYAML istag tz name namespace node u = Some pod"
    and "path_get pod [lit ''spec''] = Some (JObj fs)"
  shows "path_get pod [lit ''spec'', lit ''nodeName''] = Some (JStr (node_name node)) \<and>
    path_get pod [lit ''metadata'', lit ''namespace''] = Some (JStr namespace) \<and>
    path_get pod [lit ''metadata'', lit ''name''] = Some (JStr name)"
proof -
  obtain source spec where pod: "pod = debug_pod name namespace (node_name node) source spec"
    and spec: "spec = template_spec (node_operatingSystem node = Some (lit ''windows'')) (getDebugImage istag) (node_name node) \<or>
      (\<exists>base. overrideSpec configMap loadYAML node = Some base \<and> with_session_env u tz base = Some spec)"
    using assms(1) by (auto simp: getDebugPod_def simp del: lit_Cons split: option.splits)
  have "path_get spec [lit ''nodeName''] = Some (JStr (node_name node))"
    using spec
  proof
    assume "spec = template_spec (node_operatingSystem node = Some (lit ''windows'')) (getDebugImage istag) (node_name node)"
    then show ?thesis by (simp add: template_spec_def own_def)
  next
    assume "\<exists>base. overrideSpec configMap loadYAML node = Some base \<and> with_session_env u tz base = Some spec"
    then obtain base where base: "overrideSpec configMap loadYAML node = Some base" "with_session_env u tz base = Some spec"
      by blast
    have fs: "spec = JObj fs" using assms(2) debug_pod_paths(1) [of name namespace _ source spec "[]"] pod by simp
    obtain gs where "base = JObj gs" "own fs (lit ''nodeName'') = own gs (lit ''nodeName'')"
      using with_session_env_nodeName base(2) fs by blast
    then have "own fs (lit ''nodeName'') = Some (JStr (node_name node))"
      using overrideSpec_nodeName base(1) by simp
    then show ?thesis by (simp add: fs)
  qed
  then show ?thesis using debug_pod_paths pod by simp
qed

definition sample_node :: node_kind where
  "sample_node = \<lparr>node_name = lit ''n1'', node_specReference = None, node_operatingSystem = None\<rparr>"

lemma debug_pod_pinned_witness:
  "path_get (the (getDebugPod (\<lambda>_. None) (\<lambda>_. None) None None (lit ''p'') (lit ''ns'') sample_node None))
     [lit ''spec'', lit ''nodeName''] = Some (JStr (lit ''n1'')) \<and>
   path_get (the (getDebugPod (\<lambda>_. None) (\<lambda>_. None) None None (lit ''p'') (lit ''ns'') sample_node None))
     [lit ''metadata'', lit ''namespace''] = Some (JStr (lit ''ns'')) \<and>
   path_get (the (getDebugPod (\<lambda>_. None) (\<lambda>_. None) None None (lit ''p'') (lit ''ns'') sample_node None))
     [lit ''metadata'', lit ''name''] = Some (JStr (lit ''p''))"
proof -
  have none: "overrideSpec (\<lambda>_. None) (\<lambda>_. None) sample_node = None"
    by (simp add: overrideSpec_def getOverridePodSpecFromConfigMap_def sample_node_def)
  then obtain pod where pod: "getDebugPod (\<lambda>_. None) (\<lambda>_. None) None None (lit ''p'') (lit ''ns'') sample_node None = Some pod"
    by (simp add: getDebugPod_def del: lit_Cons)
  then obtain fs where "path_get pod [lit ''spec''] = Some (JObj fs)"
    using none debug_pod_paths(1) [where p = "[]"] by (auto simp: getDebugPod_def template_spec_def simp del: lit_Cons)
  moreover have "node_name sample_node = lit ''n1''" by (simp add: sample_node_def)
  ultimately show ?thesis using debug_pod_pinned [OF pod] by (simp add: pod del: lit_Cons)
qed

definition named :: "jsstring \<Rightarrow> jsval \<Rightarrow> bool" where
  "named n e \<longleftrightarrow> get_prop e (lit ''name'') = JStr n"

lemma env_has_ex: "env_has n env \<longleftrightarrow> list_ex (named n) env"
  by (simp add: env_has_def named_def list_ex_iff)

lemma env_add_prefix: "prefix env (env_add n added env)"
  by (simp add: env_add_def)

lemma env_add_has: "list_ex (named n) added \<Longrightarrow> env_has n (env_add n added env)"
  by (auto simp: env_add_def env_has_ex)

lemma env_add_keeps: "env_has m env \<Longrightarrow> env_has m (env_add n added env)"
  by (auto simp: env_add_def env_has_def)

lemma env_add_filter:
  "env_has m env \<Longrightarrow> list_all (\<lambda>e. named m e \<longrightarrow> m = n) added \<Longrightarrow>
   filter (named m) (env_add n added env) = filter (named m) env"
  by (auto simp: env_add_def filter_empty_conv list_all_iff)

lemma named_env_var [simp]: "named m (env_var n v) \<longleftrightarrow> m = n"
  by (auto simp: named_def env_var_def get_prop_def obj_lookup_def own_def)

lemma named_pod_uid_var [simp]: "named m pod_uid_var \<longleftrightarrow> m = lit ''NODE_TERMINAL_POD_UID''"
  by (auto simp: named_def pod_uid_var_def get_prop_def obj_lookup_def own_def)

text \<open>The session's variables are added, never overridden: the specification's own entries stay, in place and
  first; the variables the shim needs are there; and a variable the specification sets itself (the POSIX half of the
  time zone apart) is not set a second time.\<close>

theorem session_env_adds:
  "prefix env (session_env u tz env) \<and>
   list_all (\<lambda>n. env_has n (session_env u tz env))
     [lit ''HAVE_SIXEL_SUPPORT'', lit ''NODE_TERMINAL_EXEC_MODE'', lit ''NODE_TERMINAL_POD_UID''] \<and>
   (n \<noteq> lit ''NODE_TERMINAL_TZ_POSIX'' \<and> env_has n env \<longrightarrow>
      filter (named n) (session_env u tz env) = filter (named n) env)"
proof (intro conjI impI)
  show "prefix env (session_env u tz env)"
    unfolding session_env_def Let_def
    by (auto split: option.splits list.splits intro!: prefix_order.trans [OF _ env_add_prefix] simp del: lit_Cons)
  show "list_all (\<lambda>n. env_has n (session_env u tz env))
     [lit ''HAVE_SIXEL_SUPPORT'', lit ''NODE_TERMINAL_EXEC_MODE'', lit ''NODE_TERMINAL_POD_UID'']"
    unfolding session_env_def Let_def
    by (auto split: option.splits list.splits simp del: lit_Cons simp: env_add_has env_add_keeps)
  assume n: "n \<noteq> lit ''NODE_TERMINAL_TZ_POSIX'' \<and> env_has n env"
  then show "filter (named n) (session_env u tz env) = filter (named n) env"
    unfolding session_env_def Let_def
    by (auto split: option.splits list.splits simp del: lit_Cons simp: env_add_filter env_add_keeps)
qed

lemma session_env_adds_witness:
  "prefix [env_var (lit ''NODE_TERMINAL_EXEC_MODE'') (lit ''x'')] (session_env None None [env_var (lit ''NODE_TERMINAL_EXEC_MODE'') (lit ''x'')]) \<and>
   filter (named (lit ''NODE_TERMINAL_EXEC_MODE'')) (session_env None None [env_var (lit ''NODE_TERMINAL_EXEC_MODE'') (lit ''x'')]) =
     [env_var (lit ''NODE_TERMINAL_EXEC_MODE'') (lit ''x'')]"
  using session_env_adds [of "[env_var (lit ''NODE_TERMINAL_EXEC_MODE'') (lit ''x'')]" None None "lit ''NODE_TERMINAL_EXEC_MODE''"]
  by (simp add: env_has_ex)

end
