(* ===== verification/Term_NodeTab.thy ===== *)
theory Term_NodeTab
  imports Event_System
begin

text \<open>
  The lifecycle of the Node Terminal tab, \<^verbatim>\<open>plugins/terminal/src/node/NodeTerminalTab.tsx\<close>: the effect
  that creates a namespace and a debug pod for the node and deletes the namespace again, the effect that opens the
  exec session, and what the tab shows.

  Each run of the first effect is a \<open>tab_run\<close> with the variable \<^verbatim>\<open>namespace\<close> of its closure and the point its
  asynchronous \<^verbatim>\<open>createDebugPod\<close> has reached; the answers of the API server are steps. The cluster is the list
  of namespaces created and the list of deletions asked for.
\<close>

section \<open>State\<close>

datatype phase = CreatingNamespace | PreparingPod | CreatingPod | Finished | Failed

record tab_run =
  tr_node :: jsstring
  tr_phase :: phase
  tr_namespace :: "jsstring option"
  tr_cleaned :: bool
  tr_late :: bool

record node_tab =
  nt_node :: jsstring
  nt_runs :: "tab_run list"
  nt_current :: "nat option"
  podName :: jsstring
  podNamespace :: jsstring
  errorMessage :: jsstring
  nt_namespaces :: "jsstring list"
  nt_deletes :: "jsstring list"
  execRef :: "(jsstring \<times> jsstring) option"
  nt_exec_alive :: bool
  nt_mounted :: bool

text \<open>
  \<open>tr_late\<close> records that the namespace came to be known only after the cleanup; the code has no such variable.
\<close>

definition tab_update :: "nat \<Rightarrow> (tab_run \<Rightarrow> tab_run) \<Rightarrow> node_tab \<Rightarrow> node_tab" where
  "tab_update r f s = s\<lparr>nt_runs := (nt_runs s)[r := f (nt_runs s ! r)]\<rparr>"

section \<open>Operations\<close>

definition debug_name :: "jsstring \<Rightarrow> jsstring" where
  "debug_name nodeName = map (\<lambda>c. if c = 46 then 45 else c) nodeName @ lit ''-debug''"

definition deleteNamespace :: "jsstring option \<Rightarrow> node_tab \<Rightarrow> node_tab" where
  "deleteNamespace ns s = (case ns of None \<Rightarrow> s | Some n \<Rightarrow> s\<lparr>nt_deletes := nt_deletes s @ [n]\<rparr>)"

definition start_effect :: "node_tab \<Rightarrow> node_tab" where
  "start_effect s =
     (if nt_node s = [] then s
      else s\<lparr>nt_runs := nt_runs s @ [\<lparr>tr_node = nt_node s, tr_phase = CreatingNamespace, tr_namespace = None,
                                      tr_cleaned = False, tr_late = False\<rparr>],
             nt_current := Some (length (nt_runs s))\<rparr>)"

text \<open>The cleanup destroys the exec channel (the ref still holds it) and deletes the namespace, if the closure knows it by then.\<close>

definition cleanup_effect :: "node_tab \<Rightarrow> node_tab" where
  "cleanup_effect s =
     (case nt_current s of
        None \<Rightarrow> s
      | Some r \<Rightarrow>
          (deleteNamespace (tr_namespace (nt_runs s ! r)) (tab_update r (\<lambda>t. t\<lparr>tr_cleaned := True\<rparr>) s))
          \<lparr>nt_current := None, nt_exec_alive := False\<rparr>)"

definition tab_mount :: "jsstring \<Rightarrow> node_tab" where
  "tab_mount node = start_effect \<lparr>nt_node = node, nt_runs = [], nt_current = None, podName = [], podNamespace = [],
     errorMessage = [], nt_namespaces = [], nt_deletes = [], execRef = None, nt_exec_alive = False, nt_mounted = True\<rparr>"

definition set_node :: "jsstring \<Rightarrow> node_tab \<Rightarrow> node_tab" where
  "set_node node s = (if node = nt_node s then s else start_effect ((cleanup_effect s)\<lparr>nt_node := node\<rparr>))"

definition tab_unmount :: "node_tab \<Rightarrow> node_tab" where
  "tab_unmount s = (cleanup_effect s)\<lparr>nt_mounted := False, execRef := None\<rparr>"

text \<open>The page is being closed: the listener of the current effect asks for the deletion.\<close>

definition closeTab :: "node_tab \<Rightarrow> node_tab" where
  "closeTab s =
     (case nt_current s of None \<Rightarrow> s | Some r \<Rightarrow> deleteNamespace (tr_namespace (nt_runs s ! r)) s)"

definition creation_fails :: "nat \<Rightarrow> jsstring \<Rightarrow> node_tab \<Rightarrow> node_tab" where
  "creation_fails r e s =
     deleteNamespace (tr_namespace (nt_runs s ! r))
       ((tab_update r (\<lambda>t. t\<lparr>tr_phase := Failed\<rparr>) s)\<lparr>errorMessage := e\<rparr>)"

definition namespace_created :: "nat \<Rightarrow> jsstring \<Rightarrow> node_tab \<Rightarrow> node_tab" where
  "namespace_created r name s =
     (if name = [] then creation_fails r (lit ''Debug namespace was created without a name.'') s
      else (tab_update r (\<lambda>t. t\<lparr>tr_phase := PreparingPod, tr_namespace := Some name, tr_late := tr_cleaned t\<rparr>) s)
           \<lparr>nt_namespaces := nt_namespaces s @ [name]\<rparr>)"

definition pod_prepared :: "nat \<Rightarrow> node_tab \<Rightarrow> node_tab" where
  "pod_prepared r s = tab_update r (\<lambda>t. t\<lparr>tr_phase := CreatingPod\<rparr>) s"

definition pod_created :: "nat \<Rightarrow> bool \<Rightarrow> node_tab \<Rightarrow> node_tab" where
  "pod_created r answered s =
     (let s1 = tab_update r (\<lambda>t. t\<lparr>tr_phase := Finished\<rparr>) s
      in if answered
         then s1\<lparr>podName := debug_name (tr_node (nt_runs s ! r)), podNamespace := the (tr_namespace (nt_runs s ! r))\<rparr>
         else s1)"

text \<open>The exec effect, run again whenever the watched pod's phase or identity changes.\<close>

definition exec_effect :: "bool \<Rightarrow> jsstring \<Rightarrow> jsstring \<Rightarrow> node_tab \<Rightarrow> node_tab" where
  "exec_effect running name namespace s = 
     s\<lparr>execRef := (if running then Some (namespace, name) else None), nt_exec_alive := running\<rparr>"

datatype node_view = ErrorBox jsstring | LoadingBox | DebugPodGone | PodFailed | TerminalView

record watched_pod =
  wp_phase :: "jsstring option"
  wp_terminated :: "jsstring option"
  wp_message :: "jsstring option"

text \<open>What the tab shows; \<open>watched\<close> is the result of watching the pod: the pod, loaded, load error.\<close>

definition tab_view :: "watched_pod option \<Rightarrow> bool \<Rightarrow> jsstring option \<Rightarrow> node_tab \<Rightarrow> node_view" where
  "tab_view pod loaded loadError s =
     (if errorMessage s \<noteq> [] then ErrorBox (errorMessage s)
      else if podName s = [] then LoadingBox
      else case loadError of
        Some e \<Rightarrow> ErrorBox e
      | None \<Rightarrow>
          if \<not> loaded then LoadingBox
          else case pod of
            None \<Rightarrow> DebugPodGone
          | Some p \<Rightarrow>
              if wp_phase p = Some (lit ''Failed'')
              then (case wp_terminated p of
                      Some (c # m) \<Rightarrow> ErrorBox (c # m)
                    | _ \<Rightarrow> (case wp_message p of Some (c # m) \<Rightarrow> ErrorBox (c # m) | _ \<Rightarrow> PodFailed))
              else if wp_phase p \<noteq> Some (lit ''Running'') then LoadingBox
              else TerminalView)"

section \<open>The steps\<close>

datatype tab_event = SetNode jsstring | Unmount | CloseTab | NamespaceCreated nat jsstring | CreationFails nat jsstring
  | PodPrepared nat | PodCreated nat bool | ExecEffect bool jsstring jsstring

fun tab_apply :: "tab_event \<Rightarrow> node_tab \<Rightarrow> node_tab" where
  "tab_apply (SetNode n) s = set_node n s"
| "tab_apply Unmount s = tab_unmount s"
| "tab_apply CloseTab s = closeTab s"
| "tab_apply (NamespaceCreated r n) s = namespace_created r n s"
| "tab_apply (CreationFails r e) s = creation_fails r e s"
| "tab_apply (PodPrepared r) s = pod_prepared r s"
| "tab_apply (PodCreated r answered) s = pod_created r answered s"
| "tab_apply (ExecEffect running n ns) s = exec_effect running n ns s"

text \<open>The API server gives every namespace a name no other has (the request has a \<^verbatim>\<open>generateName\<close>).\<close>

definition tab_phase :: "node_tab \<Rightarrow> nat \<Rightarrow> phase" where
  "tab_phase s r = tr_phase (nt_runs s ! r)"

fun tab_enabled :: "tab_event \<Rightarrow> node_tab \<Rightarrow> bool" where
  "tab_enabled (SetNode n) s = nt_mounted s"
| "tab_enabled Unmount s = nt_mounted s"
| "tab_enabled CloseTab s = nt_mounted s"
| "tab_enabled (NamespaceCreated r n) s =
     (r < length (nt_runs s) \<and> tab_phase s r = CreatingNamespace \<and> n \<notin> set (nt_namespaces s))"
| "tab_enabled (CreationFails r e) s = (r < length (nt_runs s) \<and> tab_phase s r \<in> {CreatingNamespace, PreparingPod, CreatingPod})"
| "tab_enabled (PodPrepared r) s = (r < length (nt_runs s) \<and> tab_phase s r = PreparingPod)"
| "tab_enabled (PodCreated r answered) s = (r < length (nt_runs s) \<and> tab_phase s r = CreatingPod)"
| "tab_enabled (ExecEffect running n ns) s = nt_mounted s"

inductive tab_reach :: "node_tab \<Rightarrow> bool" where
  reach_tab_mount: "tab_reach (tab_mount node)"
| reach_tab_step: "tab_reach s \<Longrightarrow> tab_enabled e s \<Longrightarrow> tab_reach (tab_apply e s)"

interpretation tab: event_system "\<lambda>s. \<exists>node. s = tab_mount node" tab_enabled tab_apply tab_reach
  by (unfold_locales, auto intro: tab_reach.intros) (erule tab_reach.induct, auto)

section \<open>The invariant\<close>

definition run_ok :: "node_tab \<Rightarrow> nat \<Rightarrow> bool" where
  "run_ok s r \<longleftrightarrow>
     (let t = nt_runs s ! r
      in (case tr_namespace t of
            None \<Rightarrow> tr_phase t \<in> {CreatingNamespace, Failed} \<and> \<not> tr_late t
          | Some n \<Rightarrow> n \<in> set (nt_namespaces s) \<and> tr_phase t \<noteq> CreatingNamespace \<and>
              (tr_phase t = Failed \<longrightarrow> n \<in> set (nt_deletes s)) \<and>
              (tr_cleaned t \<and> \<not> tr_late t \<longrightarrow> n \<in> set (nt_deletes s)) \<and>
              (tr_late t \<and> tr_phase t \<noteq> Failed \<longrightarrow> n \<notin> set (nt_deletes s))) \<and>
         (tr_late t \<longrightarrow> tr_cleaned t) \<and>
         (tr_cleaned t \<longleftrightarrow> nt_current s \<noteq> Some r))"

definition tab_inv :: "node_tab \<Rightarrow> bool" where
  "tab_inv s \<longleftrightarrow> (\<forall>r < length (nt_runs s). run_ok s r) \<and>
     (\<forall>q r. q < length (nt_runs s) \<and> r < length (nt_runs s) \<and> q \<noteq> r \<and> tr_namespace (nt_runs s ! q) \<noteq> None \<longrightarrow>
        tr_namespace (nt_runs s ! q) \<noteq> tr_namespace (nt_runs s ! r)) \<and>
     set (nt_deletes s) \<subseteq> set (nt_namespaces s) \<and>
     (\<forall>r. nt_current s = Some r \<longrightarrow> r < length (nt_runs s))"

lemma tab_update_simps [simp]:
  "length (nt_runs (tab_update r f s)) = length (nt_runs s)" "nt_current (tab_update r f s) = nt_current s"
  "nt_namespaces (tab_update r f s) = nt_namespaces s" "nt_deletes (tab_update r f s) = nt_deletes s"
  "r < length (nt_runs s) \<Longrightarrow> nt_runs (tab_update r f s) ! q = (if q = r then f (nt_runs s ! r) else nt_runs s ! q)"
  by (simp_all add: tab_update_def nth_list_update)

lemma deleteNamespace_simps [simp]:
  "nt_runs (deleteNamespace n s) = nt_runs s" "nt_current (deleteNamespace n s) = nt_current s"
  "nt_namespaces (deleteNamespace n s) = nt_namespaces s"
  "set (nt_deletes (deleteNamespace n s)) = set (nt_deletes s) \<union> set_option n"
  by (simp_all add: deleteNamespace_def split: option.splits)

lemma tab_inv_frame:
  assumes "tab_inv s" "nt_runs s' = nt_runs s" "nt_current s' = nt_current s"
    "nt_namespaces s' = nt_namespaces s" "nt_deletes s' = nt_deletes s"
  shows "tab_inv s'"
proof -
  have "tab_inv s' \<longleftrightarrow> tab_inv s" unfolding tab_inv_def run_ok_def by (simp only: assms(2-))
  with assms(1) show ?thesis by simp
qed

lemma tab_inv_unique:
  "tab_inv s \<Longrightarrow> q < length (nt_runs s) \<Longrightarrow> r < length (nt_runs s) \<Longrightarrow>
   tr_namespace (nt_runs s ! q) = Some n \<Longrightarrow> tr_namespace (nt_runs s ! r) = Some n \<Longrightarrow> q = r"
  unfolding tab_inv_def by (metis option.distinct(1))

lemma tab_inv_current:
  "tab_inv s \<Longrightarrow> nt_current s = Some r \<Longrightarrow> r < length (nt_runs s) \<and> \<not> tr_late (nt_runs s ! r) \<and> \<not> tr_cleaned (nt_runs s ! r)"
  by (auto simp: tab_inv_def run_ok_def Let_def)

lemma start_effect_inv:
  assumes "tab_inv s" "nt_current s = None"
  shows "tab_inv (start_effect s)"
proof -
  have "run_ok (start_effect s) r" if "r < length (nt_runs (start_effect s))" for r
    using assms that
    by (auto simp: tab_inv_def run_ok_def start_effect_def Let_def nth_append less_Suc_eq split: option.splits)
  then show ?thesis
    using assms by (auto simp: tab_inv_def start_effect_def nth_append less_Suc_eq)
qed

lemma delete_known_inv:
  assumes "tab_inv s" "r < length (nt_runs s)" "\<not> tr_late (nt_runs s ! r)"
  shows "tab_inv (deleteNamespace (tr_namespace (nt_runs s ! r)) s)"
proof -
  let ?s = "deleteNamespace (tr_namespace (nt_runs s ! r)) s"
  have "run_ok ?s q" if "q < length (nt_runs s)" for q
  proof -
    have q: "run_ok s q" using assms that by (simp add: tab_inv_def)
    have "n \<notin> set_option (tr_namespace (nt_runs s ! r))"
      if "tr_namespace (nt_runs s ! q) = Some n" "tr_late (nt_runs s ! q)" for n
      using assms that \<open>q < length (nt_runs s)\<close> tab_inv_unique [of s q r n] by (cases "q = r") auto
    with q show ?thesis by (auto simp: run_ok_def Let_def split: option.splits)
  qed
  moreover have "set_option (tr_namespace (nt_runs s ! r)) \<subseteq> set (nt_namespaces s)"
    using assms(1,2) by (auto simp: tab_inv_def run_ok_def Let_def split: option.splits)
  ultimately show ?thesis using assms(1) by (auto simp: tab_inv_def)
qed

lemma mark_cleaned_inv:
  assumes "tab_inv s" "nt_current s = Some r" "set_option (tr_namespace (nt_runs s ! r)) \<subseteq> set (nt_deletes s)"
  shows "tab_inv ((tab_update r (\<lambda>t. t\<lparr>tr_cleaned := True\<rparr>) s)\<lparr>nt_current := None\<rparr>)"
proof -
  have r: "r < length (nt_runs s)" using tab_inv_current [OF assms(1,2)] by simp
  have "run_ok ((tab_update r (\<lambda>t. t\<lparr>tr_cleaned := True\<rparr>) s)\<lparr>nt_current := None\<rparr>) q" if "q < length (nt_runs s)" for q
    using assms that r by (auto simp: tab_inv_def run_ok_def Let_def split: option.splits)
  then show ?thesis using assms(1) r by (auto simp: tab_inv_def)
qed

lemma cleanup_swap:
  "(deleteNamespace n (tab_update r f s))\<lparr>nt_current := None\<rparr> = (tab_update r f (deleteNamespace n s))\<lparr>nt_current := None\<rparr>"
  by (simp add: deleteNamespace_def tab_update_def split: option.splits)

lemma cleanup_effect_inv:
  assumes "tab_inv s"
  shows "tab_inv (cleanup_effect s)" "nt_current (cleanup_effect s) = None"
proof -
  have "tab_inv (cleanup_effect s)" if "nt_current s = Some r" for r
  proof -
    let ?d = "deleteNamespace (tr_namespace (nt_runs s ! r)) s"
    have "tab_inv ?d" using delete_known_inv assms tab_inv_current [OF assms that] by blast
    then have "tab_inv ((tab_update r (\<lambda>t. t\<lparr>tr_cleaned := True\<rparr>) ?d)\<lparr>nt_current := None\<rparr>)"
      by (rule mark_cleaned_inv) (use that in auto)
    then show ?thesis
      by (rule tab_inv_frame) (simp_all add: cleanup_effect_def that flip: cleanup_swap)
  qed
  then show "tab_inv (cleanup_effect s)" using assms by (cases "nt_current s") (auto simp: cleanup_effect_def)
  show "nt_current (cleanup_effect s) = None" by (simp add: cleanup_effect_def split: option.splits)
qed

lemma closeTab_inv: "tab_inv s \<Longrightarrow> tab_inv (closeTab s)"
  using delete_known_inv tab_inv_current by (auto simp: closeTab_def split: option.splits)

lemma creation_fails_inv:
  assumes "tab_inv s" "r < length (nt_runs s)"
  shows "tab_inv (creation_fails r e s)"
proof -
  let ?s = "creation_fails r e s"
  have runs: "nt_runs ?s ! q = (if q = r then (nt_runs s ! r)\<lparr>tr_phase := Failed\<rparr> else nt_runs s ! q)" for q
    using assms(2) by (simp add: creation_fails_def)
  have other: "nt_current ?s = nt_current s" "nt_namespaces ?s = nt_namespaces s" "length (nt_runs ?s) = length (nt_runs s)"
    "set (nt_deletes ?s) = set (nt_deletes s) \<union> set_option (tr_namespace (nt_runs s ! r))"
    by (simp_all add: creation_fails_def)
  have "run_ok ?s q" if q: "q < length (nt_runs s)" for q
  proof (cases "q = r")
    case True
    then show ?thesis using assms by (auto simp: tab_inv_def run_ok_def Let_def runs other split: option.splits)
  next
    case False
    then have "n \<notin> set_option (tr_namespace (nt_runs s ! r))" if "tr_namespace (nt_runs s ! q) = Some n" for n
      using that tab_inv_unique [OF assms(1) q assms(2)] by auto
    moreover have "run_ok s q" using assms(1) q by (simp add: tab_inv_def)
    ultimately show ?thesis using False by (auto simp: run_ok_def Let_def runs other split: option.splits)
  qed
  moreover have "set_option (tr_namespace (nt_runs s ! r)) \<subseteq> set (nt_namespaces s)"
    using assms by (auto simp: tab_inv_def run_ok_def Let_def split: option.splits)
  ultimately show ?thesis using assms(1) by (auto simp: tab_inv_def runs other)
qed

lemma namespace_created_inv:
  assumes "tab_inv s" "r < length (nt_runs s)" "tab_phase s r = CreatingNamespace" "n \<notin> set (nt_namespaces s)"
  shows "tab_inv (namespace_created r n s)"
proof (cases "n = []")
  case False
  let ?s = "namespace_created r n s"
  have runs: "nt_runs ?s ! q = (if q = r then (nt_runs s ! r)\<lparr>tr_phase := PreparingPod, tr_namespace := Some n,
      tr_late := tr_cleaned (nt_runs s ! r)\<rparr> else nt_runs s ! q)" for q
    using assms(2) False by (simp add: namespace_created_def)
  have other: "nt_current ?s = nt_current s" "nt_namespaces ?s = nt_namespaces s @ [n]"
    "length (nt_runs ?s) = length (nt_runs s)" "nt_deletes ?s = nt_deletes s"
    using False by (simp_all add: namespace_created_def)
  have fresh: "n \<notin> set (nt_deletes s)" using assms(1,4) by (auto simp: tab_inv_def)
  have new: "tr_namespace (nt_runs s ! q) \<noteq> Some n" if "q < length (nt_runs s)" for q
    using assms(1,4) that by (auto simp: tab_inv_def run_ok_def Let_def split: option.splits)
  have "run_ok ?s q" if "q < length (nt_runs s)" for q
    using assms that fresh by (auto simp: tab_inv_def run_ok_def Let_def runs other split: option.splits)
  then show ?thesis
    using assms(1) new by (auto simp: tab_inv_def runs other dest: sym)
qed (use assms creation_fails_inv in \<open>simp add: namespace_created_def\<close>)

lemma advance_inv:
  assumes "tab_inv s" "r < length (nt_runs s)" "tab_phase s r \<notin> {CreatingNamespace, Failed}"
    "p \<notin> {CreatingNamespace, Failed}"
  shows "tab_inv (tab_update r (\<lambda>t. t\<lparr>tr_phase := p\<rparr>) s)"
proof -
  have "run_ok (tab_update r (\<lambda>t. t\<lparr>tr_phase := p\<rparr>) s) q" if "q < length (nt_runs s)" for q
    using assms that by (auto simp: tab_inv_def run_ok_def tab_phase_def Let_def split: option.splits)
  then show ?thesis using assms(1,2) by (auto simp: tab_inv_def)
qed

lemma set_node_inv:
  assumes "tab_inv s"
  shows "tab_inv (set_node n s)"
proof -
  have "tab_inv ((cleanup_effect s)\<lparr>nt_node := n\<rparr>)"
    by (rule tab_inv_frame [OF cleanup_effect_inv(1) [OF assms]]) simp_all
  then show ?thesis using assms cleanup_effect_inv(2) [OF assms] by (simp add: set_node_def start_effect_inv)
qed

lemma tab_apply_inv:
  assumes "tab_inv s" "tab_enabled e s"
  shows "tab_inv (tab_apply e s)"
proof (cases e)
  case Unmount
  show ?thesis unfolding Unmount
    by (simp, rule tab_inv_frame [OF cleanup_effect_inv(1) [OF assms(1)]]) (simp_all add: tab_unmount_def)
next
  case (ExecEffect b n ns)
  show ?thesis unfolding ExecEffect by (simp, rule tab_inv_frame [OF assms(1)]) (simp_all add: exec_effect_def)
next
  case (PodCreated r answered)
  have "tab_inv (tab_update r (\<lambda>t. t\<lparr>tr_phase := Finished\<rparr>) s)"
    using assms PodCreated by (intro advance_inv) auto
  then show ?thesis unfolding PodCreated by (simp, elim tab_inv_frame) (simp_all add: pod_created_def Let_def)
next
  case (PodPrepared r)
  then show ?thesis using assms by (auto simp: pod_prepared_def intro!: advance_inv)
qed (use assms in \<open>auto intro: set_node_inv closeTab_inv namespace_created_inv creation_fails_inv\<close>)

lemma tab_mount_inv: "tab_inv (tab_mount node)"
  unfolding tab_mount_def by (rule start_effect_inv) (simp_all add: tab_inv_def)

lemma tab_reach_inv: "tab_reach s \<Longrightarrow> tab_inv s"
  by (erule tab.always) (auto intro: tab_mount_inv tab_apply_inv)

section \<open>Properties\<close>

text \<open>C9: A debug namespace the tab knows of does not outlive it: once the effect that created a namespace has been
  cleaned up (the tab left, or another node chosen), or the creation of the pod has failed, its deletion has been
  asked for, provided the answer to its creation had arrived before the cleanup.\<close>

theorem namespace_cleaned_up:
  assumes "tab_reach s" "r < length (nt_runs s)" "tr_namespace (nt_runs s ! r) = Some n"
    and "tr_cleaned (nt_runs s ! r) \<and> \<not> tr_late (nt_runs s ! r) \<or> tr_phase (nt_runs s ! r) = Failed"
  shows "n \<in> set (nt_deletes s)"
proof -
  have "run_ok s r" using tab_reach_inv [OF assms(1)] assms(2) by (simp add: tab_inv_def)
  with assms(3,4) show ?thesis by (auto simp: run_ok_def Let_def)
qed

text \<open>C40: A namespace whose creation is answered after the cleanup of its effect leaks unless what follows fails: the code goes on
  to prepare and create the privileged debug pod in it, and in every state that can be reached its deletion has been asked
  for exactly if preparing or creating the pod has failed. In particular it has not while the pod is being created, nor once
  the pod has been.\<close>

theorem late_namespace_leaks:
  assumes "tab_reach s" "r < length (nt_runs s)" "tr_late (nt_runs s ! r)"
  shows "\<exists>n. tr_namespace (nt_runs s ! r) = Some n \<and> n \<in> set (nt_namespaces s) \<and>
    (n \<in> set (nt_deletes s) \<longleftrightarrow> tr_phase (nt_runs s ! r) = Failed)"
proof -
  have "run_ok s r" using tab_reach_inv [OF assms(1)] assms(2) by (simp add: tab_inv_def)
  with assms(3) show ?thesis by (auto simp: run_ok_def Let_def split: option.splits)
qed

subsection \<open>Sample runs\<close>

lemmas tab_ops = tab_mount_def start_effect_def cleanup_effect_def deleteNamespace_def tab_update_def
  set_node_def tab_unmount_def namespace_created_def pod_prepared_def pod_created_def creation_fails_def tab_phase_def Let_def

definition left_after :: "node_tab" where
  "left_after = fold tab_apply [NamespaceCreated 0 (lit ''ns''), Unmount] (tab_mount (lit ''a''))"

definition left_before :: "node_tab" where
  "left_before = fold tab_apply [Unmount, NamespaceCreated 0 (lit ''ns''), PodPrepared 0, PodCreated 0 True] (tab_mount (lit ''a''))"

lemma left_reach: "tab_reach left_after" "tab_reach left_before"
  unfolding left_after_def left_before_def
  by (rule tab.reached_run [OF reach_tab_mount], simp add: tab_ops)+

lemma namespace_cleaned_up_witness: "lit ''ns'' \<in> set (nt_deletes left_after)"
  by (rule namespace_cleaned_up [OF left_reach(1), of 0]) (simp_all add: left_after_def tab_ops)

lemma late_namespace_leaks_witness:
  "tr_phase (nt_runs left_before ! 0) = Finished \<and>
   (\<exists>n. tr_namespace (nt_runs left_before ! 0) = Some n \<and> n \<in> set (nt_namespaces left_before) \<and>
      n \<notin> set (nt_deletes left_before))"
proof -
  have "0 < length (nt_runs left_before)" "tr_late (nt_runs left_before ! 0)"
    "tr_phase (nt_runs left_before ! 0) = Finished"
    by (simp_all add: left_before_def tab_ops)
  then show ?thesis using late_namespace_leaks [OF left_reach(2), of 0] by simp
qed

text \<open>The creation started for one node can finish while another is shown: the tab for the second node then
  watches, and opens its terminal on, the debug pod of the first.\<close>

theorem stale_node_pod_shown:
  "\<exists>s. tab_reach s \<and> nt_mounted s \<and> nt_node s = lit ''b'' \<and> podName s = debug_name (lit ''a'') \<and>
     tab_view (Some \<lparr>wp_phase = Some (lit ''Running''), wp_terminated = None, wp_message = None\<rparr>) True None s = TerminalView"
proof -
  let ?es = "[NamespaceCreated 0 (lit ''ns''), PodPrepared 0, SetNode (lit ''b''), PodCreated 0 True]"
  let ?s = "fold tab_apply ?es (tab_mount (lit ''a''))"
  have "tab_reach ?s" by (rule tab.reached_run [OF reach_tab_mount]) (simp add: tab_ops)
  moreover have "nt_mounted ?s \<and> nt_node ?s = lit ''b'' \<and> podName ?s = debug_name (lit ''a'') \<and>
     tab_view (Some \<lparr>wp_phase = Some (lit ''Running''), wp_terminated = None, wp_message = None\<rparr>) True None ?s = TerminalView"
    by (simp add: tab_ops tab_view_def debug_name_def)
  ultimately show ?thesis by blast
qed

end
