(* ===== verification/Term_TimeZone.thy ===== *)
theory Term_TimeZone
  imports Js_Date
begin

text \<open>
  The time zone of a terminal session, \<^verbatim>\<open>plugins/terminal/src/shared/timeZone.ts\<close>: the POSIX TZ string
  derived from a zone's rules for the current year, the checks on both forms of the zone, and the shell code that
  sets it.

  The browser's internationalisation is a parameter: \<open>intl zone\<close> is \<open>None\<close> where a formatter cannot be built,
  and otherwise gives the calendar parts of a time in the zone. A search that does not return would be \<open>None\<close>.
\<close>

section \<open>Offsets\<close>

definition MINUTE :: int where "MINUTE = 60000"
definition DAY :: int where "DAY = 24 * 60 * MINUTE"

record time_parts =
  tp_year :: int
  tp_month :: int
  tp_day :: int
  tp_hour :: int
  tp_minute :: int
  tp_second :: int

definition offsetAt :: "(int \<Rightarrow> time_parts) \<Rightarrow> int \<Rightarrow> int" where
  "offsetAt formatter time =
     (let p = formatter time;
          local = date_UTC (tp_year p) (tp_month p - 1) (tp_day p) (tp_hour p mod 24) (tp_minute p) (tp_second p)
      in (2 * (local - time div 1000 * 1000) + MINUTE) div (2 * MINUTE))"

definition pad2 :: "int \<Rightarrow> jsstring" where
  "pad2 n = pad_to 2 (show_int n)"

definition posixName :: "int \<Rightarrow> jsstring" where
  "posixName off =
     (let a = \<bar>off\<bar>; minutes = a mod 60
      in [60] @ (if off < 0 then [45] else [43]) @ pad2 (a div 60) @ (if minutes \<noteq> 0 then pad2 minutes else []) @ [62])"

definition posixOffset :: "int \<Rightarrow> jsstring" where
  "posixOffset off =
     (let a = \<bar>off\<bar>; minutes = a mod 60
      in (if off > 0 then [45] else []) @ show_int (a div 60) @ (if minutes \<noteq> 0 then [58] @ pad2 minutes else []))"

record transition =
  tr_at :: int
  tr_from :: int
  tr_to :: int

definition posixRule :: "transition \<Rightarrow> jsstring" where
  "posixRule t =
     (let wall = tr_at t + tr_from t * MINUTE;
          days = wall div DAY;
          (year, month, day) = civil_from_days days;
          daysInMonth = (if month = 12 then days_from_civil (year + 1) 1 1 else days_from_civil year (month + 1) 1) -
             days_from_civil year month 1;
          week = (if day + 7 > daysInMonth then 5 else (day + 6) div 7);
          minutes = wall div MINUTE mod 60
      in [77] @ show_int month @ [46] @ show_int week @ [46] @ show_int ((days + 4) mod 7) @ [47] @
         show_int (wall div (60 * MINUTE) mod 24) @ (if minutes \<noteq> 0 then [58] @ pad2 minutes else []))"

section \<open>The year's transitions\<close>

text \<open>The search for the minute of a change: while more than a minute is left, halve it.\<close>

partial_function (option) narrow :: "(int \<Rightarrow> int) \<Rightarrow> int \<Rightarrow> int \<Rightarrow> int \<Rightarrow> int option" where
  "narrow off previous low high =
     (if high - low > MINUTE then
        (let mid = low + (high - low) div 2 div MINUTE * MINUTE
         in if off mid = previous then narrow off previous mid high else narrow off previous low mid)
      else Some high)"

function scan_days :: "(int \<Rightarrow> int) \<Rightarrow> int \<Rightarrow> int \<Rightarrow> int \<Rightarrow> transition list option" where
  "scan_days off day stop previous =
     (if day < stop then
        (let next = off (day + DAY)
         in if next \<noteq> previous then
              (case narrow off previous day (day + DAY) of
                 None \<Rightarrow> None
               | Some high \<Rightarrow>
                   map_option ((#) \<lparr>tr_at = high, tr_from = previous, tr_to = next\<rparr>)
                     (scan_days off (day + DAY) stop next))
            else scan_days off (day + DAY) stop previous)
      else Some [])"
  by pat_completeness auto
termination
  by (relation "measure (\<lambda>(off, day, stop, previous). nat (stop - day))") (auto simp: DAY_def MINUTE_def)

declare scan_days.simps [simp del]

definition fixed_offset :: "int \<Rightarrow> jsstring" where
  "fixed_offset off = posixName off @ posixOffset off"

definition posix_of_transitions :: "(int \<Rightarrow> int) \<Rightarrow> int \<Rightarrow> transition list \<Rightarrow> jsstring" where
  "posix_of_transitions off now ts =
     (case ts of
        [t1, t2] \<Rightarrow>
          (let standard = min (tr_from t1) (tr_to t1); daylight = max (tr_from t1) (tr_to t1)
           in case (find (\<lambda>t. tr_to t = daylight) ts, find (\<lambda>t. tr_to t = standard) ts) of
                (Some toDaylight, Some toStandard) \<Rightarrow>
                  fixed_offset standard @ fixed_offset daylight @ [44] @ posixRule toDaylight @ [44] @ posixRule toStandard
              | _ \<Rightarrow> fixed_offset (off now))
      | _ \<Rightarrow> fixed_offset (off now))"

definition year_start :: "int \<Rightarrow> int" where
  "year_start year = date_UTC year 0 1 0 0 0"

text \<open>\<^verbatim>\<open>posixTimeZone\<close> for a zone whose formatter could be built.\<close>

definition posixTimeZone :: "(int \<Rightarrow> time_parts) \<Rightarrow> jsstring \<Rightarrow> int \<Rightarrow> jsstring option" where
  "posixTimeZone formatter timeZone now =
     (if timeZone = lit ''UTC'' \<or> timeZone = lit ''Etc/UTC'' then Some (lit ''UTC0'')
      else (let off = offsetAt formatter;
                year = fst (civil_from_days (now div DAY))
            in map_option (posix_of_transitions off now)
                 (scan_days off (year_start year) (year_start (year + 1)) (off (year_start year)))))"

section \<open>The session's time zone\<close>

definition iana_char :: "code_unit \<Rightarrow> bool" where
  "iana_char c \<longleftrightarrow> 65 \<le> c \<and> c \<le> 90 \<or> 97 \<le> c \<and> c \<le> 122 \<or> is_digit c \<or> c = 95 \<or> c = 43 \<or> c = 45"

definition IANA_PATTERN :: "jsstring \<Rightarrow> bool" where
  "IANA_PATTERN name =
     list_all (\<lambda>seg. seg \<noteq> [] \<and> hd seg \<noteq> 46 \<and> hd seg \<noteq> 45 \<and> list_all iana_char seg) (split_on 47 name)"

definition posix_char :: "code_unit \<Rightarrow> bool" where
  "posix_char c \<longleftrightarrow> 65 \<le> c \<and> c \<le> 90 \<or> 97 \<le> c \<and> c \<le> 122 \<or> is_digit c \<or> c \<in> {60, 62, 43, 45, 58, 44, 46, 47}"

definition POSIX_PATTERN :: "jsstring \<Rightarrow> bool" where
  "POSIX_PATTERN s \<longleftrightarrow> s \<noteq> [] \<and> list_all posix_char s"

definition isValidTimeZoneName :: "jsstring \<Rightarrow> bool" where
  "isValidTimeZoneName name \<longleftrightarrow> length name \<le> 64 \<and> IANA_PATTERN name"

definition preferredTimeZone :: "(jsstring \<Rightarrow> (int \<Rightarrow> time_parts) option) \<Rightarrow> jsstring \<Rightarrow> jsstring option \<Rightarrow> jsstring" where
  "preferredTimeZone intl browser preference =
     (case preference of
        Some p \<Rightarrow> if p \<noteq> [] \<and> p \<noteq> lit ''browser'' \<and> intl p \<noteq> None then p else browser
      | None \<Rightarrow> browser)"

definition sessionTimeZone :: "(jsstring \<Rightarrow> (int \<Rightarrow> time_parts) option) \<Rightarrow> jsstring \<Rightarrow> jsstring option \<Rightarrow> int \<Rightarrow>
    (jsstring \<times> jsstring) option" where
  "sessionTimeZone intl browser preference now =
     (let name = preferredTimeZone intl browser preference
      in case (if name = lit ''UTC'' \<or> name = lit ''Etc/UTC'' then Some (lit ''UTC0'')
               else case intl name of None \<Rightarrow> None | Some formatter \<Rightarrow> posixTimeZone formatter name now) of
           Some posix \<Rightarrow> if isValidTimeZoneName name \<and> POSIX_PATTERN posix then Some (name, posix) else None
         | None \<Rightarrow> None)"

definition shellTimeZonePrefix :: "(jsstring \<times> jsstring) option \<Rightarrow> jsstring" where
  "shellTimeZonePrefix tz =
     (case tz of
        Some (name, posix) \<Rightarrow>
          lit ''if [ -e /usr/share/zoneinfo/'' @ name @ lit '' ]; then TZ='' @ name @ lit ''; else TZ='' @ [39] @ posix @ [39] @
          lit ''; fi; export TZ; ''
      | None \<Rightarrow> [])"

section \<open>The search\<close>

lemma MINUTE_pos [simp]: "MINUTE > 0"
  by (simp add: MINUTE_def)

lemma half_minutes: "int k * MINUTE div 2 div MINUTE = int (k div 2)"
proof -
  have "int k * MINUTE div 2 div MINUTE = int k * MINUTE div (2 * MINUTE)"
    by (rule zdiv_zmult2_eq [symmetric]) (simp add: less_imp_le)
  also have "\<dots> = int k div 2" by (rule div_mult_mult2) (simp add: MINUTE_def)
  finally show ?thesis by (simp add: zdiv_int)
qed

lemma narrow_minutes:
  assumes "1 \<le> k" "off low = previous" "off (low + int k * MINUTE) \<noteq> previous"
  shows "\<exists>j. 1 \<le> j \<and> j \<le> k \<and> narrow off previous low (low + int k * MINUTE) = Some (low + int j * MINUTE) \<and>
    off (low + int j * MINUTE - MINUTE) = previous \<and> off (low + int j * MINUTE) \<noteq> previous"
  using assms
proof (induction k arbitrary: low rule: less_induct)
  case (less k)
  note step = narrow.simps [of off previous low "low + int k * MINUTE"]
  show ?case
  proof (cases "k = 1")
    case True
    then have "narrow off previous low (low + int k * MINUTE) = Some (low + int k * MINUTE)" by (subst step) simp
    with True less.prems show ?thesis by (intro exI [of _ 1]) simp
  next
    case False
    define h where "h = k div 2"
    have h: "1 \<le> h" "h < k" "1 \<le> k - h" "k - h < k" using False less.prems(1) by (auto simp: h_def)
    have "int k * MINUTE > MINUTE" using False less.prems(1) by (simp add: MINUTE_def)
    then have split: "narrow off previous low (low + int k * MINUTE) =
        (if off (low + int h * MINUTE) = previous then narrow off previous (low + int h * MINUTE) (low + int k * MINUTE)
         else narrow off previous low (low + int h * MINUTE))"
      by (subst step) (simp add: half_minutes h_def Let_def)
    have upper: "low + int k * MINUTE = (low + int h * MINUTE) + int (k - h) * MINUTE"
      using h by (simp add: of_nat_diff algebra_simps)
    show ?thesis
    proof (cases "off (low + int h * MINUTE) = previous")
      case True
      have "off ((low + int h * MINUTE) + int (k - h) * MINUTE) \<noteq> previous" using less.prems(3) upper by simp
      from less.IH [OF h(4) h(3) True this] obtain j where j: "1 \<le> j" "j \<le> k - h"
        "narrow off previous (low + int h * MINUTE) (low + int k * MINUTE) = Some (low + int h * MINUTE + int j * MINUTE)"
        "off (low + int h * MINUTE + int j * MINUTE - MINUTE) = previous" "off (low + int h * MINUTE + int j * MINUTE) \<noteq> previous"
        using upper by auto
      have "low + int h * MINUTE + int j * MINUTE = low + int (h + j) * MINUTE"
        by (simp add: algebra_simps)
      with j True split h show ?thesis by (intro exI [of _ "h + j"]) (simp del: of_nat_add)
    next
      case False
      from less.IH [OF h(2) h(1) less.prems(2) False] show ?thesis using split False h by fastforce
    qed
  qed
qed

lemma narrow_change:
  assumes "1 \<le> k" "off low = previous" "off (low + int k * MINUTE) \<noteq> previous"
  shows "\<exists>h. narrow off previous low (low + int k * MINUTE) = Some h \<and> low < h \<and> h \<le> low + int k * MINUTE \<and>
    off (h - MINUTE) = previous \<and> off h \<noteq> previous"
proof -
  obtain j where "1 \<le> j" "j \<le> k" "narrow off previous low (low + int k * MINUTE) = Some (low + int j * MINUTE)"
    "off (low + int j * MINUTE - MINUTE) = previous" "off (low + int j * MINUTE) \<noteq> previous"
    using narrow_minutes [OF assms] by blast
  then show ?thesis by (intro exI [of _ "low + int j * MINUTE"]) (simp add: mult_right_mono)
qed

text \<open>C17: The search for the moment a zone's offset changes ends and finds it: from a low end that has the old offset
  and a high end that has not, a whole number of minutes apart, it returns a minute of the range with the change
  exactly there: the minute before still has the old offset.\<close>

theorem narrow_finds_change:
  assumes "1 \<le> k" "off low = previous" "off (low + int k * MINUTE) \<noteq> previous"
  shows "\<exists>h. narrow off previous low (low + int k * MINUTE) = Some h \<and> low < h \<and> h \<le> low + int k * MINUTE \<and>
    off (h - MINUTE) = previous \<and> off h \<noteq> previous"
  using assms by (rule narrow_change)

lemma narrow_finds_change_witness:
  "\<exists>h. narrow (\<lambda>t. if t < 7 * MINUTE then 60 else 120) 60 0 (0 + int 10 * MINUTE) = Some h \<and> 0 < h \<and> h \<le> 0 + int 10 * MINUTE \<and>
    (\<lambda>t. if t < 7 * MINUTE then 60 else 120) (h - MINUTE) = (60 :: int) \<and> (\<lambda>t. if t < 7 * MINUTE then 60 else 120) h \<noteq> (60 :: int)"
  by (rule narrow_finds_change) (simp_all add: MINUTE_def)

lemma DAY_minutes: "DAY = int 1440 * MINUTE"
  by (simp add: DAY_def)

text \<open>Every transition found is one: the minute before it has the offset before it, and it itself another.\<close>

definition real_transition :: "(int \<Rightarrow> int) \<Rightarrow> transition \<Rightarrow> bool" where
  "real_transition off t \<longleftrightarrow> off (tr_at t - MINUTE) = tr_from t \<and> off (tr_at t) \<noteq> tr_from t \<and> tr_from t \<noteq> tr_to t"

lemma scan_days_total:
  "off day = previous \<Longrightarrow> \<exists>ts. scan_days off day stop previous = Some ts \<and> list_all (real_transition off) ts"
proof (induction off day stop previous rule: scan_days.induct)
  case (1 off day stop previous)
  show ?case
  proof (cases "day < stop \<and> off (day + DAY) \<noteq> previous")
    case True
    then obtain h where h: "narrow off previous day (day + DAY) = Some h" "off (h - MINUTE) = previous" "off h \<noteq> previous"
      using narrow_change [of 1440 off day previous] 1(3) by (auto simp: DAY_minutes)
    obtain ts where "scan_days off (day + DAY) stop (off (day + DAY)) = Some ts" "list_all (real_transition off) ts"
      using 1(1) True h by fastforce
    with True h show ?thesis by (subst scan_days.simps) (simp add: Let_def real_transition_def)
  next
    case False
    then show ?thesis using 1(2,3) by (subst scan_days.simps) (auto simp: Let_def)
  qed
qed

section \<open>The POSIX string\<close>

lemma show_int_chars: "i \<ge> 0 \<Longrightarrow> show_int i \<noteq> [] \<and> list_all is_digit (show_int i)"
  using show_nat_digits [of "nat i"] by (simp add: show_int_def all_digits_def)

lemma show_int_posix: "show_int i \<noteq> [] \<and> list_all posix_char (show_int i)"
  using show_nat_digits [of "nat i"] show_nat_digits [of "nat (- i)"]
  by (auto simp: show_int_def all_digits_def posix_char_def list_all_iff)

lemma pad2_posix: "list_all posix_char (pad2 i)"
proof -
  have "posix_char 48" by (simp add: posix_char_def is_digit_def)
  then show ?thesis using show_int_posix [of i] by (auto simp: pad2_def pad_to_def list_all_iff)
qed

lemma fixed_offset_posix: "POSIX_PATTERN (fixed_offset off)"
proof -
  have "posix_char 60" "posix_char 62" "posix_char 43" "posix_char 45" "posix_char 58" by (simp_all add: posix_char_def)
  then show ?thesis
    using show_int_posix pad2_posix by (simp add: POSIX_PATTERN_def fixed_offset_def posixName_def posixOffset_def Let_def)
qed

lemma posixRule_posix: "list_all posix_char (posixRule t)"
  using show_int_posix pad2_posix
  by (auto simp: posixRule_def Let_def split: prod.splits) (simp_all add: posix_char_def is_digit_def)

lemma posix_of_transitions_posix: "POSIX_PATTERN (posix_of_transitions off now ts)"
proof -
  have "POSIX_PATTERN (fixed_offset a @ fixed_offset b @ [44] @ posixRule t @ [44] @ posixRule u)" for a b t u
    using fixed_offset_posix posixRule_posix by (auto simp: POSIX_PATTERN_def) (simp_all add: posix_char_def)
  then show ?thesis
    using fixed_offset_posix [of "off now"]
    by (auto simp: posix_of_transitions_def Let_def split: list.splits option.splits)
qed

lemma posixTimeZone_posix: "\<exists>p. posixTimeZone formatter zone now = Some p \<and> POSIX_PATTERN p"
proof (cases "zone = lit ''UTC'' \<or> zone = lit ''Etc/UTC''")
  case True
  moreover have "POSIX_PATTERN (lit ''UTC0'')" by (simp add: POSIX_PATTERN_def posix_char_def is_digit_def)
  ultimately show ?thesis by (auto simp: posixTimeZone_def simp del: lit_Cons)
next
  case False
  then show ?thesis
    using scan_days_total [OF refl] posix_of_transitions_posix
    by (simp add: posixTimeZone_def Let_def del: lit_Cons) (metis option.simps(9))
qed

text \<open>The POSIX form of a zone can always be had and is always fit to be passed on: whatever offsets the browser
  reports, the computation ends, with a string of the characters the shim accepts.\<close>

theorem posixTimeZone_ok: "\<exists>p. posixTimeZone formatter zone now = Some p \<and> POSIX_PATTERN p"
  by (rule posixTimeZone_posix)

text \<open>POSIX counts offsets west of UTC, hours and minutes.\<close>

definition read_posix_offset :: "jsstring \<Rightarrow> int" where
  "read_posix_offset s =
     (let neg = s \<noteq> [] \<and> hd s = 45; body = (if neg then tl s else s);
          v = (case split_on 58 body of
                 [h] \<Rightarrow> 60 * int (read_nat h)
               | h # m # _ \<Rightarrow> 60 * int (read_nat h) + int (read_nat m)
               | [] \<Rightarrow> 0)
      in if neg then - v else v)"

lemma read_show_int: "i \<ge> 0 \<Longrightarrow> int (read_nat (show_int i)) = i"
  by (simp add: show_int_def)

lemma read_nat_zeros: "read_nat (replicate n 48 @ s) = read_nat s"
  by (induction n) (simp_all add: read_nat_def)

lemma read_pad2: "i \<ge> 0 \<Longrightarrow> int (read_nat (pad2 i)) = i"
  by (simp add: pad2_def pad_to_def read_nat_zeros read_show_int)

lemma show_int_plain: "i \<ge> 0 \<Longrightarrow> 58 \<notin> set (show_int i) \<and> hd (show_int i) \<noteq> 45"
  using show_int_chars [of i] by (cases "show_int i") (auto simp: list_all_iff is_digit_def)

lemma pad2_plain: "i \<ge> 0 \<Longrightarrow> 58 \<notin> set (pad2 i)"
  using show_int_plain [of i] by (auto simp: pad2_def pad_to_def)

text \<open>The offset in the string is the zone's: reading it back the POSIX way, west of UTC in hours and minutes,
  gives the zone's offset with the sign reversed.\<close>

theorem posixOffset_read: "read_posix_offset (posixOffset off) = - off"
proof -
  define a where "a = \<bar>off\<bar>"
  have a: "a div 60 \<ge> 0" "a mod 60 \<ge> 0" "60 * (a div 60) + a mod 60 = a" by (simp_all add: a_def)
  have whole: "a mod 60 = 0 \<Longrightarrow> 60 * (a div 60) = a" using a(3) by linarith
  note plain = show_int_plain [OF a(1)] show_int_chars [OF a(1)] pad2_plain [OF a(2)]
  let ?m = "if a mod 60 \<noteq> 0 then [58] @ pad2 (a mod 60) else []"
  have "split_on 58 (show_int (a div 60) @ ?m) =
      (if a mod 60 \<noteq> 0 then [show_int (a div 60), pad2 (a mod 60)] else [show_int (a div 60)])"
    using plain by simp
  moreover have "hd (show_int (a div 60) @ ?m) \<noteq> 45" using plain by (simp add: hd_append)
  ultimately have "read_posix_offset ((if off > 0 then [45] else []) @ show_int (a div 60) @ ?m) = (if off > 0 then - a else a)"
    using a(3) whole read_show_int [OF a(1)] read_pad2 [OF a(2)] by (simp add: read_posix_offset_def Let_def)
  moreover have "(if off > 0 then - a else a) = - off" by (simp add: a_def)
  ultimately show ?thesis unfolding posixOffset_def Let_def a_def [symmetric] by (simp only:)
qed

section \<open>The shell code\<close>

text \<open>Characters that mean nothing to a shell, in or outside single quotes.\<close>

definition shell_plain :: "code_unit \<Rightarrow> bool" where
  "shell_plain c \<longleftrightarrow> 65 \<le> c \<and> c \<le> 90 \<or> 97 \<le> c \<and> c \<le> 122 \<or> is_digit c \<or> c \<in> {43, 44, 45, 46, 47, 58, 95}"

lemma IANA_PATTERN_plain: "IANA_PATTERN name \<Longrightarrow> list_all shell_plain name"
proof -
  assume "IANA_PATTERN name"
  then have "list_all (list_all shell_plain) (split_on 47 name)"
    by (auto simp: IANA_PATTERN_def list_all_iff iana_char_def shell_plain_def)
  then have "list_all shell_plain (join [47] (split_on 47 name))"
    by (intro list_all_join) (simp_all add: shell_plain_def)
  then show ?thesis by simp
qed

text \<open>The shell code that sets a session's time zone runs as it reads: the zone's name, which stands unquoted, is
  made of characters without meaning to the shell, and the POSIX string, which stands between single quotes, contains
  no quote to end them.\<close>

theorem shellTimeZonePrefix_safe:
  assumes "sessionTimeZone intl browser preference now = Some (name, posix)"
  shows "list_all shell_plain name \<and> 39 \<notin> set posix \<and>
    shellTimeZonePrefix (sessionTimeZone intl browser preference now) =
      lit ''if [ -e /usr/share/zoneinfo/'' @ name @ lit '' ]; then TZ='' @ name @ lit ''; else TZ='' @ [39] @ posix @ [39] @
      lit ''; fi; export TZ; ''"
proof -
  have "IANA_PATTERN name" "POSIX_PATTERN posix"
    using assms by (auto simp: sessionTimeZone_def isValidTimeZoneName_def Let_def simp del: lit_Cons
        split: option.splits if_splits)
  then have "list_all shell_plain name" "39 \<notin> set posix"
    using IANA_PATTERN_plain by (auto simp: POSIX_PATTERN_def list_all_iff posix_char_def is_digit_def)
  then show ?thesis by (simp add: assms shellTimeZonePrefix_def del: lit_Cons)
qed

lemma shellTimeZonePrefix_safe_witness:
  "shellTimeZonePrefix (sessionTimeZone (\<lambda>_. None) (lit ''UTC'') None 0) =
     lit ''if [ -e /usr/share/zoneinfo/'' @ lit ''UTC'' @ lit '' ]; then TZ='' @ lit ''UTC'' @ lit ''; else TZ='' @ [39] @ lit ''UTC0'' @ [39] @
     lit ''; fi; export TZ; ''"
proof -
  have "sessionTimeZone (\<lambda>_. None) (lit ''UTC'') None 0 = Some (lit ''UTC'', lit ''UTC0'')"
    by (simp add: sessionTimeZone_def preferredTimeZone_def isValidTimeZoneName_def IANA_PATTERN_def POSIX_PATTERN_def
        posix_char_def iana_char_def is_digit_def)
  from shellTimeZonePrefix_safe [OF this] show ?thesis by blast
qed

end
