(* ===== verification/Fs_Files.thy ===== *)
theory Fs_Files
  imports Js_Date
begin

text \<open>
  The filesystem plugin's helpers: sizes, modes and paths (\<^verbatim>\<open>plugins/filesystem/src/pod/format.ts\<close>)
  and the transfer of files to and from the agent (\<^verbatim>\<open>transfer.ts\<close>).

  The messages of the agent's streams are inputs; an upload is the list of its calls, cut at the first one the agent
  rejects.
\<close>

section \<open>Paths\<close>

definition strip_slashes :: "jsstring \<Rightarrow> jsstring" where
  "strip_slashes p = trim_end (\<lambda>c. c = 47) p"

definition joinPath :: "jsstring \<Rightarrow> jsstring \<Rightarrow> jsstring" where
  "joinPath dir name = (if dir = [47] then 47 # name else strip_slashes dir @ [47] @ name)"

definition parentPath :: "jsstring \<Rightarrow> jsstring" where
  "parentPath path =
     (let trimmed = strip_slashes path
      in case last_index_of 47 trimmed of
           None \<Rightarrow> [47]
         | Some i \<Rightarrow> if i = 0 then [47] else take i trimmed)"

fun ancestor_steps :: "jsstring \<Rightarrow> jsstring list \<Rightarrow> jsstring list" where
  "ancestor_steps current [] = []"
| "ancestor_steps current (part # parts) =
     (let c = current @ [47] @ part in c # ancestor_steps c parts)"

definition ancestorPaths :: "jsstring \<Rightarrow> jsstring list" where
  "ancestorPaths path =
     (let trimmed = strip_slashes path
      in if trimmed = [] then [[47]]
         else [47] # ancestor_steps [] (filter (\<lambda>p. p \<noteq> []) (split_on 47 trimmed)))"

definition baseName :: "jsstring \<Rightarrow> jsstring" where
  "baseName path =
     (let trimmed = strip_slashes path
      in if trimmed = [] then [47]
         else case last_index_of 47 trimmed of None \<Rightarrow> trimmed | Some i \<Rightarrow> drop (i + 1) trimmed)"

definition ARCHIVE_SUFFIXES :: "jsstring list" where
  "ARCHIVE_SUFFIXES = map lit [''.zip'', ''.tar'', ''.tar.gz'', ''.tgz'', ''.tar.zst'', ''.tar.zstd'', ''.tzst'']"

definition looksLikeArchive :: "host \<Rightarrow> jsstring \<Rightarrow> bool" where
  "looksLikeArchive h name = list_ex (\<lambda>suffix. ends_with suffix (toLowerCase h name)) ARCHIVE_SUFFIXES"

section \<open>Sizes and times\<close>

definition UNITS :: "string list" where
  "UNITS = [''B'', ''KiB'', ''MiB'', ''GiB'', ''TiB'', ''PiB'']"

text \<open>
  Dividing by 1024 is exact in binary floating point, so the value after \<open>unit\<close> divisions is \<open>bytes / 1024 ^ unit\<close>. The
  sizes are those a \<^verbatim>\<open>number\<close> holds exactly, below \<open>2 ^ 53\<close>; \<open>None\<close> is a value that is negative or not finite.
\<close>

function size_unit :: "nat \<Rightarrow> nat \<Rightarrow> nat" where
  "size_unit bytes unit =
     (if bytes \<ge> 1024 * 1024 ^ unit \<and> unit < length UNITS - 1 then size_unit bytes (Suc unit) else unit)"
  by pat_completeness auto
termination by (relation "measure (\<lambda>(bytes, unit). length UNITS - unit)") auto

declare size_unit.simps [simp del]

text \<open>\<^verbatim>\<open>toFixed(digits)\<close> of the fraction \<open>m / n\<close>: the nearest multiple, the larger one of two.\<close>

definition fixed_scaled :: "nat \<Rightarrow> nat \<Rightarrow> nat \<Rightarrow> nat" where
  "fixed_scaled digits m n = (2 * m * 10 ^ digits + n) div (2 * n)"

definition to_fixed :: "nat \<Rightarrow> nat \<Rightarrow> nat \<Rightarrow> jsstring" where
  "to_fixed digits m n =
     (let k = fixed_scaled digits m n
      in if digits = 0 then show_nat k
         else show_nat (k div 10 ^ digits) @ [46] @ pad_to digits (show_nat (k mod 10 ^ digits)))"

definition size_digits :: "nat \<Rightarrow> nat \<Rightarrow> nat" where
  "size_digits bytes unit = (if bytes < 10 * 1024 ^ unit then 1 else 0)"

definition formatSize :: "nat option \<Rightarrow> jsstring" where
  "formatSize sz =
     (case sz of
        None \<Rightarrow> lit ''-''
      | Some bytes \<Rightarrow>
          (let unit = size_unit bytes 0
           in (if unit = 0 then show_nat bytes else to_fixed (size_digits bytes unit) bytes (1024 ^ unit)) @ [32] @ lit (UNITS ! unit)))"

text \<open>\<open>fmt\<close> is the browser's formatter under the console's preferences.\<close>

definition formatTime :: "(int \<Rightarrow> jsstring) \<Rightarrow> int \<Rightarrow> jsstring" where
  "formatTime fmt seconds = (if seconds = 0 then lit ''-'' else fmt (seconds * 1000))"

section \<open>Modes\<close>

datatype entry_type = UNSPECIFIED | FILE | DIRECTORY | SYMLINK | BLOCK_DEVICE | CHAR_DEVICE | SOCKET | FIFO | OTHER

fun kind_letter :: "entry_type \<Rightarrow> code_unit" where
  "kind_letter DIRECTORY = 100"
| "kind_letter SYMLINK = 108"
| "kind_letter BLOCK_DEVICE = 98"
| "kind_letter CHAR_DEVICE = 99"
| "kind_letter SOCKET = 115"
| "kind_letter FIFO = 112"
| "kind_letter OTHER = 63"
| "kind_letter _ = 45"

text \<open>The table \<^verbatim>\<open>RWX\<close> of the source, entry by entry.\<close>

definition RWX :: "jsstring list" where
  "RWX = map lit [''---'', ''--x'', ''-w-'', ''-wx'', ''r--'', ''r-x'', ''rw-'', ''rwx'']"

definition overlay :: "bool \<Rightarrow> code_unit \<Rightarrow> code_unit \<Rightarrow> jsstring \<Rightarrow> jsstring" where
  "overlay flagged on off bits = (if \<not> flagged then bits else take 2 bits @ [if bits ! 2 = 120 then on else off])"

definition formatMode :: "nat \<Rightarrow> entry_type \<Rightarrow> jsstring" where
  "formatMode mode type =
     [kind_letter type] @
     overlay (mode div 2048 mod 2 = 1) 115 83 (RWX ! (mode div 64 mod 8)) @
     overlay (mode div 1024 mod 2 = 1) 115 83 (RWX ! (mode div 8 mod 8)) @
     overlay (mode div 512 mod 2 = 1) 116 84 (RWX ! (mode mod 8))"

fun octal_digits :: "nat \<Rightarrow> nat \<Rightarrow> jsstring" where
  "octal_digits 0 n = []"
| "octal_digits (Suc k) n = octal_digits k (n div 8) @ [48 + n mod 8]"

text \<open>\<^verbatim>\<open>(mode & 0o7777).toString(8).padStart(3, '0')\<close> after a zero: four digits if there is an overlay, else three.\<close>

definition formatOctal :: "nat \<Rightarrow> jsstring" where
  "formatOctal mode =
     (let m = mode mod 4096 in [48] @ (if m \<ge> 512 then octal_digits 4 m else octal_digits 3 m))"

section \<open>Transfers\<close>

type_synonym bytes = "nat list"

record read_message =
  rm_totalSize :: nat
  rm_data :: bytes

text \<open>\<^verbatim>\<open>concat\<close>: an array of \<open>n\<close> zeros with the chunks set one after the other.\<close>

fun concat_at :: "bytes list \<Rightarrow> nat \<Rightarrow> bytes \<Rightarrow> bytes" where
  "concat_at [] pos out = out"
| "concat_at (c # cs) pos out = concat_at cs (pos + length c) (blit out pos c)"

definition concat_chunks :: "bytes list \<Rightarrow> nat \<Rightarrow> bytes" where
  "concat_chunks chunks n = concat_at chunks 0 (replicate n 0)"

record reading =
  rd_chunks :: "bytes list"
  rd_received :: nat
  rd_total :: "nat option"
  rd_progress :: "(nat \<times> nat option) list"

definition read_step :: "reading \<Rightarrow> read_message \<Rightarrow> reading" where
  "read_step s m =
     (let tot = (if rm_totalSize m \<noteq> 0 \<and> rd_total s = None then Some (rm_totalSize m) else rd_total s);
          s1 = s\<lparr>rd_total := tot\<rparr>
      in if rm_data m = [] then s1
         else s1\<lparr>rd_chunks := rd_chunks s @ [rm_data m], rd_received := rd_received s + length (rm_data m),
                 rd_progress := rd_progress s @ [(rd_received s + length (rm_data m), tot)]\<rparr>)"

definition reading_of :: "read_message list \<Rightarrow> reading" where
  "reading_of ms = foldl read_step \<lparr>rd_chunks = [], rd_received = 0, rd_total = None, rd_progress = []\<rparr> ms"

definition readFileBytes :: "read_message list \<Rightarrow> bytes" where
  "readFileBytes ms = concat_chunks (rd_chunks (reading_of ms)) (rd_received (reading_of ms))"

definition downloadFile :: "jsstring \<Rightarrow> read_message list \<Rightarrow> jsstring \<times> bytes" where
  "downloadFile path ms = (baseName path, readFileBytes ms)"

datatype archive_format = TAR_GZ | TAR_ZSTD | ZIP | TAR

definition ARCHIVE_FORMATS :: "(jsstring \<times> archive_format) list" where
  "ARCHIVE_FORMATS = [(lit ''tar.gz'', TAR_GZ), (lit ''tar.zst'', TAR_ZSTD), (lit ''zip'', ZIP), (lit ''tar'', TAR)]"

definition archiveFormatById :: "jsstring \<Rightarrow> archive_format" where
  "archiveFormatById i = (case map_of ARCHIVE_FORMATS i of Some f \<Rightarrow> f | None \<Rightarrow> TAR_GZ)"

record archive_message =
  am_filename :: jsstring
  am_data :: bytes

text \<open>The name and the bytes handed to the browser.\<close>

definition archive_name :: "jsstring \<Rightarrow> archive_message list \<Rightarrow> jsstring" where
  "archive_name path ms =
     foldl (\<lambda>name m. if am_filename m \<noteq> [] then am_filename m else name)
       ((if baseName path = [] then lit ''root'' else baseName path) @ lit ''.archive'') ms"

definition downloadArchive :: "jsstring \<Rightarrow> archive_message list \<Rightarrow> jsstring \<times> bytes" where
  "downloadArchive path ms =
     (archive_name path ms,
      concat_chunks (filter (\<lambda>d. d \<noteq> []) (map am_data ms)) (sum_list (map (length \<circ> am_data) ms)))"

record upload_call =
  up_path :: jsstring
  up_offset :: nat
  up_data :: bytes
  up_last :: bool

definition upload_path :: "jsstring \<Rightarrow> jsstring \<Rightarrow> jsstring" where
  "upload_path directory name = (if directory = [47] then 47 # name else strip_slashes directory @ [47] @ name)"

text \<open>The loop: \<open>chunk\<close> is at least one, and the pass that reaches the end is the last.\<close>

function upload_from :: "jsstring \<Rightarrow> bytes \<Rightarrow> nat \<Rightarrow> nat \<Rightarrow> upload_call list" where
  "upload_from path content chunk off =
     (if chunk = 0 then []
      else if off = 0 \<or> off < length content then
        (let call = \<lparr>up_path = path, up_offset = off, up_data = slice off (min (off + chunk) (length content)) content,
                     up_last = (off + chunk \<ge> length content)\<rparr>
         in call # (if up_last call then [] else upload_from path content chunk (off + chunk)))
      else [])"
  by pat_completeness auto
termination
  by (relation "measure (\<lambda>(path, content, chunk, off). length content - off)") auto

declare upload_from.simps [simp del]

definition uploadFile :: "jsstring \<Rightarrow> jsstring \<Rightarrow> bytes \<Rightarrow> int \<Rightarrow> upload_call list" where
  "uploadFile directory name content chunkBytes = upload_from (upload_path directory name) content (nat (max 1 chunkBytes)) 0"

text \<open>The progress reported after each call.\<close>

definition upload_progress :: "bytes \<Rightarrow> upload_call list \<Rightarrow> (nat \<times> nat) list" where
  "upload_progress content calls = map (\<lambda>c. (min (up_offset c + length (up_data c)) (length content), length content)) calls"

text \<open>
  The agent's side of an upload, \<^verbatim>\<open>internal/helper/service.go\<close>: \<open>None\<close> where the call is rejected; a
  call at offset zero truncates, \<^verbatim>\<open>WriteAt\<close> beyond the end fills with zeros. The failures of the file system itself, where
  \<^verbatim>\<open>OpenWrite\<close> or \<^verbatim>\<open>WriteAt\<close> return an error, are left out: this is the agent whose writes go through.
\<close>

definition write_at :: "bytes \<Rightarrow> nat \<Rightarrow> bytes \<Rightarrow> bytes" where
  "write_at content off data = take off (content @ replicate (off - length content) 0) @ data @ drop (off + length data) content"

definition agent_upload :: "nat \<Rightarrow> upload_call \<Rightarrow> bytes \<Rightarrow> bytes option" where
  "agent_upload maxChunk c content =
     (if length (up_data c) > maxChunk then None
      else Some (write_at (if up_offset c = 0 then [] else content) (up_offset c) (up_data c)))"

fun agent_run :: "nat \<Rightarrow> upload_call list \<Rightarrow> bytes \<Rightarrow> bytes option" where
  "agent_run maxChunk [] content = Some content"
| "agent_run maxChunk (c # cs) content =
     (case agent_upload maxChunk c content of None \<Rightarrow> None | Some f \<Rightarrow> agent_run maxChunk cs f)"

section \<open>Properties of transfers\<close>

lemma write_at_end: "write_at content (length content) data = content @ data"
  by (simp add: write_at_def)

lemma slice_prefix: "off \<le> length content \<Longrightarrow> take off content @ slice off b content = take (max off b) content"
  by (metis drop_take slice_def append_take_drop_id max.absorb1 max.absorb2 nat_le_linear take_add le_add_diff_inverse
      diff_is_0_eq' take_0 append_Nil2)

lemma upload_from_stores:
  assumes "0 < chunk" "chunk \<le> maxChunk" "off < length content \<or> off = 0 \<and> content = []" "stored = take off content \<or> off = 0"
  shows "agent_run maxChunk (upload_from path content chunk off) stored = Some content"
  using assms
proof (induction path content chunk off arbitrary: stored rule: upload_from.induct)
  case (1 path content chunk off)
  define b where "b = min (off + chunk) (length content)"
  let ?c = "\<lparr>up_path = path, up_offset = off, up_data = slice off b content, up_last = (off + chunk \<ge> length content)\<rparr>"
  have off: "off \<le> length content" "off \<le> b" using 1(4) by (auto simp: b_def)
  have "length (slice off b content) \<le> maxChunk" using 1(3) by (simp add: b_def)
  moreover have "write_at (if off = 0 then [] else stored) off (slice off b content) = take b content"
  proof (cases "off = 0")
    case True
    then show ?thesis by (simp add: write_at_def)
  next
    case False
    then have "stored = take off content" using 1(5) by simp
    then have "write_at stored off (slice off b content) = take off content @ slice off b content"
      using write_at_end [of "take off content"] off(1) by simp
    then show ?thesis using False off slice_prefix [OF off(1), of b] by (simp add: max_absorb2)
  qed
  ultimately have step: "agent_upload maxChunk ?c stored = Some (take b content)" by (auto simp: agent_upload_def)
  have unfold: "upload_from path content chunk off =
      ?c # (if off + chunk \<ge> length content then [] else upload_from path content chunk (off + chunk))"
    using 1(2,4) by (subst upload_from.simps) (auto simp: b_def Let_def)
  show ?case
  proof (cases "off + chunk \<ge> length content")
    case True
    then have "take b content = content" by (simp add: b_def)
    then show ?thesis using True step by (simp add: unfold)
  next
    case False
    then have "agent_run maxChunk (upload_from path content chunk (off + chunk)) (take b content) = Some content"
      using 1 by (intro 1(1)) (auto simp: b_def)
    then show ?thesis using False step by (simp add: unfold)
  qed
qed

lemma upload_from_last:
  assumes "0 < chunk" "off < length content \<or> off = 0"
  shows "\<exists>cs c. upload_from path content chunk off = cs @ [c] \<and> up_last c \<and> up_offset c + length (up_data c) = length content \<and>
    list_all (\<lambda>d. \<not> up_last d) cs"
  using assms
proof (induction path content chunk off rule: upload_from.induct)
  case (1 path content chunk off)
  show ?case
  proof (cases "off + chunk \<ge> length content")
    case True
    then show ?thesis using 1(2,3) by (subst upload_from.simps) (auto simp: Let_def)
  next
    case False
    then obtain cs c where "upload_from path content chunk (off + chunk) = cs @ [c]" "up_last c"
        "up_offset c + length (up_data c) = length content" "list_all (\<lambda>d. \<not> up_last d) cs"
      using 1 by (auto simp: Let_def)
    then show ?thesis using False 1(2,3)
      by (subst upload_from.simps) (auto simp: Let_def intro!: exI [of _ "_ # cs"] exI [of _ c])
  qed
qed

text \<open>C19: An upload ends and leaves in the container exactly the bytes of the file, whatever was there before and
  however the file divides into chunks (an empty one included): no call is over the agent's limit when the configured
  chunk is not, and exactly the last call says it is the last.\<close>

theorem uploadFile_stores:
  assumes "chunkBytes \<le> int maxChunk" "1 \<le> maxChunk"
  shows "agent_run maxChunk (uploadFile directory name content chunkBytes) old = Some content \<and>
    (\<exists>cs c. uploadFile directory name content chunkBytes = cs @ [c] \<and> up_last c \<and> list_all (\<lambda>d. \<not> up_last d) cs) \<and>
    last (upload_progress content (uploadFile directory name content chunkBytes)) = (length content, length content)"
proof -
  let ?chunk = "nat (max 1 chunkBytes)"
  have "0 < ?chunk" "?chunk \<le> maxChunk" using assms by auto
  then show ?thesis
    using upload_from_stores [of ?chunk maxChunk 0 content old "upload_path directory name"]
      upload_from_last [of ?chunk 0 content "upload_path directory name"]
    by (auto simp: uploadFile_def upload_progress_def)
qed

lemma uploadFile_stores_witness:
  "agent_run 2 (uploadFile [47] (lit ''f'') [1, 2, 3] 2) [9, 9, 9, 9] = Some [1, 2, 3]"
  using uploadFile_stores [of 2 2 "[47]" "lit ''f''" "[1, 2, 3]" "[9, 9, 9, 9]"] by simp

lemma concat_at_fits:
  "pos + length (concat cs) \<le> length out \<Longrightarrow>
   concat_at cs pos out = take pos out @ concat cs @ drop (pos + length (concat cs)) out"
proof (induction cs arbitrary: pos out)
  case (Cons c cs)
  have "concat_at cs (pos + length c) (blit out pos c) =
      take (pos + length c) (blit out pos c) @ concat cs @ drop (pos + length c + length (concat cs)) (blit out pos c)"
    using Cons.prems by (intro Cons.IH) simp
  moreover have "take (pos + length c) (blit out pos c) = take pos out @ c"
    "drop (pos + length c + length (concat cs)) (blit out pos c) = drop (pos + length c + length (concat cs)) out"
    using Cons.prems by (simp_all add: blit_def ac_simps)
  ultimately show ?case by (simp add: add.assoc)
qed simp

lemma concat_chunks_all: "concat_chunks cs (length (concat cs)) = concat cs"
  by (simp add: concat_chunks_def concat_at_fits)

lemma reading_invariant:
  "let s = reading_of ms
   in concat (rd_chunks s) = concat (map rm_data ms) \<and> rd_received s = length (concat (map rm_data ms)) \<and>
      sorted_wrt (<) (map fst (rd_progress s)) \<and> (\<forall>p \<in> set (rd_progress s). fst p \<le> rd_received s) \<and>
      (concat (map rm_data ms) \<noteq> [] \<longrightarrow> rd_progress s \<noteq> [] \<and> fst (last (rd_progress s)) = rd_received s)"
proof (induction ms rule: rev_induct)
  case (snoc m ms)
  have "reading_of (ms @ [m]) = read_step (reading_of ms) m" by (simp add: reading_of_def)
  with snoc show ?case
    by (cases "rm_data m") (auto simp: read_step_def Let_def sorted_wrt_append)
qed (simp add: reading_of_def)

text \<open>A download is the bytes of the stream, in order and complete, however they are cut into messages; and the
  progress reported on the way grows with every report up to the size of the file.\<close>

theorem readFileBytes_complete:
  "readFileBytes ms = concat (map rm_data ms) \<and>
   sorted_wrt (<) (map fst (rd_progress (reading_of ms))) \<and>
   list_all (\<lambda>p. fst p \<le> length (readFileBytes ms)) (rd_progress (reading_of ms))"
proof -
  have "readFileBytes ms = concat (map rm_data ms)"
    using reading_invariant [of ms] concat_chunks_all [of "rd_chunks (reading_of ms)"]
    by (simp add: readFileBytes_def Let_def)
  with reading_invariant [of ms] show ?thesis by (auto simp: Let_def list_all_iff)
qed

text \<open>Downloading the container's root without a name from the agent saves a file called \<^verbatim>\<open>/.archive\<close>: the
  fallback to \<^verbatim>\<open>root\<close> is never taken, since the base name of a path is never empty.\<close>

theorem archive_root_fallback_dead:
  "baseName path \<noteq> [] \<and> archive_name [47] [] = lit ''/.archive''"
proof -
  have root: "baseName [47] = [47]" by (simp add: baseName_def strip_slashes_def trim_end_def)
  have "drop (Suc i) (strip_slashes path) \<noteq> []" if "last_index_of 47 (strip_slashes path) = Some i" for i
  proof -
    have i: "i < length (strip_slashes path)" "strip_slashes path ! i = 47"
      using last_index_of_SomeD [OF that] by auto
    moreover have "last (strip_slashes path) \<noteq> 47"
      using trim_end_last [of "\<lambda>c. c = 47" path] i(1) unfolding strip_slashes_def by fastforce
    ultimately have "Suc i < length (strip_slashes path)"
      by (metis Suc_lessI diff_Suc_1 last_conv_nth length_0_conv not_less_zero)
    then show ?thesis by simp
  qed
  then show ?thesis using root by (auto simp: baseName_def archive_name_def Let_def split: option.splits)
qed

section \<open>Properties of paths and modes\<close>

definition abs_path :: "jsstring list \<Rightarrow> jsstring" where
  "abs_path segs = (if segs = [] then [47] else concat (map ((#) 47) segs))"

definition segment :: "jsstring \<Rightarrow> bool" where
  "segment s \<longleftrightarrow> s \<noteq> [] \<and> 47 \<notin> set s"

lemma strip_abs_path: "list_all segment segs \<Longrightarrow> strip_slashes (abs_path segs) = concat (map ((#) 47) segs)"
proof (cases segs rule: rev_cases)
  case Nil
  then show ?thesis by (simp add: abs_path_def strip_slashes_def trim_end_def)
next
  case (snoc xs x)
  assume "list_all segment segs"
  with snoc have x: "x \<noteq> []" "last x \<noteq> 47" by (auto simp: segment_def) (metis last_in_set)
  have "concat (map ((#) 47) segs) \<noteq> []" "last (concat (map ((#) 47) segs)) = last x"
    using snoc x by simp_all
  then show ?thesis using snoc x by (simp add: abs_path_def strip_slashes_def trim_end_id)
qed

lemma abs_path_snoc:
  assumes "list_all segment (n # segs)"
  shows "joinPath (abs_path segs) n = abs_path (segs @ [n])" "parentPath (abs_path (segs @ [n])) = abs_path segs"
    "baseName (abs_path (segs @ [n])) = n"
proof -
  have n: "n \<noteq> []" "47 \<notin> set n" using assms by (auto simp: segment_def)
  have strip: "strip_slashes (abs_path segs) = concat (map ((#) 47) segs)"
    "strip_slashes (abs_path (segs @ [n])) = concat (map ((#) 47) segs) @ 47 # n"
    using strip_abs_path [of segs] strip_abs_path [of "segs @ [n]"] assms by simp_all
  have root: "abs_path segs = [47] \<longleftrightarrow> segs = []"
    using assms by (cases segs) (auto simp: abs_path_def segment_def)
  show "joinPath (abs_path segs) n = abs_path (segs @ [n])"
    using root strip by (auto simp: joinPath_def) (simp_all add: abs_path_def)
  show "parentPath (abs_path (segs @ [n])) = abs_path segs"
    unfolding parentPath_def Let_def strip(2) last_index_of_append_Cons [OF n(2)] using assms
    by (cases segs) (simp_all add: abs_path_def)
  show "baseName (abs_path (segs @ [n])) = n" using strip n by (simp add: baseName_def Let_def)
qed

lemma ancestor_steps_prefixes:
  "ancestor_steps p segs = map (\<lambda>k. p @ concat (map ((#) 47) (take (Suc k) segs))) [0 ..< length segs]"
proof (induction segs arbitrary: p)
  case (Cons s segs)
  show ?case by (simp add: Cons Let_def map_upt_Suc del: upt_Suc)
qed simp

lemma split_segments: "list_all segment segs \<Longrightarrow> filter (\<lambda>p. p \<noteq> []) (split_on 47 (concat (map ((#) 47) segs))) = segs"
proof (induction segs)
  case (Cons s segs)
  have "split_on 47 (s @ t) = s # tl (split_on 47 (s @ t))" if "t = [] \<or> hd t = 47" "47 \<notin> set s" for s t :: jsstring
    using that by (cases t) auto
  show ?case
  proof (cases segs)
    case Nil
    then show ?thesis using Cons.prems by (simp add: segment_def)
  next
    case (Cons r rs)
    then show ?thesis using Cons.IH Cons.prems by (auto simp: segment_def)
  qed
qed simp

text \<open>The path helpers agree with one another on every absolute path: joining a name to a directory and taking the
  parent and the base name are inverse, and the ancestors of a path are its prefixes from the root down to the path
  itself, each the parent of the next.\<close>

theorem path_laws:
  assumes "list_all segment (n # segs)"
  shows "joinPath (abs_path segs) n = abs_path (segs @ [n]) \<and> parentPath (joinPath (abs_path segs) n) = abs_path segs \<and>
    baseName (joinPath (abs_path segs) n) = n \<and>
    ancestorPaths (abs_path segs) = map (\<lambda>k. abs_path (take k segs)) [0 ..< Suc (length segs)]"
proof -
  have segs: "list_all segment segs" using assms by simp
  have "ancestorPaths (abs_path segs) = map (\<lambda>k. abs_path (take k segs)) [0 ..< Suc (length segs)]"
  proof (cases "segs = []")
    case True
    then show ?thesis using strip_abs_path [OF segs] by (simp add: ancestorPaths_def abs_path_def)
  next
    case False
    then have "concat (map ((#) 47) segs) \<noteq> []" by (cases segs) auto
    then have "ancestorPaths (abs_path segs) =
        [47] # map (\<lambda>k. concat (map ((#) 47) (take (Suc k) segs))) [0 ..< length segs]"
      using segs by (simp add: ancestorPaths_def strip_abs_path Let_def split_segments ancestor_steps_prefixes)
    also have "\<dots> = map (\<lambda>k. abs_path (take k segs)) (0 # map Suc [0 ..< length segs])"
      using False by (auto simp: abs_path_def)
    also have "0 # map Suc [0 ..< length segs] = [0 ..< Suc (length segs)]"
      by (simp add: map_Suc_upt upt_conv_Cons del: upt_Suc)
    finally show ?thesis .
  qed
  then show ?thesis using abs_path_snoc [OF assms] by simp
qed

lemma path_laws_witness:
  "parentPath (joinPath (abs_path [lit ''usr'']) (lit ''bin'')) = abs_path [lit ''usr''] \<and>
   ancestorPaths (abs_path [lit ''usr'']) = [[47], lit ''/usr'']"
proof -
  have "list_all segment [lit ''bin'', lit ''usr'']" by (simp add: segment_def)
  note laws = path_laws [OF this]
  have "map (\<lambda>k. abs_path (take k [lit ''usr''])) [0 ..< Suc (length [lit ''usr''])] = [[47], lit ''/usr'']"
    by (simp add: abs_path_def)
  with laws show ?thesis by argo
qed

text \<open>Reading a mode back: a letter triple gives its digit and whether the overlay is on.\<close>

fun read_triple :: "jsstring \<Rightarrow> nat \<times> nat" where
  "read_triple [r, w, x] =
     ((if r = 114 then 4 else 0) + (if w = 119 then 2 else 0) + (if x \<in> {120, 115, 116} then 1 else 0),
      if x \<in> {115, 83, 116, 84} then 1 else 0)"
| "read_triple _ = (0, 0)"

definition read_mode :: "jsstring \<Rightarrow> nat" where
  "read_mode s =
     (let (u, su) = read_triple (slice 1 4 s); (g, sg) = read_triple (slice 4 7 s); (others, st) = read_triple (slice 7 10 s)
      in ((su * 4 + sg * 2 + st) * 8 + u) * 64 + g * 8 + others)"

definition read_octal :: "jsstring \<Rightarrow> nat" where
  "read_octal s = foldl (\<lambda>n c. n * 8 + (c - 48)) 0 s"

lemma all_less_8: "(d::nat) < 8 \<Longrightarrow> d \<in> {0, 1, 2, 3, 4, 5, 6, 7}"
  by auto

lemma overlay_read:
  assumes "d < 8" "on \<in> {115, 116}" "off \<in> {83, 84}"
  shows "read_triple (overlay f on off (RWX ! d)) = (d, if f then 1 else 0)" "length (overlay f on off (RWX ! d)) = 3"
  using all_less_8 [OF assms(1)] assms(2,3) by (cases f; auto simp: overlay_def RWX_def)+

lemma mode_digits:
  "2048 * (n div 2048 mod 2) + 1024 * (n div 1024 mod 2) + 512 * (n div 512 mod 2) + n div 64 mod 8 * 64 + n div 8 mod 8 * 8 + n mod 8 =
   n mod (4096::nat)"
  using mod_mult2_eq [of n 2048 2] mod_mult2_eq [of n 1024 2] mod_mult2_eq [of n 512 2] mod_mult2_eq [of n 64 8] mod_mult2_eq [of n 8 8]
  by simp

lemma read_octal_snoc [simp]: "read_octal (s @ [c]) = read_octal s * 8 + (c - 48)"
  by (simp add: read_octal_def)

lemma read_octal_digits: "n < 8 ^ k \<Longrightarrow> read_octal (octal_digits k n) = n"
proof (induction k arbitrary: n)
  case (Suc k)
  then have "n div 8 < 8 ^ k" by (simp add: less_mult_imp_div_less mult.commute)
  then show ?case using Suc.IH by simp
qed (simp add: read_octal_def)

text \<open>The two ways a mode is written say all of it: the twelve permission bits, the setuid, setgid and sticky
  bits included, are read back from the letters whatever the entry is, and from the octal digits.\<close>

theorem mode_roundtrip: "read_mode (formatMode mode type) = mode mod 4096 \<and> read_octal (formatOctal mode) = mode mod 4096"
proof
  let ?u = "overlay (mode div 2048 mod 2 = 1) 115 83 (RWX ! (mode div 64 mod 8))"
  let ?g = "overlay (mode div 1024 mod 2 = 1) 115 83 (RWX ! (mode div 8 mod 8))"
  let ?o = "overlay (mode div 512 mod 2 = 1) 116 84 (RWX ! (mode mod 8))"
  have len: "length ?u = 3" "length ?g = 3" "length ?o = 3" by (simp_all add: overlay_read(2))
  have bit: "(if n mod 2 = 1 then 1 else 0) = n mod (2::nat)" for n by auto
  have "slice 1 4 (formatMode mode type) = ?u" "slice 4 7 (formatMode mode type) = ?g" "slice 7 10 (formatMode mode type) = ?o"
    using len unfolding formatMode_def slice_def by simp_all
  then show "read_mode (formatMode mode type) = mode mod 4096"
    unfolding read_mode_def by (simp add: overlay_read(1) bit mode_digits del: One_nat_def)
  have cons: "read_octal (48 # s) = read_octal s" for s by (simp add: read_octal_def)
  have "mode mod 4096 < 8 ^ 4" "mode mod 4096 < 512 \<Longrightarrow> mode mod 4096 < 8 ^ 3" by simp_all
  then show "read_octal (formatOctal mode) = mode mod 4096"
    using read_octal_digits [of "mode mod 4096" 4] read_octal_digits [of "mode mod 4096" 3]
    by (simp add: formatOctal_def Let_def cons del: octal_digits.simps)
qed

section \<open>Properties of sizes\<close>

lemma size_unit_spec:
  assumes "unit \<le> 5" "unit = 0 \<or> 1024 ^ unit \<le> bytes"
  shows "let u = size_unit bytes unit in unit \<le> u \<and> u \<le> 5 \<and> (u = 0 \<or> 1024 ^ u \<le> bytes) \<and> (u = 5 \<or> bytes < 1024 ^ Suc u)"
  using assms
proof (induction bytes unit rule: size_unit.induct)
  case (1 bytes unit)
  have units: "length UNITS - 1 = 5" by (simp add: UNITS_def)
  show ?case
  proof (cases "bytes \<ge> 1024 * 1024 ^ unit \<and> unit < length UNITS - 1")
    case True
    then have "size_unit bytes unit = size_unit bytes (Suc unit)" by (simp add: size_unit.simps)
    then show ?thesis using 1(1) [OF True] True units by (auto simp: Let_def)
  next
    case False
    then have "size_unit bytes unit = unit" by (simp only: size_unit.simps [of bytes unit] if_False)
    then show ?thesis using False 1(2,3) units by (simp add: Let_def) linarith
  qed
qed

lemma fixed_scaled_near:
  assumes "0 < n"
  shows "2 * n * fixed_scaled d m n \<le> 2 * m * 10 ^ d + n" "2 * m * 10 ^ d < 2 * n * fixed_scaled d m n + n"
proof -
  let ?x = "2 * m * 10 ^ d + n"
  have "?x = 2 * n * (?x div (2 * n)) + ?x mod (2 * n)" by simp
  moreover have "?x mod (2 * n) < 2 * n" using assms by simp
  ultimately show "2 * n * fixed_scaled d m n \<le> ?x" "2 * m * 10 ^ d < 2 * n * fixed_scaled d m n + n"
    unfolding fixed_scaled_def by linarith+
qed

text \<open>A size is shown in the largest unit that does not make it less than one, whole bytes below 1024 and otherwise a
  number at most half a last digit away from the size, one decimal below ten.\<close>

theorem formatSize_near:
  "let u = size_unit bytes 0; d = size_digits bytes u; k = fixed_scaled d bytes (1024 ^ u)
   in formatSize (Some bytes) =
        (if u = 0 then show_nat bytes
         else if bytes < 10 * 1024 ^ u then show_nat (k div 10) @ [46] @ show_nat (k mod 10) else show_nat k) @ [32] @ lit (UNITS ! u) \<and>
      u < length UNITS \<and> (u = 0 \<or> 1024 ^ u \<le> bytes) \<and> (u = 5 \<or> bytes < 1024 ^ Suc u) \<and>
      2 * 1024 ^ u * k \<le> 2 * bytes * 10 ^ d + 1024 ^ u \<and> 2 * bytes * 10 ^ d < 2 * 1024 ^ u * k + 1024 ^ u"
proof -
  let ?u = "size_unit bytes 0"
  let ?k = "fixed_scaled (size_digits bytes ?u) bytes (1024 ^ ?u)"
  have u: "?u \<le> 5" "?u = 0 \<or> 1024 ^ ?u \<le> bytes" "?u = 5 \<or> bytes < 1024 ^ Suc ?u"
    using size_unit_spec [of 0 bytes] by (auto simp: Let_def)
  have pad: "pad_to 1 (show_nat (n mod 10)) = show_nat (n mod 10)" for n
  proof -
    have "show_nat (n mod 10) \<noteq> []" by (simp add: show_nat.simps)
    then show ?thesis by (cases "show_nat (n mod 10)") (auto simp: pad_to_def)
  qed
  have "to_fixed (size_digits bytes ?u) bytes (1024 ^ ?u) =
      (if bytes < 10 * 1024 ^ ?u then show_nat (?k div 10) @ [46] @ show_nat (?k mod 10) else show_nat ?k)"
    using pad by (simp add: to_fixed_def size_digits_def Let_def)
  then have "formatSize (Some bytes) =
      (if ?u = 0 then show_nat bytes
       else if bytes < 10 * 1024 ^ ?u then show_nat (?k div 10) @ [46] @ show_nat (?k mod 10) else show_nat ?k) @ [32] @ lit (UNITS ! ?u)"
    by (simp add: formatSize_def Let_def)
  moreover have "?u < length UNITS" using u(1) by (simp add: UNITS_def)
  moreover have "0 < (1024::nat) ^ ?u" by simp
  moreover note u(2,3) fixed_scaled_near [OF this, where d = "size_digits bytes ?u" and m = bytes]
  ultimately show ?thesis by (simp add: Let_def)
qed

end
