(* ===== verification/Cm_Punycode.thy ===== *)
theory Cm_Punycode
  imports Js_Date
begin

text \<open>
  The decoder of internationalised host names of the cert-manager plugin,
  \<^verbatim>\<open>plugins/cert-manager/src/utils/punycode.ts\<close>, and the encoder of RFC 3492 it has to invert.

  The numbers are exact integers: where a double would lose digits (beyond \<open>2 ^ 53\<close>) the code point is out of range in both,
  and the label is refused. \<^verbatim>\<open>>>\<close> works on 32 bits and is modelled so.
\<close>

section \<open>The decoder\<close>

definition BASE :: nat where "BASE = 36"
definition T_MIN :: nat where "T_MIN = 1"
definition T_MAX :: nat where "T_MAX = 26"
definition SKEW :: int where "SKEW = 38"
definition DAMP :: int where "DAMP = 700"
definition INITIAL_BIAS :: int where "INITIAL_BIAS = 72"
definition INITIAL_N :: nat where "INITIAL_N = 128"
definition DELIMITER :: code_unit where "DELIMITER = 45"

lemmas puny_consts = BASE_def T_MIN_def T_MAX_def SKEW_def DAMP_def INITIAL_BIAS_def INITIAL_N_def DELIMITER_def

definition to_int32 :: "int \<Rightarrow> int" where
  "to_int32 x = (x + 2 ^ 31) mod 2 ^ 32 - 2 ^ 31"

function adapt_loop :: "int \<Rightarrow> int \<Rightarrow> int \<times> int" where
  "adapt_loop d k =
     (if d > int ((BASE - T_MIN) * T_MAX div 2) then adapt_loop (d div int (BASE - T_MIN)) (k + int BASE) else (d, k))"
  by pat_completeness auto
termination
  by (relation "measure (\<lambda>(d, k). nat d)") (auto simp: puny_consts)

declare adapt_loop.simps [simp del]

text \<open>
  The last division is by zero for \<open>d = -38\<close>, which only a wrapped delta reaches: the source's bias is then \<open>-\<infinity>\<close>, the
  model's is \<open>k\<close>, which is zero for a negative \<open>d\<close>, and both give every digit the threshold \<open>T_MAX\<close>.
\<close>

definition adapt :: "int \<Rightarrow> int \<Rightarrow> bool \<Rightarrow> int" where
  "adapt delta numPoints firstTime =
     (let d0 = (if firstTime then delta div DAMP else to_int32 delta div 2);
          (d, k) = adapt_loop (d0 + d0 div numPoints) 0
      in k + (int (BASE - T_MIN + 1) * d) div (d + SKEW))"

definition basicToDigit :: "code_unit \<Rightarrow> nat" where
  "basicToDigit codePoint =
     (if 0x30 \<le> codePoint \<and> codePoint < 0x3A then codePoint - 0x16
      else if 0x41 \<le> codePoint \<and> codePoint < 0x5B then codePoint - 0x41
      else if 0x61 \<le> codePoint \<and> codePoint < 0x7B then codePoint - 0x61
      else BASE)"

definition threshold :: "nat \<Rightarrow> int \<Rightarrow> nat" where
  "threshold k bias =
     (if int k \<le> bias then T_MIN else if int k \<ge> bias + int T_MAX then T_MAX else nat (int k - bias))"

datatype puny_error = Truncated | BadDigit | RangeError

text \<open>The inner loop, over what is left of the input.\<close>

fun decode_delta :: "int \<Rightarrow> nat \<Rightarrow> nat \<Rightarrow> nat \<Rightarrow> jsstring \<Rightarrow> puny_error + (nat \<times> jsstring)" where
  "decode_delta bias k w i [] = Inl Truncated"
| "decode_delta bias k w i (c # rest) =
     (let digit = basicToDigit c; i' = i + digit * w; t = threshold k bias
      in if digit \<ge> BASE then Inl BadDigit
         else if digit < t then Inr (i', rest)
         else decode_delta bias (k + BASE) (w * (BASE - t)) i' rest)"

lemma decode_delta_shorter: "decode_delta bias k w i s = Inr (i', rest) \<Longrightarrow> length rest < length s"
proof (induction s arbitrary: k w i)
  case (Cons c s)
  then show ?case by (auto simp: Let_def less_Suc_eq dest!: Cons.IH split: if_splits)
qed simp

definition insert_at :: "nat \<Rightarrow> 'a \<Rightarrow> 'a list \<Rightarrow> 'a list" where
  "insert_at i x xs = take i xs @ x # drop i xs"

function decode_loop :: "nat \<Rightarrow> nat \<Rightarrow> int \<Rightarrow> nat list \<Rightarrow> jsstring \<Rightarrow> puny_error + nat list" where
  "decode_loop n oldi bias output rest =
     (if rest = [] then Inr output
      else
        (case decode_delta bias BASE 1 oldi rest of
           Inl e \<Rightarrow> Inl e
         | Inr (i, rest') \<Rightarrow>
             (let outLength = length output + 1;
                  n' = n + i div outLength
              in decode_loop n' (i mod outLength + 1) (adapt (int i - int oldi) (int outLength) (oldi = 0))
                   (insert_at (i mod outLength) n' output) rest')))"
  by pat_completeness auto
termination
  by (relation "measure (\<lambda>(n, i, bias, output, rest). length rest)") (auto intro: decode_delta_shorter)

declare decode_loop.simps [simp del]

text \<open>\<^verbatim>\<open>String.fromCodePoint\<close>.\<close>

definition from_code_point :: "nat \<Rightarrow> jsstring" where
  "from_code_point c =
     (if c < 0x10000 then [c] else [0xD800 + (c - 0x10000) div 0x400, 0xDC00 + (c - 0x10000) mod 0x400])"

definition from_code_points :: "nat list \<Rightarrow> puny_error + jsstring" where
  "from_code_points cs = (if list_all (\<lambda>c. c \<le> 0x10FFFF) cs then Inr (concat (map from_code_point cs)) else Inl RangeError)"

definition decodeACE :: "jsstring \<Rightarrow> puny_error + jsstring" where
  "decodeACE input =
     (let basicLength = (case last_index_of DELIMITER input of None \<Rightarrow> 0 | Some i \<Rightarrow> i);
          index = (if basicLength > 0 then basicLength + 1 else 0)
      in case decode_loop INITIAL_N 0 INITIAL_BIAS (take basicLength input) (drop index input) of
           Inl e \<Rightarrow> Inl e
         | Inr output \<Rightarrow> from_code_points output)"

text \<open>
  \<^verbatim>\<open>label.toLowerCase().startsWith('xn--')\<close>: of all characters only the ASCII capitals have \<open>x\<close> and \<open>n\<close> as their lower
  case, so it is decided by the first four code units.
\<close>

definition is_ace :: "jsstring \<Rightarrow> bool" where
  "is_ace label = (map ascii_lower (take 4 label) = lit ''xn--'')"

definition decodeLabel :: "jsstring \<Rightarrow> jsstring" where
  "decodeLabel label =
     (if \<not> is_ace label then label
      else case decodeACE (drop 4 label) of Inl e \<Rightarrow> label | Inr s \<Rightarrow> s)"

definition decodeIDN :: "jsstring \<Rightarrow> jsstring" where
  "decodeIDN hostname = join [46] (map decodeLabel (split_on 46 hostname))"

section \<open>The encoder of RFC 3492\<close>

function rfc_adapt_loop :: "nat \<Rightarrow> nat \<Rightarrow> nat \<times> nat" where
  "rfc_adapt_loop d k = (if d > 455 then rfc_adapt_loop (d div 35) (k + 36) else (d, k))"
  by pat_completeness auto
termination by (relation "measure fst") auto

declare rfc_adapt_loop.simps [simp del]

definition rfc_adapt :: "nat \<Rightarrow> nat \<Rightarrow> bool \<Rightarrow> nat" where
  "rfc_adapt delta numpoints firsttime =
     (let d0 = (if firsttime then delta div 700 else delta div 2);
          (d, k) = rfc_adapt_loop (d0 + d0 div numpoints) 0
      in k + 36 * d div (d + 38))"

definition rfc_digit :: "nat \<Rightarrow> code_unit" where
  "rfc_digit d = (if d < 26 then 97 + d else 22 + d)"

lemma threshold_range: "1 \<le> threshold k bias" "threshold k bias \<le> 26"
  by (auto simp: threshold_def puny_consts)

function rfc_integer :: "nat \<Rightarrow> nat \<Rightarrow> nat \<Rightarrow> jsstring" where
  "rfc_integer bias k q =
     (let t = threshold k (int bias)
      in if q < t then [rfc_digit q]
         else rfc_digit (t + (q - t) mod (36 - t)) # rfc_integer bias (k + 36) ((q - t) div (36 - t)))"
  by pat_completeness auto
termination
proof (relation "measure (\<lambda>(bias, k, q). q)", goal_cases)
  case (2 bias k q t)
  have "(q - t) div (36 - t) \<le> q - t" by simp
  also have "\<dots> < q" using 2 threshold_range(1) [of k "int bias"] by simp
  finally show ?case by simp
qed simp

declare rfc_integer.simps [simp del]

text \<open>One pass over the input for the code point \<open>n\<close>, then the passes for the code points from \<open>n\<close> on.\<close>

fun rfc_pass :: "nat \<Rightarrow> nat \<Rightarrow> nat list \<Rightarrow> nat \<Rightarrow> nat \<Rightarrow> nat \<Rightarrow> jsstring \<times> nat \<times> nat \<times> nat" where
  "rfc_pass b n [] delta bias h = ([], delta, bias, h)"
| "rfc_pass b n (c # cs) delta bias h =
     (if c < n then rfc_pass b n cs (delta + 1) bias h
      else if c = n then
        (case rfc_pass b n cs 0 (rfc_adapt delta (h + 1) (h = b)) (h + 1) of
           (out, r) \<Rightarrow> (rfc_integer bias 36 delta @ out, r))
      else rfc_pass b n cs delta bias h)"

lemma filter_less_length: "(\<And>x. P x \<Longrightarrow> Q x) \<Longrightarrow> y \<in> set xs \<Longrightarrow> Q y \<Longrightarrow> \<not> P y \<Longrightarrow> length (filter P xs) < length (filter Q xs)"
proof -
  assume a: "\<And>x. P x \<Longrightarrow> Q x" "y \<in> set xs" "Q y" "\<not> P y"
  have "filter P xs = filter P (filter Q xs)" using a(1) by (auto simp: filter_filter intro: filter_cong)
  also have "length \<dots> < length (filter Q xs)" using a(2-4) by (intro length_filter_less [of y]) auto
  finally show ?thesis .
qed

lemma later_Min:
  assumes "filter (\<lambda>c. n \<le> c) cs \<noteq> []"
  shows "Min (set (filter (\<lambda>c. n \<le> c) cs)) \<in> set cs" "n \<le> Min (set (filter (\<lambda>c. n \<le> c) cs))"
    "c \<in> set cs \<Longrightarrow> n \<le> c \<Longrightarrow> Min (set (filter (\<lambda>c. n \<le> c) cs)) \<le> c"
proof -
  have "Min (set (filter (\<lambda>c. n \<le> c) cs)) \<in> set (filter (\<lambda>c. n \<le> c) cs)" using assms by (intro Min_in) (auto simp del: set_filter)
  then show "Min (set (filter (\<lambda>c. n \<le> c) cs)) \<in> set cs" "n \<le> Min (set (filter (\<lambda>c. n \<le> c) cs))" by auto
  show "c \<in> set cs \<Longrightarrow> n \<le> c \<Longrightarrow> Min (set (filter (\<lambda>c. n \<le> c) cs)) \<le> c" by (intro Min_le) auto
qed

function rfc_passes :: "nat \<Rightarrow> nat list \<Rightarrow> nat \<Rightarrow> nat \<Rightarrow> nat \<Rightarrow> nat \<Rightarrow> jsstring" where
  "rfc_passes b cs n delta bias h =
     (let later = filter (\<lambda>c. n \<le> c) cs
      in if later = [] then []
         else
           (let m = Min (set later)
            in case rfc_pass b m cs (delta + (m - n) * (h + 1)) bias h of
                 (out, delta', bias', h') \<Rightarrow> out @ rfc_passes b cs (m + 1) (delta' + 1) bias' h'))"
  by pat_completeness auto

termination
proof (relation "measure (\<lambda>(b, cs, n, delta, bias, h). length (filter (\<lambda>c. n \<le> c) cs))", goal_cases)
  case (2 b cs n delta bias h later m)
  have "length (filter (\<lambda>c. m + 1 \<le> c) cs) < length (filter (\<lambda>c. n \<le> c) cs)"
    using later_Min [of n cs] 2(1-3) by (intro filter_less_length [of _ _ m]) auto
  then show ?case by simp
qed simp

declare rfc_passes.simps [simp del]

definition rfc_encode :: "nat list \<Rightarrow> jsstring" where
  "rfc_encode cs =
     (let basic = filter (\<lambda>c. c < 128) cs; b = length basic
      in basic @ (if b > 0 then [45] else []) @ rfc_passes b cs 128 0 72 b)"

section \<open>The decoder inverts the encoder\<close>

lemma adapt_loop_rfc: "adapt_loop (int d) (int k) = map_prod int int (rfc_adapt_loop d k)"
proof (induction d k rule: rfc_adapt_loop.induct)
  case (1 d k)
  have step: "adapt_loop (int d) (int k) = (if 455 < d then adapt_loop (int (d div 35)) (int (k + 36)) else (int d, int k))"
    by (subst adapt_loop.simps) (simp add: puny_consts zdiv_int add.commute)
  show ?case
  proof (cases "455 < d")
    case True
    then show ?thesis using 1 [OF True] step rfc_adapt_loop.simps [of d k] by (simp only: if_True)
  qed (simp add: step rfc_adapt_loop.simps)
qed

lemma to_int32_small: "x < 2 ^ 31 \<Longrightarrow> to_int32 (int x) = int x"
  by (simp add: to_int32_def)

lemma adapt_rfc:
  assumes "delta < 2 ^ 31"
  shows "adapt (int delta) (int np) first = int (rfc_adapt delta np first)"
proof -
  define d0 where "d0 = (if first then delta div 700 else delta div 2)"
  have d0: "(if first then int delta div DAMP else to_int32 (int delta) div 2) = int d0"
    using to_int32_small [OF assms] by (simp add: d0_def DAMP_def zdiv_int)
  obtain d k where l: "rfc_adapt_loop (d0 + d0 div np) 0 = (d, k)" by fastforce
  have "int d0 + int d0 div int np = int (d0 + d0 div np)" by (simp add: zdiv_int)
  then have "adapt_loop (int d0 + int d0 div int np) 0 = (int d, int k)"
    using adapt_loop_rfc [of "d0 + d0 div np" 0] l by simp
  then show ?thesis
    unfolding adapt_def d0 Let_def rfc_adapt_def d0_def [symmetric] l by (simp add: puny_consts zdiv_int)
qed

lemma basicToDigit_rfc: "d < 36 \<Longrightarrow> basicToDigit (rfc_digit d) = d"
  by (auto simp: basicToDigit_def rfc_digit_def)

lemma decode_delta_rfc:
  "decode_delta (int bias) k w i (rfc_integer bias k q @ rest) = Inr (i + q * w, rest)"
proof (induction bias k q arbitrary: w i rule: rfc_integer.induct)
  case (1 bias k q)
  let ?t = "threshold k (int bias)"
  have t: "1 \<le> ?t" "?t \<le> 26" by (rule threshold_range)+
  show ?case
  proof (cases "q < ?t")
    case True
    then have "rfc_integer bias k q = [rfc_digit q]" by (simp add: rfc_integer.simps)
    moreover have "basicToDigit (rfc_digit q) = q" using True t by (intro basicToDigit_rfc) simp
    ultimately show ?thesis using True t by (simp add: BASE_def)
  next
    case False
    define r q' where "r = (q - ?t) mod (36 - ?t)" and "q' = (q - ?t) div (36 - ?t)"
    have r: "r < 36 - ?t" using t by (simp add: r_def)
    have q: "q = ?t + r + (36 - ?t) * q'" using False t by (simp add: r_def q'_def)
    have digit: "basicToDigit (rfc_digit (?t + r)) = ?t + r" using r by (intro basicToDigit_rfc) simp
    have small: "?t + r < 36" using r by simp
    have "rfc_integer bias k q = rfc_digit (?t + r) # rfc_integer bias (k + 36) q'"
      using False unfolding r_def q'_def by (subst rfc_integer.simps) (simp add: Let_def)
    then have "decode_delta (int bias) k w i (rfc_integer bias k q @ rest) =
        decode_delta (int bias) (k + BASE) (w * (BASE - ?t)) (i + (?t + r) * w) (rfc_integer bias (k + 36) q' @ rest)"
      using small digit by (simp add: BASE_def Let_def)
    also have "\<dots> = Inr (i + (?t + r) * w + q' * (w * (36 - ?t)), rest)"
      using 1 [OF refl False] by (simp add: BASE_def q'_def)
    also have "i + (?t + r) * w + q' * (w * (36 - ?t)) = i + q * w"
      unfolding arg_cong [OF q, of "\<lambda>x. x * w"] by (simp add: add_mult_distrib add_mult_distrib2 ac_simps)
    finally show ?thesis .
  qed
qed

lemma rfc_integer_not_Nil: "rfc_integer bias k q \<noteq> []"
  by (subst rfc_integer.simps) (simp add: Let_def)

lemma div_mod_row: "p < l \<Longrightarrow> (m * l + p) div l = m \<and> (m * l + p) mod l = (p::nat)"
  by simp

text \<open>
  What one number does to the state of the decoder: \<open>before\<close> are the code points already in place in front of the one that
  is inserted, \<open>behind\<close> those after it.
\<close>

lemma decode_insert:
  assumes "oldi + delta = (n - n0) * Suc (length before + length behind) + length before" "n0 \<le> n" "delta < 2 ^ 31"
  shows "decode_loop n0 oldi (int bias) (before @ behind) (rfc_integer bias 36 delta @ rest) =
    decode_loop n (Suc (length before)) (int (rfc_adapt delta (Suc (length before + length behind)) (oldi = 0)))
      (before @ n # behind) rest"
proof -
  let ?L = "Suc (length before + length behind)"
  have "decode_delta (int bias) BASE 1 oldi (rfc_integer bias 36 delta @ rest) = Inr (oldi + delta, rest)"
    using decode_delta_rfc [of bias 36 1 oldi delta rest] by (simp add: BASE_def)
  moreover have "n0 + (oldi + delta) div ?L = n" "(oldi + delta) mod ?L = length before"
    unfolding assms(1) using assms(2) div_mod_row [of "length before" ?L "n - n0"] by simp_all
  moreover have "adapt (int (oldi + delta) - int oldi) (int ?L) (oldi = 0) = int (rfc_adapt delta ?L (oldi = 0))"
    using adapt_rfc [OF assms(3), of ?L] by simp
  ultimately show ?thesis
    by (subst decode_loop.simps) (simp add: rfc_integer_not_Nil Let_def insert_at_def)
qed

text \<open>
  The two sides in step: the decoder holds every code point below \<open>n\<close> and, of those the pass has met, \<open>n\<close> itself; its
  counter is behind by what the encoder has counted since the last number.
\<close>

lemma rfc_pass_decodes:
  assumes "rfc_pass b n cs delta bias h = (out, delta', bias', h')"
    and "h = length (filter (\<lambda>c. c \<le> n) ps) + length (filter (\<lambda>c. c < n) cs)"
    and "oldi + delta = (n - n0) * Suc h + length (filter (\<lambda>c. c \<le> n) ps)" "n0 \<le> n" "b \<le> h" "oldi = 0 \<longleftrightarrow> h = b"
    and "n * Suc (length (ps @ cs)) + length (ps @ cs) < 2 ^ 31"
  shows "\<exists>n0' oldi'. (\<forall>rest. decode_loop n0 oldi (int bias) (filter (\<lambda>c. c \<le> n) ps @ filter (\<lambda>c. c < n) cs) (out @ rest) =
      decode_loop n0' oldi' (int bias') (filter (\<lambda>c. c \<le> n) (ps @ cs)) rest) \<and>
    h' = length (filter (\<lambda>c. c \<le> n) (ps @ cs)) \<and> oldi' + delta' = (n - n0') * Suc h' + h' \<and> n0' \<le> n \<and> b \<le> h' \<and>
    (oldi' = 0 \<longleftrightarrow> h' = b)"
  using assms
proof (induction cs arbitrary: ps delta bias h out n0 oldi)
  case Nil
  then show ?case by (intro exI [of _ n0] exI [of _ oldi]) auto
next
  case (Cons c cs)
  let ?before = "filter (\<lambda>c. c \<le> n) ps" and ?behind = "filter (\<lambda>c. c < n) cs"
  consider "c < n" | "c = n" | "n < c" by linarith
  then show ?case
  proof cases
    case 1
    then show ?thesis using Cons.IH [of "delta + 1" bias h out "ps @ [c]" oldi n0] Cons.prems by auto
  next
    case 3
    then show ?thesis using Cons.IH [of delta bias h out "ps @ [c]" oldi n0] Cons.prems by auto
  next
    case 2
    let ?bias = "rfc_adapt delta (h + 1) (h = b)"
    from Cons.prems(1) 2 obtain out1 where out: "out = rfc_integer bias 36 delta @ out1"
      and pass: "rfc_pass b n cs 0 ?bias (h + 1) = (out1, delta', bias', h')"
      by (auto split: prod.splits)
    have h: "h = length ?before + length ?behind" using Cons.prems(2) 2 by simp
    have "(n - n0) * Suc h \<le> n * Suc (length (ps @ c # cs))"
      using h by (intro mult_le_mono) (auto intro!: add_mono length_filter_le le_SucI)
    moreover have "length ?before \<le> length (ps @ c # cs)" by (simp add: le_trans [OF length_filter_le])
    ultimately have "delta < 2 ^ 31" using Cons.prems(3,7) by linarith
    then have ins: "decode_loop n0 oldi (int bias) (?before @ ?behind) (rfc_integer bias 36 delta @ rest) =
        decode_loop n (Suc (length ?before)) (int ?bias) (?before @ n # ?behind) rest" for rest
      using decode_insert [of oldi delta n n0 ?before ?behind bias rest] Cons.prems(3,4,6) h by simp
    show ?thesis
      using Cons.IH [OF pass, of "ps @ [c]" "Suc (length ?before)" n] Cons.prems(5,7) h ins 2 out by auto
  qed
qed

lemma rfc_passes_decodes:
  assumes "oldi + delta = (n - n0) * Suc h" "h = length (filter (\<lambda>c. c < n) cs)" "n0 \<le> n" "b \<le> h" "oldi = 0 \<longleftrightarrow> h = b"
    and "list_all (\<lambda>c. c \<le> 0x10FFFF) cs" "length cs \<le> 1000"
  shows "decode_loop n0 oldi (int bias) (filter (\<lambda>c. c < n) cs) (rfc_passes b cs n delta bias h) = Inr cs"
  using assms
proof (induction b cs n delta bias h arbitrary: n0 oldi rule: rfc_passes.induct)
  case (1 b cs n delta bias h)
  let ?later = "filter (\<lambda>c. n \<le> c) cs"
  show ?case
  proof (cases "?later = []")
    case True
    then have "filter (\<lambda>c. c < n) cs = cs" by (auto simp: filter_empty_conv filter_id_conv not_le)
    then show ?thesis using True by (simp add: rfc_passes.simps decode_loop.simps)
  next
    case False
    define m where "m = Min (set ?later)"
    have m: "m \<in> set cs" "n \<le> m" "\<And>c. c \<in> set cs \<Longrightarrow> n \<le> c \<Longrightarrow> m \<le> c"
      using later_Min [OF False] unfolding m_def by auto
    obtain out delta' bias' h' where pass: "rfc_pass b m cs (delta + (m - n) * (h + 1)) bias h = (out, delta', bias', h')"
      by (metis prod_cases4)
    have low: "filter (\<lambda>c. c < m) cs = filter (\<lambda>c. c < n) cs" using m by (intro filter_cong) (auto simp: not_le [symmetric])
    have "m \<le> 0x10FFFF" using 1(7) m(1) by (auto simp: list_all_iff)
    then have "m * Suc (length cs) + length cs \<le> 0x10FFFF * 1001 + 1000"
      using 1(8) by (intro add_mono mult_le_mono) auto
    then have small: "m * Suc (length cs) + length cs < 2 ^ 31" by simp
    have row: "oldi + (delta + (m - n) * (h + 1)) = (m - n0) * Suc h"
    proof -
      have "m - n0 = (n - n0) + (m - n)" using 1(4) m(2) by simp
      then have "(m - n0) * Suc h = (n - n0) * Suc h + (m - n) * Suc h" by (simp only: add_mult_distrib)
      then show ?thesis using 1(2) by simp
    qed
    have "\<exists>n0' oldi'. (\<forall>rest. decode_loop n0 oldi (int bias) (filter (\<lambda>c. c < m) cs) (out @ rest) =
        decode_loop n0' oldi' (int bias') (filter (\<lambda>c. c \<le> m) cs) rest) \<and>
      h' = length (filter (\<lambda>c. c \<le> m) cs) \<and> oldi' + delta' = (m - n0') * Suc h' + h' \<and> n0' \<le> m \<and> b \<le> h' \<and> (oldi' = 0 \<longleftrightarrow> h' = b)"
      using rfc_pass_decodes [OF pass, of "[]" oldi n0] 1(3-6) m(2) low row small by simp
    then obtain n0' oldi' where step: "\<And>rest. decode_loop n0 oldi (int bias) (filter (\<lambda>c. c < m) cs) (out @ rest) =
        decode_loop n0' oldi' (int bias') (filter (\<lambda>c. c \<le> m) cs) rest"
      and nxt: "h' = length (filter (\<lambda>c. c \<le> m) cs)" "oldi' + delta' = (m - n0') * Suc h' + h'" "n0' \<le> m" "b \<le> h'" "oldi' = 0 \<longleftrightarrow> h' = b"
      by blast
    have "rfc_passes b cs n delta bias h = out @ rfc_passes b cs (m + 1) (delta' + 1) bias' h'"
      using False pass unfolding m_def by (subst rfc_passes.simps) (simp add: Let_def)
    moreover have "decode_loop n0' oldi' (int bias') (filter (\<lambda>c. c < m + 1) cs) (rfc_passes b cs (m + 1) (delta' + 1) bias' h') = Inr cs"
      using nxt 1(7,8) by (intro 1(1) [OF refl False m_def pass [symmetric] refl refl]) (auto simp: less_Suc_eq_le Suc_diff_le)
    ultimately show ?thesis using step low by (simp add: less_Suc_eq_le)
  qed
qed

lemma rfc_digits_plain:
  "d < 36 \<Longrightarrow> rfc_digit d \<noteq> 45 \<and> rfc_digit d \<noteq> 46"
  by (auto simp: rfc_digit_def)

lemma rfc_integer_plain: "x \<in> set (rfc_integer bias k q) \<Longrightarrow> x \<noteq> 45 \<and> x \<noteq> 46"
proof (induction bias k q rule: rfc_integer.induct)
  case (1 bias k q)
  let ?t = "threshold k (int bias)"
  have t: "1 \<le> ?t" "?t \<le> 26" by (rule threshold_range)+
  have "(q - ?t) mod (36 - ?t) < 36 - ?t" using t by simp
  then have "?t + (q - ?t) mod (36 - ?t) < 36" by simp
  with 1 t rfc_digits_plain show ?case by (subst (asm) (2) rfc_integer.simps) (auto simp: Let_def split: if_splits)
qed

lemma rfc_pass_plain: "x \<in> set (fst (rfc_pass b n cs delta bias h)) \<Longrightarrow> x \<noteq> 45 \<and> x \<noteq> 46"
  by (induction b n cs delta bias h rule: rfc_pass.induct) (auto dest: rfc_integer_plain split: if_splits prod.splits)

lemma rfc_passes_plain: "x \<in> set (rfc_passes b cs n delta bias h) \<Longrightarrow> x \<noteq> 45 \<and> x \<noteq> 46"
proof (induction b cs n delta bias h rule: rfc_passes.induct)
  case (1 b cs n delta bias h)
  show ?case
  proof (cases "filter (\<lambda>c. n \<le> c) cs = []")
    case False
    define m where "m = Min (set (filter (\<lambda>c. n \<le> c) cs))"
    obtain out delta' bias' h' where pass: "rfc_pass b m cs (delta + (m - n) * (h + 1)) bias h = (out, delta', bias', h')"
      by (metis prod_cases4)
    have "rfc_passes b cs n delta bias h = out @ rfc_passes b cs (m + 1) (delta' + 1) bias' h'"
      using False pass unfolding m_def by (subst rfc_passes.simps) (simp add: Let_def)
    then show ?thesis
      using 1(1) [OF refl False m_def pass [symmetric] refl refl] 1(2)
        rfc_pass_plain [of x b m cs "delta + (m - n) * (h + 1)" bias h] pass by auto
  qed (use 1 in \<open>simp add: rfc_passes.simps\<close>)
qed

lemma decodeACE_rfc_encode:
  assumes "list_all (\<lambda>c. c \<le> 0x10FFFF) cs" "length cs \<le> 1000"
  shows "decodeACE (rfc_encode cs) = from_code_points cs"
proof -
  define basic digits where "basic = filter (\<lambda>c. c < 128) cs" and "digits = rfc_passes (length basic) cs 128 0 72 (length basic)"
  have plain: "45 \<notin> set digits" using rfc_passes_plain unfolding digits_def by blast
  have enc: "rfc_encode cs = basic @ (if basic \<noteq> [] then [45] else []) @ digits"
    by (simp add: rfc_encode_def Let_def basic_def digits_def)
  have loop: "decode_loop INITIAL_N 0 INITIAL_BIAS basic digits = Inr cs"
    using rfc_passes_decodes [of 0 0 128 128 "length basic" cs "length basic" 72] assms
    unfolding digits_def basic_def puny_consts by simp
  show ?thesis
  proof (cases "basic = []")
    case True
    moreover have "last_index_of 45 digits = None" using plain by simp
    ultimately show ?thesis using enc loop by (simp add: decodeACE_def DELIMITER_def Let_def del: last_index_of_None_iff)
  next
    case False
    then show ?thesis using enc plain loop by (simp add: decodeACE_def DELIMITER_def Let_def)
  qed
qed

section \<open>Properties\<close>

text \<open>A label as its code points, and its ASCII form: itself, or the prefix and the encoding.\<close>

definition to_ascii :: "nat list \<Rightarrow> jsstring" where
  "to_ascii cs = (if list_all (\<lambda>c. c < 128) cs then cs else lit ''xn--'' @ rfc_encode cs)"

definition to_unicode :: "nat list \<Rightarrow> jsstring" where
  "to_unicode cs = concat (map from_code_point cs)"

definition idn_label :: "nat list \<Rightarrow> bool" where
  "idn_label cs \<longleftrightarrow> list_all (\<lambda>c. c \<le> 0x10FFFF \<and> c \<noteq> 46) cs \<and> length cs \<le> 1000 \<and> \<not> is_ace cs"

lemma rfc_encode_no_dot: "46 \<notin> set cs \<Longrightarrow> 46 \<notin> set (rfc_encode cs)"
  using rfc_passes_plain by (fastforce simp: rfc_encode_def Let_def)

lemma to_ascii_label:
  assumes "idn_label cs"
  shows "decodeLabel (to_ascii cs) = to_unicode cs" "46 \<notin> set (to_ascii cs)"
proof -
  have cs: "list_all (\<lambda>c. c \<le> 0x10FFFF) cs" "46 \<notin> set cs" "length cs \<le> 1000" "\<not> is_ace cs"
    using assms by (auto simp: idn_label_def list_all_iff)
  show "46 \<notin> set (to_ascii cs)" using cs(2) rfc_encode_no_dot by (simp add: to_ascii_def)
  have ascii: "concat (map from_code_point cs) = cs" if "list_all (\<lambda>c. c < 128) cs"
    using that by (induction cs) (auto simp: from_code_point_def)
  have "is_ace (lit ''xn--'' @ rfc_encode cs)" by (simp add: is_ace_def ascii_lower_def)
  then show "decodeLabel (to_ascii cs) = to_unicode cs"
    using cs ascii decodeACE_rfc_encode [OF cs(1,3)]
    by (auto simp: decodeLabel_def to_ascii_def to_unicode_def from_code_points_def)
qed

text \<open>C24: An internationalised host name comes back as it was: encoding every label that needs it by the algorithm of
  RFC 3492 and decoding the name gives the labels' characters, whatever the characters and their order, and labels that
  are plain ASCII are left alone.\<close>

theorem decodeIDN_inverts:
  assumes "labels \<noteq> []" "list_all idn_label labels"
  shows "decodeIDN (join [46] (map to_ascii labels)) = join [46] (map to_unicode labels)"
proof -
  have "split_on 46 (join [46] (map to_ascii labels)) = map to_ascii labels"
    using assms to_ascii_label(2) by (intro split_on_join) (auto simp: list_all_iff)
  moreover have "map decodeLabel (map to_ascii labels) = map to_unicode labels"
    using assms(2) to_ascii_label(1) by (auto simp: list_all_iff)
  ultimately show ?thesis by (simp add: decodeIDN_def del: map_map)
qed

text \<open>A name whose first label has a small letter u with diaeresis, and its well-known encoding.\<close>

lemma rfc_encode_sample: "rfc_encode [98, 252, 99, 104, 101, 114] = lit ''bcher-kva''"
  by (simp add: rfc_encode_def rfc_passes.simps rfc_integer.simps rfc_adapt_def rfc_adapt_loop.simps threshold_def puny_consts
      rfc_digit_def Let_def)

lemma decodeIDN_inverts_witness:
  "decodeIDN (join [46] (map to_ascii [[98, 252, 99, 104, 101, 114], lit ''example''])) =
   [98, 252, 99, 104, 101, 114, 46] @ lit ''example''"
proof -
  have "list_all idn_label [[98, 252, 99, 104, 101, 114], lit ''example'']"
    by (simp add: idn_label_def is_ace_def ascii_lower_def)
  from decodeIDN_inverts [OF _ this] show ?thesis by (simp add: to_unicode_def from_code_point_def)
qed

text \<open>A label that is cut short, or that stands for no code point, is shown as it is.\<close>

lemma decodeLabel_samples:
  "decodeLabel (lit ''xn--a'') = [128]" "decodeLabel (lit ''xn--z'') = lit ''xn--z''"
  "decodeLabel (lit ''xn--99999999'') = lit ''xn--99999999''"
  by (simp_all add: decodeLabel_def is_ace_def decodeACE_def decode_loop.simps threshold_def puny_consts basicToDigit_def
      insert_at_def from_code_points_def from_code_point_def adapt_def adapt_loop.simps to_int32_def Let_def ascii_lower_def)

end
