(* ===== verification/Fetch_Pool.thy ===== *)
theory Fetch_Pool
  imports Prelude
begin

text \<open>
  The bounded pool of requests of the external-dns plugin, \<^verbatim>\<open>mapWithConcurrency\<close> of
  \<^verbatim>\<open>plugins/external-dns/src/api/dnsLookup.ts\<close>.

  \<open>fn\<close> gives what the promise of an item comes to: \<open>Some\<close> its value, \<open>None\<close> a rejection (or an undefined value). Which
  request is answered next is not the program's choice: an answer is a step of the worker that waits for it.
\<close>

section \<open>The pool\<close>

datatype worker = Waiting nat | Returned

record ('a, 'r) pool =
  pl_items :: "'a list"
  pl_next :: nat
  pl_results :: "'r option list"
  pl_workers :: "worker list"
  pl_calls :: "'a list"

text \<open>The head of a worker's loop: take the next item and call \<open>fn\<close>, or return.\<close>

definition take_item :: "('a, 'r) pool \<Rightarrow> ('a, 'r) pool \<times> worker" where
  "take_item p =
     (let i = pl_next p; p1 = p\<lparr>pl_next := i + 1\<rparr>
      in if i \<ge> length (pl_items p) then (p1, Returned)
         else (p1\<lparr>pl_calls := pl_calls p @ [pl_items p ! i]\<rparr>, Waiting i))"

definition start_worker :: "('a, 'r) pool \<Rightarrow> ('a, 'r) pool" where
  "start_worker p = (case take_item p of (p1, w) \<Rightarrow> p1\<lparr>pl_workers := pl_workers p @ [w]\<rparr>)"

definition new_pool :: "'a list \<Rightarrow> ('a, 'r) pool" where
  "new_pool items =
     \<lparr>pl_items = items, pl_next = 0, pl_results = replicate (length items) None, pl_workers = [], pl_calls = []\<rparr>"

text \<open>\<^verbatim>\<open>Array.from\<close> runs each worker up to its first \<^verbatim>\<open>await\<close> before it makes the next.\<close>

definition mapWithConcurrency :: "'a list \<Rightarrow> nat \<Rightarrow> ('a, 'r) pool" where
  "mapWithConcurrency items limit = (start_worker ^^ min limit (length items)) (new_pool items)"

text \<open>The promise worker \<open>w\<close> waits for settles: its result is stored and the loop goes on.\<close>

definition worker_settles :: "('a \<Rightarrow> 'r option) \<Rightarrow> nat \<Rightarrow> ('a, 'r) pool \<Rightarrow> ('a, 'r) pool" where
  "worker_settles fn w p =
     (case pl_workers p ! w of
        Returned \<Rightarrow> p
      | Waiting i \<Rightarrow>
          (case take_item (p\<lparr>pl_results := (pl_results p)[i := fn (pl_items p ! i)]\<rparr>) of
             (p1, s) \<Rightarrow> p1\<lparr>pl_workers := (pl_workers p)[w := s]\<rparr>))"

definition is_waiting :: "worker \<Rightarrow> bool" where
  "is_waiting w = (w \<noteq> Returned)"

definition in_flight :: "('a, 'r) pool \<Rightarrow> nat" where
  "in_flight p = length (filter is_waiting (pl_workers p))"

definition all_returned :: "('a, 'r) pool \<Rightarrow> bool" where
  "all_returned p = list_all (\<lambda>w. w = Returned) (pl_workers p)"

inductive pool_reach :: "('a \<Rightarrow> 'r option) \<Rightarrow> 'a list \<Rightarrow> nat \<Rightarrow> nat \<Rightarrow> ('a, 'r) pool \<Rightarrow> bool"
  for fn :: "'a \<Rightarrow> 'r option" and items :: "'a list" and limit :: nat where
  start: "pool_reach fn items limit 0 (mapWithConcurrency items limit)"
| settle: "pool_reach fn items limit n p \<Longrightarrow> w < length (pl_workers p) \<Longrightarrow> is_waiting (pl_workers p ! w) \<Longrightarrow>
    pool_reach fn items limit (Suc n) (worker_settles fn w p)"

section \<open>The invariant\<close>

fun waits_for :: "worker \<Rightarrow> nat list" where
  "waits_for (Waiting i) = [i]"
| "waits_for Returned = []"

definition waiting_items :: "('a, 'r) pool \<Rightarrow> nat list" where
  "waiting_items p = concat (map waits_for (pl_workers p))"

text \<open>
  The items below \<open>next\<close> have been called, in order; those among them that no worker waits for are settled, and their
  number is \<open>n\<close>. A worker has returned only when no item is left.
\<close>

definition pool_inv :: "('a \<Rightarrow> 'r option) \<Rightarrow> 'a list \<Rightarrow> nat \<Rightarrow> ('a, 'r) pool \<Rightarrow> bool" where
  "pool_inv fn items n p \<longleftrightarrow>
     pl_items p = items \<and> length (pl_results p) = length items \<and>
     pl_calls p = take (pl_next p) items \<and>
     distinct (waiting_items p) \<and> set (waiting_items p) \<subseteq> {..< min (pl_next p) (length items)} \<and>
     (\<forall>i < min (pl_next p) (length items). i \<notin> set (waiting_items p) \<longrightarrow> pl_results p ! i = fn (items ! i)) \<and>
     n + length (waiting_items p) = min (pl_next p) (length items) \<and>
     (Returned \<in> set (pl_workers p) \<longrightarrow> length items \<le> pl_next p)"

lemma in_flight_waiting: "in_flight p = length (waiting_items p)"
proof -
  have "length (filter is_waiting ws) = length (concat (map waits_for ws))" for ws
  proof (induction ws)
    case (Cons w ws)
    then show ?case by (cases w) (simp_all add: is_waiting_def)
  qed simp
  then show ?thesis by (simp add: in_flight_def waiting_items_def)
qed

lemma worker_start_inv: "pool_inv fn items 0 p \<Longrightarrow> pl_next p < length items \<Longrightarrow> pool_inv fn items 0 (start_worker p)"
  by (auto simp: pool_inv_def start_worker_def take_item_def waiting_items_def Let_def take_Suc_conv_app_nth less_Suc_eq)

lemma start_next: "pl_next (start_worker p) = Suc (pl_next p)"
  by (simp add: start_worker_def take_item_def Let_def)

lemma started_next: "pl_next ((start_worker ^^ k) p) = pl_next p + k"
  by (induction k) (simp_all add: start_next)

lemma started_inv: "k \<le> length items \<Longrightarrow> pool_inv fn items 0 ((start_worker ^^ k) (new_pool items))"
proof (induction k)
  case 0
  show ?case by (simp add: pool_inv_def new_pool_def waiting_items_def)
next
  case (Suc k)
  have "pl_next ((start_worker ^^ k) (new_pool items)) < length items" using Suc(2) by (simp add: started_next) (simp add: new_pool_def)
  then show ?case using worker_start_inv Suc by simp
qed

lemma settles_inv:
  assumes "pool_inv fn items n p" "w < length (pl_workers p)" "is_waiting (pl_workers p ! w)"
  shows "pool_inv fn items (Suc n) (worker_settles fn w p)"
proof -
  obtain i where i: "pl_workers p ! w = Waiting i" using assms(3) by (cases "pl_workers p ! w") (auto simp: is_waiting_def)
  define xs ys where "xs = take w (pl_workers p)" and "ys = drop (Suc w) (pl_workers p)"
  have ws: "pl_workers p = xs @ Waiting i # ys" "w = length xs"
    using id_take_nth_drop [OF assms(2)] i assms(2) by (auto simp: xs_def ys_def)
  have upd: "(pl_workers p)[w := v] = xs @ v # ys" for v using ws by simp
  show ?thesis
  proof (cases "pl_next p < length items")
    case True
    then have "worker_settles fn w p = p\<lparr>pl_results := (pl_results p)[i := fn (items ! i)], pl_next := pl_next p + 1,
        pl_calls := pl_calls p @ [items ! pl_next p], pl_workers := xs @ Waiting (pl_next p) # ys\<rparr>"
      using assms(1) i upd by (simp add: worker_settles_def take_item_def Let_def pool_inv_def)
    then show ?thesis
      using assms(1) True ws
      by (auto simp: pool_inv_def waiting_items_def nth_list_update take_Suc_conv_app_nth less_Suc_eq)
  next
    case False
    then have "worker_settles fn w p = p\<lparr>pl_results := (pl_results p)[i := fn (items ! i)], pl_next := pl_next p + 1,
        pl_workers := xs @ Returned # ys\<rparr>"
      using assms(1) i upd by (simp add: worker_settles_def take_item_def Let_def pool_inv_def)
    then show ?thesis
      using assms(1) False ws by (auto simp: pool_inv_def waiting_items_def nth_list_update)
  qed
qed

lemma settles_workers: "length (pl_workers (worker_settles fn w p)) = length (pl_workers p)"
  by (auto simp: worker_settles_def take_item_def Let_def split: worker.splits)

lemma started_workers: "length (pl_workers ((start_worker ^^ k) p)) = length (pl_workers p) + k"
  by (induction k) (auto simp: start_worker_def take_item_def Let_def split: prod.splits)

lemma pool_reach_inv:
  "pool_reach fn items limit n p \<Longrightarrow> pool_inv fn items n p \<and> length (pl_workers p) = min limit (length items)"
proof (induction rule: pool_reach.induct)
  case start
  show ?case
    using started_inv [of "min limit (length items)" items fn]
    by (simp add: mapWithConcurrency_def started_workers) (simp add: new_pool_def)
next
  case (settle n p w)
  then show ?case using settles_inv settles_workers by metis
qed

lemma pool_maps:
  assumes "pool_reach fn items limit n p" "1 \<le> limit"
  shows "in_flight p \<le> limit \<and> pl_calls p = take (n + in_flight p) items \<and>
    (all_returned p \<longleftrightarrow> n = length items) \<and> (all_returned p \<longleftrightarrow> in_flight p = 0) \<and>
    (if all_returned p then pl_results p = map fn items else n < length items)"
proof -
  note inv = pool_reach_inv [OF assms(1)]
  have "in_flight p \<le> limit" using inv length_filter_le [of is_waiting "pl_workers p"] by (simp add: in_flight_def)
  have calls: "pl_calls p = take (n + in_flight p) items"
    using inv by (auto simp: pool_inv_def in_flight_waiting min_def)
  have none: "all_returned p \<longleftrightarrow> in_flight p = 0"
    by (auto simp: all_returned_def in_flight_def list_all_iff is_waiting_def filter_empty_conv)
  have idle: "n = length items" if "in_flight p = 0"
  proof (cases "items = []")
    case True
    then show ?thesis using inv by (simp add: pool_inv_def)
  next
    case False
    then have "0 < min limit (length items)" using assms(2) by simp
    then have "0 < length (pl_workers p)" using inv by (simp only:)
    then have "pl_workers p \<noteq> []" by blast
    then have "Returned \<in> set (pl_workers p)"
      using that none by (cases "pl_workers p") (auto simp: all_returned_def)
    then show ?thesis using inv that by (simp add: pool_inv_def in_flight_waiting)
  qed
  have called: "n + in_flight p = min (pl_next p) (length items)" using inv by (simp add: pool_inv_def in_flight_waiting)
  then have busy: "in_flight p = 0" if "n = length items" using that by linarith
  have "pl_results p = map fn items" if "in_flight p = 0"
    using inv that idle by (intro nth_equalityI) (auto simp: pool_inv_def in_flight_waiting)
  moreover have "n \<le> length items" using called by linarith
  ultimately show ?thesis using \<open>in_flight p \<le> limit\<close> calls none idle busy le_neq_implies_less by metis
qed

section \<open>Properties\<close>

text \<open>C26: The pool does what a map does, within its limit: at any moment no more than \<open>limit\<close> requests are in flight; the
  items are called in order, each once; as long as a worker has not returned a request is in flight, and after as many
  answers as there are items, in whatever order they come, every worker has returned; and the results are then those of
  the items, each in its place, a rejected one undefined without disturbing the others.\<close>

theorem mapWithConcurrency_maps:
  assumes "pool_reach fn items limit n p" "1 \<le> limit"
  shows "in_flight p \<le> limit \<and> pl_calls p = take (n + in_flight p) items \<and>
    (all_returned p \<longleftrightarrow> n = length items) \<and> (all_returned p \<longleftrightarrow> in_flight p = 0) \<and>
    (if all_returned p then pl_results p = map fn items else n < length items)"
  using assms by (rule pool_maps)

text \<open>Three items, two workers, the second answered first.\<close>

abbreviation sample_pool :: "(nat, nat) pool" where
  "sample_pool \<equiv> worker_settles Some 0 (worker_settles Some 1 (worker_settles Some 1 (mapWithConcurrency [7, 8, 9] 2)))"

lemmas pool_ops = mapWithConcurrency_def start_worker_def take_item_def new_pool_def worker_settles_def Let_def

lemma sample_pool_reach: "pool_reach Some [7, 8, 9] 2 3 sample_pool"
proof -
  have "pool_reach Some [7, 8, 9] 2 (Suc (Suc (Suc 0))) sample_pool"
    by (intro pool_reach.intros) (simp_all add: pool_ops is_waiting_def numeral_2_eq_2)
  then show ?thesis by (simp add: numeral_3_eq_3)
qed

lemma mapWithConcurrency_maps_witness: "pl_results sample_pool = [Some 7, Some 8, Some 9]"
proof -
  have "all_returned sample_pool" by (simp add: pool_ops all_returned_def numeral_2_eq_2)
  then show ?thesis using mapWithConcurrency_maps [OF sample_pool_reach] by (metis (no_types) one_le_numeral list.map)
qed

end
