(* ===== verification/Fetch_Hooks.thy ===== *)
theory Fetch_Hooks
  imports Fetch_Pool
begin

text \<open>
  The three hooks that fetch what a tab or a column shows: \<^verbatim>\<open>useDNSSettings\<close> and \<^verbatim>\<open>useHostnameStatuses\<close> of
  \<^verbatim>\<open>plugins/external-dns/src/hooks\<close> and \<^verbatim>\<open>useCertInfo\<close> of \<^verbatim>\<open>plugins/cert-manager/src/hooks\<close>.

  A render with another key cancels the fetch in progress and starts one for its target, or none. What the hooks have in
  common is stated in the locale \<open>fetch_hook\<close> and proved there once.
\<close>

section \<open>The state of a hook\<close>

text \<open>
  \<open>hk_key\<close> is the key the effect last ran with, \<open>hk_current\<close> the run whose \<^verbatim>\<open>cancelled\<close> is still false and \<open>hk_runs\<close> the
  targets of all runs, each of which the run's closure keeps.
\<close>

record ('k, 't, 'r) hook =
  hk_key :: "'k option"
  hk_results :: 'r
  hk_loading :: bool
  hk_current :: "nat option"
  hk_runs :: "'t list"

definition new_hook :: "'r \<Rightarrow> ('k, 't, 'r) hook" where
  "new_hook none = \<lparr>hk_key = None, hk_results = none, hk_loading = False, hk_current = None, hk_runs = []\<rparr>"

text \<open>The cleanup of the effect: the run in progress is cancelled.\<close>

definition hook_cleanup :: "('k, 't, 'r) hook \<Rightarrow> ('k, 't, 'r) hook" where
  "hook_cleanup s = s\<lparr>hk_current := None\<rparr>"

definition hook_fetch :: "'t \<Rightarrow> ('k, 't, 'r) hook \<Rightarrow> ('k, 't, 'r) hook" where
  "hook_fetch target s = s\<lparr>hk_loading := True, hk_current := Some (length (hk_runs s)), hk_runs := hk_runs s @ [target]\<rparr>"

section \<open>What the hooks promise\<close>

datatype ('t, 'a) hook_event = Render 't | Answer nat 'a

locale fetch_hook =
  fixes key :: "'t \<Rightarrow> 'k" and skip :: "'t \<Rightarrow> bool" and none :: 'r and shown :: "'t \<Rightarrow> 'a \<Rightarrow> 'r"
    and render :: "'t \<Rightarrow> ('k, 't, 'r) hook \<Rightarrow> ('k, 't, 'r) hook"
    and answer :: "nat \<Rightarrow> 'a \<Rightarrow> ('k, 't, 'r) hook \<Rightarrow> ('k, 't, 'r) hook"
  assumes render_same: "hk_key s = Some (key t) \<Longrightarrow> render t s = s"
    and render_skip: "hk_key s \<noteq> Some (key t) \<Longrightarrow> skip t \<Longrightarrow>
      render t s = s\<lparr>hk_key := Some (key t), hk_results := none, hk_current := None\<rparr>"
    and render_fetch: "hk_key s \<noteq> Some (key t) \<Longrightarrow> \<not> skip t \<Longrightarrow>
      render t s = s\<lparr>hk_key := Some (key t), hk_loading := True, hk_current := Some (length (hk_runs s)), hk_runs := hk_runs s @ [t]\<rparr>"
    and answer_stale: "hk_current s \<noteq> Some i \<Longrightarrow> answer i a s = s"
    and answer_current: "hk_current s = Some i \<Longrightarrow> answer i a s = s\<lparr>hk_results := shown (hk_runs s ! i) a, hk_loading := False\<rparr>"
begin

fun event :: "('t, 'a) hook_event \<Rightarrow> ('k, 't, 'r) hook \<Rightarrow> ('k, 't, 'r) hook" where
  "event (Render t) s = render t s"
| "event (Answer i a) s = answer i a s"

definition hook_inv :: "('k, 't, 'r) hook \<Rightarrow> bool" where
  "hook_inv s \<longleftrightarrow>
     (case hk_current s of
        None \<Rightarrow> True
      | Some i \<Rightarrow> Suc i = length (hk_runs s) \<and> hk_key s = Some (key (hk_runs s ! i)) \<and> \<not> skip (hk_runs s ! i)) \<and>
     (hk_results s = none \<or> (\<exists>i a. i < length (hk_runs s) \<and> hk_results s = shown (hk_runs s ! i) a))"

lemma new_hook_inv: "hook_inv (new_hook none)"
  by (simp add: hook_inv_def new_hook_def)

lemma hook_render_inv: "hook_inv s \<Longrightarrow> hook_inv (render t s)"
proof (cases "hk_key s = Some (key t)")
  case False
  assume inv: "hook_inv s"
  show ?thesis
  proof (cases "skip t")
    case True
    with False show ?thesis by (simp add: render_skip hook_inv_def)
  next
    case fetch: False
    have "\<exists>i a. i < Suc (length (hk_runs s)) \<and> shown (hk_runs s ! j) b = shown ((hk_runs s @ [t]) ! i) a"
      if "j < length (hk_runs s)" for j b
      using that by (intro exI [of _ j] exI [of _ b]) (simp add: nth_append)
    with inv False fetch show ?thesis by (auto simp: render_fetch hook_inv_def split: option.splits)
  qed
qed (simp add: render_same)

lemma hook_answer_inv: "hook_inv s \<Longrightarrow> hook_inv (answer i a s)"
proof (cases "hk_current s = Some i")
  case True
  assume "hook_inv s"
  with True have "i < length (hk_runs s)" by (simp add: hook_inv_def)
  then have "\<exists>j b. j < length (hk_runs s) \<and> shown (hk_runs s ! i) a = shown (hk_runs s ! j) b" by blast
  with True \<open>hook_inv s\<close> show ?thesis by (simp add: answer_current hook_inv_def)
qed (simp add: answer_stale)

lemma event_inv: "hook_inv s \<Longrightarrow> hook_inv (event e s)"
  by (cases e) (simp_all add: hook_render_inv hook_answer_inv)

lemma run_inv: "hook_inv s \<Longrightarrow> hook_inv (fold event es s)"
  by (induction es arbitrary: s) (simp_all add: event_inv)

lemma answered_shown:
  assumes "hook_inv s" "hk_current s = Some i"
  shows "hk_results (answer i a s) = shown (hk_runs s ! i) a" "\<not> hk_loading (answer i a s)"
    "hk_key s = Some (key (hk_runs s ! i))"
  using assms by (simp_all add: answer_current hook_inv_def)

text \<open>A render that fetches nothing leaves the loading mark of the fetch it cancels, and no answer takes it off.\<close>

lemma no_current_stuck: "hk_current s = None \<Longrightarrow> fold (\<lambda>(i, a). answer i a) as s = s"
  by (induction as) (auto simp: answer_stale)

lemma skip_keeps_loading:
  assumes "hk_loading s" "skip t" "hk_key s \<noteq> Some (key t)"
  shows "hk_loading (fold (\<lambda>(i, a). answer i a) as (render t s))" "hk_results (fold (\<lambda>(i, a). answer i a) as (render t s)) = none"
  using assms by (simp_all add: render_skip no_current_stuck)

end

section \<open>The hooks of external-dns\<close>

text \<open>
  The results by host name; a name whose request failed has none. The names of a run are those of the render that
  started it.
\<close>

definition by_hostname :: "jsstring list \<Rightarrow> 'r option list \<Rightarrow> jsstring \<rightharpoonup> 'r" where
  "by_hostname hostnames fetched =
     fold (\<lambda>(h, r) m. case r of None \<Rightarrow> m | Some x \<Rightarrow> m(h \<mapsto> x)) (zip hostnames fetched) Map.empty"

definition MAX_CONCURRENT_REQUESTS :: nat where "MAX_CONCURRENT_REQUESTS = 10"

definition useDNSSettings :: "jsstring list \<Rightarrow> (jsstring, jsstring list, jsstring \<rightharpoonup> 'r) hook \<Rightarrow> (jsstring, jsstring list, jsstring \<rightharpoonup> 'r) hook" where
  "useDNSSettings hostnames s =
     (if hk_key s = Some (join [44] hostnames) then s
      else
        (let s1 = (hook_cleanup s)\<lparr>hk_key := Some (join [44] hostnames)\<rparr>
         in if hostnames = [] then s1\<lparr>hk_results := Map.empty\<rparr> else hook_fetch hostnames s1))"

definition dns_settings_fetched :: "nat \<Rightarrow> 'r option list \<Rightarrow> (jsstring, jsstring list, jsstring \<rightharpoonup> 'r) hook \<Rightarrow> (jsstring, jsstring list, jsstring \<rightharpoonup> 'r) hook" where
  "dns_settings_fetched i fetched s =
     (if hk_current s \<noteq> Some i then s
      else s\<lparr>hk_results := by_hostname (hk_runs s ! i) fetched, hk_loading := False\<rparr>)"

definition useHostnameStatuses :: "jsstring list \<Rightarrow> (jsstring, jsstring list, jsstring \<rightharpoonup> 'r) hook \<Rightarrow> (jsstring, jsstring list, jsstring \<rightharpoonup> 'r) hook" where
  "useHostnameStatuses hostnames s =
     (if hk_key s = Some (join [44] hostnames) then s
      else
        (let s1 = (hook_cleanup s)\<lparr>hk_key := Some (join [44] hostnames)\<rparr>
         in if hostnames = [] then s1\<lparr>hk_results := Map.empty\<rparr> else hook_fetch hostnames s1))"

definition hostname_statuses_fetched :: "nat \<Rightarrow> 'r option list \<Rightarrow> (jsstring, jsstring list, jsstring \<rightharpoonup> 'r) hook \<Rightarrow> (jsstring, jsstring list, jsstring \<rightharpoonup> 'r) hook" where
  "hostname_statuses_fetched i fetched s =
     (if hk_current s \<noteq> Some i then s
      else s\<lparr>hk_results := by_hostname (hk_runs s ! i) fetched, hk_loading := False\<rparr>)"

section \<open>The hook of cert-manager\<close>

text \<open>
  The key of a target is its JSON, which says which fields are set and to what, so the model compares the targets. The
  continuations \<^verbatim>\<open>then\<close> or \<^verbatim>\<open>catch\<close> and \<^verbatim>\<open>finally\<close> follow one another without a render in between and are one
  step; \<open>None\<close> is a rejection.
\<close>

record cert_target =
  ct_group :: jsstring
  ct_version :: jsstring
  ct_kind :: jsstring
  ct_namespace :: "jsstring option"
  ct_name :: "jsstring option"

definition no_cert_target :: "cert_target option \<Rightarrow> bool" where
  "no_cert_target target = (case target of None \<Rightarrow> True | Some t \<Rightarrow> unset (ct_namespace t) \<or> unset (ct_name t))"

definition useCertInfo :: "cert_target option \<Rightarrow> (cert_target option, cert_target option, 'r list) hook \<Rightarrow> (cert_target option, cert_target option, 'r list) hook" where
  "useCertInfo target s =
     (if hk_key s = Some target then s
      else
        (let s1 = (hook_cleanup s)\<lparr>hk_key := Some target\<rparr>
         in if no_cert_target target then s1\<lparr>hk_results := []\<rparr> else hook_fetch target s1))"

definition cert_info_settled :: "nat \<Rightarrow> 'r list option \<Rightarrow> (cert_target option, cert_target option, 'r list) hook \<Rightarrow> (cert_target option, cert_target option, 'r list) hook" where
  "cert_info_settled i res s =
     (if hk_current s \<noteq> Some i then s
      else s\<lparr>hk_results := (case res of Some r \<Rightarrow> r | None \<Rightarrow> []), hk_loading := False\<rparr>)"

lemmas hook_ops = hook_cleanup_def hook_fetch_def Let_def

interpretation dns: fetch_hook "join [44]" "\<lambda>hs. hs = []" Map.empty by_hostname useDNSSettings dns_settings_fetched
  by unfold_locales (simp_all add: useDNSSettings_def dns_settings_fetched_def hook_ops)

interpretation status: fetch_hook "join [44]" "\<lambda>hs. hs = []" Map.empty by_hostname useHostnameStatuses hostname_statuses_fetched
  by unfold_locales (simp_all add: useHostnameStatuses_def hostname_statuses_fetched_def hook_ops)

interpretation cert: fetch_hook "\<lambda>t. t" no_cert_target "[]" "\<lambda>t res. case res of Some r \<Rightarrow> r | None \<Rightarrow> []" useCertInfo cert_info_settled
  by unfold_locales (simp_all add: useCertInfo_def cert_info_settled_def hook_ops)

section \<open>Properties\<close>

text \<open>The states of the hooks: any sequence of renders and answers from the first mount.\<close>

definition dns_run :: "(jsstring list, 'r option list) hook_event list \<Rightarrow> (jsstring, jsstring list, jsstring \<rightharpoonup> 'r) hook" where
  "dns_run es = fold dns.event es (new_hook Map.empty)"

definition cert_run :: "(cert_target option, 'r list option) hook_event list \<Rightarrow> (cert_target option, cert_target option, 'r list) hook" where
  "cert_run es = fold cert.event es (new_hook [])"

lemma fold_by_hostname:
  "fold (\<lambda>(h, r) m. case r of None \<Rightarrow> m | Some x \<Rightarrow> m(h \<mapsto> x)) (zip hs (map fn hs)) m =
   (\<lambda>h. if h \<in> set hs \<and> fn h \<noteq> None then fn h else m h)"
  by (induction hs arbitrary: m) (auto simp: fun_eq_iff split: option.splits)

lemma by_hostname_map: "by_hostname hs (map fn hs) = (\<lambda>h. if h \<in> set hs then fn h else None)"
  by (auto simp: by_hostname_def fold_by_hostname fun_eq_iff)

text \<open>The DNS settings tab shows the answers of its own host names: whatever was rendered and answered before, once
  every request of the run in use has been answered (never more than ten at a time, in any order) the hook is not loading
  and has, under each host name of the resource now shown, what the backend said of it, nothing for a name whose request
  failed and nothing else.\<close>

theorem dns_settings_shown:
  assumes "s = dns_run es" "hk_current s = Some i" "hk_runs s ! i = hostnames"
    and "pool_reach fn hostnames MAX_CONCURRENT_REQUESTS n p" "all_returned p"
  shows "in_flight p \<le> 10 \<and> hk_key s = Some (join [44] hostnames) \<and>
    (let s' = dns_settings_fetched i (pl_results p) s
     in \<not> hk_loading s' \<and> hk_results s' = (\<lambda>h. if h \<in> set hostnames then fn h else None))"
proof -
  have "dns.hook_inv s" unfolding assms(1) dns_run_def by (intro dns.run_inv dns.new_hook_inv)
  note shown = dns.answered_shown [OF this assms(2), unfolded assms(3)]
  have "pl_results p = map fn hostnames" "in_flight p \<le> 10"
    using pool_maps [OF assms(4)] assms(5) by (auto simp: MAX_CONCURRENT_REQUESTS_def)
  then show ?thesis using shown by (simp add: by_hostname_map Let_def)
qed

text \<open>A hook that is given no target while it loads goes on loading: the fetch it drops is the one that would have
  taken the mark off, so whatever is still answered, the tab shows no certificates and a spinner.\<close>

theorem cert_info_loading_stuck:
  assumes "hk_loading s" "no_cert_target target" "hk_key s \<noteq> Some target"
  shows "hk_loading (fold (\<lambda>(i, a). cert_info_settled i a) answers (useCertInfo target s)) \<and>
    hk_results (fold (\<lambda>(i, a). cert_info_settled i a) answers (useCertInfo target s)) = []"
  using cert.skip_keeps_loading [OF assms] by simp

abbreviation some_cert :: "cert_target option" where
  "some_cert \<equiv> Some \<lparr>ct_group = [], ct_version = [118, 49], ct_kind = [83], ct_namespace = Some [110], ct_name = Some [120]\<rparr>"

abbreviation loading_cert :: "(cert_target option, cert_target option, nat list) hook" where
  "loading_cert \<equiv> cert_run [Render some_cert]"

lemma loading_cert: "hk_loading loading_cert" "hk_key loading_cert = Some some_cert"
  by (simp_all add: cert_run_def new_hook_def useCertInfo_def hook_ops no_cert_target_def )

lemma cert_info_loading_stuck_witness:
  "hk_loading (cert_info_settled 0 (Some [1]) (useCertInfo None loading_cert))"
proof -
  have "no_cert_target None" "hk_key loading_cert \<noteq> Some None" using loading_cert by (simp_all add: no_cert_target_def)
  from cert_info_loading_stuck [OF loading_cert(1) this, of "[(0, Some [1])]"] show ?thesis by simp
qed

abbreviation sample_hosts :: "jsstring list" where "sample_hosts \<equiv> [[97], [98]]"

abbreviation sample_requests :: "(jsstring, jsstring) pool" where
  "sample_requests \<equiv> worker_settles Some 0 (worker_settles Some 1 (mapWithConcurrency sample_hosts MAX_CONCURRENT_REQUESTS))"

lemma sample_requests: "pool_reach Some sample_hosts MAX_CONCURRENT_REQUESTS (Suc (Suc 0)) sample_requests"
  "all_returned sample_requests" "pl_results sample_requests = [Some [97], Some [98]]"
  by (intro pool_reach.intros)
    (simp_all add: pool_ops is_waiting_def all_returned_def MAX_CONCURRENT_REQUESTS_def numeral_2_eq_2)

lemma dns_settings_shown_witness:
  "hk_results (dns_settings_fetched 0 [Some [97], Some [98]] (dns_run [Render sample_hosts])) =
   (\<lambda>h. if h \<in> set sample_hosts then Some h else None)"
proof -
  have s: "hk_current (dns_run [Render sample_hosts]) = Some 0" "hk_runs (dns_run [Render sample_hosts]) ! 0 = sample_hosts"
    by (simp_all add: dns_run_def new_hook_def useDNSSettings_def hook_ops)
  show ?thesis
    using dns_settings_shown [OF refl s sample_requests(1,2)] unfolding sample_requests(3) Let_def by blast
qed

end
