(* ===== verification/Dns_Hostnames.thy ===== *)
theory Dns_Hostnames
  imports Console_Urls
begin

text \<open>
  The host names the external-dns plugin looks up for a resource, \<^verbatim>\<open>plugins/external-dns/src/utils/hostnames.ts\<close>, and the
  requests it and the cert-manager plugin make of their back ends (\<^verbatim>\<open>external-dns/src/api/dnsLookup.ts\<close>,
  \<^verbatim>\<open>cert-manager/src/api/certLookup.ts\<close>).
\<close>

section \<open>Host names\<close>

fun uniq_loop :: "jsstring list \<Rightarrow> jsstring option list \<Rightarrow> jsstring list" where
  "uniq_loop out [] = out"
| "uniq_loop out (h # hs) = (if unset h \<or> the h \<in> set out then uniq_loop out hs else uniq_loop (out @ [the h]) hs)"

text \<open>\<^verbatim>\<open>seen\<close> holds what \<^verbatim>\<open>out\<close> does.\<close>

definition uniq :: "jsstring option list \<Rightarrow> jsstring list" where
  "uniq hosts = uniq_loop [] hosts"

definition HOSTNAME_ANNOTATION :: jsstring where
  "HOSTNAME_ANNOTATION = lit ''external-dns.alpha.kubernetes.io/hostname''"

definition INTERNAL_HOSTNAME_ANNOTATION :: jsstring where
  "INTERNAL_HOSTNAME_ANNOTATION = lit ''external-dns.alpha.kubernetes.io/internal-hostname''"

definition EXCLUDE_ANNOTATION :: jsstring where
  "EXCLUDE_ANNOTATION = lit ''external-dns.alpha.kubernetes.io/exclude''"

definition splitAnnotationHostnames :: "jsstring \<Rightarrow> jsstring list" where
  "splitAnnotationHostnames v = filter (\<lambda>h. h \<noteq> []) (map trim (split_on 44 v))"

type_synonym annotations = "jsstring \<rightharpoonup> jsstring"

definition annotation_list :: "jsstring option \<Rightarrow> jsstring list" where
  "annotation_list v = (if unset v then [] else splitAnnotationHostnames (the v))"

definition annotationHostnames :: "annotations \<Rightarrow> jsstring list \<times> bool" where
  "annotationHostnames an =
     (if an EXCLUDE_ANNOTATION = Some (lit ''true'') then ([], True)
      else (annotation_list (an HOSTNAME_ANNOTATION) @ annotation_list (an INTERNAL_HOSTNAME_ANNOTATION), False))"

definition withAnnotations :: "jsstring option list \<Rightarrow> annotations \<Rightarrow> jsstring list" where
  "withAnnotations structuralHosts an =
     (case annotationHostnames an of
        (annotationHosts, excluded) \<Rightarrow> if excluded then [] else uniq (structuralHosts @ map Some annotationHosts))"

record ingress =
  ing_annotations :: annotations
  ing_rules :: "jsstring option list"
  ing_tls :: "jsstring list option list"

definition hostnamesForIngress :: "ingress \<Rightarrow> jsstring list" where
  "hostnamesForIngress obj =
     withAnnotations
       (ing_rules obj @ map Some (concat (map (\<lambda>hosts. case hosts of None \<Rightarrow> [] | Some hs \<Rightarrow> hs) (ing_tls obj))))
       (ing_annotations obj)"

record service =
  svc_annotations :: annotations
  svc_ingress :: "(jsstring option \<times> jsstring option) list"

definition hostnamesForService :: "service \<Rightarrow> jsstring list" where
  "hostnamesForService obj =
     withAnnotations (map (\<lambda>(hostname, ip). if unset hostname then ip else hostname) (svc_ingress obj)) (svc_annotations obj)"

record route =
  rt_annotations :: annotations
  rt_hostnames :: "jsstring list"

definition hostnamesForRoute :: "route \<Rightarrow> jsstring list" where
  "hostnamesForRoute obj = withAnnotations (map Some (rt_hostnames obj)) (rt_annotations obj)"

definition hostnamesForTCPOrUDPRoute :: "annotations \<Rightarrow> jsstring list" where
  "hostnamesForTCPOrUDPRoute an = withAnnotations [] an"

definition hostnamesForNode :: "annotations \<Rightarrow> jsstring list" where
  "hostnamesForNode an = withAnnotations [] an"

definition hostnamesForDNSEndpoint :: "jsstring option list \<Rightarrow> jsstring list" where
  "hostnamesForDNSEndpoint dnsNames = uniq dnsNames"

section \<open>Requests\<close>

definition DNS_PROXY_PATH :: jsstring where
  "DNS_PROXY_PATH = lit ''/api/proxy/plugin/external-dns-console-plugin/api''"

definition LOOKUP_PATH :: jsstring where "LOOKUP_PATH = DNS_PROXY_PATH @ lit ''/v1/lookup''"
definition DNS_SETTINGS_PATH :: jsstring where "DNS_SETTINGS_PATH = DNS_PROXY_PATH @ lit ''/v1/dns-settings''"

definition hostname_params :: "jsstring list \<Rightarrow> jsstring option \<Rightarrow> params" where
  "hostname_params hostnames resolver =
     (let ps = fold (\<lambda>hostname. params_append (lit ''hostname'') hostname) hostnames []
      in if unset resolver then ps else params_set (lit ''resolver'') (the resolver) ps)"

definition hostnameQuery :: "jsstring list \<Rightarrow> jsstring option \<Rightarrow> jsstring" where
  "hostnameQuery hostnames resolver = query_string (hostname_params hostnames resolver)"

definition fetchHostnameStatuses :: "jsstring option \<Rightarrow> jsstring list \<Rightarrow> jsstring option \<Rightarrow> jsstring" where
  "fetchHostnameStatuses base hostnames resolver = consolePath base (LOOKUP_PATH @ [63] @ hostnameQuery hostnames resolver)"

definition fetchDNSSettings :: "jsstring option \<Rightarrow> jsstring \<Rightarrow> jsstring option \<Rightarrow> jsstring" where
  "fetchDNSSettings base hostname resolver = consolePath base (DNS_SETTINGS_PATH @ [63] @ hostnameQuery [hostname] resolver)"

text \<open>What \<^verbatim>\<open>fetchHostnameStatus\<close> reads from the answer to a batch of one.\<close>

definition fetchHostnameStatus :: "jsstring \<Rightarrow> (jsstring \<rightharpoonup> 'r) option \<Rightarrow> 'r option" where
  "fetchHostnameStatus hostname results = (case results of None \<Rightarrow> None | Some m \<Rightarrow> m hostname)"

definition CERT_API_BASE :: jsstring where
  "CERT_API_BASE = lit ''/api/proxy/plugin/cert-manager-console-plugin/api/v1''"

definition inspectCertificate :: "jsstring option \<Rightarrow> jsstring option \<Rightarrow> jsstring \<Rightarrow> nat option \<Rightarrow> jsstring" where
  "inspectCertificate base protocol host port =
     (let p0 = [(lit ''host'', host)];
          p1 = (if unset protocol then p0 else params_set (lit ''protocol'') (the protocol) p0);
          p2 = (case port of None \<Rightarrow> p1 | Some n \<Rightarrow> if n = 0 then p1 else params_set (lit ''port'') (show_nat n) p1)
      in consolePath base (CERT_API_BASE @ lit ''/certinspect'' @ [63] @ query_string p2))"

definition fetchInspectResource :: "jsstring option \<Rightarrow> jsstring \<Rightarrow> jsstring \<Rightarrow> jsstring \<Rightarrow> jsstring \<Rightarrow> jsstring \<Rightarrow> jsstring option" where
  "fetchInspectResource base grp version kind namespace name =
     (case (encodeURIComponent namespace, encodeURIComponent name) of
        (Some ns, Some n) \<Rightarrow>
          Some (consolePath base (CERT_API_BASE @ lit ''/inspect/ns'' @ [47] @ ns @ [47] @ (grp @ [126] @ version @ [126] @ kind) @ [47] @ n))
      | _ \<Rightarrow> None)"

section \<open>Properties of host names\<close>

definition set_hosts :: "jsstring option list \<Rightarrow> jsstring list" where
  "set_hosts hosts = map the (filter (\<lambda>h. \<not> unset h) hosts)"

text \<open>The distinct elements in the order of their first occurrences.\<close>

definition firsts :: "'a list \<Rightarrow> 'a list" where
  "firsts xs = rev (remdups (rev xs))"

lemma firsts_snoc: "firsts (xs @ [x]) = (if x \<in> set xs then firsts xs else firsts xs @ [x])"
  by (simp add: firsts_def)

lemma uniq_loop_firsts: "out = firsts seen \<Longrightarrow> uniq_loop out hs = firsts (seen @ set_hosts hs)"
proof (induction out hs arbitrary: seen rule: uniq_loop.induct)
  case (2 out h hs)
  have "set out = set seen" using 2(3) by (simp add: firsts_def)
  then show ?case
    using 2(1) [of seen] 2(1) [of "seen @ [the h]"] 2(2) [of "seen @ [the h]"] 2(3)
    by (auto simp: set_hosts_def firsts_snoc)
qed (simp add: set_hosts_def)

lemma uniq_firsts: "uniq hosts = firsts (set_hosts hosts)"
  using uniq_loop_firsts [of "[]" "[]" hosts] by (simp add: uniq_def firsts_def)

lemma uniq_set: "distinct (uniq hosts)" "h \<in> set (uniq hosts) \<longleftrightarrow> h \<noteq> [] \<and> Some h \<in> set hosts"
proof -
  show "distinct (uniq hosts)" by (simp add: uniq_firsts firsts_def)
  have "h \<in> set (set_hosts hosts) \<longleftrightarrow> h \<noteq> [] \<and> Some h \<in> set hosts"
    unfolding set_hosts_def by (force simp: unset_def image_iff)
  then show "h \<in> set (uniq hosts) \<longleftrightarrow> h \<noteq> [] \<and> Some h \<in> set hosts" by (simp add: uniq_firsts firsts_def)
qed

definition annotated :: "annotations \<Rightarrow> jsstring \<Rightarrow> bool" where
  "annotated an h \<longleftrightarrow>
     (\<exists>a v. a \<in> {HOSTNAME_ANNOTATION, INTERNAL_HOSTNAME_ANNOTATION} \<and> an a = Some v \<and> h \<in> set (splitAnnotationHostnames v))"

definition excluded :: "annotations \<Rightarrow> bool" where
  "excluded an \<longleftrightarrow> an EXCLUDE_ANNOTATION = Some (lit ''true'')"

lemma annotation_list_set: "h \<in> set (annotation_list v) \<longleftrightarrow> (\<exists>x. v = Some x \<and> h \<in> set (splitAnnotationHostnames x))"
  by (cases v) (auto simp: annotation_list_def splitAnnotationHostnames_def)

lemma withAnnotations_set:
  "distinct (withAnnotations hosts an)"
  "h \<in> set (withAnnotations hosts an) \<longleftrightarrow> \<not> excluded an \<and> h \<noteq> [] \<and> (Some h \<in> set hosts \<or> annotated an h)"
proof -
  have "annotationHostnames an =
      (if excluded an then ([], True)
       else (annotation_list (an HOSTNAME_ANNOTATION) @ annotation_list (an INTERNAL_HOSTNAME_ANNOTATION), False))"
    by (simp add: annotationHostnames_def excluded_def del: lit_Cons)
  then have eq: "withAnnotations hosts an =
      (if excluded an then []
       else uniq (hosts @ map Some (annotation_list (an HOSTNAME_ANNOTATION) @ annotation_list (an INTERNAL_HOSTNAME_ANNOTATION))))"
    by (simp add: withAnnotations_def)
  show "distinct (withAnnotations hosts an)" by (simp add: eq uniq_set(1))
  have "annotated an h \<longleftrightarrow>
      h \<in> set (annotation_list (an HOSTNAME_ANNOTATION)) \<or> h \<in> set (annotation_list (an INTERNAL_HOSTNAME_ANNOTATION))"
    unfolding annotated_def annotation_list_set by blast
  moreover have "Some h \<in> set (map Some xs) \<longleftrightarrow> h \<in> set xs" for xs by auto
  ultimately show "h \<in> set (withAnnotations hosts an) \<longleftrightarrow> \<not> excluded an \<and> h \<noteq> [] \<and> (Some h \<in> set hosts \<or> annotated an h)"
    unfolding eq by (simp only: uniq_set(2) set_append Un_iff map_append split: if_split) simp
qed

text \<open>A resource's host names are exactly those it stands for, each once and none empty: those of its own fields (an
  Ingress's rules and TLS sections, the addresses of a Service's load balancer, a Route's list) and those of the two
  annotations; and none at all when it is excluded, whatever its fields say.\<close>

theorem hostnames_exact:
  "distinct (hostnamesForIngress i) \<and> distinct (hostnamesForService s) \<and> distinct (hostnamesForRoute r) \<and>
   (h \<in> set (hostnamesForIngress i) \<longleftrightarrow> \<not> excluded (ing_annotations i) \<and> h \<noteq> [] \<and>
      (Some h \<in> set (ing_rules i) \<or> (\<exists>hs. Some hs \<in> set (ing_tls i) \<and> h \<in> set hs) \<or> annotated (ing_annotations i) h)) \<and>
   (h \<in> set (hostnamesForService s) \<longleftrightarrow> \<not> excluded (svc_annotations s) \<and> h \<noteq> [] \<and>
      ((\<exists>ip. (Some h, ip) \<in> set (svc_ingress s)) \<or> (\<exists>n. unset n \<and> (n, Some h) \<in> set (svc_ingress s)) \<or>
       annotated (svc_annotations s) h)) \<and>
   (h \<in> set (hostnamesForRoute r) \<longleftrightarrow> \<not> excluded (rt_annotations r) \<and> h \<noteq> [] \<and>
      (h \<in> set (rt_hostnames r) \<or> annotated (rt_annotations r) h)) \<and>
   (h \<in> set (hostnamesForNode an) \<longleftrightarrow> \<not> excluded an \<and> h \<noteq> [] \<and> annotated an h)"
proof (intro conjI)
  show "h \<in> set (hostnamesForIngress i) \<longleftrightarrow> \<not> excluded (ing_annotations i) \<and> h \<noteq> [] \<and>
      (Some h \<in> set (ing_rules i) \<or> (\<exists>hs. Some hs \<in> set (ing_tls i) \<and> h \<in> set hs) \<or> annotated (ing_annotations i) h)"
    unfolding hostnamesForIngress_def withAnnotations_set by (force split: option.splits)
  show "h \<in> set (hostnamesForService s) \<longleftrightarrow> \<not> excluded (svc_annotations s) \<and> h \<noteq> [] \<and>
      ((\<exists>ip. (Some h, ip) \<in> set (svc_ingress s)) \<or> (\<exists>n. unset n \<and> (n, Some h) \<in> set (svc_ingress s)) \<or>
       annotated (svc_annotations s) h)"
    unfolding hostnamesForService_def withAnnotations_set by (force split: if_splits)
qed (auto simp: hostnamesForIngress_def hostnamesForService_def hostnamesForRoute_def hostnamesForNode_def withAnnotations_set)

lemma splitAnnotationHostnames_join:
  assumes "hs \<noteq> []" "list_all (\<lambda>h. h \<noteq> [] \<and> 44 \<notin> set h \<and> \<not> is_space (hd h) \<and> \<not> is_space (last h)) hs"
  shows "splitAnnotationHostnames (join [44] hs) = hs"
proof -
  have "split_on 44 (join [44] hs) = hs" using assms by (intro split_on_join) (auto simp: list_all_iff)
  moreover have "map trim hs = hs" using assms(2) by (intro map_idI trim_ends_id) (auto simp: list_all_iff)
  moreover have "filter (\<lambda>h. h \<noteq> []) hs = hs" using assms(2) by (auto simp: filter_id_conv list_all_iff)
  ultimately show ?thesis by (simp add: splitAnnotationHostnames_def)
qed

section \<open>Properties of requests\<close>

lemma hostname_params_eq:
  "hostname_params hs resolver = map (Pair (lit ''hostname'')) hs @ (if unset resolver then [] else [(lit ''resolver'', the resolver)])"
proof -
  have "lit ''resolver'' \<notin> fst ` set (map (Pair (lit ''hostname'')) hs)" by (auto simp: lit_def)
  then show ?thesis by (simp add: hostname_params_def fold_params_append params_set_def del: lit_Cons)
qed

text \<open>A lookup asks about exactly the host names it was given: the back end reads from the query one \<open>hostname\<close> for
  each, in their order and whatever characters they hold, and the resolver when one is set.\<close>

theorem hostnameQuery_read:
  assumes "hs \<noteq> []" "list_all utf16 hs" "utf16 (the resolver) \<or> unset resolver"
  shows "parse_query (hostnameQuery hs resolver) =
    map (\<lambda>h. (lit ''hostname'', utf8_bytes h)) hs @
    (if unset resolver then [] else [(lit ''resolver'', utf8_bytes (the resolver))])"
proof -
  have ascii: "utf8_bytes (lit ''hostname'') = lit ''hostname''" "utf8_bytes (lit ''resolver'') = lit ''resolver''"
    "utf16 (lit ''hostname'')" "utf16 (lit ''resolver'')"
    by (simp_all add: utf8_bytes_lit utf16_def)
  have "hostname_params hs resolver \<noteq> []" "list_all (\<lambda>(k, v). utf16 k \<and> utf16 v) (hostname_params hs resolver)"
    using assms ascii(3,4) by (auto simp: hostname_params_eq list_all_iff simp del: lit_Cons)
  from parse_query_string [OF this] show ?thesis
    unfolding hostnameQuery_def by (simp add: hostname_params_eq ascii(1,2) del: lit_Cons)
qed

lemma hostnameQuery_read_witness:
  "parse_query (hostnameQuery [lit ''a&b'', lit ''c''] None) = [(lit ''hostname'', lit ''a&b''), (lit ''hostname'', lit ''c'')]"
proof -
  have "list_all utf16 [lit ''a&b'', lit ''c'']" "utf8_bytes (lit ''a&b'') = lit ''a&b''" "utf8_bytes (lit ''c'') = lit ''c''"
    by (simp_all add: utf8_bytes_lit utf16_def)
  then show ?thesis using hostnameQuery_read [of "[lit ''a&b'', lit ''c'']" None] by (simp del: lit_Cons)
qed

end
