(* ===== verification/Res_Status.thy ===== *)
theory Res_Status
  imports Complex_Main Prelude
begin

text \<open>
  How the flux, cert-manager and external-secrets plugins read the status of a resource: conditions, durations and the
  Ready column (\<^verbatim>\<open>plugins/flux/src/utils/readyStatus.ts\<close>, \<^verbatim>\<open>status.ts\<close>, \<^verbatim>\<open>consumers.ts\<close>;
  \<^verbatim>\<open>plugins/cert-manager/src/utils/certStatus.ts\<close>, \<^verbatim>\<open>duration.ts\<close>;
  \<^verbatim>\<open>plugins/external-secrets/src/utils\<close>).

  The clock, \<^verbatim>\<open>Date.parse\<close> and the collation of the locale are parameters. Durations are exact fractions of a
  millisecond where the source has doubles.
\<close>

section \<open>Durations\<close>

text \<open>
  A global match of \<^verbatim>\<open>(\<backslash>d+(?:\<backslash>.\<backslash>d+)?)(unit|unit|...)\<close>: the units are tried in the order of the table, at the leftmost
  position where a number and a unit stand.
\<close>

type_synonym unit_table = "(jsstring \<times> nat) list"

definition match_unit :: "unit_table \<Rightarrow> jsstring \<Rightarrow> (nat \<times> jsstring) option" where
  "match_unit table s =
     (case find (\<lambda>(u, f). starts_with u s) table of
        None \<Rightarrow> None
      | Some (u, f) \<Rightarrow> Some (f, drop (length u) s))"

definition read_fraction :: "jsstring \<Rightarrow> jsstring \<Rightarrow> rat" where
  "read_fraction ds fs = of_nat (read_nat ds) + of_nat (read_nat fs) / 10 ^ length fs"

definition match_duration :: "unit_table \<Rightarrow> jsstring \<Rightarrow> (rat \<times> jsstring) option" where
  "match_duration table s =
     (let ds = takeWhile is_digit s; r = dropWhile is_digit s;
          fs = (if r \<noteq> [] \<and> hd r = 46 then takeWhile is_digit (tl r) else []);
          plain = map_option (\<lambda>(f, rest). (of_nat (read_nat ds) * of_nat f, rest)) (match_unit table r)
      in if ds = [] then None
         else if fs = [] then plain
         else case match_unit table (dropWhile is_digit (tl r)) of
                Some (f, rest) \<Rightarrow> Some (read_fraction ds fs * of_nat f, rest)
              | None \<Rightarrow> plain)"

lemma match_unit_rest: "match_unit table s = Some (f, rest) \<Longrightarrow> length rest \<le> length s"
  by (auto simp: match_unit_def split: option.splits)

lemma match_duration_rest: "match_duration table s = Some (v, rest) \<Longrightarrow> length rest < length s"
proof -
  assume m: "match_duration table s = Some (v, rest)"
  then have ds: "takeWhile is_digit s \<noteq> []" by (auto simp: match_duration_def Let_def split: if_splits)
  have "length (takeWhile is_digit s) + length (dropWhile is_digit s) = length s"
    by (metis length_append takeWhile_dropWhile_id)
  with ds have r: "length (dropWhile is_digit s) < length s" by (cases "takeWhile is_digit s") auto
  have "length rest \<le> length (dropWhile is_digit s)"
    using m length_dropWhile_le [of is_digit "tl (dropWhile is_digit s)"]
    by (auto simp: match_duration_def Let_def split: if_splits option.splits dest!: match_unit_rest intro: le_trans)
  with r show ?thesis by simp
qed

text \<open>The sum over all matches, and whether there was one.\<close>

function sum_durations :: "unit_table \<Rightarrow> jsstring \<Rightarrow> rat \<Rightarrow> bool \<Rightarrow> rat \<times> bool" where
  "sum_durations table s acc matched =
     (if s = [] then (acc, matched)
      else case match_duration table s of
             None \<Rightarrow> sum_durations table (tl s) acc matched
           | Some (v, rest) \<Rightarrow> sum_durations table rest (acc + v) True)"
  by pat_completeness auto
termination
  by (relation "measure (\<lambda>(table, s, acc, matched). length s)") (auto dest: match_duration_rest)

declare sum_durations.simps [simp del]

definition GO_UNITS :: unit_table where
  "GO_UNITS = [(lit ''h'', 3600000), (lit ''m'', 60000), (lit ''s'', 1000), (lit ''ms'', 1)]"

definition parseGoDuration :: "jsstring option \<Rightarrow> rat option" where
  "parseGoDuration duration =
     (if unset duration then None
      else case sum_durations GO_UNITS (the duration) 0 False of (ms, matched) \<Rightarrow> if matched then Some ms else None)"

text \<open>\<^verbatim>\<open>formatDurationCompact\<close>, the same in cert-manager and external-secrets; \<open>ms\<close> is a difference of time stamps.\<close>

definition formatDurationCompact :: "int \<Rightarrow> jsstring" where
  "formatDurationCompact ms =
     (let clamped = (if ms < 0 then 0 else ms);
          totalSeconds = nat (clamped div 1000);
          days = totalSeconds div 86400;
          hours = totalSeconds mod 86400 div 3600;
          minutes = totalSeconds mod 3600 div 60;
          seconds = totalSeconds mod 60
      in if days > 0 then show_nat days @ lit ''d'' @ show_nat hours @ lit ''h''
         else if hours > 0 then show_nat hours @ lit ''h'' @ show_nat minutes @ lit ''m''
         else if minutes > 0 then show_nat minutes @ lit ''m'' @ show_nat seconds @ lit ''s''
         else show_nat seconds @ lit ''s'')"

definition formatTimeUntil :: "(jsstring \<Rightarrow> int option) \<Rightarrow> int \<Rightarrow> jsstring option \<Rightarrow> jsstring" where
  "formatTimeUntil date now isoTimestamp =
     (if unset isoTimestamp then lit ''-''
      else case date (the isoTimestamp) of
             None \<Rightarrow> lit ''-''
           | Some t \<Rightarrow> if t - now \<le> 0 then lit ''expired'' else formatDurationCompact (t - now))"

definition isPast :: "(jsstring \<Rightarrow> int option) \<Rightarrow> int \<Rightarrow> jsstring option \<Rightarrow> bool" where
  "isPast date now isoTimestamp =
     (\<not> unset isoTimestamp \<and> (case date (the isoTimestamp) of None \<Rightarrow> False | Some t \<Rightarrow> t \<le> now))"

section \<open>Conditions\<close>

record condition =
  cd_type :: jsstring
  cd_status :: jsstring
  cd_reason :: "jsstring option"
  cd_message :: "jsstring option"
  cd_lastTransitionTime :: "jsstring option"

definition getCondition :: "condition list option \<Rightarrow> jsstring \<Rightarrow> condition option" where
  "getCondition conditions type = (case conditions of None \<Rightarrow> None | Some cs \<Rightarrow> find (\<lambda>c. cd_type c = type) cs)"

definition getReadyCondition :: "condition list option \<Rightarrow> condition option" where
  "getReadyCondition conditions = getCondition conditions (lit ''Ready'')"

definition getSyncedCondition :: "condition list option \<Rightarrow> condition option" where
  "getSyncedCondition conditions = getCondition conditions (lit ''Synced'')"

text \<open>Comparison of strings is by code units.\<close>

fun js_less :: "jsstring \<Rightarrow> jsstring \<Rightarrow> bool" where
  "js_less [] [] = False"
| "js_less [] (y # ys) = True"
| "js_less (x # xs) [] = False"
| "js_less (x # xs) (y # ys) = (x < y \<or> x = y \<and> js_less xs ys)"

definition later_condition :: "condition \<Rightarrow> condition \<Rightarrow> condition" where
  "later_condition latest c =
     (if unset (cd_lastTransitionTime latest) then c
      else if unset (cd_lastTransitionTime c) then latest
      else if js_less (the (cd_lastTransitionTime latest)) (the (cd_lastTransitionTime c)) then c else latest)"

definition getLatestCondition :: "condition list option \<Rightarrow> condition option" where
  "getLatestCondition conditions =
     (case conditions of None \<Rightarrow> None | Some [] \<Rightarrow> None | Some (c # cs) \<Rightarrow> Some (foldl later_condition c cs))"

text \<open>An issuer's and a store's provider: the keys of the object that are set.\<close>

definition single_key :: "(jsstring \<times> 'v option) list option \<Rightarrow> jsstring" where
  "single_key spec =
     (case spec of
        None \<Rightarrow> lit ''-''
      | Some props \<Rightarrow>
          (let keys = map fst (filter (\<lambda>(k, v). v \<noteq> None) props)
           in if length keys = 0 then lit ''-'' else if length keys > 1 then lit ''!'' else keys ! 0))"

definition getIssuerType :: "(jsstring \<times> 'v option) list option \<Rightarrow> jsstring" where
  "getIssuerType spec = single_key spec"

definition getProviderKey :: "(jsstring \<times> 'v option) list option \<Rightarrow> jsstring" where
  "getProviderKey provider = single_key provider"

section \<open>The Ready column\<close>

datatype ready_kind = Success | RollbackRecent | FailedNonretryable | FailedRetryable | ArtifactFailedRecent
  | ArtifactFailedStale | DependencyNotReady

record ready_status =
  rs_kind :: ready_kind
  rs_label :: jsstring
  rs_message :: "jsstring option"

definition ROLLBACK_RECENT_MS :: int where "ROLLBACK_RECENT_MS = 24 * 60 * 60 * 1000"
definition DEFAULT_INTERVAL_MS :: rat where "DEFAULT_INTERVAL_MS = 5 * 60 * 1000"

text \<open>
  \<open>transition\<close> is \<^verbatim>\<open>transitionMs\<close>: \<open>None\<close> undefined, \<open>Some None\<close> not a number, of which every comparison is false.
  \<open>interval\<close> is \<^verbatim>\<open>spec.interval\<close> if it is a string.
\<close>

definition transition_ms :: "(jsstring \<Rightarrow> int option) \<Rightarrow> condition \<Rightarrow> int option option" where
  "transition_ms date c = (if unset (cd_lastTransitionTime c) then None else Some (date (the (cd_lastTransitionTime c))))"

definition younger_than :: "int \<Rightarrow> int option \<Rightarrow> rat \<Rightarrow> bool" where
  "younger_than now t limit = (case t of None \<Rightarrow> False | Some ms \<Rightarrow> of_int (now - ms) < limit)"

definition ready_kind_of :: "(jsstring \<Rightarrow> int option) \<Rightarrow> int \<Rightarrow> jsstring option \<Rightarrow> condition list option \<Rightarrow> condition \<Rightarrow> ready_kind" where
  "ready_kind_of date now interval conditions ready =
     (let transition = transition_ms date ready
      in if cd_status ready = lit ''True'' then
           (if cd_reason ready = Some (lit ''RollbackSucceeded'') \<and>
               (case transition of None \<Rightarrow> False | Some t \<Rightarrow> younger_than now t (of_int ROLLBACK_RECENT_MS))
            then RollbackRecent else Success)
         else if cd_reason ready = Some (lit ''ArtifactFailed'') then
           (let threshold = (case parseGoDuration interval of Some ms \<Rightarrow> ms | None \<Rightarrow> DEFAULT_INTERVAL_MS) * 2
            in if (case transition of None \<Rightarrow> True | Some t \<Rightarrow> younger_than now t threshold)
               then ArtifactFailedRecent else ArtifactFailedStale)
         else if cd_reason ready = Some (lit ''DependencyNotReady'') then DependencyNotReady
         else if map_option cd_status (getCondition conditions (lit ''Stalled'')) = Some (lit ''True'') then FailedNonretryable
         else FailedRetryable)"

definition getReadyStatus :: "(jsstring \<Rightarrow> int option) \<Rightarrow> int \<Rightarrow> jsstring option \<Rightarrow> condition list option \<Rightarrow> ready_status option" where
  "getReadyStatus date now interval conditions =
     (case getReadyCondition conditions of
        None \<Rightarrow> None
      | Some ready \<Rightarrow>
          Some \<lparr>rs_kind = ready_kind_of date now interval conditions ready,
                rs_label = default_to (cd_reason ready) (if cd_status ready = lit ''True'' then lit ''Ready'' else lit ''NotReady''),
                rs_message = cd_message ready\<rparr>)"

section \<open>Properties of durations\<close>

text \<open>A duration written as amounts with their units, and the units a table reads whatever follows.\<close>

definition written :: "(nat \<times> jsstring) list \<Rightarrow> jsstring" where
  "written parts = concat (map (\<lambda>(n, u). show_nat n @ u) parts)"

definition reads_unit :: "unit_table \<Rightarrow> jsstring \<Rightarrow> nat \<Rightarrow> bool" where
  "reads_unit table u f \<longleftrightarrow> u \<noteq> [] \<and> \<not> is_digit (hd u) \<and> hd u \<noteq> 46 \<and> (\<forall>r. match_unit table (u @ r) = Some (f, r))"

lemma show_nat_split:
  assumes "u \<noteq> []" "\<not> is_digit (hd u)"
  shows "takeWhile is_digit (show_nat n @ u) = show_nat n" "dropWhile is_digit (show_nat n @ u) = u"
  using assms show_nat_digits [of n] by (cases u; auto simp: all_digits_def list_all_iff takeWhile_append dropWhile_append)+

lemma match_duration_written:
  assumes "reads_unit table u f"
  shows "match_duration table (show_nat n @ u @ r) = Some (of_nat n * of_nat f, r)"
proof -
  have u: "u @ r \<noteq> []" "\<not> is_digit (hd (u @ r))" "hd (u @ r) \<noteq> 46" "match_unit table (u @ r) = Some (f, r)"
    using assms by (auto simp: reads_unit_def)
  have "show_nat n \<noteq> []" using show_nat_digits [of n] by (simp add: all_digits_def)
  then show ?thesis using u unfolding match_duration_def Let_def by (simp add: show_nat_split [OF u(1,2)])
qed

lemma sum_durations_written:
  assumes "list_all (\<lambda>(n, u). reads_unit table u (factor u)) parts"
  shows "sum_durations table (written parts) acc matched =
    (acc + of_nat (\<Sum>(n, u) \<leftarrow> parts. n * factor u), matched \<or> parts \<noteq> [])"
  using assms
proof (induction parts arbitrary: acc matched)
  case Nil
  show ?case by (simp add: written_def sum_durations.simps)
next
  case (Cons p parts)
  obtain n u where p: "p = (n, u)" by fastforce
  have w: "written (p # parts) = show_nat n @ u @ written parts" by (simp add: written_def p)
  have "match_duration table (written (p # parts)) = Some (of_nat n * of_nat (factor u), written parts)"
    unfolding w using Cons.prems p by (intro match_duration_written) simp
  moreover have "written (p # parts) \<noteq> []" using show_nat_digits [of n] by (simp add: w all_digits_def)
  ultimately show ?case using Cons by (subst sum_durations.simps) (simp add: p)
qed

lemma go_units: "reads_unit GO_UNITS (lit ''h'') 3600000" "reads_unit GO_UNITS (lit ''m'') 60000" "reads_unit GO_UNITS (lit ''s'') 1000"
  by (simp_all add: reads_unit_def match_unit_def GO_UNITS_def starts_with_def is_digit_def)

definition go_factor :: "jsstring \<Rightarrow> nat" where
  "go_factor u = (if u = lit ''h'' then 3600000 else if u = lit ''m'' then 60000 else 1000)"

lemma parse_written:
  assumes "parts \<noteq> []" "list_all (\<lambda>(n, u). u \<in> {lit ''h'', lit ''m'', lit ''s''}) parts"
  shows "parseGoDuration (Some (written parts)) = Some (of_nat (\<Sum>(n, u) \<leftarrow> parts. n * go_factor u))"
proof -
  have "list_all (\<lambda>(n, u). reads_unit GO_UNITS u (go_factor u)) parts"
    using assms(2) go_units by (auto simp: list_all_iff go_factor_def)
  note sum = sum_durations_written [OF this, of 0 False]
  have "written parts \<noteq> []"
    using assms(1) show_nat_digits by (cases parts) (auto simp: written_def all_digits_def)
  then show ?thesis using sum assms(1) by (simp add: parseGoDuration_def)
qed

text \<open>A Go duration of hours, minutes and seconds, in any order and number, is read as their sum in milliseconds.\<close>

theorem parseGoDuration_sums:
  assumes "parts \<noteq> []" "list_all (\<lambda>(n, u). u \<in> {lit ''h'', lit ''m'', lit ''s''}) parts"
  shows "parseGoDuration (Some (written parts)) = Some (of_nat (\<Sum>(n, u) \<leftarrow> parts. n * go_factor u))"
  using assms by (rule parse_written)

lemma parseGoDuration_sums_witness: "parseGoDuration (Some (written [(1, lit ''h''), (30, lit ''m'')])) = Some 5400000"
  using parseGoDuration_sums [of "[(1, lit ''h''), (30, lit ''m'')]"] by (simp add: go_factor_def)

lemma milliseconds_minutes: "parseGoDuration (Some (show_nat n @ lit ''ms'')) = Some (of_nat n * 60000)"
proof -
  have "match_duration GO_UNITS (show_nat n @ lit ''m'' @ lit ''s'') = Some (of_nat n * of_nat 60000, lit ''s'')"
    by (rule match_duration_written [OF go_units(2)])
  moreover have "sum_durations GO_UNITS (lit ''s'') acc True = (acc, True)" for acc
    by (simp add: sum_durations.simps match_duration_def is_digit_def)
  ultimately have "sum_durations GO_UNITS (show_nat n @ lit ''ms'') 0 False = (of_nat n * 60000, True)"
    by (subst sum_durations.simps) simp
  then show ?thesis by (simp add: parseGoDuration_def)
qed

text \<open>Milliseconds are read as minutes: the alternative \<open>m\<close> matches before \<open>ms\<close> is tried. A source checked every half
  second whose artifact has failed for a quarter of an hour still counts as failed recently.\<close>

theorem milliseconds_read_as_minutes:
  "parseGoDuration (Some (show_nat n @ lit ''ms'')) = Some (of_nat n * 60000) \<and>
   ready_kind_of (\<lambda>s. Some 0) 900000 (Some (show_nat 500 @ lit ''ms'')) conditions
     \<lparr>cd_type = lit ''Ready'', cd_status = lit ''False'', cd_reason = Some (lit ''ArtifactFailed''), cd_message = None,
      cd_lastTransitionTime = Some [48]\<rparr> = ArtifactFailedRecent"
  using milliseconds_minutes [of n] milliseconds_minutes [of 500]
  by (simp add: ready_kind_of_def transition_ms_def younger_than_def)

subsection \<open>Compact durations\<close>

definition COMPACT_UNITS :: unit_table where
  "COMPACT_UNITS = [(lit ''d'', 86400), (lit ''h'', 3600), (lit ''m'', 60), (lit ''s'', 1)]"

definition compact_factor :: "jsstring \<Rightarrow> nat" where
  "compact_factor u = (if u = lit ''d'' then 86400 else if u = lit ''h'' then 3600 else if u = lit ''m'' then 60 else 1)"

lemma compact_units: "reads_unit COMPACT_UNITS (lit ''d'') 86400" "reads_unit COMPACT_UNITS (lit ''h'') 3600"
  "reads_unit COMPACT_UNITS (lit ''m'') 60" "reads_unit COMPACT_UNITS (lit ''s'') 1"
  by (simp_all add: reads_unit_def match_unit_def COMPACT_UNITS_def starts_with_def is_digit_def)

definition compact_parts :: "nat \<Rightarrow> (nat \<times> jsstring) list" where
  "compact_parts t =
     (if t \<ge> 86400 then [(t div 86400, lit ''d''), (t mod 86400 div 3600, lit ''h'')]
      else if t \<ge> 3600 then [(t mod 86400 div 3600, lit ''h''), (t mod 3600 div 60, lit ''m'')]
      else if t \<ge> 60 then [(t mod 3600 div 60, lit ''m''), (t mod 60, lit ''s'')]
      else [(t mod 60, lit ''s'')])"

definition precision :: "nat \<Rightarrow> nat" where
  "precision t = (if t \<ge> 86400 then 3600 else if t \<ge> 3600 then 60 else 1)"

lemma compact_written: "formatDurationCompact ms = written (compact_parts (nat (ms div 1000)))"
proof -
  have "nat ((if ms < 0 then 0 else ms) div 1000) = nat (ms div 1000)" by (auto simp: div_neg_pos_less0)
  moreover have "0 < t div 86400 \<longleftrightarrow> 86400 \<le> t" "t < 86400 \<Longrightarrow> 0 < t mod 86400 div 3600 \<longleftrightarrow> 3600 \<le> t"
    "t < 3600 \<Longrightarrow> 0 < t mod 3600 div 60 \<longleftrightarrow> 60 \<le> t" for t :: nat
    by (simp_all add: div_greater_zero_iff)
  ultimately show ?thesis
    unfolding formatDurationCompact_def Let_def compact_parts_def by (simp add: written_def not_le)
qed

text \<open>A remaining time is shown to the second of its two units and never more than is left: read back, it is the whole
  seconds cut down to hours when there are days, to minutes when there are hours, exact below an hour, and zero for a time
  that has passed.\<close>

theorem formatDurationCompact_reads:
  "sum_durations COMPACT_UNITS (formatDurationCompact ms) 0 False =
   (let t = nat (ms div 1000) in (of_nat (t - t mod precision t), True))"
proof -
  define t where "t = nat (ms div 1000)"
  have "list_all (\<lambda>(n, u). reads_unit COMPACT_UNITS u (compact_factor u)) (compact_parts t)"
    using compact_units by (simp add: compact_parts_def compact_factor_def)
  from sum_durations_written [OF this, of 0 False]
  have "sum_durations COMPACT_UNITS (formatDurationCompact ms) 0 False =
      (of_nat (\<Sum>(n, u) \<leftarrow> compact_parts t. n * compact_factor u), True)"
    by (simp add: compact_written t_def [symmetric]) (simp add: compact_parts_def)
  moreover have "(\<Sum>(n, u) \<leftarrow> compact_parts t. n * compact_factor u) = t - t mod precision t"
  proof -
    have d: "t div 86400 * 86400 + t mod 86400 div 3600 * 3600 = t - t mod 3600"
      using mod_mult2_eq [of t 3600 24] div_mult_mod_eq [of t 86400] by simp linarith
    have h: "t mod 86400 div 3600 * 3600 + t mod 3600 div 60 * 60 = t - t mod 60" if "t < 86400"
      using that mod_mult2_eq [of t 60 60] div_mult_mod_eq [of t 3600] by simp linarith
    have m: "t mod 3600 div 60 * 60 + t mod 60 = t" if "t < 3600" using that by simp
    show ?thesis using d h m by (auto simp: compact_parts_def compact_factor_def precision_def not_le)
  qed
  ultimately show ?thesis by (simp add: t_def Let_def)
qed

section \<open>Properties of conditions\<close>

lemma js_less_lexord: "js_less xs ys \<longleftrightarrow> (xs, ys) \<in> lexord {(x, y). x < y}"
  by (induction xs ys rule: js_less.induct) auto

lemma js_less_trans: "js_less xs ys \<Longrightarrow> js_less ys zs \<Longrightarrow> js_less xs zs"
  unfolding js_less_lexord by (erule lexord_trans) (auto intro!: transI)

lemma js_less_linear: "js_less xs ys \<or> xs = ys \<or> js_less ys xs"
  unfolding js_less_lexord by (rule lexord_linear) auto

lemma js_less_asym: "js_less xs ys \<Longrightarrow> \<not> js_less ys xs"
  by (induction xs ys rule: js_less.induct) auto

definition dated :: "condition \<Rightarrow> bool" where
  "dated c \<longleftrightarrow> \<not> unset (cd_lastTransitionTime c)"

abbreviation time_of :: "condition \<Rightarrow> jsstring" where
  "time_of c \<equiv> the (cd_lastTransitionTime c)"

text \<open>What the reduction keeps: an element; the first of the latest dated ones if there is one, else the last.\<close>

lemma latest_fold:
  "let l = foldl later_condition c cs
   in l \<in> set (c # cs) \<and>
      (if list_ex dated (c # cs) then dated l \<and> list_all (\<lambda>d. dated d \<longrightarrow> \<not> js_less (time_of l) (time_of d)) (c # cs)
       else l = last (c # cs))"
proof (induction cs rule: rev_induct)
  case Nil
  show ?case using js_less_asym by auto
next
  case (snoc d cs)
  define l where "l = foldl later_condition c cs"
  have step: "foldl later_condition c (cs @ [d]) =
      (if \<not> dated l then d else if \<not> dated d then l else if js_less (time_of l) (time_of d) then d else l)"
    by (simp add: l_def later_condition_def dated_def)
  have mem: "l \<in> set (c # cs)" using snoc by (simp add: l_def Let_def)
  show ?case
  proof (cases "list_ex dated (c # cs)")
    case True
    with snoc have l: "dated l" "\<And>e. e \<in> set (c # cs) \<Longrightarrow> dated e \<Longrightarrow> \<not> js_less (time_of l) (time_of e)"
      by (auto simp: l_def Let_def list_all_iff)
    have "\<not> js_less (time_of d) (time_of e)" if "js_less (time_of l) (time_of d)" "e \<in> set (c # cs)" "dated e" for e
      using that l(2) js_less_trans by blast
    then show ?thesis
      using True l mem js_less_asym [of "time_of d" "time_of d"] unfolding step Let_def
      by (auto simp: list_all_iff)
  next
    case False
    then have "\<not> dated l" using mem by (auto simp: list_ex_iff)
    then show ?thesis
      using False js_less_asym [of "time_of d" "time_of d"] unfolding step Let_def
      by (auto simp: list_all_iff list_ex_iff)
  qed
qed

text \<open>The latest condition is one of the resource's, and the latest: no dated condition is later than it, and it is
  itself dated when any is.\<close>

theorem getLatestCondition_latest:
  assumes "getLatestCondition (Some cs) = Some l"
  shows "l \<in> set cs \<and>
    (if list_ex dated cs then dated l \<and> list_all (\<lambda>d. dated d \<longrightarrow> \<not> js_less (time_of l) (time_of d)) cs else l = last cs)"
proof -
  obtain c ds where cs: "cs = c # ds" "l = foldl later_condition c ds"
    using assms by (cases cs) (auto simp: getLatestCondition_def)
  show ?thesis unfolding cs by (rule latest_fold [unfolded Let_def])
qed

definition dated_at :: "string \<Rightarrow> condition" where
  "dated_at s = \<lparr>cd_type = lit s, cd_status = [], cd_reason = None, cd_message = None, cd_lastTransitionTime = Some (lit s)\<rparr>"

lemma getLatestCondition_latest_witness:
  "list_all (\<lambda>d. \<not> js_less (lit ''2024'') (time_of d)) [dated_at ''2023'', dated_at ''2024'']"
proof -
  have l: "getLatestCondition (Some [dated_at ''2023'', dated_at ''2024'']) = Some (dated_at ''2024'')"
    by (simp add: getLatestCondition_def later_condition_def dated_at_def)
  show ?thesis using getLatestCondition_latest [OF l] by (simp add: dated_at_def dated_def)
qed

end
