(* ===== verification/Flux_Refs.thy ===== *)
theory Flux_Refs
  imports Prelude
begin

text \<open>
  References between Flux resources: which HelmReleases use a source or a chart
  (\<^verbatim>\<open>plugins/flux/src/utils/consumers.ts\<close>) and the labels of references (\<^verbatim>\<open>status.ts\<close>).
\<close>

section \<open>References\<close>

record reference =
  rf_kind :: "jsstring option"
  rf_name :: "jsstring option"
  rf_namespace :: "jsstring option"

text \<open>\<open>hr_sourceRef\<close> is \<^verbatim>\<open>spec.chart.spec.sourceRef\<close>.\<close>

record helm_release =
  hr_namespace :: "jsstring option"
  hr_name :: "jsstring option"
  hr_sourceRef :: "reference option"
  hr_chartRef :: "reference option"

definition matchesReference :: "reference option \<Rightarrow> jsstring \<Rightarrow> jsstring \<Rightarrow> jsstring \<Rightarrow> jsstring \<Rightarrow> bool" where
  "matchesReference ref consumerNamespace targetKind targetNamespace targetName =
     (case ref of
        None \<Rightarrow> False
      | Some r \<Rightarrow>
          if unset (rf_kind r) \<or> unset (rf_name r) then False
          else rf_kind r = Some targetKind \<and> rf_name r = Some targetName \<and>
               default_to (rf_namespace r) consumerNamespace = targetNamespace)"

definition impliedHelmChartRef :: "helm_release \<Rightarrow> (jsstring \<times> jsstring) option" where
  "impliedHelmChartRef hr =
     (if hr_chartRef hr \<noteq> None then None
      else case hr_sourceRef hr of
             None \<Rightarrow> None
           | Some s \<Rightarrow>
               if unset (rf_kind s) \<or> unset (hr_namespace hr) \<or> unset (hr_name hr) then None
               else Some (default_to (rf_namespace s) (the (hr_namespace hr)),
                          the (hr_namespace hr) @ [45] @ the (hr_name hr)))"

definition helmReleaseReferencesSource :: "helm_release \<Rightarrow> jsstring \<Rightarrow> jsstring \<Rightarrow> jsstring \<Rightarrow> bool" where
  "helmReleaseReferencesSource hr targetKind targetNamespace targetName =
     (let consumerNamespace = default_to (hr_namespace hr) []
      in if matchesReference (hr_sourceRef hr) consumerNamespace targetKind targetNamespace targetName then True
         else matchesReference (hr_chartRef hr) consumerNamespace targetKind targetNamespace targetName)"

definition helmReleaseReferencesHelmChart :: "helm_release \<Rightarrow> jsstring \<Rightarrow> jsstring \<Rightarrow> bool" where
  "helmReleaseReferencesHelmChart hr targetNamespace targetName =
     (case impliedHelmChartRef hr of
        Some (ns, n) \<Rightarrow> ns = targetNamespace \<and> n = targetName
      | None \<Rightarrow> matchesReference (hr_chartRef hr) (default_to (hr_namespace hr) []) (lit ''HelmChart'') targetNamespace targetName)"

definition sourceRefLabel :: "reference option \<Rightarrow> jsstring" where
  "sourceRefLabel ref =
     (case ref of
        None \<Rightarrow> lit ''-''
      | Some r \<Rightarrow>
          if \<not> unset (rf_kind r) \<and> \<not> unset (rf_name r) then the (rf_kind r) @ [47] @ the (rf_name r)
          else default_to (rf_name r) (lit ''-''))"

record git_ref =
  gr_branch :: "jsstring option"
  gr_tag :: "jsstring option"
  gr_semver :: "jsstring option"
  gr_commit :: "jsstring option"

definition gitRefLabel :: "git_ref option \<Rightarrow> jsstring" where
  "gitRefLabel ref =
     (case ref of
        None \<Rightarrow> lit ''-''
      | Some r \<Rightarrow> default_to (gr_branch r) (default_to (gr_tag r) (default_to (gr_semver r) (default_to (gr_commit r) (lit ''-'')))))"

definition suspendedLabel :: "bool option \<Rightarrow> jsstring" where
  "suspendedLabel suspend = (if suspend = Some True then lit ''Suspended'' else lit ''Active'')"

section \<open>Properties\<close>

text \<open>The chart of a release: the one its reference names, or the one its template makes.\<close>

definition chart_of :: "helm_release \<Rightarrow> (jsstring \<times> jsstring) option" where
  "chart_of hr =
     (case hr_chartRef hr of
        None \<Rightarrow> impliedHelmChartRef hr
      | Some r \<Rightarrow>
          if rf_kind r = Some (lit ''HelmChart'') \<and> \<not> unset (rf_name r)
          then Some (default_to (rf_namespace r) (default_to (hr_namespace hr) []), the (rf_name r)) else None)"

text \<open>A release is listed under exactly one chart, its own: the one its \<^verbatim>\<open>chartRef\<close> names, by default in its own
  namespace, and without a \<^verbatim>\<open>chartRef\<close> the one made from its template, so no release shows up under two charts.\<close>

theorem chart_consumers_exact:
  "helmReleaseReferencesHelmChart hr ns n \<longleftrightarrow> chart_of hr = Some (ns, n)"
proof (cases "hr_chartRef hr")
  case None
  then show ?thesis
    by (auto simp: helmReleaseReferencesHelmChart_def chart_of_def matchesReference_def split: option.splits)
next
  case (Some r)
  then have "impliedHelmChartRef hr = None" by (simp add: impliedHelmChartRef_def)
  moreover have "rf_name r = Some n \<and> \<not> unset (rf_name r) \<longleftrightarrow> \<not> unset (rf_name r) \<and> the (rf_name r) = n"
    by (cases "rf_name r") auto
  ultimately show ?thesis
    using Some by (auto simp: helmReleaseReferencesHelmChart_def chart_of_def matchesReference_def simp del: lit_Cons) (simp add: unset_def)+
qed

text \<open>The name made from a template does not tell where the namespace ends: releases of two namespaces can make one chart.\<close>

lemma implied_charts_collide:
  "let source = \<lparr>rf_kind = Some (lit ''HelmRepository''), rf_name = Some (lit ''r''), rf_namespace = Some (lit ''flux-system'')\<rparr>;
       release = (\<lambda>ns n. \<lparr>hr_namespace = Some (lit ns), hr_name = Some (lit n), hr_sourceRef = Some source, hr_chartRef = None\<rparr>)
   in impliedHelmChartRef (release ''a'' ''b-c'') = impliedHelmChartRef (release ''a-b'' ''c'')"
  by (simp add: impliedHelmChartRef_def)

end
