(* ===== verification/Fs_Browser.thy ===== *)
theory Fs_Browser
  imports Fs_Files Event_System
begin

text \<open>
  The "Files" tab of a pod, \<^verbatim>\<open>plugins/filesystem/src/pod/PodFileBrowserTab.tsx\<close>, with what its tree decides
  (\<^verbatim>\<open>FileTree.tsx\<close>) and where it opens (\<^verbatim>\<open>types.ts\<close>).

  The tab's states and the calls in flight are one record. A call keeps the target of the render it was made in, as its
  closure does; its answer is an event.
\<close>

section \<open>The container and where to open it\<close>

record volume_mount =
  vm_mountPath :: jsstring
  vm_readOnly :: bool

record container_spec =
  cs_name :: jsstring
  cs_mounts :: "volume_mount list"

text \<open>\<^verbatim>\<open>chosen ?? preferred ?? containers[0] ?? ''\<close>, each only if it is a container of the pod.\<close>

definition one_of :: "jsstring list \<Rightarrow> jsstring option \<Rightarrow> jsstring option" where
  "one_of names x = (if \<not> unset x \<and> the x \<in> set names then x else None)"

definition chosen_container :: "jsstring list \<Rightarrow> jsstring option \<Rightarrow> jsstring option \<Rightarrow> jsstring" where
  "chosen_container containers chosen preferred =
     (case one_of containers chosen of
        Some c \<Rightarrow> c
      | None \<Rightarrow>
          (case one_of containers preferred of
             Some c \<Rightarrow> c
           | None \<Rightarrow> (case containers of [] \<Rightarrow> [] | c # _ \<Rightarrow> c)))"

definition readOnlyMounts :: "container_spec list \<Rightarrow> jsstring \<Rightarrow> jsstring list" where
  "readOnlyMounts specs container =
     (case find (\<lambda>c. cs_name c = container) specs of
        None \<Rightarrow> []
      | Some c \<Rightarrow> map vm_mountPath (filter (\<lambda>m. vm_readOnly m \<and> vm_mountPath m \<noteq> []) (cs_mounts c)))"

definition isUnderReadOnlyMount :: "jsstring \<Rightarrow> jsstring list \<Rightarrow> bool" where
  "isUnderReadOnlyMount path mounts =
     list_ex (\<lambda>mount. path = mount \<or> starts_with (if ends_with [47] mount then mount else mount @ [47]) path) mounts"

text \<open>\<open>annotation\<close> is the value of \<^verbatim>\<open>files.okd.io/config\<close>.\<close>

definition parseFilesConfig :: "jsstring option \<Rightarrow> jsval" where
  "parseFilesConfig annotation =
     (if unset annotation then JObj []
      else case json_parse (the annotation) of
             None \<Rightarrow> JObj []
           | Some v \<Rightarrow> if is_object v then v else JObj [])"

definition homePathFor :: "jsval \<Rightarrow> jsstring \<Rightarrow> jsstring" where
  "homePathFor config container =
     (let own_config = get_prop config container;
          home = (if own_config \<in> {JUndef, JNull} then JUndef else get_prop own_config (lit ''home''))
      in case home of
           JStr h \<Rightarrow>
             if \<not> starts_with [47] h then [47]
             else (let trimmed = strip_slashes h in if trimmed = [] then [47] else trimmed)
         | _ \<Rightarrow> [47])"

section \<open>The tab\<close>

record entry_info =
  en_name :: jsstring
  en_type :: entry_type
  en_size :: nat
  en_mode :: nat
  en_uid :: nat
  en_gid :: nat
  en_modifiedUnix :: int
  en_linkTarget :: jsstring
  en_targetIsDirectory :: bool

record stat_response =
  st_entry :: "entry_info option"
  st_accessedUnix :: int
  st_changedUnix :: int
  st_hardLinks :: nat
  st_device :: nat
  st_inode :: nat
  st_filesystemType :: jsstring
  st_filesystemFreeBytes :: nat
  st_filesystemTotalBytes :: nat

definition isExpandable :: "entry_info \<Rightarrow> bool" where
  "isExpandable e \<longleftrightarrow> en_type e = DIRECTORY \<or> en_type e = SYMLINK \<and> en_targetIsDirectory e"

record browse_target =
  bt_namespace :: jsstring
  bt_pod :: jsstring
  bt_container :: jsstring

text \<open>\<open>ds_origin\<close> is not in the source: it records the target the entries were listed from.\<close>

record dir_state =
  ds_entries :: "entry_info list"
  ds_truncated :: bool
  ds_loading :: bool
  ds_error :: "jsstring option"
  ds_origin :: "browse_target option"

record listing =
  ls_target :: browse_target
  ls_path :: jsstring

record plugin_config =
  cf_podFileBrowserEnabled :: bool
  cf_uploadChunkBytes :: int
  cf_viewMaxBytes :: nat
  cf_defaultArchiveFormat :: jsstring

definition DEFAULT_CONFIG :: plugin_config where
  "DEFAULT_CONFIG =
     \<lparr>cf_podFileBrowserEnabled = True, cf_uploadChunkBytes = 4 * 1024 * 1024, cf_viewMaxBytes = 2 * 1024 * 1024,
      cf_defaultArchiveFormat = lit ''tar.gz''\<rparr>"

text \<open>
  What an action asks of the agent, the answers the tab looks into, and what it makes of them: the notice, standing for its
  translated text, and the dialog that opens. An upload stands for the \<^verbatim>\<open>uploadFile\<close> calls of its files.
\<close>

datatype agent_call =
    Move browse_target jsstring jsstring bool
  | CreateDirectory browse_target jsstring
  | DeleteEntry browse_target jsstring bool
  | ExtractInto browse_target jsstring jsstring bool
  | Stat browse_target jsstring
  | ReadFile browse_target jsstring "nat option"
  | ArchiveOf browse_target jsstring archive_format
  | UploadFiles browse_target jsstring "jsstring list" int

datatype answer = Answered | StatOf stat_response | BytesRead bytes | Unpacked nat jsstring

datatype notice = Moved jsstring | Created jsstring | Deleted jsstring | UnpackedInto nat jsstring | Uploaded jsstring
  | UploadedMany nat

datatype dialog = InfoDialog jsstring stat_response | ViewDialog jsstring bytes bool | MoveDialog jsstring
  | ArchiveDialog jsstring | ExtractDialog jsstring | NewFolderDialog jsstring | DeleteDialog jsstring "entry_info option"

fun notice_of :: "agent_call \<Rightarrow> answer \<Rightarrow> notice option" where
  "notice_of (Move t source destination overwrite) a = Some (Moved destination)"
| "notice_of (CreateDirectory t path) a = Some (Created path)"
| "notice_of (DeleteEntry t path recursive) a = Some (Deleted path)"
| "notice_of (ExtractInto t path destination overwrite) (Unpacked n into) = Some (UnpackedInto n into)"
| "notice_of (UploadFiles t directory names chunk) a =
     Some (case names of [name] \<Rightarrow> Uploaded name | _ \<Rightarrow> UploadedMany (length names))"
| "notice_of _ _ = None"

fun dialog_of :: "agent_call \<Rightarrow> answer \<Rightarrow> dialog option" where
  "dialog_of (Stat t path) (StatOf stat) = Some (InfoDialog path stat)"
| "dialog_of (ReadFile t path (Some viewMaxBytes)) (BytesRead bytes) =
     Some (ViewDialog path bytes (viewMaxBytes \<le> length bytes))"
| "dialog_of _ _ = None"

record action_run =
  ar_target :: browse_target
  ar_path :: jsstring
  ar_call :: agent_call
  ar_refresh :: "jsstring list"

record browser =
  br_target :: browse_target
  br_home :: jsstring
  br_config :: plugin_config
  br_dirs :: "jsstring \<rightharpoonup> dir_state"
  br_expanded :: "jsstring set"
  br_selected :: "jsstring option"
  br_busy :: "jsstring set"
  br_error :: "jsstring option"
  br_notice :: "notice option"
  br_contextMenu :: "(jsstring \<times> entry_info option) option"
  br_dialog :: "dialog option"
  br_transfer :: "(nat \<times> nat option) option"
  br_uploadDirectory :: jsstring
  br_listings :: "(nat \<times> listing) list"
  br_runs :: "(nat \<times> action_run) list"
  br_next :: nat
  br_calls :: "agent_call list"

definition markBusy :: "jsstring \<Rightarrow> bool \<Rightarrow> browser \<Rightarrow> browser" where
  "markBusy path on s = s\<lparr>br_busy := (if on then insert path (br_busy s) else br_busy s - {path})\<rparr>"

definition set_dir :: "jsstring \<Rightarrow> dir_state \<Rightarrow> browser \<Rightarrow> browser" where
  "set_dir path d s = s\<lparr>br_dirs := (br_dirs s)(path \<mapsto> d)\<rparr>"

text \<open>The first half of \<^verbatim>\<open>loadDirectory\<close>, up to its \<^verbatim>\<open>await\<close>.\<close>

definition loadDirectory :: "browse_target \<Rightarrow> jsstring \<Rightarrow> browser \<Rightarrow> browser" where
  "loadDirectory target path s =
     (let old = br_dirs s path;
          d = \<lparr>ds_entries = (case old of None \<Rightarrow> [] | Some o' \<Rightarrow> ds_entries o'), ds_truncated = False, ds_loading = True,
               ds_error = None, ds_origin = (case old of None \<Rightarrow> None | Some o' \<Rightarrow> ds_origin o')\<rparr>
      in (set_dir path d s)
           \<lparr>br_listings := br_listings s @ [(br_next s, \<lparr>ls_target = target, ls_path = path\<rparr>)], br_next := Suc (br_next s)\<rparr>)"

definition drop_listing :: "nat \<Rightarrow> browser \<Rightarrow> browser" where
  "drop_listing i s = s\<lparr>br_listings := filter (\<lambda>l. fst l \<noteq> i) (br_listings s)\<rparr>"

definition listing_arrives :: "nat \<Rightarrow> listing \<Rightarrow> entry_info list \<Rightarrow> bool \<Rightarrow> browser \<Rightarrow> browser" where
  "listing_arrives i l entries truncated s =
     set_dir (ls_path l)
       \<lparr>ds_entries = entries, ds_truncated = truncated, ds_loading = False, ds_error = None, ds_origin = Some (ls_target l)\<rparr>
       (drop_listing i s)"

definition listing_fails :: "nat \<Rightarrow> listing \<Rightarrow> jsstring \<Rightarrow> browser \<Rightarrow> browser" where
  "listing_fails i l message s =
     set_dir (ls_path l)
       \<lparr>ds_entries = [], ds_truncated = False, ds_loading = False, ds_error = Some message, ds_origin = None\<rparr>
       (drop_listing i s)"

text \<open>The effect of a render with another namespace, pod, container or home.\<close>

definition open_target :: "browse_target \<Rightarrow> jsstring \<Rightarrow> browser \<Rightarrow> browser" where
  "open_target target home s =
     (let toOpen = ancestorPaths home;
          s1 = s\<lparr>br_target := target, br_home := home, br_dirs := Map.empty, br_expanded := set toOpen,
                 br_selected := (if home = [47] then None else Some home), br_error := None, br_notice := None\<rparr>
      in if bt_namespace target \<noteq> [] \<and> bt_pod target \<noteq> [] \<and> bt_container target \<noteq> []
         then fold (loadDirectory target) toOpen s1 else s1)"

definition show_target :: "browse_target \<Rightarrow> jsstring \<Rightarrow> browser \<Rightarrow> browser" where
  "show_target target home s = (if br_target s = target \<and> br_home s = home then s else open_target target home s)"

definition mount_browser :: "browse_target \<Rightarrow> jsstring \<Rightarrow> browser" where
  "mount_browser target home =
     open_target target home
       \<lparr>br_target = target, br_home = home, br_config = DEFAULT_CONFIG, br_dirs = Map.empty, br_expanded = {[47]},
        br_selected = None, br_busy = {}, br_error = None, br_notice = None, br_contextMenu = None, br_dialog = None,
        br_transfer = None, br_uploadDirectory = [47], br_listings = [], br_runs = [], br_next = 0, br_calls = []\<rparr>"

definition refresh :: "browse_target \<Rightarrow> jsstring \<Rightarrow> browser \<Rightarrow> browser" where
  "refresh target path s = (if br_dirs s path = None then s else loadDirectory target path s)"

definition onToggle :: "jsstring \<Rightarrow> browser \<Rightarrow> browser" where
  "onToggle path s =
     (if path \<in> br_expanded s then s\<lparr>br_expanded := br_expanded s - {path}\<rparr>
      else (let s1 = s\<lparr>br_expanded := insert path (br_expanded s)\<rparr>
            in if br_dirs s path = None then loadDirectory (br_target s) path s1 else s1))"

text \<open>\<^verbatim>\<open>run\<close> up to the \<^verbatim>\<open>await\<close> of its action, and its two ends.\<close>

definition run_action :: "jsstring \<Rightarrow> agent_call \<Rightarrow> jsstring list \<Rightarrow> browser \<Rightarrow> browser" where
  "run_action path call refreshPaths s =
     (markBusy path True s)
       \<lparr>br_error := None,
        br_runs := br_runs s @
          [(br_next s, \<lparr>ar_target = br_target s, ar_path = path, ar_call = call, ar_refresh = refreshPaths\<rparr>)],
        br_next := Suc (br_next s), br_calls := br_calls s @ [call]\<rparr>"

definition end_run :: "nat \<Rightarrow> action_run \<Rightarrow> browser \<Rightarrow> browser" where
  "end_run i r s = (markBusy (ar_path r) False s)\<lparr>br_transfer := None, br_runs := filter (\<lambda>x. fst x \<noteq> i) (br_runs s)\<rparr>"

definition action_result :: "agent_call \<Rightarrow> answer \<Rightarrow> browser \<Rightarrow> browser" where
  "action_result call a s =
     s\<lparr>br_dialog := (case dialog_of call a of None \<Rightarrow> br_dialog s | Some d \<Rightarrow> Some d),
       br_notice := (case notice_of call a of None \<Rightarrow> br_notice s | Some n \<Rightarrow> Some n)\<rparr>"

definition run_succeeds :: "nat \<Rightarrow> action_run \<Rightarrow> answer \<Rightarrow> browser \<Rightarrow> browser" where
  "run_succeeds i r a s = end_run i r (fold (refresh (ar_target r)) (ar_refresh r) (action_result (ar_call r) a s))"

definition run_fails :: "nat \<Rightarrow> action_run \<Rightarrow> jsstring \<Rightarrow> browser \<Rightarrow> browser" where
  "run_fails i r message s = end_run i r (s\<lparr>br_error := Some message\<rparr>)"

definition progress :: "nat \<Rightarrow> nat option \<Rightarrow> browser \<Rightarrow> browser" where
  "progress done_bytes all_bytes s = s\<lparr>br_transfer := Some (done_bytes, all_bytes)\<rparr>"

definition doMove :: "jsstring \<Rightarrow> jsstring \<Rightarrow> bool \<Rightarrow> browser \<Rightarrow> browser" where
  "doMove source destination overwrite s =
     run_action source (Move (br_target s) source destination overwrite) [parentPath source, parentPath destination] s"

definition onDropMove :: "jsstring \<Rightarrow> jsstring \<Rightarrow> browser \<Rightarrow> browser" where
  "onDropMove source directory s =
     (let destination = joinPath directory (baseName source)
      in if destination = source \<or> directory = parentPath source then s else doMove source destination False s)"

definition doUpload :: "jsstring \<Rightarrow> jsstring list \<Rightarrow> browser \<Rightarrow> browser" where
  "doUpload directory names s =
     run_action directory (UploadFiles (br_target s) directory names (cf_uploadChunkBytes (br_config s))) [directory] s"

definition startArchive :: "jsstring \<Rightarrow> jsstring \<Rightarrow> browser \<Rightarrow> browser" where
  "startArchive path formatId s = run_action path (ArchiveOf (br_target s) path (archiveFormatById formatId)) [] s"

text \<open>The \<^verbatim>\<open>onChange\<close> of the hidden file input.\<close>

definition pick_files :: "jsstring list \<Rightarrow> browser \<Rightarrow> browser" where
  "pick_files names s = (if names = [] then s else doUpload (br_uploadDirectory s) names s)"

text \<open>
  The buttons of the toolbar: the upload goes to the selected directory if it is an opened one, and \<^verbatim>\<open>Refresh\<close> reads every
  opened directory again, in the order of the keys of \<^verbatim>\<open>dirs\<close>, which is that of \<open>paths\<close>.
\<close>

definition upload_button :: "browser \<Rightarrow> browser" where
  "upload_button s =
     s\<lparr>br_uploadDirectory :=
        (case br_selected s of
           None \<Rightarrow> [47]
         | Some selected \<Rightarrow> if selected \<noteq> [] \<and> br_dirs s selected \<noteq> None then selected else [47])\<rparr>"

definition refresh_button :: "jsstring list \<Rightarrow> browser \<Rightarrow> browser" where
  "refresh_button paths s = fold (refresh (br_target s)) paths s"

section \<open>The context menu\<close>

datatype menu_action = View | Download | DownloadArchive jsstring | DownloadArchiveAs | Upload | NewFolder | Extract | Info
  | MoveTo | Delete | Refresh

definition is_dir :: "jsstring \<Rightarrow> entry_info option \<Rightarrow> bool" where
  "is_dir path entry \<longleftrightarrow> path = [47] \<or> (case entry of None \<Rightarrow> False | Some e \<Rightarrow> isExpandable e)"

definition menu_actions :: "host \<Rightarrow> jsstring \<Rightarrow> jsstring \<Rightarrow> entry_info option \<Rightarrow> menu_action list" where
  "menu_actions h defaultArchiveFormat path entry =
     (let isRoot = (path = [47]);
          isFile = (\<not> isRoot \<and> (case entry of None \<Rightarrow> False | Some e \<Rightarrow> en_type e = FILE));
          format = (if defaultArchiveFormat \<in> fst ` set ARCHIVE_FORMATS then defaultArchiveFormat
                    else cf_defaultArchiveFormat DEFAULT_CONFIG)
      in (if isFile then [View, Download] else []) @
         (if is_dir path entry then [DownloadArchive format, DownloadArchiveAs, Upload, NewFolder] else []) @
         (if isFile \<and> looksLikeArchive h path then [Extract] else []) @
         (if \<not> isRoot then [Info, MoveTo, Delete] else []) @ [Refresh])"

fun select_action :: "menu_action \<Rightarrow> jsstring \<Rightarrow> entry_info option \<Rightarrow> browser \<Rightarrow> browser" where
  "select_action View path entry s =
     run_action path (ReadFile (br_target s) path (Some (cf_viewMaxBytes (br_config s)))) [] s"
| "select_action Download path entry s = run_action path (ReadFile (br_target s) path None) [] s"
| "select_action (DownloadArchive format) path entry s = startArchive path format s"
| "select_action DownloadArchiveAs path entry s = s\<lparr>br_dialog := Some (ArchiveDialog path)\<rparr>"
| "select_action Upload path entry s = s\<lparr>br_uploadDirectory := path\<rparr>"
| "select_action NewFolder path entry s = s\<lparr>br_dialog := Some (NewFolderDialog path)\<rparr>"
| "select_action Extract path entry s = s\<lparr>br_dialog := Some (ExtractDialog path)\<rparr>"
| "select_action Info path entry s = run_action path (Stat (br_target s) path) [] s"
| "select_action MoveTo path entry s = s\<lparr>br_dialog := Some (MoveDialog path)\<rparr>"
| "select_action Delete path entry s = s\<lparr>br_dialog := Some (DeleteDialog path entry)\<rparr>"
| "select_action Refresh path entry s = refresh (br_target s) (if is_dir path entry then path else parentPath path) s"

text \<open>Choosing an entry closes the menu first (\<^verbatim>\<open>ContextMenu.tsx\<close>).\<close>

definition choose_action :: "menu_action \<Rightarrow> browser \<Rightarrow> browser" where
  "choose_action a s =
     (case br_contextMenu s of
        None \<Rightarrow> s
      | Some (path, entry) \<Rightarrow> select_action a path entry (s\<lparr>br_contextMenu := None\<rparr>))"

section \<open>The dialogs\<close>

definition EXTRACT_SUFFIXES :: "jsstring list" where
  "EXTRACT_SUFFIXES = map lit [''.tar.zst'', ''.tar.zstd'', ''.tar.gz'', ''.tgz'', ''.tzst'', ''.tar'', ''.zip'']"

definition defaultExtractDestination :: "host \<Rightarrow> jsstring \<Rightarrow> jsstring" where
  "defaultExtractDestination h path =
     (case find (\<lambda>suffix. ends_with suffix (toLowerCase h path)) EXTRACT_SUFFIXES of
        Some suffix \<Rightarrow> take (length path - length suffix) path
      | None \<Rightarrow> path @ lit ''.extracted'')"

datatype confirmation = ConfirmMove jsstring bool | ConfirmArchive jsstring | ConfirmExtract jsstring bool
  | ConfirmNewFolder jsstring | ConfirmDelete bool

text \<open>
  What a dialog hands to its \<^verbatim>\<open>onConfirm\<close>, from what was typed and ticked; the form's \<^verbatim>\<open>onSubmit\<close> is the Enter key. The button
  of the extract dialog is disabled without a destination, its form is not.
\<close>

definition MoveModal :: "jsstring \<Rightarrow> jsstring \<Rightarrow> bool \<Rightarrow> confirmation option" where
  "MoveModal path destination overwrite =
     (let unchanged = (trim destination = [] \<or> destination = path)
      in if unchanged then None else Some (ConfirmMove destination overwrite))"

definition ExtractModal_button :: "jsstring \<Rightarrow> bool \<Rightarrow> confirmation option" where
  "ExtractModal_button destination overwrite =
     (if trim destination = [] then None else Some (ConfirmExtract destination overwrite))"

definition ExtractModal_submit :: "jsstring \<Rightarrow> bool \<Rightarrow> confirmation option" where
  "ExtractModal_submit destination overwrite = Some (ConfirmExtract destination overwrite)"

definition NewFolderModal :: "jsstring \<Rightarrow> confirmation option" where
  "NewFolderModal name =
     (let invalid = (trim name = [] \<or> 47 \<in> set name) in if invalid then None else Some (ConfirmNewFolder (trim name)))"

definition DeleteModal :: "entry_info option \<Rightarrow> bool \<Rightarrow> confirmation option" where
  "DeleteModal entry ticked =
     (let isDirectory = (case entry of None \<Rightarrow> False | Some e \<Rightarrow> en_type e = DIRECTORY)
      in Some (ConfirmDelete (isDirectory \<and> ticked)))"

text \<open>The typed text and the tick of the open dialog, as the tab's \<^verbatim>\<open>onConfirm\<close> gets them. The archive dialog has a format.\<close>

fun submit :: "dialog \<Rightarrow> jsstring \<Rightarrow> bool \<Rightarrow> confirmation option" where
  "submit (MoveDialog path) typed ticked = MoveModal path typed ticked"
| "submit (ArchiveDialog path) typed ticked = Some (ConfirmArchive typed)"
| "submit (ExtractDialog path) typed ticked = ExtractModal_submit typed ticked"
| "submit (NewFolderDialog directory) typed ticked = NewFolderModal typed"
| "submit (DeleteDialog path entry) typed ticked = DeleteModal entry ticked"
| "submit _ typed ticked = None"

fun confirm :: "dialog \<Rightarrow> confirmation \<Rightarrow> browser \<Rightarrow> browser" where
  "confirm (MoveDialog path) (ConfirmMove destination overwrite) s = doMove path destination overwrite s"
| "confirm (ArchiveDialog path) (ConfirmArchive formatId) s = startArchive path formatId s"
| "confirm (ExtractDialog path) (ConfirmExtract destination overwrite) s =
     run_action path (ExtractInto (br_target s) path destination overwrite) [parentPath destination, parentPath path] s"
| "confirm (NewFolderDialog directory) (ConfirmNewFolder name) s =
     run_action directory (CreateDirectory (br_target s) (joinPath directory name)) [directory] s"
| "confirm (DeleteDialog path entry) (ConfirmDelete recursive) s =
     run_action path (DeleteEntry (br_target s) path recursive) [parentPath path] s"
| "confirm _ _ s = s"

definition submit_dialog :: "jsstring \<Rightarrow> bool \<Rightarrow> browser \<Rightarrow> browser" where
  "submit_dialog typed ticked s =
     (case br_dialog s of
        None \<Rightarrow> s
      | Some d \<Rightarrow> (case submit d typed ticked of None \<Rightarrow> s | Some c \<Rightarrow> confirm d c (s\<lparr>br_dialog := None\<rparr>)))"

section \<open>Runs of the tab\<close>

datatype browser_event = Show browse_target jsstring | ConfigLoaded plugin_config | Toggle jsstring | Select jsstring
  | RightClick jsstring "entry_info option" | Choose menu_action | CloseMenu | Submit jsstring bool | CloseDialog
  | PickFiles "jsstring list" | DropFiles jsstring "jsstring list" | DropMove jsstring jsstring
  | UploadButton | RefreshButton "jsstring list" | CloseError | CloseNotice
  | Listed nat listing "entry_info list" bool | ListFailed nat listing jsstring
  | ActionDone nat action_run answer | ActionFailed nat action_run jsstring | Progress nat "nat option"

text \<open>
  Events come from calls in flight, from the menu that is open, and from rows: the root row has no entry, every other row
  has one (\<^verbatim>\<open>FileTree.tsx\<close>), and the root cannot be dragged.
\<close>

fun browser_enabled :: "host \<Rightarrow> browser_event \<Rightarrow> browser \<Rightarrow> bool" where
  "browser_enabled h (Listed i l entries t) s = ((i, l) \<in> set (br_listings s))"
| "browser_enabled h (ListFailed i l m) s = ((i, l) \<in> set (br_listings s))"
| "browser_enabled h (ActionDone i r a) s = ((i, r) \<in> set (br_runs s))"
| "browser_enabled h (ActionFailed i r m) s = ((i, r) \<in> set (br_runs s))"
| "browser_enabled h (Choose a) s =
     (case br_contextMenu s of
        None \<Rightarrow> False
      | Some (path, entry) \<Rightarrow> a \<in> set (menu_actions h (cf_defaultArchiveFormat (br_config s)) path entry))"
| "browser_enabled h (RightClick path entry) s = (path = [47] \<longleftrightarrow> entry = None)"
| "browser_enabled h (DropMove source directory) s = (source \<noteq> [47])"
| "browser_enabled h (DropFiles directory names) s = (names \<noteq> [])"
| "browser_enabled h (RefreshButton paths) s = (distinct paths \<and> set paths = dom (br_dirs s))"
| "browser_enabled h _ s = True"

fun browser_apply :: "browser_event \<Rightarrow> browser \<Rightarrow> browser" where
  "browser_apply (Show target home) s = show_target target home s"
| "browser_apply (ConfigLoaded config) s = s\<lparr>br_config := config\<rparr>"
| "browser_apply (Toggle path) s = onToggle path s"
| "browser_apply (Select path) s = s\<lparr>br_selected := Some path\<rparr>"
| "browser_apply (RightClick path entry) s = s\<lparr>br_selected := Some path, br_contextMenu := Some (path, entry)\<rparr>"
| "browser_apply (Choose a) s = choose_action a s"
| "browser_apply CloseMenu s = s\<lparr>br_contextMenu := None\<rparr>"
| "browser_apply (Submit typed ticked) s = submit_dialog typed ticked s"
| "browser_apply CloseDialog s = s\<lparr>br_dialog := None\<rparr>"
| "browser_apply (PickFiles names) s = pick_files names s"
| "browser_apply (DropFiles directory names) s = doUpload directory names s"
| "browser_apply (DropMove source directory) s = onDropMove source directory s"
| "browser_apply UploadButton s = upload_button s"
| "browser_apply (RefreshButton paths) s = refresh_button paths s"
| "browser_apply CloseError s = s\<lparr>br_error := None\<rparr>"
| "browser_apply CloseNotice s = s\<lparr>br_notice := None\<rparr>"
| "browser_apply (Listed i l entries t) s = listing_arrives i l entries t s"
| "browser_apply (ListFailed i l m) s = listing_fails i l m s"
| "browser_apply (ActionDone i r a) s = run_succeeds i r a s"
| "browser_apply (ActionFailed i r m) s = run_fails i r m s"
| "browser_apply (Progress d t) s = progress d t s"

text \<open>
  The reachable states; with \<open>quiet\<close> only those in which another target is shown when no call for the old one is in flight.
\<close>

definition may_follow :: "host \<Rightarrow> bool \<Rightarrow> browser_event \<Rightarrow> browser \<Rightarrow> bool" where
  "may_follow h quiet e s =
     (browser_enabled h e s \<and>
      (case e of Show target home \<Rightarrow> quiet \<and> target \<noteq> br_target s \<longrightarrow> br_listings s = [] \<and> br_runs s = [] | _ \<Rightarrow> True))"

inductive browser_reach :: "host \<Rightarrow> bool \<Rightarrow> browser \<Rightarrow> bool" for h :: host and quiet :: bool where
  mount: "browser_reach h quiet (mount_browser target home)"
| step: "browser_reach h quiet s \<Longrightarrow> may_follow h quiet e s \<Longrightarrow> browser_reach h quiet (browser_apply e s)"

interpretation browsing: event_system "\<lambda>s. \<exists>target home. s = mount_browser target home" "may_follow h quiet" browser_apply
    "browser_reach h quiet" for h quiet
  by (unfold_locales, auto intro: browser_reach.intros) (erule browser_reach.induct, auto)

section \<open>Spinners\<close>

definition calls_inv :: "browser \<Rightarrow> bool" where
  "calls_inv s \<longleftrightarrow>
     distinct (map fst (br_listings s)) \<and> distinct (map fst (br_runs s)) \<and>
     fst ` (set (br_listings s)) \<union> fst ` (set (br_runs s)) \<subseteq> {..< br_next s}"

definition spin_inv :: "browser \<Rightarrow> bool" where
  "spin_inv s \<longleftrightarrow>
     (\<forall>p d. br_dirs s p = Some d \<and> ds_loading d \<longrightarrow> p \<in> (ls_path \<circ> snd) ` set (br_listings s)) \<and>
     br_busy s \<subseteq> (ar_path \<circ> snd) ` set (br_runs s)"

lemmas browser_ops = markBusy_def set_dir_def drop_listing_def end_run_def run_action_def

lemma loadDirectory_simps [simp]:
  "br_target (loadDirectory t p s) = br_target s" "br_runs (loadDirectory t p s) = br_runs s"
  "br_busy (loadDirectory t p s) = br_busy s" "br_next (loadDirectory t p s) = Suc (br_next s)"
  "br_listings (loadDirectory t p s) = br_listings s @ [(br_next s, \<lparr>ls_target = t, ls_path = p\<rparr>)]"
  "br_expanded (loadDirectory t p s) = br_expanded s" "br_home (loadDirectory t p s) = br_home s"
  by (simp_all add: loadDirectory_def set_dir_def Let_def)

lemma loadDirectory_dirs: "br_dirs (loadDirectory t p s) q =
    (if q = p then Some \<lparr>ds_entries = (case br_dirs s p of None \<Rightarrow> [] | Some d \<Rightarrow> ds_entries d), ds_truncated = False, ds_loading = True,
       ds_error = None, ds_origin = (case br_dirs s p of None \<Rightarrow> None | Some d \<Rightarrow> ds_origin d)\<rparr>
     else br_dirs s q)"
  by (simp add: loadDirectory_def set_dir_def Let_def)

lemma loadDirectory_inv: "calls_inv s \<and> spin_inv s \<Longrightarrow> calls_inv (loadDirectory t p s) \<and> spin_inv (loadDirectory t p s)"
  by (auto simp: calls_inv_def spin_inv_def loadDirectory_dirs split: if_splits)

lemma refresh_inv: "calls_inv s \<and> spin_inv s \<Longrightarrow> calls_inv (refresh t p s) \<and> spin_inv (refresh t p s)"
  by (simp add: refresh_def loadDirectory_inv)

lemma fold_keeps: "(\<And>x s. P s \<Longrightarrow> P (f x s)) \<Longrightarrow> P s \<Longrightarrow> P (fold f xs s)"
  by (induction xs arbitrary: s) auto

lemma fold_refresh_inv: "calls_inv s \<and> spin_inv s \<Longrightarrow> calls_inv (fold (refresh t) ps s) \<and> spin_inv (fold (refresh t) ps s)"
  using fold_keeps [of "\<lambda>s. calls_inv s \<and> spin_inv s" "refresh t"] refresh_inv by blast

lemma open_target_inv:
  assumes "calls_inv s \<and> spin_inv s"
  shows "calls_inv (open_target t h s) \<and> spin_inv (open_target t h s)"
proof -
  let ?s1 = "s\<lparr>br_target := t, br_home := h, br_dirs := Map.empty, br_expanded := set (ancestorPaths h),
      br_selected := (if h = [47] then None else Some h), br_error := None, br_notice := None\<rparr>"
  have "calls_inv ?s1 \<and> spin_inv ?s1" using assms by (simp add: calls_inv_def spin_inv_def)
  then have "calls_inv (fold (loadDirectory t) ps ?s1) \<and> spin_inv (fold (loadDirectory t) ps ?s1)" for ps
    using fold_keeps [of "\<lambda>s. calls_inv s \<and> spin_inv s" "loadDirectory t"] loadDirectory_inv by blast
  with \<open>calls_inv ?s1 \<and> spin_inv ?s1\<close> show ?thesis by (simp add: open_target_def Let_def)
qed

lemma answered_calls:
  assumes "calls_inv s \<and> spin_inv s" "(i, l) \<in> set (br_listings s)" "\<not> ds_loading d"
  shows "calls_inv (set_dir (ls_path l) d (drop_listing i s)) \<and> spin_inv (set_dir (ls_path l) d (drop_listing i s))"
proof -
  have uniq: "x = (i, l)" if "x \<in> set (br_listings s)" "fst x = i" for x
    using assms(1,2) that unfolding calls_inv_def by (metis eq_key_imp_eq_value prod.collapse)
  have "p \<in> (ls_path \<circ> snd) ` set (filter (\<lambda>x. fst x \<noteq> i) (br_listings s))"
    if "p \<in> (ls_path \<circ> snd) ` set (br_listings s)" "p \<noteq> ls_path l" for p
    using that uniq by fastforce
  with assms show ?thesis
    by (auto simp: calls_inv_def spin_inv_def browser_ops distinct_map_filter split: if_splits)
qed

lemma end_run_simps:
  "br_busy (end_run i r s) = br_busy s - {ar_path r}" "br_runs (end_run i r s) = filter (\<lambda>x. fst x \<noteq> i) (br_runs s)"
  "br_listings (end_run i r s) = br_listings s" "br_dirs (end_run i r s) = br_dirs s" "br_next (end_run i r s) = br_next s"
  "br_target (end_run i r s) = br_target s"
  by (simp_all add: end_run_def markBusy_def)

lemma end_run_inv:
  assumes "calls_inv s \<and> spin_inv s" "(i, r) \<in> set (br_runs s)"
  shows "calls_inv (end_run i r s) \<and> spin_inv (end_run i r s)"
proof -
  have uniq: "x = (i, r)" if "x \<in> set (br_runs s)" "fst x = i" for x
    using assms that unfolding calls_inv_def by (metis eq_key_imp_eq_value prod.collapse)
  have others: "p \<in> (ar_path \<circ> snd) ` set (filter (\<lambda>x. fst x \<noteq> i) (br_runs s))"
    if "p \<in> (ar_path \<circ> snd) ` set (br_runs s)" "p \<noteq> ar_path r" for p
    using that uniq by fastforce
  have "br_busy s - {ar_path r} \<subseteq> (ar_path \<circ> snd) ` set (filter (\<lambda>x. fst x \<noteq> i) (br_runs s))"
    using assms(1) others unfolding spin_inv_def by blast
  then have "spin_inv (end_run i r s)" using assms(1) unfolding spin_inv_def end_run_simps by blast
  moreover have "calls_inv (end_run i r s)" using assms(1) by (auto simp: calls_inv_def end_run_simps distinct_map_filter)
  ultimately show ?thesis by blast
qed

lemma run_action_inv: "calls_inv s \<and> spin_inv s \<Longrightarrow> calls_inv (run_action p c ps s) \<and> spin_inv (run_action p c ps s)"
  by (auto simp: calls_inv_def spin_inv_def browser_ops)

lemma fold_refresh_runs: "br_runs (fold (refresh t) ps s) = br_runs s"
  by (induction ps arbitrary: s) (simp_all add: refresh_def)

lemma run_succeeds_inv:
  assumes "calls_inv s \<and> spin_inv s" "(i, r) \<in> set (br_runs s)"
  shows "calls_inv (run_succeeds i r m s) \<and> spin_inv (run_succeeds i r m s)"
proof -
  let ?s1 = "action_result (ar_call r) m s"
  have "calls_inv ?s1 \<and> spin_inv ?s1" using assms(1) by (simp add: calls_inv_def spin_inv_def action_result_def)
  then have "calls_inv (fold (refresh (ar_target r)) (ar_refresh r) ?s1) \<and> spin_inv (fold (refresh (ar_target r)) (ar_refresh r) ?s1)"
    by (rule fold_refresh_inv)
  moreover have "(i, r) \<in> set (br_runs (fold (refresh (ar_target r)) (ar_refresh r) ?s1))"
    using assms(2) by (simp add: fold_refresh_runs action_result_def)
  ultimately show ?thesis unfolding run_succeeds_def by (rule end_run_inv)
qed

text \<open>
  What the user does is a change of what is shown, an action, or a listing: \<open>P\<close> is kept by the tab's handlers if it is kept
  by these.
\<close>

lemma handlers_keep:
  assumes P: "P s"
    and upd: "\<And>s m. P s \<Longrightarrow> P (s\<lparr>br_contextMenu := m\<rparr>)" "\<And>s d. P s \<Longrightarrow> P (s\<lparr>br_dialog := d\<rparr>)"
      "\<And>s d. P s \<Longrightarrow> P (s\<lparr>br_uploadDirectory := d\<rparr>)"
    and run: "\<And>s p c ps. P s \<Longrightarrow> P (run_action p c ps s)" and list: "\<And>s p. P s \<Longrightarrow> P (loadDirectory (br_target s) p s)"
  shows "P (choose_action a s)" "P (submit_dialog typed ticked s)" "P (pick_files names s)" "P (onDropMove source directory s)"
proof -
  have "P (select_action a p e s)" if "P s" for a p e s
    using that by (cases a) (simp_all add: upd run list startArchive_def refresh_def)
  then show "P (choose_action a s)" using P upd(1) by (simp add: choose_action_def split: option.split)
  have "P (confirm d c s)" if "P s" for d c s
    using that by (cases d; cases c) (simp_all add: run doMove_def startArchive_def)
  then show "P (submit_dialog typed ticked s)" using P upd(2) by (simp add: submit_dialog_def split: option.split)
  show "P (pick_files names s)" using P run by (simp add: pick_files_def doUpload_def)
  show "P (onDropMove source directory s)" using P run by (simp add: onDropMove_def doMove_def Let_def)
qed

lemma onToggle_inv: "calls_inv s \<and> spin_inv s \<Longrightarrow> calls_inv (onToggle p s) \<and> spin_inv (onToggle p s)"
  using loadDirectory_inv [of "s\<lparr>br_expanded := insert p (br_expanded s)\<rparr>" "br_target s" p]
  by (simp add: onToggle_def Let_def calls_inv_def spin_inv_def)

lemma handlers_inv:
  assumes "calls_inv s \<and> spin_inv s"
  shows "calls_inv (choose_action a s) \<and> spin_inv (choose_action a s)"
    "calls_inv (submit_dialog typed ticked s) \<and> spin_inv (submit_dialog typed ticked s)"
    "calls_inv (pick_files names s) \<and> spin_inv (pick_files names s)"
    "calls_inv (onDropMove source directory s) \<and> spin_inv (onDropMove source directory s)"
  by (rule handlers_keep [of "\<lambda>s. calls_inv s \<and> spin_inv s", OF assms];
      use loadDirectory_inv run_action_inv in \<open>simp add: calls_inv_def spin_inv_def\<close>)+

lemma browser_apply_inv:
  assumes "calls_inv s \<and> spin_inv s" "browser_enabled h e s"
  shows "calls_inv (browser_apply e s) \<and> spin_inv (browser_apply e s)"
proof (cases e)
  case (Show t h)
  then show ?thesis using assms open_target_inv by (simp add: show_target_def)
next
  case (ActionFailed i r m)
  have "calls_inv (s\<lparr>br_error := Some m\<rparr>) \<and> spin_inv (s\<lparr>br_error := Some m\<rparr>)" using assms(1) by (simp add: calls_inv_def spin_inv_def)
  then show ?thesis using ActionFailed assms(2) end_run_inv by (simp add: run_fails_def)
next
  case (Listed i l es t)
  then show ?thesis using assms answered_calls by (simp add: listing_arrives_def)
next
  case (ListFailed i l m)
  then show ?thesis using assms answered_calls by (simp add: listing_fails_def)
next
  case (ActionDone i r m)
  then show ?thesis using assms run_succeeds_inv by simp
next
  case (Choose a)
  then show ?thesis using assms(1) handlers_inv by simp
next
  case (Submit typed ticked)
  then show ?thesis using assms(1) handlers_inv by simp
next
  case (PickFiles names)
  then show ?thesis using assms(1) handlers_inv by simp
next
  case (DropMove source directory)
  then show ?thesis using assms(1) handlers_inv by simp
next
  case (RefreshButton paths)
  then show ?thesis using fold_refresh_inv [OF assms(1)] by (simp add: refresh_button_def)
qed (use assms(1) onToggle_inv run_action_inv in \<open>simp_all add: doUpload_def upload_button_def progress_def calls_inv_def spin_inv_def\<close>)

lemma mount_inv_browser: "calls_inv (mount_browser t h) \<and> spin_inv (mount_browser t h)"
  unfolding mount_browser_def by (rule open_target_inv) (simp add: calls_inv_def spin_inv_def)

lemma browser_reach_inv: "browser_reach h quiet s \<Longrightarrow> calls_inv s \<and> spin_inv s"
  by (erule browsing.always) (use mount_inv_browser browser_apply_inv in \<open>auto simp: may_follow_def\<close>)

section \<open>Whose files are shown\<close>

definition own_inv :: "browser \<Rightarrow> bool" where
  "own_inv s \<longleftrightarrow>
     (\<forall>l \<in> snd ` set (br_listings s). ls_target l = br_target s) \<and> (\<forall>r \<in> snd ` set (br_runs s). ar_target r = br_target s) \<and>
     (\<forall>p d. br_dirs s p = Some d \<longrightarrow> ds_origin d = None \<or> ds_origin d = Some (br_target s))"

lemma loadDirectory_own: "t = br_target s \<Longrightarrow> own_inv s \<Longrightarrow> own_inv (loadDirectory t p s)"
  by (auto simp: own_inv_def loadDirectory_dirs split: option.splits)

lemma fold_own:
  assumes "\<And>x s. t = br_target s \<Longrightarrow> own_inv s \<Longrightarrow> own_inv (f x s) \<and> br_target (f x s) = t" "t = br_target s" "own_inv s"
  shows "own_inv (fold f xs s) \<and> br_target (fold f xs s) = t"
  using fold_keeps [of "\<lambda>s. t = br_target s \<and> own_inv s" f s xs] assms by metis

lemma open_target_own:
  assumes "\<forall>l \<in> snd ` set (br_listings s). ls_target l = t" "\<forall>r \<in> snd ` set (br_runs s). ar_target r = t"
  shows "own_inv (open_target t h s)"
proof -
  let ?s1 = "s\<lparr>br_target := t, br_home := h, br_dirs := Map.empty, br_expanded := set (ancestorPaths h),
      br_selected := (if h = [47] then None else Some h), br_error := None, br_notice := None\<rparr>"
  have "own_inv ?s1" using assms by (simp add: own_inv_def)
  moreover from this have "own_inv (fold (loadDirectory t) ps ?s1)" for ps
    using fold_own [of t "loadDirectory t" ?s1 ps] loadDirectory_own by simp
  ultimately show ?thesis by (simp add: open_target_def Let_def)
qed

lemma refresh_own: "t = br_target s \<Longrightarrow> own_inv s \<Longrightarrow> own_inv (refresh t p s) \<and> br_target (refresh t p s) = t"
  by (simp add: refresh_def loadDirectory_own)

lemma end_run_own: "own_inv s \<Longrightarrow> own_inv (end_run i r s)"
  by (auto simp: own_inv_def end_run_simps)

lemma run_succeeds_own:
  assumes "own_inv s" "(i, r) \<in> set (br_runs s)"
  shows "own_inv (run_succeeds i r m s)"
proof -
  have t: "ar_target r = br_target s" using assms by (force simp: own_inv_def)
  let ?s1 = "action_result (ar_call r) m s"
  have "own_inv ?s1" "br_target ?s1 = ar_target r" using assms(1) t by (simp_all add: own_inv_def action_result_def)
  then have "own_inv (fold (refresh (ar_target r)) (ar_refresh r) ?s1) \<and>
      br_target (fold (refresh (ar_target r)) (ar_refresh r) ?s1) = ar_target r"
    by (intro fold_own refresh_own) (simp_all only:)
  then show ?thesis unfolding run_succeeds_def by (intro end_run_own) (rule conjunct1)
qed

lemma run_action_own: "own_inv s \<Longrightarrow> own_inv (run_action p c ps s)"
  by (auto simp: own_inv_def browser_ops)

lemma own_updates [simp]:
  "own_inv (s\<lparr>br_contextMenu := m\<rparr>) = own_inv s" "own_inv (s\<lparr>br_dialog := d\<rparr>) = own_inv s"
  "own_inv (s\<lparr>br_uploadDirectory := p\<rparr>) = own_inv s" "own_inv (s\<lparr>br_selected := x\<rparr>) = own_inv s"
  "own_inv (s\<lparr>br_config := f\<rparr>) = own_inv s" "own_inv (s\<lparr>br_transfer := y\<rparr>) = own_inv s"
  "own_inv (s\<lparr>br_error := m'\<rparr>) = own_inv s" "own_inv (s\<lparr>br_notice := n\<rparr>) = own_inv s"
  by (simp_all add: own_inv_def)

lemma handlers_own:
  assumes "own_inv s"
  shows "own_inv (choose_action a s)" "own_inv (submit_dialog typed ticked s)" "own_inv (pick_files names s)"
    "own_inv (onDropMove source directory s)"
  by (rule handlers_keep [of own_inv, OF assms]; simp add: loadDirectory_own run_action_own)+

lemma browser_apply_own:
  assumes "own_inv s" "may_follow h True e s"
  shows "own_inv (browser_apply e s)"
proof (cases e)
  case (Show t h)
  have "br_target s = t \<or> br_listings s = [] \<and> br_runs s = []" using assms(2) Show by (auto simp: may_follow_def)
  then have "\<forall>l \<in> snd ` set (br_listings s). ls_target l = t" "\<forall>r \<in> snd ` set (br_runs s). ar_target r = t"
    using assms(1) by (auto simp: own_inv_def)
  then show ?thesis using Show assms(1) open_target_own by (simp add: show_target_def)
next
  case (Toggle p)
  have "own_inv (s\<lparr>br_expanded := x\<rparr>)" for x using assms(1) by (simp add: own_inv_def)
  then show ?thesis
    using Toggle loadDirectory_own [of "br_target s" "s\<lparr>br_expanded := insert p (br_expanded s)\<rparr>" p]
    by (simp add: onToggle_def Let_def)
next
  case (Listed i l es t)
  then have "ls_target l = br_target s" using assms by (force simp: own_inv_def may_follow_def)
  then show ?thesis using Listed assms(1) by (auto simp: own_inv_def listing_arrives_def browser_ops split: if_splits)
next
  case (ListFailed i l m)
  then show ?thesis using assms(1) by (auto simp: own_inv_def listing_fails_def browser_ops split: if_splits)
next
  case (ActionFailed i r m)
  have "own_inv (s\<lparr>br_error := Some m\<rparr>)" using assms(1) by (simp add: own_inv_def)
  then show ?thesis using ActionFailed end_run_own by (simp add: run_fails_def)
next
  case (ActionDone i r m)
  then show ?thesis using assms run_succeeds_own by (simp add: may_follow_def)
next
  case (RefreshButton paths)
  have "own_inv (fold (refresh (br_target s)) paths s) \<and> br_target (fold (refresh (br_target s)) paths s) = br_target s"
    using assms(1) by (intro fold_own refresh_own) (simp_all only:)
  with RefreshButton show ?thesis by (simp add: refresh_button_def)
qed (use assms(1) in \<open>simp_all add: handlers_own run_action_own doUpload_def upload_button_def progress_def\<close>)

lemma browser_reach_own: "browser_reach h True s \<Longrightarrow> own_inv s"
proof (erule browsing.always)
  show "own_inv s" if "\<exists>target home. s = mount_browser target home" for s
    using that unfolding mount_browser_def by (auto intro!: open_target_own)
qed (rule browser_apply_own)

section \<open>What the tab asks of the agent\<close>

fun call_target :: "agent_call \<Rightarrow> browse_target" where
  "call_target (Move t source destination overwrite) = t"
| "call_target (CreateDirectory t path) = t"
| "call_target (DeleteEntry t path recursive) = t"
| "call_target (ExtractInto t path destination overwrite) = t"
| "call_target (Stat t path) = t"
| "call_target (ReadFile t path limit) = t"
| "call_target (ArchiveOf t path format) = t"
| "call_target (UploadFiles t directory names chunk) = t"

text \<open>
  What a request for an action may be, of the event that sends it and of what is on the screen then: a move or a deletion is
  never of the root, a move changes the path, and its source is what the dialog was opened for or what was dragged, then
  without overwriting; what is deleted with all below it is a directory; a new folder is one name, not empty and without a
  slash, in the very directory the dialog was opened for; only files are read; files are uploaded to the directory they were
  dropped on or picked for, which may be the root.
\<close>

fun permitted :: "browser_event \<Rightarrow> browser \<Rightarrow> agent_call \<Rightarrow> bool" where
  "permitted e s (Move t source destination overwrite) =
     (source \<noteq> [47] \<and> destination \<noteq> source \<and>
      (br_dialog s = Some (MoveDialog source) \<or>
       \<not> overwrite \<and> (\<exists>directory. e = DropMove source directory \<and> destination = joinPath directory (baseName source))))"
| "permitted e s (DeleteEntry t path recursive) =
     (path \<noteq> [47] \<and> (\<exists>entry. br_dialog s = Some (DeleteDialog path (Some entry)) \<and> (recursive \<longrightarrow> en_type entry = DIRECTORY)))"
| "permitted e s (CreateDirectory t path) =
     (\<exists>directory name. br_dialog s = Some (NewFolderDialog directory) \<and> path = joinPath directory name \<and> name \<noteq> [] \<and> 47 \<notin> set name)"
| "permitted e s (ExtractInto t path destination overwrite) = (path \<noteq> [47] \<and> br_dialog s = Some (ExtractDialog path))"
| "permitted e s (Stat t path) = (path \<noteq> [47] \<and> map_option fst (br_contextMenu s) = Some path)"
| "permitted e s (ReadFile t path limit) =
     (path \<noteq> [47] \<and> (\<exists>entry. br_contextMenu s = Some (path, Some entry) \<and> en_type entry = FILE))"
| "permitted e s (ArchiveOf t path format) =
     (br_dialog s = Some (ArchiveDialog path) \<or> (\<exists>entry. br_contextMenu s = Some (path, entry) \<and> is_dir path entry))"
| "permitted e s (UploadFiles t directory names chunk) =
     (names \<noteq> [] \<and> (e = DropFiles directory names \<or> e = PickFiles names \<and> directory = br_uploadDirectory s))"

text \<open>The root has no entry, and is not what the dialogs that change an entry are about.\<close>

definition dialog_inv :: "dialog option \<Rightarrow> bool" where
  "dialog_inv d =
     (case d of
        Some (MoveDialog p) \<Rightarrow> p \<noteq> [47]
      | Some (ExtractDialog p) \<Rightarrow> p \<noteq> [47]
      | Some (DeleteDialog p e) \<Rightarrow> p \<noteq> [47] \<and> e \<noteq> None
      | _ \<Rightarrow> True)"

definition menu_inv :: "browser \<Rightarrow> bool" where
  "menu_inv s \<longleftrightarrow> dialog_inv (br_dialog s) \<and> (\<forall>p e. br_contextMenu s = Some (p, e) \<longrightarrow> (p = [47] \<longleftrightarrow> e = None))"

lemma loadDirectory_dialog [simp]: "br_dialog (loadDirectory t p s) = br_dialog s" "br_calls (loadDirectory t p s) = br_calls s"
  "br_contextMenu (loadDirectory t p s) = br_contextMenu s"
  by (simp_all add: loadDirectory_def set_dir_def Let_def)

lemma fold_loads [simp]: "br_dialog (fold (loadDirectory t) ps s) = br_dialog s" "br_calls (fold (loadDirectory t) ps s) = br_calls s"
    "br_contextMenu (fold (loadDirectory t) ps s) = br_contextMenu s" "br_target (fold (loadDirectory t) ps s) = br_target s"
    "br_dialog (fold (refresh t) ps s) = br_dialog s" "br_calls (fold (refresh t) ps s) = br_calls s"
    "br_contextMenu (fold (refresh t) ps s) = br_contextMenu s" "br_target (fold (refresh t) ps s) = br_target s"
  by (induction ps arbitrary: s) (simp_all add: refresh_def)

lemma run_action_calls [simp]: "br_dialog (run_action p c ps s) = br_dialog s" "br_calls (run_action p c ps s) = br_calls s @ [c]"
  "br_contextMenu (run_action p c ps s) = br_contextMenu s" "br_listings (run_action p c ps s) = br_listings s"
  "br_target (run_action p c ps s) = br_target s"
  by (simp_all add: browser_ops)

lemma dialog_of_harmless: "dialog_of c a = Some d \<Longrightarrow> dialog_inv (Some d)"
  by (cases "(c, a)" rule: dialog_of.cases) (auto simp: dialog_inv_def)

lemmas tab_handlers = show_target_def open_target_def onToggle_def listing_arrives_def listing_fails_def run_succeeds_def
  run_fails_def end_run_def progress_def set_dir_def drop_listing_def markBusy_def action_result_def pick_files_def doUpload_def
  onDropMove_def doMove_def startArchive_def refresh_def upload_button_def refresh_button_def Let_def

lemma root_menu: "menu \<in> {MoveTo, Delete, Info, Extract, View, Download} \<Longrightarrow> menu \<in> set (menu_actions h f p e) \<Longrightarrow> p \<noteq> [47]"
  by (auto simp: menu_actions_def is_dir_def Let_def split: if_splits)

lemma menu_step: "menu_inv s \<Longrightarrow> browser_enabled h e s \<Longrightarrow> menu_inv (browser_apply e s)"
proof (cases e)
  case (Choose a)
  assume inv: "menu_inv s" and on: "browser_enabled h e s"
  then obtain p en where "br_contextMenu s = Some (p, en)" "a \<in> set (menu_actions h (cf_defaultArchiveFormat (br_config s)) p en)"
    using Choose by (auto split: option.splits)
  with inv Choose show ?thesis
    using root_menu [of a h "cf_defaultArchiveFormat (br_config s)" p en]
    by (cases a) (auto simp: choose_action_def menu_inv_def dialog_inv_def startArchive_def refresh_def)
next
  case (Submit typed ticked)
  assume "menu_inv s"
  then have "menu_inv (confirm d c (s\<lparr>br_dialog := None\<rparr>))" for d c
    by (cases d; cases c) (simp_all add: menu_inv_def dialog_inv_def doMove_def startArchive_def)
  with \<open>menu_inv s\<close> Submit show ?thesis by (simp add: submit_dialog_def split: option.split)
next
  case (ActionDone i r a)
  assume "menu_inv s"
  with ActionDone show ?thesis
    by (auto simp: tab_handlers menu_inv_def dialog_of_harmless split: option.splits)
next
  case CloseDialog
  assume "menu_inv s"
  with CloseDialog show ?thesis by (simp add: menu_inv_def dialog_inv_def)
qed (simp_all add: tab_handlers menu_inv_def)

text \<open>The action, if any, that a submitted dialog and a chosen menu entry send.\<close>

definition one_action :: "browser_event \<Rightarrow> browser \<Rightarrow> browser \<Rightarrow> bool" where
  "one_action e s s' \<longleftrightarrow> br_calls s' = br_calls s \<or>
     (\<exists>c. br_calls s' = br_calls s @ [c] \<and> call_target c = br_target s \<and> permitted e s c)"

lemma submit_calls:
  assumes "menu_inv s"
  shows "one_action e s (submit_dialog typed ticked s)"
proof (cases "br_dialog s")
  case (Some d)
  have "47 \<notin> set (trim typed)" if "47 \<notin> set typed" using that set_trim [of typed] by blast
  with Some assms show ?thesis
    by (cases d) (auto simp: one_action_def submit_dialog_def menu_inv_def dialog_inv_def MoveModal_def ExtractModal_submit_def
        NewFolderModal_def DeleteModal_def doMove_def startArchive_def Let_def)
qed (simp add: submit_dialog_def one_action_def)

lemma choose_calls:
  assumes "menu_inv s" "browser_enabled h (Choose a) s"
  shows "one_action e s (choose_action a s)"
proof -
  obtain p en where menu: "br_contextMenu s = Some (p, en)" "a \<in> set (menu_actions h (cf_defaultArchiveFormat (br_config s)) p en)"
    using assms(2) by (auto split: option.splits)
  show ?thesis using menu root_menu [OF _ menu(2)]
    by (cases a) (auto simp: one_action_def choose_action_def tab_handlers menu_actions_def split: option.splits if_splits)
qed

text \<open>Every listing asked for by a run of listings goes to their target.\<close>

definition listed_for :: "browse_target \<Rightarrow> browser \<Rightarrow> browser \<Rightarrow> bool" where
  "listed_for t s s' \<longleftrightarrow> (\<forall>il \<in> set (br_listings s'). il \<in> set (br_listings s) \<or> ls_target (snd il) = t)"

lemma listed_for_load: "listed_for t s s' \<Longrightarrow> listed_for t s (loadDirectory t p s')"
  by (auto simp: listed_for_def)

lemma fold_listings_target:
  "listed_for t s (fold (loadDirectory t) ps s)" "listed_for t s (fold (refresh t) ps s)"
proof -
  have same: "listed_for t s s" by (simp add: listed_for_def)
  show "listed_for t s (fold (loadDirectory t) ps s)"
    by (rule fold_keeps [of "listed_for t s", OF listed_for_load same])
  have "listed_for t s (refresh t p s')" if "listed_for t s s'" for p s'
    using that listed_for_load by (simp add: refresh_def)
  then show "listed_for t s (fold (refresh t) ps s)" using same by (rule fold_keeps [of "listed_for t s"])
qed

lemma browser_reach_menu: "browser_reach h quiet s \<Longrightarrow> menu_inv s"
  by (erule browsing.always) (auto simp: may_follow_def intro: menu_step, simp add: mount_browser_def tab_handlers menu_inv_def dialog_inv_def)

lemma request_actions:
  assumes "menu_inv s" "browser_enabled h e s"
  shows "one_action e s (browser_apply e s)"
proof (cases e)
  case (Choose a)
  then show ?thesis using choose_calls assms by simp
next
  case (Submit typed ticked)
  then show ?thesis using submit_calls assms(1) by simp
qed (use assms(2) in \<open>auto simp: one_action_def tab_handlers\<close>)

lemma request_listings:
  "listed_for (case e of ActionDone i r a \<Rightarrow> ar_target r | _ \<Rightarrow> br_target (browser_apply e s)) s (browser_apply e s)"
proof (cases e)
  case (Choose a)
  then show ?thesis by (cases a) (auto simp: listed_for_def choose_action_def tab_handlers split: option.splits)
next
  case (Submit typed ticked)
  have "br_listings (confirm d c t) = br_listings t" for d c t by (cases d; cases c) (simp_all add: doMove_def startArchive_def)
  with Submit show ?thesis by (simp add: listed_for_def submit_dialog_def split: option.split)
next
  case (Show t h)
  let ?s1 = "s\<lparr>br_target := t, br_home := h, br_dirs := Map.empty, br_expanded := set (ancestorPaths h),
      br_selected := (if h = [47] then None else Some h), br_error := None, br_notice := None\<rparr>"
  have "listed_for t ?s1 (open_target t h s)"
    using fold_listings_target(1) [of t ?s1] by (simp add: open_target_def Let_def) (simp add: listed_for_def)
  moreover have "br_target (open_target t h s) = t" by (simp add: open_target_def Let_def)
  ultimately show ?thesis using Show by (simp add: show_target_def listed_for_def)
next
  case (ActionDone i r a)
  then show ?thesis
    using fold_listings_target(2) [of "ar_target r" "action_result (ar_call r) a s" "ar_refresh r"]
    by (simp add: run_succeeds_def listed_for_def end_run_simps) (simp add: action_result_def)
next
  case (RefreshButton paths)
  then show ?thesis using fold_listings_target(2) by (simp add: refresh_button_def)
qed (auto simp: listed_for_def tab_handlers)

section \<open>Properties\<close>

text \<open>C21: No spinner of the file browser is left behind: whatever is opened, refreshed, moved, uploaded or deleted, and in
  whatever order the calls are answered or fail, a directory shown as loading has a listing in flight and a path shown as
  busy an action; when every call has been answered nothing is loading and nothing is busy.\<close>

theorem browser_spinners:
  assumes "browser_reach h quiet s"
  shows "(br_dirs s p = Some d \<and> ds_loading d \<longrightarrow> (\<exists>i l. (i, l) \<in> set (br_listings s) \<and> ls_path l = p)) \<and>
    (p \<in> br_busy s \<longrightarrow> (\<exists>i r. (i, r) \<in> set (br_runs s) \<and> ar_path r = p)) \<and> (br_runs s = [] \<longrightarrow> br_busy s = {})"
  using browser_reach_inv [OF assms] by (auto simp: spin_inv_def) fastforce+

text \<open>The tree shows the container it names, as long as no call for another is in flight when that one is shown: every
  listing in it was read from the namespace, pod and container now selected.\<close>

theorem listings_of_target:
  assumes "browser_reach h True s" "br_dirs s p = Some d"
  shows "ds_origin d = None \<or> ds_origin d = Some (br_target s)"
  using browser_reach_own [OF assms(1)] assms(2) by (simp add: own_inv_def)

text \<open>C18: Whatever is clicked, typed and dropped, and whatever answers arrive, an event sends at most one action to the agent, and
  the action is for the container shown when it is sent and permitted: a move or a deletion is never of the root, a move
  changes the path and does not overwrite when it is a drop, what is deleted with all below it is a directory, a new folder
  is one name, not empty and without a slash, in the directory its dialog was opened for, and files are uploaded to the
  directory they were dropped on or picked for, which may be the root. The listings an event asks for, of which there can be
  several, are for the container shown after it, except that those at the end of an action are for the container the action
  was for.\<close>

theorem requests_safe:
  assumes "browser_reach h quiet s" "may_follow h quiet e s"
  shows "(br_calls (browser_apply e s) = br_calls s \<or>
     (\<exists>c. br_calls (browser_apply e s) = br_calls s @ [c] \<and> call_target c = br_target s \<and> permitted e s c)) \<and>
   (\<forall>il \<in> set (br_listings (browser_apply e s)). il \<in> set (br_listings s) \<or>
      ls_target (snd il) = (case e of ActionDone i r a \<Rightarrow> ar_target r | _ \<Rightarrow> br_target (browser_apply e s)))"
  using request_actions [OF browser_reach_menu [OF assms(1)], of h e] request_listings [of e s] assms(2)
  unfolding may_follow_def one_action_def listed_for_def by blast

subsection \<open>Moving by drag and drop\<close>

lemma abs_path_inj:
  assumes "list_all segment a" "list_all segment b"
  shows "abs_path a = abs_path b \<longleftrightarrow> a = b"
  using split_segments [OF assms(1)] split_segments [OF assms(2)] strip_abs_path [OF assms(1)] strip_abs_path [OF assms(2)]
  by metis

text \<open>Dropping an entry on a directory moves it there under its own name and without overwriting, and nothing is sent when
  it is dropped where it already is; the two directories it leaves and enters are read again when the move is done.\<close>

theorem drop_moves:
  assumes "list_all segment (from_dir @ [name])" "list_all segment to_dir"
  shows "onDropMove (abs_path (from_dir @ [name])) (abs_path to_dir) s =
    (if to_dir = from_dir then s
     else run_action (abs_path (from_dir @ [name]))
       (Move (br_target s) (abs_path (from_dir @ [name])) (abs_path (to_dir @ [name])) False)
       [abs_path from_dir, abs_path to_dir] s)"
proof -
  have name: "segment name" and dirs: "list_all segment from_dir" "list_all segment to_dir" using assms by simp_all
  have "abs_path (to_dir @ [name]) = abs_path (from_dir @ [name]) \<longleftrightarrow> to_dir = from_dir" "abs_path to_dir = abs_path from_dir \<longleftrightarrow> to_dir = from_dir"
    using abs_path_inj [of "to_dir @ [name]" "from_dir @ [name]"] abs_path_inj [of to_dir from_dir] name dirs by simp_all
  then show ?thesis
    using abs_path_snoc [of name from_dir] abs_path_snoc [of name to_dir] name dirs
    by (auto simp: onDropMove_def doMove_def Let_def)
qed

lemma drop_moves_witness:
  "br_calls (onDropMove (lit ''/a/f'') (lit ''/b'') (mount_browser \<lparr>bt_namespace = [], bt_pod = [], bt_container = []\<rparr> [47])) =
     [Move \<lparr>bt_namespace = [], bt_pod = [], bt_container = []\<rparr> (lit ''/a/f'') (lit ''/b/f'') False]"
  using drop_moves [of "[lit ''a'']" "lit ''f''" "[lit ''b'']" "mount_browser \<lparr>bt_namespace = [], bt_pod = [], bt_container = []\<rparr> [47]"]
  by (simp add: segment_def abs_path_def mount_browser_def open_target_def Let_def)

subsection \<open>Opening at home\<close>

lemma fold_loads_listings:
  "br_listings (fold (loadDirectory t) ps s) =
     br_listings s @ map (\<lambda>k. (br_next s + k, \<lparr>ls_target = t, ls_path = ps ! k\<rparr>)) [0 ..< length ps]"
  "br_expanded (fold (loadDirectory t) ps s) = br_expanded s"
  by (induction ps arbitrary: s) (simp_all add: map_upt_Suc del: upt_Suc)

text \<open>The tab opens where the container's configuration says: the home directory and every directory above it are
  expanded, one listing is asked for each of them, from the root down, of the container shown, and for nothing else.\<close>

theorem home_opens:
  assumes "list_all segment segs" "bt_namespace t \<noteq> []" "bt_pod t \<noteq> []" "bt_container t \<noteq> []"
  shows "br_expanded (mount_browser t (abs_path segs)) = (\<lambda>k. abs_path (take k segs)) ` {.. length segs} \<and>
    map snd (br_listings (mount_browser t (abs_path segs))) =
      map (\<lambda>k. \<lparr>ls_target = t, ls_path = abs_path (take k segs)\<rparr>) [0 ..< Suc (length segs)]"
proof -
  have paths: "ancestorPaths (abs_path segs) = map (\<lambda>k. abs_path (take k segs)) [0 ..< Suc (length segs)]"
    using path_laws [of "lit ''x''" segs] assms(1) by (simp add: segment_def del: upt_Suc)
  have "set (ancestorPaths (abs_path segs)) = (\<lambda>k. abs_path (take k segs)) ` {.. length segs}"
    unfolding paths set_map atLeastLessThan_upt [symmetric] atLeast0LessThan lessThan_Suc_atMost ..
  then show ?thesis
    using assms by (simp add: mount_browser_def open_target_def Let_def fold_loads_listings paths del: upt_Suc)
qed

subsection \<open>Sample runs\<close>

definition browse_sample :: "string \<Rightarrow> browse_target" where
  "browse_sample c = \<lparr>bt_namespace = lit ''ns'', bt_pod = lit ''pod'', bt_container = lit c\<rparr>"

definition sample_entry :: "string \<Rightarrow> entry_info" where
  "sample_entry n = \<lparr>en_name = lit n, en_type = FILE, en_size = 0, en_mode = 420, en_uid = 0, en_gid = 0, en_modifiedUnix = 0,
     en_linkTarget = [], en_targetIsDirectory = False\<rparr>"

definition open_sample :: browser where
  "open_sample = fold browser_apply [RightClick (lit ''/f'') (Some (sample_entry ''f'')), Choose Delete] (mount_browser (browse_sample ''a'') [47])"

lemma ancestors_root: "ancestorPaths [47] = [[47]]"
  by (simp add: ancestorPaths_def strip_slashes_def trim_end_def)

lemmas sample_ops = open_sample_def mount_browser_def ancestors_root tab_handlers may_follow_def choose_action_def loadDirectory_def
  menu_actions_def browse_sample_def sample_entry_def

lemma open_sample_reach: "browser_reach h quiet open_sample"
  unfolding open_sample_def by (rule browsing.reached_run [OF browser_reach.mount]) (simp add: sample_ops)

lemma open_sample_state:
  "br_listings open_sample = [(0, \<lparr>ls_target = browse_sample ''a'', ls_path = [47]\<rparr>)]"
  "br_dirs open_sample [47] = Some \<lparr>ds_entries = [], ds_truncated = False, ds_loading = True, ds_error = None, ds_origin = None\<rparr>"
  "br_dialog open_sample = Some (DeleteDialog (lit ''/f'') (Some (sample_entry ''f'')))" "br_calls open_sample = []"
  "br_target open_sample = browse_sample ''a''"
  by (simp_all add: sample_ops)

lemma browser_spinners_witness:
  "(\<exists>i l. (i, l) \<in> set (br_listings open_sample) \<and> ls_path l = [47]) \<and> br_busy open_sample = {}"
  using browser_spinners [OF open_sample_reach, where p = "[47]"] by (simp add: open_sample_state) (simp add: sample_ops)

lemma listings_of_target_witness:
  "ds_origin (the (br_dirs open_sample [47])) = None \<or>
   ds_origin (the (br_dirs open_sample [47])) = Some (br_target open_sample)"
  using listings_of_target [OF open_sample_reach, where p = "[47]"] by (simp add: open_sample_state)

lemma requests_safe_witness:
  "\<exists>c. br_calls (browser_apply (Submit [] True) open_sample) = [c] \<and> call_target c = browse_sample ''a'' \<and>
     permitted (Submit [] True) open_sample c"
proof -
  have "br_calls (browser_apply (Submit [] True) open_sample) \<noteq> []"
    by (simp add: submit_dialog_def open_sample_state DeleteModal_def)
  then show ?thesis
    using requests_safe [OF open_sample_reach, where e = "Submit [] True", THEN conjunct1] by (simp add: open_sample_state may_follow_def)
qed

lemma home_opens_witness:
  "map snd (br_listings (mount_browser (browse_sample ''a'') (lit ''/srv''))) =
     [\<lparr>ls_target = browse_sample ''a'', ls_path = [47]\<rparr>, \<lparr>ls_target = browse_sample ''a'', ls_path = lit ''/srv''\<rparr>]"
  using home_opens [of "[lit ''srv'']" "browse_sample ''a''"] by (simp add: segment_def abs_path_def browse_sample_def)

text \<open>
  The comment on the effect says that a container switch invalidates every path in the tree. A listing asked for before the
  switch does not know: answered after it, it is written into the tree of the new container and replaces the right one.
\<close>

theorem stale_listing_shown:
  "\<exists>s d. browser_reach h False s \<and> br_target s = browse_sample ''b'' \<and> br_listings s = [] \<and> br_dirs s [47] = Some d \<and>
     ds_origin d = Some (browse_sample ''a'') \<and> ds_entries d = [sample_entry ''secret'']"
proof -
  let ?l = "\<lambda>c. \<lparr>ls_target = browse_sample c, ls_path = [47]\<rparr>"
  let ?es = "[Show (browse_sample ''b'') [47], Listed 1 (?l ''b'') [sample_entry ''own''] False,
    Listed 0 (?l ''a'') [sample_entry ''secret''] False]"
  let ?s = "fold browser_apply ?es (mount_browser (browse_sample ''a'') [47])"
  have "browser_reach h False ?s" by (rule browsing.reached_run [OF browser_reach.mount]) (simp add: sample_ops)
  moreover have "br_target ?s = browse_sample ''b'' \<and> br_listings ?s = [] \<and> br_dirs ?s [47] =
      Some \<lparr>ds_entries = [sample_entry ''secret''], ds_truncated = False, ds_loading = False, ds_error = None,
        ds_origin = Some (browse_sample ''a'')\<rparr>"
    by (simp add: sample_ops)
  ultimately show ?thesis by auto
qed

text \<open>Enter in the extract dialog confirms the empty destination its button refuses, while the other dialogs refuse both ways.\<close>

lemma extract_submit_empty: "ExtractModal_button [] ow = None \<and> ExtractModal_submit [] ow = Some (ConfirmExtract [] ow)"
  by (simp add: ExtractModal_button_def ExtractModal_submit_def)

end
