(* ===== verification/Fs_Tree.thy ===== *)
theory Fs_Tree
  imports Fs_Browser
begin

text \<open>
  What the file browser draws: the icon of an entry (\<^verbatim>\<open>plugins/filesystem/src/pod/fileIcons.tsx\<close>), the rows of the tree, its
  symbolic links and its drag and drop (\<^verbatim>\<open>FileTree.tsx\<close>), the place of the context menu (\<^verbatim>\<open>ContextMenu.tsx\<close>) and what the
  Info and View dialogs show (\<^verbatim>\<open>Dialogs.tsx\<close>).
\<close>

unbundle bit_operations_syntax

section \<open>Icons\<close>

text \<open>\<open>Inherited\<close> is what reading a key of \<^verbatim>\<open>Object.prototype\<close> off the table gives: a value, and not a component.\<close>

datatype icon = FileArchiveIcon | FileImageIcon | FileAudioIcon | FileVideoIcon | FilePdfIcon | FileWordIcon | FileExcelIcon
  | FilePowerpointIcon | FileCsvIcon | FileAltIcon | FileCodeIcon | TerminalIcon | CogIcon | DatabaseIcon | CompactDiscIcon
  | MicrochipIcon | HddIcon | ExchangeAltIcon | StreamIcon | QuestionIcon | PlugIcon | BoltIcon | FileIcon | FolderIcon
  | FolderOpenIcon | Inherited jsstring

definition with_icon :: "icon \<Rightarrow> string list \<Rightarrow> (jsstring \<times> icon) list" where
  "with_icon i extensions = map (\<lambda>e. (lit e, i)) extensions"

definition EXTENSION_ICONS :: "(jsstring \<times> icon) list" where
  "EXTENSION_ICONS =
     with_icon FileArchiveIcon [''tar'', ''gz'', ''tgz'', ''tbz2'', ''zip'', ''bz2'', ''xz'', ''zst'', ''zstd'', ''7z'',
       ''rar''] @
     with_icon FileImageIcon [''png'', ''jpg'', ''jpeg'', ''gif'', ''svg'', ''bmp'', ''webp'', ''ico'', ''tiff''] @
     with_icon FileAudioIcon [''mp3'', ''wav'', ''flac'', ''ogg'', ''m4a''] @
     with_icon FileVideoIcon [''mp4'', ''mkv'', ''mov'', ''avi'', ''webm''] @
     with_icon FilePdfIcon [''pdf''] @
     with_icon FileWordIcon [''doc'', ''docx''] @
     with_icon FileExcelIcon [''xls'', ''xlsx''] @
     with_icon FilePowerpointIcon [''ppt'', ''pptx''] @
     with_icon FileCsvIcon [''csv'', ''tsv''] @
     with_icon FileAltIcon [''txt'', ''md'', ''log''] @
     with_icon FileCodeIcon [''go'', ''py'', ''rb'', ''rs'', ''java'', ''c'', ''h'', ''cpp'', ''hpp'', ''php'', ''js'', ''jsx'',
       ''ts'', ''tsx'', ''html'', ''css'', ''scss'', ''json'', ''yaml'', ''yml'', ''xml'', ''toml''] @
     with_icon TerminalIcon [''sh'', ''bash'', ''zsh''] @
     with_icon CogIcon [''conf'', ''cfg'', ''ini'', ''properties'', ''plist''] @
     with_icon DatabaseIcon [''db'', ''sqlite'', ''sqlite3''] @
     with_icon CompactDiscIcon [''iso''] @
     with_icon MicrochipIcon [''efi'']"

text \<open>The keys of \<^verbatim>\<open>Object.prototype\<close> that have no capital letter, so that a lower-cased extension can be one.\<close>

definition PROTOTYPE_KEYS :: "jsstring list" where
  "PROTOTYPE_KEYS = [lit ''constructor'', lit ''__proto__'']"

definition extension_icon :: "jsstring \<Rightarrow> icon option" where
  "extension_icon ext =
     (case map_of EXTENSION_ICONS ext of
        Some i \<Rightarrow> Some i
      | None \<Rightarrow> if ext \<in> set PROTOTYPE_KEYS then Some (Inherited ext) else None)"

definition extensionOf :: "host \<Rightarrow> jsstring \<Rightarrow> jsstring option" where
  "extensionOf h name =
     (case last_index_of 46 name of
        None \<Rightarrow> None
      | Some dot \<Rightarrow> if dot = 0 then None else Some (toLowerCase h (drop (dot + 1) name)))"

text \<open>\<^verbatim>\<open>/\.so(\.\d+)*$/i\<close>\<close>

definition so_versions :: "jsstring \<Rightarrow> bool" where
  "so_versions s = (case split_on 46 s of [] \<Rightarrow> False | p # ps \<Rightarrow> p = [] \<and> list_all all_digits ps)"

definition SHARED_LIBRARY :: "jsstring \<Rightarrow> bool" where
  "SHARED_LIBRARY name =
     list_ex (\<lambda>k. name ! k = 46 \<and> name ! (k + 1) \<in> {83, 115} \<and> name ! (k + 2) \<in> {79, 111} \<and> so_versions (drop (k + 3) name))
       [0 ..< length name - 2]"

definition fileIconFor :: "host \<Rightarrow> jsstring \<Rightarrow> icon" where
  "fileIconFor h name =
     (if SHARED_LIBRARY name then PlugIcon
      else case extensionOf h name of
             None \<Rightarrow> FileIcon
           | Some ext \<Rightarrow>
               if ext = [] then FileIcon else (case extension_icon ext of None \<Rightarrow> FileIcon | Some i \<Rightarrow> i))"

fun SPECIAL_TYPE_ICONS :: "entry_type \<Rightarrow> icon option" where
  "SPECIAL_TYPE_ICONS BLOCK_DEVICE = Some HddIcon"
| "SPECIAL_TYPE_ICONS CHAR_DEVICE = Some MicrochipIcon"
| "SPECIAL_TYPE_ICONS SOCKET = Some ExchangeAltIcon"
| "SPECIAL_TYPE_ICONS FIFO = Some StreamIcon"
| "SPECIAL_TYPE_ICONS OTHER = Some QuestionIcon"
| "SPECIAL_TYPE_ICONS _ = None"

definition isExecutable :: "nat \<Rightarrow> bool" where
  "isExecutable mode \<longleftrightarrow> mode AND 73 \<noteq> 0"

definition isKernelInterfacePath :: "jsstring \<Rightarrow> bool" where
  "isKernelInterfacePath path \<longleftrightarrow>
     path = lit ''/proc'' \<or> starts_with (lit ''/proc/'') path \<or> path = lit ''/sys'' \<or> starts_with (lit ''/sys/'') path"

definition iconForEntry :: "host \<Rightarrow> entry_info \<Rightarrow> jsstring \<Rightarrow> icon" where
  "iconForEntry h entry path =
     (if isKernelInterfacePath path then CogIcon
      else case SPECIAL_TYPE_ICONS (en_type entry) of
             Some special \<Rightarrow> special
           | None \<Rightarrow>
               (let byNameOrExtension = fileIconFor h (en_name entry)
                in if byNameOrExtension \<noteq> FileIcon then byNameOrExtension
                   else if isExecutable (en_mode entry) then BoltIcon else FileIcon))"

section \<open>Symbolic links\<close>

definition MAX_SYMLINK_HOPS :: nat where "MAX_SYMLINK_HOPS = 10"

text \<open>The loop of \<^verbatim>\<open>resolveSymlinkIcon\<close>: the icon it returns, or the last name when it leaves the loop.\<close>

fun follow_link :: "host \<Rightarrow> (jsstring \<rightharpoonup> dir_state) \<Rightarrow> nat \<Rightarrow> jsstring \<Rightarrow> jsstring \<Rightarrow> jsstring \<Rightarrow> icon + jsstring" where
  "follow_link h dirs 0 dir target name = Inr name"
| "follow_link h dirs (Suc hops) dir target name =
     (if target = [] then Inr name
      else (let resolved = (if starts_with [47] target then target else joinPath dir target);
                name' = baseName resolved
            in case Option.bind (dirs (parentPath resolved)) (\<lambda>d. find (\<lambda>c. en_name c = name') (ds_entries d)) of
                 None \<Rightarrow> Inr name'
               | Some found \<Rightarrow>
                   if en_type found = SYMLINK then follow_link h dirs hops (parentPath resolved) (en_linkTarget found) name'
                   else Inl (if en_type found = DIRECTORY then FolderIcon else iconForEntry h found resolved)))"

definition resolveSymlinkIcon :: "host \<Rightarrow> entry_info \<Rightarrow> jsstring \<Rightarrow> (jsstring \<rightharpoonup> dir_state) \<Rightarrow> icon" where
  "resolveSymlinkIcon h entry path dirs =
     (case follow_link h dirs MAX_SYMLINK_HOPS (parentPath path) (en_linkTarget entry) (en_linkTarget entry) of
        Inl i \<Rightarrow> i
      | Inr name \<Rightarrow> if en_targetIsDirectory entry then FolderIcon else fileIconFor h name)"

definition MainIcon :: "host \<Rightarrow> (jsstring \<rightharpoonup> dir_state) \<Rightarrow> jsstring set \<Rightarrow> jsstring \<Rightarrow> entry_info option \<Rightarrow> icon" where
  "MainIcon h dirs expanded path entry =
     (case entry of
        Some e \<Rightarrow>
          if en_type e = SYMLINK then resolveSymlinkIcon h e path dirs
          else if is_dir path entry then (if path \<in> expanded then FolderOpenIcon else FolderIcon)
          else iconForEntry h e path
      | None \<Rightarrow> if is_dir path entry \<and> path \<in> expanded then FolderOpenIcon else FolderIcon)"

section \<open>The rows\<close>

record tree_row =
  tw_path :: jsstring
  tw_entry :: "entry_info option"
  tw_depth :: nat
  tw_icon :: icon
  tw_expandable :: bool
  tw_open :: bool
  tw_selected :: bool
  tw_busy :: bool
  tw_readOnly :: bool

datatype tree_item = Row tree_row | LoadingNote nat | ErrorNote nat jsstring | EmptyNote nat | TruncatedNote nat nat

record tree_props =
  tp_dirs :: "jsstring \<rightharpoonup> dir_state"
  tp_expanded :: "jsstring set"
  tp_selected :: "jsstring option"
  tp_busy :: "jsstring set"
  tp_readOnlyMounts :: "jsstring list"

definition tree_row_of :: "host \<Rightarrow> tree_props \<Rightarrow> jsstring \<Rightarrow> entry_info option \<Rightarrow> nat \<Rightarrow> tree_row" where
  "tree_row_of h props path entry depth =
     \<lparr>tw_path = path, tw_entry = entry, tw_depth = depth, tw_icon = MainIcon h (tp_dirs props) (tp_expanded props) path entry,
      tw_expandable = is_dir path entry, tw_open = (path \<in> tp_expanded props), tw_selected = (tp_selected props = Some path),
      tw_busy = (path \<in> tp_busy props), tw_readOnly = isUnderReadOnlyMount path (tp_readOnlyMounts props)\<rparr>"

text \<open>
  \<^verbatim>\<open>DirectoryRow\<close> and the rows below it. The first argument bounds the nesting; \<^verbatim>\<open>FileTree\<close> gives one more than there are
  expanded directories, which is enough (\<open>tree_rows_exact\<close>).
\<close>

fun DirectoryRow :: "host \<Rightarrow> tree_props \<Rightarrow> nat \<Rightarrow> jsstring \<Rightarrow> entry_info option \<Rightarrow> nat \<Rightarrow> tree_item list" where
  "DirectoryRow h props 0 path entry depth = []"
| "DirectoryRow h props (Suc n) path entry depth =
     Row (tree_row_of h props path entry depth) #
     (if is_dir path entry \<and> path \<in> tp_expanded props
      then (case tp_dirs props path of
              None \<Rightarrow> []
            | Some state \<Rightarrow>
                (if ds_loading state \<and> ds_entries state = [] then [LoadingNote (depth + 1)] else []) @
                (case ds_error state of None \<Rightarrow> [] | Some e \<Rightarrow> if e = [] then [] else [ErrorNote (depth + 1) e]) @
                concat (map (\<lambda>child. DirectoryRow h props n (joinPath path (en_name child)) (Some child) (depth + 1))
                  (ds_entries state)) @
                (if \<not> ds_loading state \<and> unset (ds_error state) \<and> ds_entries state = [] then [EmptyNote (depth + 1)] else []) @
                (if ds_truncated state then [TruncatedNote (depth + 1) (length (ds_entries state))] else []))
      else [])"

definition FileTree :: "host \<Rightarrow> tree_props \<Rightarrow> tree_item list" where
  "FileTree h props = DirectoryRow h props (Suc (card (tp_expanded props))) [47] None 0"

definition rows_of :: "tree_item list \<Rightarrow> tree_row list" where
  "rows_of items = List.map_filter (\<lambda>i. case i of Row r \<Rightarrow> Some r | _ \<Rightarrow> None) items"

section \<open>Clicks and drops\<close>

definition row_click :: "jsstring \<Rightarrow> entry_info option \<Rightarrow> browser_event list" where
  "row_click path entry = Select path # (if is_dir path entry then [Toggle path] else [])"

definition onDragStart :: "jsstring \<Rightarrow> jsstring option" where
  "onDragStart path = (if path = [47] then None else Some path)"

definition dropTarget :: "jsstring \<Rightarrow> entry_info option \<Rightarrow> jsstring" where
  "dropTarget path entry = (if is_dir path entry then path else parentPath path)"

text \<open>\<open>source\<close> is the payload of a dragged row, the empty string when there is none.\<close>

definition onDrop :: "jsstring \<Rightarrow> entry_info option \<Rightarrow> jsstring \<Rightarrow> jsstring list \<Rightarrow> browser_event list" where
  "onDrop path entry source files =
     (if source \<noteq> [] then [DropMove source (dropTarget path entry)]
      else if files \<noteq> [] then [DropFiles (dropTarget path entry) files] else [])"

section \<open>The context menu and the dialogs\<close>

definition menu_place :: "int \<Rightarrow> int \<Rightarrow> nat \<Rightarrow> int \<Rightarrow> int \<Rightarrow> int \<times> int" where
  "menu_place x y actions innerWidth innerHeight =
     (let width = 240; height = min (int actions * 40 + 16) 420
      in (min x (max 0 (innerWidth - width - 8)), min y (max 0 (innerHeight - height - 8))))"

fun typeLabel :: "entry_type option \<Rightarrow> string" where
  "typeLabel (Some DIRECTORY) = ''Directory''"
| "typeLabel (Some SYMLINK) = ''Symbolic link''"
| "typeLabel (Some FILE) = ''Regular file''"
| "typeLabel (Some BLOCK_DEVICE) = ''Block device''"
| "typeLabel (Some CHAR_DEVICE) = ''Character device''"
| "typeLabel (Some SOCKET) = ''Socket''"
| "typeLabel (Some FIFO) = ''Named pipe (FIFO)''"
| "typeLabel _ = ''Other''"

text \<open>The rows of the Info dialog, untranslated.\<close>

definition info_rows :: "(int \<Rightarrow> jsstring) \<Rightarrow> jsstring \<Rightarrow> stat_response \<Rightarrow> (string \<times> jsstring) list" where
  "info_rows fmt path stat =
     (let entry = st_entry stat; of_entry = (\<lambda>f. case entry of None \<Rightarrow> lit ''-'' | Some e \<Rightarrow> f e)
      in [(''Path'', path), (''Type'', lit (typeLabel (map_option en_type entry)))] @
         (case entry of None \<Rightarrow> [] | Some e \<Rightarrow> if en_linkTarget e = [] then [] else [(''Link target'', en_linkTarget e)]) @
         [(''Size'', of_entry (\<lambda>e. formatSize (Some (en_size e)) @ lit '' ('' @ show_nat (en_size e) @ lit '' B)'')),
          (''Permissions'', of_entry (\<lambda>e. formatMode (en_mode e) (en_type e) @ lit ''  '' @ formatOctal (en_mode e))),
          (''Owner'', of_entry (\<lambda>e. show_nat (en_uid e) @ lit '':'' @ show_nat (en_gid e))),
          (''Modified'', of_entry (\<lambda>e. formatTime fmt (en_modifiedUnix e))),
          (''Accessed'', formatTime fmt (st_accessedUnix stat)), (''Changed'', formatTime fmt (st_changedUnix stat)),
          (''Links'', show_nat (st_hardLinks stat)),
          (''Inode'', show_nat (st_inode stat) @ lit '' (device '' @ show_nat (st_device stat) @ lit '')'')] @
         (if st_filesystemType stat = [] then []
          else [(''Filesystem'',
                 if 0 < st_filesystemTotalBytes stat
                 then st_filesystemType stat @ lit '' - '' @ formatSize (Some (st_filesystemFreeBytes stat)) @ lit '' free of '' @
                   formatSize (Some (st_filesystemTotalBytes stat))
                 else st_filesystemType stat)]))"

text \<open>The text of the View dialog, or nothing for a binary file; \<open>decode\<close> is \<^verbatim>\<open>TextDecoder.decode\<close>.\<close>

definition view_text :: "(bytes \<Rightarrow> jsstring) \<Rightarrow> bytes \<Rightarrow> jsstring option" where
  "view_text decode bytes = (if 0 \<in> set (take 1024 bytes) then None else Some (decode bytes))"

section \<open>Which rows there are\<close>

text \<open>
  The specification: entries, each from the listing of the directory before it, all of whose directories can be opened and
  are expanded.
\<close>

fun open_chain :: "tree_props \<Rightarrow> jsstring list \<Rightarrow> entry_info option \<Rightarrow> entry_info list \<Rightarrow> bool" where
  "open_chain props segs entry [] = True"
| "open_chain props segs entry (c # cs) =
     (is_dir (abs_path segs) entry \<and> abs_path segs \<in> tp_expanded props \<and>
      (case tp_dirs props (abs_path segs) of None \<Rightarrow> False | Some d \<Rightarrow> c \<in> set (ds_entries d)) \<and>
      open_chain props (segs @ [en_name c]) (Some c) cs)"

text \<open>The names the agent lists are names: not empty and without a slash.\<close>

definition names_ok :: "tree_props \<Rightarrow> bool" where
  "names_ok props \<longleftrightarrow> (\<forall>p d. tp_dirs props p = Some d \<longrightarrow> list_all (segment \<circ> en_name) (ds_entries d))"

lemma names_okD: "names_ok props \<Longrightarrow> tp_dirs props p = Some d \<Longrightarrow> c \<in> set (ds_entries d) \<Longrightarrow> segment (en_name c)"
  by (auto simp: names_ok_def list_all_iff)

lemma rows_of_simps [simp]:
  "rows_of [] = []" "rows_of (Row r # is) = r # rows_of is" "rows_of (LoadingNote n # is) = rows_of is"
  "rows_of (ErrorNote n e # is) = rows_of is" "rows_of (EmptyNote n # is) = rows_of is"
  "rows_of (TruncatedNote n k # is) = rows_of is" "rows_of (is @ js) = rows_of is @ rows_of js"
  by (simp_all add: rows_of_def map_filter_simps) (simp add: List.map_filter_def)

lemma rows_of_concat: "rows_of (concat iss) = concat (map rows_of iss)"
  by (induction iss) simp_all

definition last_entry :: "entry_info option \<Rightarrow> entry_info list \<Rightarrow> entry_info option" where
  "last_entry entry cs = (if cs = [] then entry else Some (last cs))"

lemma last_entry_Cons [simp]: "last_entry e (c # cs) = last_entry (Some c) cs" "last_entry e [] = e"
  by (simp_all add: last_entry_def)

lemma DirectoryRow_rows:
  assumes "names_ok props" "list_all segment segs"
  shows "r \<in> set (rows_of (DirectoryRow h props n (abs_path segs) entry k)) \<longleftrightarrow>
    (\<exists>cs. length cs < n \<and> open_chain props segs entry cs \<and>
       r = tree_row_of h props (abs_path (segs @ map en_name cs)) (last_entry entry cs) (k + length cs))"
  using assms(2)
proof (induction n arbitrary: segs entry k)
  case (Suc n)
  let ?goes = "\<lambda>c. is_dir (abs_path segs) entry \<and> abs_path segs \<in> tp_expanded props \<and>
      (case tp_dirs props (abs_path segs) of None \<Rightarrow> False | Some d \<Rightarrow> c \<in> set (ds_entries d))"
  have child: "r \<in> set (rows_of (DirectoryRow h props n (joinPath (abs_path segs) (en_name c)) (Some c) (k + 1))) \<longleftrightarrow>
      (\<exists>cs. length cs < n \<and> open_chain props (segs @ [en_name c]) (Some c) cs \<and>
        r = tree_row_of h props (abs_path (segs @ map en_name (c # cs))) (last_entry entry (c # cs)) (k + length (c # cs)))"
    if "?goes c" for c
  proof -
    have "segment (en_name c)" using that names_okD [OF assms(1)] by (auto split: option.splits)
    then show ?thesis using Suc abs_path_snoc(1) [of "en_name c" segs] by simp
  qed
  have "r \<in> set (rows_of (DirectoryRow h props (Suc n) (abs_path segs) entry k)) \<longleftrightarrow>
      r = tree_row_of h props (abs_path segs) entry k \<or>
      (\<exists>c. ?goes c \<and> r \<in> set (rows_of (DirectoryRow h props n (joinPath (abs_path segs) (en_name c)) (Some c) (k + 1))))"
    by (auto simp: rows_of_concat split: option.splits)
  also have "\<dots> \<longleftrightarrow> (\<exists>cs. length cs < Suc n \<and> open_chain props segs entry cs \<and>
       r = tree_row_of h props (abs_path (segs @ map en_name cs)) (last_entry entry cs) (k + length cs))" (is "_ \<longleftrightarrow> (\<exists>cs. ?P cs)")
  proof -
    have "(\<exists>cs. ?P (c # cs)) \<longleftrightarrow>
        ?goes c \<and> r \<in> set (rows_of (DirectoryRow h props n (joinPath (abs_path segs) (en_name c)) (Some c) (k + 1)))" for c
      by (cases "?goes c") (simp_all only: child, auto)
    moreover have "(\<exists>cs. ?P cs) \<longleftrightarrow> ?P [] \<or> (\<exists>c cs. ?P (c # cs))" by (metis list.exhaust)
    ultimately show ?thesis by simp
  qed
  finally show ?case .
qed simp

lemma open_chain_segments:
  "names_ok props \<Longrightarrow> open_chain props segs entry cs \<Longrightarrow> list_all segment (map en_name cs)"
  by (induction cs arbitrary: segs entry) (auto split: option.splits dest: names_okD)

lemma open_chain_expanded:
  "open_chain props segs entry cs \<Longrightarrow> i < length cs \<Longrightarrow> abs_path (segs @ take i (map en_name cs)) \<in> tp_expanded props"
proof (induction cs arbitrary: segs entry i)
  case (Cons c cs)
  then show ?case using Cons.IH [of "segs @ [en_name c]" "Some c" "i - 1"] by (cases i) auto
qed simp

lemma open_chain_bounded:
  assumes "names_ok props" "finite (tp_expanded props)" "open_chain props [] entry cs"
  shows "length cs \<le> card (tp_expanded props)"
proof -
  let ?p = "\<lambda>i. abs_path (take i (map en_name cs))"
  have segs: "list_all segment (take i (map en_name cs))" for i
    using open_chain_segments [OF assms(1,3)] by (simp add: list_all_length)
  have "inj_on ?p {..< length cs}"
    by (rule inj_onI, drule iffD1 [OF abs_path_inj [OF segs segs]])
      (metis length_map length_take lessThan_iff min.absorb4)
  moreover have "?p ` {..< length cs} \<subseteq> tp_expanded props" using open_chain_expanded [OF assms(3)] by auto
  ultimately show ?thesis using card_inj_on_le [of ?p "{..< length cs}" "tp_expanded props"] assms(2) by simp
qed

text \<open>C20: The file tree draws exactly the rows it should and always ends: one for every chain of entries from the root of which each
  is in the listing of the one before and every directory passed through is expanded, at its path, its depth and with its own
  entry; so nothing below a closed directory is drawn.\<close>

theorem tree_rows_exact:
  assumes "names_ok props" "finite (tp_expanded props)"
  shows "r \<in> set (rows_of (FileTree h props)) \<longleftrightarrow>
    (\<exists>cs. open_chain props [] None cs \<and>
       r = tree_row_of h props (abs_path (map en_name cs)) (if cs = [] then None else Some (last cs)) (length cs))"
  using DirectoryRow_rows [OF assms(1), of "[]" r h "Suc (card (tp_expanded props))" None 0] open_chain_bounded [OF assms, of None]
  by (auto simp: FileTree_def abs_path_def last_entry_def less_Suc_eq_le)

definition sample_dir :: "string \<Rightarrow> entry_info" where
  "sample_dir n = (sample_entry n)\<lparr>en_type := DIRECTORY\<rparr>"

definition sample_props :: tree_props where
  "sample_props =
     \<lparr>tp_dirs = [[47] \<mapsto> \<lparr>ds_entries = [sample_dir ''etc'', sample_entry ''x.constructor''], ds_truncated = False,
        ds_loading = False, ds_error = None, ds_origin = None\<rparr>],
      tp_expanded = {[47]}, tp_selected = None, tp_busy = {}, tp_readOnlyMounts = []\<rparr>"

lemma sample_names: "names_ok sample_props" "finite (tp_expanded sample_props)"
  by (auto simp: names_ok_def sample_props_def sample_dir_def sample_entry_def segment_def split: if_splits)

lemma tree_rows_exact_witness:
  "tree_row_of ascii_host sample_props (lit ''/etc'') (Some (sample_dir ''etc'')) 1 \<in> set (rows_of (FileTree ascii_host sample_props))"
proof -
  have "open_chain sample_props [] None [sample_dir ''etc'']"
    by (simp add: sample_props_def is_dir_def abs_path_def)
  moreover have "abs_path (map en_name [sample_dir ''etc'']) = lit ''/etc''"
    by (simp add: abs_path_def sample_dir_def sample_entry_def)
  ultimately show ?thesis
    using tree_rows_exact [OF sample_names, of "tree_row_of ascii_host sample_props (lit ''/etc'') (Some (sample_dir ''etc'')) 1" ascii_host] by fastforce
qed

section \<open>Icons of odd names\<close>

lemma EXTENSION_ICONS_components: "map_of EXTENSION_ICONS ext \<noteq> Some (Inherited x)"
proof -
  have "list_all (\<lambda>(e, i). i \<noteq> Inherited x) EXTENSION_ICONS" by (simp add: EXTENSION_ICONS_def with_icon_def)
  then show ?thesis by (auto simp: list_all_iff dest: map_of_SomeD)
qed

lemma prototype_keys_free: "ext \<in> set PROTOTYPE_KEYS \<Longrightarrow> map_of EXTENSION_ICONS ext = None"
proof -
  have "list_all (\<lambda>(e, i). length e \<notin> {9, 11}) EXTENSION_ICONS" by (simp add: EXTENSION_ICONS_def with_icon_def)
  moreover have "length ext \<in> {9, 11}" if "ext \<in> set PROTOTYPE_KEYS" using that by (auto simp: PROTOTYPE_KEYS_def)
  ultimately show "map_of EXTENSION_ICONS ext = None" if "ext \<in> set PROTOTYPE_KEYS"
    using that by (fastforce simp: list_all_iff map_of_eq_None_iff)
qed

text \<open>The icon of a file is one of the icons, except that the table is read like any object, with the names it
  inherits: for a file whose extension is \<^verbatim>\<open>constructor\<close> or \<^verbatim>\<open>__proto__\<close>, and for no other, what is drawn is not a
  component.\<close>

theorem icon_not_component:
  "(\<exists>x. fileIconFor h name = Inherited x) \<longleftrightarrow>
     \<not> SHARED_LIBRARY name \<and> (\<exists>ext \<in> set PROTOTYPE_KEYS. extensionOf h name = Some ext)"
proof -
  have "ext \<noteq> []" if "ext \<in> set PROTOTYPE_KEYS" for ext using that by (auto simp: PROTOTYPE_KEYS_def)
  then show ?thesis
    by (auto simp: fileIconFor_def extension_icon_def EXTENSION_ICONS_components prototype_keys_free
        split: option.splits if_splits)
qed

lemma constructor_icon: "iconForEntry ascii_host (sample_entry ''x.constructor'') (lit ''/x.constructor'') = Inherited (lit ''constructor'')"
  by code_simp

section \<open>Drops and the menu\<close>

text \<open>A drop is one event of the tab, and one that may happen, when what was dragged is a row or files.\<close>

lemma onDrop_enabled:
  assumes "source = [] \<or> (\<exists>p. onDragStart p = Some source)" "ev \<in> set (onDrop path entry source files)"
  shows "browser_enabled h ev s"
  using assms by (auto simp: onDrop_def onDragStart_def split: if_splits)

text \<open>The menu stays on the screen it fits on.\<close>

lemma menu_on_screen:
  assumes "0 \<le> x" "0 \<le> y" "248 \<le> innerWidth" "428 \<le> innerHeight"
  shows "0 \<le> fst (menu_place x y n innerWidth innerHeight) \<and> fst (menu_place x y n innerWidth innerHeight) + 240 \<le> innerWidth \<and>
    0 \<le> snd (menu_place x y n innerWidth innerHeight) \<and>
    snd (menu_place x y n innerWidth innerHeight) + min (int n * 40 + 16) 420 \<le> innerHeight"
  using assms by (auto simp: menu_place_def Let_def)

end
