(* ===== verification/Fs_Dates.thy ===== *)
theory Fs_Dates
  imports Js_Date
begin

text \<open>
  The console's date and time preferences, \<^verbatim>\<open>plugins/filesystem/src/shared/date-time-preferences.ts\<close>: the locale, the hour
  cycle and the zone read from the local storage, the formatter that follows them, and the two ways between an instant and a
  wall clock.

  The storage is a map (a storage that throws is the empty one). Of the engine's internationalisation, which locales and zones
  are supported, the formatter that is built and the parts of a time in a zone are parameters.
\<close>

section \<open>The preferences\<close>

record browser_prefs =
  bp_items :: "jsstring \<rightharpoonup> jsstring"
  bp_language :: jsstring
  bp_locale_ok :: "jsstring \<Rightarrow> bool"
  bp_zone_ok :: "jsstring \<Rightarrow> bool"

definition getItem :: "browser_prefs \<Rightarrow> string \<Rightarrow> jsstring option" where
  "getItem b key = bp_items b (lit key)"

text \<open>
  The maps \<^verbatim>\<open>supportedLocales\<close> and \<^verbatim>\<open>supportedTimeZones\<close> remember the engine's answers; the value returned and the map after.
\<close>

definition isSupported :: "(jsstring \<Rightarrow> bool) \<Rightarrow> (jsstring \<rightharpoonup> bool) \<Rightarrow> jsstring \<Rightarrow> bool \<times> (jsstring \<rightharpoonup> bool)" where
  "isSupported ok known key =
     (let known' = (if known key = None then known(key \<mapsto> ok key) else known)
      in (case known' key of None \<Rightarrow> False | Some v \<Rightarrow> v, known'))"

definition getConsoleLanguage :: "browser_prefs \<Rightarrow> jsstring" where
  "getConsoleLanguage b = (let l = getItem b ''bridge/last-language'' in if unset l then bp_language b else the l)"

text \<open>\<open>None\<close> is the browser's own locale.\<close>

definition getDateTimeLocale :: "browser_prefs \<Rightarrow> jsstring option \<Rightarrow> jsstring option" where
  "getDateTimeLocale b language =
     (let preference = getItem b ''bridge/date-time-locale''
      in if preference = Some (lit ''browser'') then None
         else if \<not> unset preference \<and> preference \<noteq> Some (lit ''language'') \<and> bp_locale_ok b (the preference) then preference
         else Some (if unset language then getConsoleLanguage b else the language))"

definition getHourCycle :: "browser_prefs \<Rightarrow> jsstring option" where
  "getHourCycle b =
     (let preference = getItem b ''bridge/hour-cycle''
      in if preference = Some (lit ''h12'') \<or> preference = Some (lit ''h23'') then preference else None)"

definition getTimeZone :: "browser_prefs \<Rightarrow> jsstring option" where
  "getTimeZone b =
     (let preference = getItem b ''bridge/time-zone''
      in if \<not> unset preference \<and> preference \<noteq> Some (lit ''browser'') \<and> bp_zone_ok b (the preference) then preference else None)"

text \<open>The options of \<^verbatim>\<open>Intl.DateTimeFormat\<close> the preferences touch.\<close>

record date_options =
  do_hour :: bool
  do_hourCycle :: "jsstring option"
  do_timeZone :: "jsstring option"

definition withDateTimePreferences :: "browser_prefs \<Rightarrow> date_options \<Rightarrow> date_options" where
  "withDateTimePreferences b options =
     (let hourCycle = (if do_hour options then getHourCycle b else None);
          timeZone = (if unset (do_timeZone options) then getTimeZone b else None)
      in options\<lparr>do_hourCycle := (if hourCycle = None then do_hourCycle options else hourCycle),
                 do_timeZone := (if timeZone = None then do_timeZone options else timeZone)\<rparr>)"

section \<open>The formatter\<close>

text \<open>\<open>build\<close> is \<^verbatim>\<open>new Intl.DateTimeFormat\<close>, \<open>None\<close> where it throws. The formatter, if there is one, and the memo after.\<close>

definition format_key :: "jsstring option \<Rightarrow> date_options \<Rightarrow> jsstring" where
  "format_key locale resolved =
     (let or_empty = (\<lambda>x. case x of None \<Rightarrow> [] | Some s \<Rightarrow> s)
      in or_empty locale @ [124] @ or_empty (do_hourCycle resolved) @ [124] @ or_empty (do_timeZone resolved))"

definition get_formatter :: "(jsstring option \<Rightarrow> date_options \<Rightarrow> 'f option) \<Rightarrow> date_options \<Rightarrow> browser_prefs \<Rightarrow> jsstring option \<Rightarrow>
    (jsstring \<times> 'f) option \<Rightarrow> 'f option \<times> (jsstring \<times> 'f) option" where
  "get_formatter build options b language cached =
     (let locale = getDateTimeLocale b language;
          resolved = withDateTimePreferences b options;
          key = format_key locale resolved
      in if map_option fst cached = Some key then (map_option snd cached, cached)
         else case build locale resolved of
                Some f \<Rightarrow> (Some f, Some (key, f))
              | None \<Rightarrow>
                  (case build (Some (if unset language then getConsoleLanguage b else the language)) options of
                     Some f \<Rightarrow> (Some f, Some (key, f))
                   | None \<Rightarrow> (None, cached)))"

text \<open>The answers of a formatter used again and again while the preferences change.\<close>

fun formatters :: "(jsstring option \<Rightarrow> date_options \<Rightarrow> 'f option) \<Rightarrow> date_options \<Rightarrow> (browser_prefs \<times> jsstring option) list \<Rightarrow>
    (jsstring \<times> 'f) option \<Rightarrow> 'f option list" where
  "formatters build options [] cached = []"
| "formatters build options ((b, language) # uses) cached =
     (case get_formatter build options b language cached of (f, cached') \<Rightarrow> f # formatters build options uses cached')"

section \<open>Wall clocks\<close>

record wall_clock =
  wc_year :: int
  wc_month :: int
  wc_day :: int
  wc_hour :: int
  wc_minute :: int
  wc_second :: int

text \<open>\<open>parts\<close> is \<^verbatim>\<open>formatToParts\<close> in the zone, as the loop collects it.\<close>

definition wallClockIn :: "(int \<Rightarrow> jsstring \<rightharpoonup> int) \<Rightarrow> int \<Rightarrow> wall_clock" where
  "wallClockIn parts time =
     (let part = (\<lambda>key default. case parts time (lit key) of None \<Rightarrow> default | Some n \<Rightarrow> n)
      in \<lparr>wc_year = part ''year'' 0, wc_month = part ''month'' 1, wc_day = part ''day'' 1, wc_hour = part ''hour'' 0 mod 24,
          wc_minute = part ''minute'' 0, wc_second = part ''second'' 0\<rparr>)"

text \<open>
  The browser's own zone: \<open>local_clock\<close> reads a time with \<^verbatim>\<open>getFullYear\<close> and the other getters, \<open>local_date\<close> is \<^verbatim>\<open>new Date\<close> of
  the six numbers followed by \<^verbatim>\<open>setFullYear\<close>.
\<close>

definition toWallClock :: "(jsstring \<Rightarrow> int \<Rightarrow> jsstring \<rightharpoonup> int) \<Rightarrow> (int \<Rightarrow> wall_clock) \<Rightarrow> browser_prefs \<Rightarrow> int \<Rightarrow> wall_clock" where
  "toWallClock parts local_clock b time =
     (case getTimeZone b of Some zone \<Rightarrow> wallClockIn (parts zone) time | None \<Rightarrow> local_clock time)"

definition as_UTC :: "wall_clock \<Rightarrow> int" where
  "as_UTC w =
     setUTCFullYear (date_UTC (wc_year w) (wc_month w - 1) (wc_day w) (wc_hour w) (wc_minute w) (wc_second w)) (wc_year w)"

definition settle :: "(int \<Rightarrow> wall_clock) \<Rightarrow> int \<Rightarrow> int \<Rightarrow> int" where
  "settle clock asUTC time = time + (asUTC - as_UTC (clock time))"

text \<open>\<open>None\<close> is \<^verbatim>\<open>NaN\<close>.\<close>

definition fromWallClock :: "(jsstring \<Rightarrow> int \<Rightarrow> jsstring \<rightharpoonup> int) \<Rightarrow> (int \<Rightarrow> wall_clock) \<Rightarrow> (wall_clock \<Rightarrow> int) \<Rightarrow> browser_prefs \<Rightarrow>
    wall_clock \<Rightarrow> int option" where
  "fromWallClock parts local_clock local_date b w =
     (case getTimeZone b of
        None \<Rightarrow> (let date = local_date w in if local_clock date = w then Some date else None)
      | Some zone \<Rightarrow>
          (let clock = wallClockIn (parts zone); asUTC = as_UTC w; time = (settle clock asUTC ^^ 2) asUTC
           in if clock time = w then Some time else None))"

section \<open>The zone of a wall clock\<close>

text \<open>The wall clock of UTC.\<close>

definition clock_of :: "int \<Rightarrow> wall_clock" where
  "clock_of t =
     (case civil_from_days (t div MS_PER_DAY) of
        (y, m, d) \<Rightarrow>
          (let ms = t mod MS_PER_DAY
           in \<lparr>wc_year = y, wc_month = m, wc_day = d, wc_hour = ms div 3600000, wc_minute = ms div 60000 mod 60,
               wc_second = ms div 1000 mod 60\<rparr>))"

text \<open>
  What a zone is: an offset from UTC of whole seconds and at most a day, and no two changes of it within four days. It is asked
  of every instant; before the year 1, where \<^verbatim>\<open>Intl\<close> counts years by era, that is an idealisation outside the range used.
\<close>

definition zone_of :: "(int \<Rightarrow> wall_clock) \<Rightarrow> (int \<Rightarrow> int) \<Rightarrow> bool" where
  "zone_of clock off \<longleftrightarrow>
     (\<forall>t. clock t = clock_of (t + off t) \<and> 1000 dvd off t \<and> \<bar>off t\<bar> \<le> MS_PER_DAY) \<and>
     (\<forall>a. \<exists>change before_it after_it. \<forall>t. \<bar>t - a\<bar> \<le> 2 * MS_PER_DAY \<longrightarrow> off t = (if t < change then before_it else after_it))"

text \<open>The year 1600, before which the calendar is not the one in use.\<close>

definition CALENDAR_START :: int where "CALENDAR_START = -11676096000000"

lemma seconds_add_up: "(s::int) = 60 * q + c \<Longrightarrow> q = 60 * a + b \<Longrightarrow> a * 3600000 + b * 60000 + c * 1000 = 1000 * s"
  by simp

lemma ms_parts:
  assumes "1000 dvd (ms :: int)"
  shows "ms div 3600000 * 3600000 + ms div 60000 mod 60 * 60000 + ms div 1000 mod 60 * 1000 = ms"
proof -
  obtain s where ms: "ms = 1000 * s" using assms by (elim dvdE)
  define q where "q = s div 60"
  have "ms div 1000 = s" "ms div 60000 = q" "ms div 3600000 = q div 60"
    by (simp_all add: ms q_def zdiv_zmult2_eq [symmetric])
  moreover have "s = 60 * q + s mod 60" "q = 60 * (q div 60) + q mod 60" by (simp_all add: q_def)
  then have "q div 60 * 3600000 + q mod 60 * 60000 + s mod 60 * 1000 = 1000 * s" by (rule seconds_add_up)
  ultimately show ?thesis by (simp only: ms)
qed

lemma as_UTC_clock:
  assumes "CALENDAR_START - 4 * MS_PER_DAY \<le> t" "1000 dvd t"
  shows "as_UTC (clock_of t) = t"
proof -
  obtain y m d where civil: "civil_from_days (t div MS_PER_DAY) = (y, m, d)" by (metis prod_cases3)
  note day = days_of_civil [OF civil]
  define ms where "ms = t mod MS_PER_DAY"
  have ms: "1000 dvd ms" using assms(2) unfolding ms_def by (rule dvd_mod) (simp add: MS_PER_DAY_def)
  have "-573371 * MS_PER_DAY \<le> t" using assms(1) by (simp add: CALENDAR_START_def MS_PER_DAY_def)
  then have "-573371 \<le> t div MS_PER_DAY" using div_bounds [of MS_PER_DAY t] unfolding MS_PER_DAY_def by linarith
  then have "1 \<le> (t div MS_PER_DAY + 719468) div 146097"
    using div_bounds [of 146097 "t div MS_PER_DAY + 719468"] by linarith
  then have "400 \<le> y" using day(4) by linarith
  moreover have "(m - 1) div 12 = 0" "(m - 1) mod 12 = m - 1" using day(2,3) by simp_all
  ultimately have "date_UTC y (m - 1) d (ms div 3600000) (ms div 60000 mod 60) (ms div 1000 mod 60) =
      t div MS_PER_DAY * MS_PER_DAY + (ms div 3600000 * 3600000 + ms div 60000 mod 60 * 60000 + ms div 1000 mod 60 * 1000)"
    using day(1) by (simp only: date_UTC_def Let_def days_from_civil_day) simp
  also have "\<dots> = t" unfolding ms_parts [OF ms] unfolding ms_def by (rule div_mult_mod_eq)
  finally have "as_UTC (clock_of t) = setUTCFullYear t y"
    by (simp only: as_UTC_def clock_of_def civil prod.case Let_def wall_clock.simps ms_def [symmetric])
  also have "\<dots> = t" by (simp only: setUTCFullYear_def civil prod.case days_from_civil_day day(1) div_mult_mod_eq)
  finally show ?thesis .
qed

text \<open>One round of the loop, and why two are enough.\<close>

lemma zone_ofD:
  assumes "zone_of clock off"
  shows "1000 dvd off t" "\<bar>off t\<bar> \<le> MS_PER_DAY" "clock t = clock_of (t + off t)"
  using assms by (simp_all add: zone_of_def)

lemma settle_round:
  assumes "zone_of clock off" "CALENDAR_START \<le> a" "\<bar>t - a\<bar> \<le> 2 * MS_PER_DAY" "1000 dvd t"
  shows "settle clock a t = a - off t"
proof -
  have "CALENDAR_START - 4 * MS_PER_DAY \<le> t + off t" using assms(2,3) zone_ofD(2) [OF assms(1), of t] unfolding MS_PER_DAY_def by linarith
  then have "as_UTC (clock t) = t + off t" using zone_ofD(1,3) [OF assms(1), of t] assms(4) by (simp add: as_UTC_clock)
  then show ?thesis by (simp add: settle_def)
qed

lemma two_rounds:
  fixes a :: int
  assumes "o0 = (if a < change then p else q)" "o1 = (if a - o0 < change then p else q)" "o2 = (if a - o1 < change then p else q)"
    "o3 = (if t < change then p else q)" "t + o3 = a"
  shows "o2 = o1"
  using assms by (auto split: if_splits)

text \<open>C22: A date and time typed in the chosen zone means what it says: the instant found shows exactly those fields there; and
  fields that some instant shows, also next to a change to or from daylight saving time, are never taken for invalid. So what
  is rejected is what no clock in the zone ever shows.\<close>

theorem fromWallClock_exact:
  assumes "getTimeZone b = Some zone" "zone_of (wallClockIn (parts zone)) off"
  shows "(case fromWallClock parts local_clock local_date b w of
      Some t \<Rightarrow> toWallClock parts local_clock b t = w
    | None \<Rightarrow> \<forall>t. toWallClock parts local_clock b t = w \<longrightarrow> t + off t < CALENDAR_START \<or> \<not> 1000 dvd t)"
proof -
  let ?clock = "wallClockIn (parts zone)"
  let ?time = "(settle ?clock (as_UTC w) ^^ 2) (as_UTC w)"
  have "?clock ?time = w" if t: "?clock t = w" "CALENDAR_START \<le> t + off t" "1000 dvd t" for t
  proof -
    define a where "a = t + off t"
    note off = zone_ofD [OF assms(2)]
    have "1000 dvd a" using off(1) [of t] t(3) by (simp add: a_def)
    then have whole: "1000 dvd a - off x" for x using off(1) [of x] by (rule dvd_diff)
    have near: "\<bar>a - off x - a\<bar> \<le> 2 * MS_PER_DAY" for x using off(2) [of x] by simp
    have start: "CALENDAR_START \<le> a" using t(2) by (simp add: a_def)
    have utc: "as_UTC w = a" using as_UTC_clock [of a] start \<open>1000 dvd a\<close> t(1) off(3) [of t] by (simp add: a_def MS_PER_DAY_def)
    have "settle ?clock a a = a - off a" using assms(2) start _ \<open>1000 dvd a\<close> by (rule settle_round) (simp add: MS_PER_DAY_def)
    then have "?time = a - off (a - off a)"
      using settle_round [OF assms(2) start near whole] by (simp add: utc numeral_2_eq_2)
    moreover obtain change o1 o2 where change: "\<And>x. \<bar>x - a\<bar> \<le> 2 * MS_PER_DAY \<Longrightarrow> off x = (if x < change then o1 else o2)"
      using assms(2) unfolding zone_of_def by meson
    have "off (a - off (a - off a)) = off (a - off a)"
      by (rule two_rounds [where t = t, OF change change [OF near] change [OF near] change])
        (use near [of t] in \<open>simp_all add: a_def MS_PER_DAY_def\<close>)
    ultimately show ?thesis using off(3) t(1) by (simp add: a_def)
  qed
  then show ?thesis by (auto simp: fromWallClock_def toWallClock_def assms(1) Let_def not_le [symmetric])
qed

text \<open>A zone that goes from one hour ahead to two in the night of 31 March 2024.\<close>

definition sample_offset :: "int \<Rightarrow> int" where
  "sample_offset t = (if t < 1711846800000 then 3600000 else 7200000)"

definition sample_parts :: "jsstring \<Rightarrow> int \<Rightarrow> jsstring \<rightharpoonup> int" where
  "sample_parts zone t =
     (let w = clock_of (t + sample_offset t)
      in map_of [(lit ''year'', wc_year w), (lit ''month'', wc_month w), (lit ''day'', wc_day w), (lit ''hour'', wc_hour w),
           (lit ''minute'', wc_minute w), (lit ''second'', wc_second w)])"

definition sample_prefs :: browser_prefs where
  "sample_prefs = \<lparr>bp_items = [lit ''bridge/time-zone'' \<mapsto> lit ''Europe/Berlin''], bp_language = lit ''en'', bp_locale_ok = (\<lambda>_. True),
     bp_zone_ok = (\<lambda>z. z = lit ''Europe/Berlin'')\<rparr>"

definition summer_morning :: wall_clock where
  "summer_morning = \<lparr>wc_year = 2024, wc_month = 3, wc_day = 31, wc_hour = 3, wc_minute = 30, wc_second = 0\<rparr>"

lemma clock_hour: "wc_hour (clock_of t) mod 24 = wc_hour (clock_of t)"
proof -
  have "0 \<le> t mod MS_PER_DAY" "t mod MS_PER_DAY < 86400000" by (simp_all add: MS_PER_DAY_def)
  then have "0 \<le> t mod MS_PER_DAY div 3600000" "t mod MS_PER_DAY div 3600000 < 24" by simp_all
  then show ?thesis by (simp add: clock_of_def Let_def split: prod.split)
qed

lemma sample_zone: "zone_of (wallClockIn (sample_parts zone)) sample_offset"
  by (auto simp: zone_of_def wallClockIn_def sample_parts_def Let_def clock_hour sample_offset_def MS_PER_DAY_def)

lemma summer_clock: "clock_of 1711855800000 = summer_morning"
  by code_simp

lemma fromWallClock_exact_witness:
  "\<exists>t. fromWallClock sample_parts (\<lambda>_. summer_morning) (\<lambda>_. 0) sample_prefs summer_morning = Some t \<and>
     toWallClock sample_parts (\<lambda>_. summer_morning) sample_prefs t = summer_morning"
proof -
  have zone: "getTimeZone sample_prefs = Some (lit ''Europe/Berlin'')" by (simp add: getTimeZone_def sample_prefs_def getItem_def unset_def Let_def)
  have "toWallClock sample_parts (\<lambda>_. summer_morning) sample_prefs 1711848600000 = summer_morning"
    using zone_ofD(3) [OF sample_zone, of "lit ''Europe/Berlin''" 1711848600000] summer_clock
    by (simp add: toWallClock_def zone sample_offset_def)
  then show ?thesis
    using fromWallClock_exact [OF zone sample_zone, where local_clock = "\<lambda>_. summer_morning" and local_date = "\<lambda>_. 0" and w = summer_morning]
    by (fastforce simp: sample_offset_def CALENDAR_START_def split: option.splits)
qed

section \<open>The memo of the formatter\<close>

definition prefs_ok :: "browser_prefs \<Rightarrow> bool" where
  "prefs_ok b \<longleftrightarrow> (\<forall>z. bp_zone_ok b z \<longrightarrow> 124 \<notin> set z) \<and> getConsoleLanguage b \<noteq> []"

definition options_ok :: "date_options \<Rightarrow> bool" where
  "options_ok options \<longleftrightarrow>
     (case do_hourCycle options of None \<Rightarrow> True | Some s \<Rightarrow> s \<noteq> [] \<and> 124 \<notin> set s) \<and>
     (case do_timeZone options of None \<Rightarrow> True | Some s \<Rightarrow> s \<noteq> [] \<and> 124 \<notin> set s)"

lemma resolved_options:
  assumes "options_ok options" "prefs_ok b"
  shows "options_ok (withDateTimePreferences b options)"
proof -
  have "hc \<noteq> [] \<and> 124 \<notin> set hc" if "getHourCycle b = Some hc" for hc
    using that by (auto simp: getHourCycle_def Let_def split: if_splits)
  moreover have "z \<noteq> [] \<and> 124 \<notin> set z" if "getTimeZone b = Some z" for z
    using that assms(2) by (auto simp: getTimeZone_def prefs_ok_def unset_def Let_def split: if_splits option.splits)
  ultimately show ?thesis using assms(1) by (auto simp: options_ok_def withDateTimePreferences_def Let_def split: option.splits)
qed

lemma last_bar: "a @ 124 # b = c @ 124 # d \<Longrightarrow> 124 \<notin> set b \<Longrightarrow> 124 \<notin> set d \<Longrightarrow> a = c \<and> b = (d :: jsstring)"
  by (metis last_index_of_append_Cons append_eq_append_conv list.inject option.inject)

lemma format_key_inj:
  assumes "format_key l1 r1 = format_key l2 r2" "l1 \<noteq> Some []" "l2 \<noteq> Some []" "options_ok r1" "options_ok r2"
  shows "l1 = l2 \<and> do_hourCycle r1 = do_hourCycle r2 \<and> do_timeZone r1 = do_timeZone r2"
proof -
  let ?s = "\<lambda>x. case x of None \<Rightarrow> [] | Some s \<Rightarrow> s"
  have bars: "124 \<notin> set (?s (do_hourCycle r)) \<and> 124 \<notin> set (?s (do_timeZone r))" if "options_ok r" for r
    using that by (auto simp: options_ok_def split: option.splits)
  have "(?s l1 @ 124 # ?s (do_hourCycle r1)) @ 124 # ?s (do_timeZone r1) = (?s l2 @ 124 # ?s (do_hourCycle r2)) @ 124 # ?s (do_timeZone r2)"
    using assms(1) by (simp add: format_key_def Let_def)
  then have zone: "?s (do_timeZone r1) = ?s (do_timeZone r2)" and front: "?s l1 @ 124 # ?s (do_hourCycle r1) = ?s l2 @ 124 # ?s (do_hourCycle r2)"
    using last_bar bars assms(4,5) by blast+
  have "?s l1 = ?s l2 \<and> ?s (do_hourCycle r1) = ?s (do_hourCycle r2)" using last_bar [OF front] bars assms(4,5) by blast
  with zone show ?thesis using assms(2-5) by (auto simp: options_ok_def split: option.splits)
qed

definition fresh_formatter :: "(jsstring option \<Rightarrow> date_options \<Rightarrow> 'f option) \<Rightarrow> date_options \<Rightarrow> browser_prefs \<times> jsstring option \<Rightarrow> 'f option" where
  "fresh_formatter build options u = build (getDateTimeLocale (fst u) (snd u)) (withDateTimePreferences (fst u) options)"

definition memo_ok :: "(jsstring option \<Rightarrow> date_options \<Rightarrow> 'f option) \<Rightarrow> date_options \<Rightarrow> (jsstring \<times> 'f) option \<Rightarrow> bool" where
  "memo_ok build options cached \<longleftrightarrow>
     (\<forall>key f. cached = Some (key, f) \<longrightarrow>
        (\<exists>b language. prefs_ok b \<and> key = format_key (getDateTimeLocale b language) (withDateTimePreferences b options) \<and>
           fresh_formatter build options (b, language) = Some f))"

lemma locale_not_empty: "prefs_ok b \<Longrightarrow> getDateTimeLocale b language \<noteq> Some []"
  by (auto simp: getDateTimeLocale_def prefs_ok_def unset_def Let_def split: option.splits if_splits)

lemma same_formatter:
  assumes "options_ok options" "prefs_ok b1" "prefs_ok b2"
    "format_key (getDateTimeLocale b1 l1) (withDateTimePreferences b1 options) = format_key (getDateTimeLocale b2 l2) (withDateTimePreferences b2 options)"
  shows "fresh_formatter build options (b1, l1) = fresh_formatter build options (b2, l2)"
proof -
  have "getDateTimeLocale b1 l1 = getDateTimeLocale b2 l2 \<and>
      do_hourCycle (withDateTimePreferences b1 options) = do_hourCycle (withDateTimePreferences b2 options) \<and>
      do_timeZone (withDateTimePreferences b1 options) = do_timeZone (withDateTimePreferences b2 options)"
    using assms by (intro format_key_inj) (simp_all add: locale_not_empty resolved_options)
  moreover from this have "withDateTimePreferences b1 options = withDateTimePreferences b2 options"
    by (simp add: withDateTimePreferences_def Let_def)
  ultimately show ?thesis by (simp add: fresh_formatter_def)
qed

lemma get_formatter_fresh:
  assumes "options_ok options" "prefs_ok b" "memo_ok build options cached" "fresh_formatter build options (b, l) \<noteq> None"
  shows "fst (get_formatter build options b l cached) = fresh_formatter build options (b, l) \<and>
    memo_ok build options (snd (get_formatter build options b l cached))"
proof (cases "map_option fst cached = Some (format_key (getDateTimeLocale b l) (withDateTimePreferences b options))")
  case True
  then obtain f where "cached = Some (format_key (getDateTimeLocale b l) (withDateTimePreferences b options), f)" by auto
  moreover from this have "fresh_formatter build options (b, l) = Some f"
    using assms(3) same_formatter [OF assms(1) _ assms(2)] unfolding memo_ok_def by metis
  ultimately show ?thesis using assms(3) True by (simp add: get_formatter_def Let_def)
next
  case False
  obtain f where "fresh_formatter build options (b, l) = Some f" using assms(4) by auto
  with False assms(2) show ?thesis by (auto simp: get_formatter_def Let_def fresh_formatter_def memo_ok_def)
qed

text \<open>The memo of a date formatter never shows: in whatever order it is used while the preferences change, every use gets the
  formatter of the preferences at that moment, as if none had been kept.\<close>

theorem formatter_follows_preferences:
  assumes "options_ok options"
    "list_all (\<lambda>u. prefs_ok (fst u) \<and> fresh_formatter build options u \<noteq> None) uses"
  shows "formatters build options uses None = map (fresh_formatter build options) uses"
proof -
  have "formatters build options uses cached = map (fresh_formatter build options) uses" if "memo_ok build options cached" for cached
    using assms(2) that
  proof (induction uses arbitrary: cached)
    case (Cons u uses)
    then show ?case using get_formatter_fresh [OF assms(1), of "fst u" build cached "snd u"]
      by (cases u) (auto split: prod.split)
  qed simp
  then show ?thesis by (simp add: memo_ok_def)
qed

lemma formatter_follows_preferences_witness:
  "formatters (\<lambda>locale o'. Some (locale, do_timeZone o')) \<lparr>do_hour = True, do_hourCycle = None, do_timeZone = None\<rparr>
     [(sample_prefs, None), (sample_prefs\<lparr>bp_items := Map.empty\<rparr>, None), (sample_prefs, None)] None =
   [Some (Some (lit ''en''), Some (lit ''Europe/Berlin'')), Some (Some (lit ''en''), None), Some (Some (lit ''en''), Some (lit ''Europe/Berlin''))]"
proof -
  let ?uses = "[(sample_prefs, None), (sample_prefs\<lparr>bp_items := Map.empty\<rparr>, None), (sample_prefs, None)] :: (browser_prefs \<times> jsstring option) list"
  let ?o = "\<lparr>do_hour = True, do_hourCycle = None, do_timeZone = None\<rparr>"
  let ?b = "\<lambda>locale o'. Some (locale, do_timeZone o')"
  note defs = fresh_formatter_def getDateTimeLocale_def withDateTimePreferences_def getTimeZone_def getConsoleLanguage_def sample_prefs_def
    getItem_def unset_def Let_def
  have "options_ok ?o" by (simp add: options_ok_def)
  moreover have "list_all (\<lambda>u. prefs_ok (fst u) \<and> fresh_formatter ?b ?o u \<noteq> None) ?uses"
    by (simp add: prefs_ok_def fresh_formatter_def) (simp add: getConsoleLanguage_def sample_prefs_def getItem_def unset_def Let_def)
  ultimately have "formatters ?b ?o ?uses None = map (fresh_formatter ?b ?o) ?uses" by (rule formatter_follows_preferences)
  then show ?thesis by (simp add: defs)
qed

text \<open>The maps of supported locales and zones remember what the engine said.\<close>

lemma isSupported_remembers:
  assumes "\<And>k v. known k = Some v \<Longrightarrow> v = ok k"
  shows "fst (isSupported ok known key) = ok key" "snd (isSupported ok known key) k = Some v \<Longrightarrow> v = ok k"
  using assms by (auto simp: isSupported_def Let_def split: option.splits if_splits)

end
