(* ===== verification/Log_Tabs.thy ===== *)
theory Log_Tabs
  imports Log_Paging Log_Format Console_Urls
begin

text \<open>
  The two log tabs, \<^verbatim>\<open>plugins/logging/src/logs/PodLogsTab.tsx\<close> and \<^verbatim>\<open>NodeLogsTab.tsx\<close>, and the status line of \<^verbatim>\<open>LogsPanel.tsx\<close>:
  which container is read and with which format, which requests are made, and what reading backwards puts in front of what is
  held. They put together the stream's buffer, the annotation, the sniffing and the paging.
\<close>

section \<open>The pod tab\<close>

record logs_pod =
  pk_name :: jsstring
  pk_namespace :: jsstring
  pk_annotations :: "jsstring \<rightharpoonup> jsstring"
  pk_initContainers :: "jsstring list"
  pk_containers :: "jsstring list"
  pk_ephemeralContainers :: "jsstring list"

definition SNIFF_LINES :: nat where "SNIFF_LINES = 5"

definition DEFAULT_TAIL :: nat where "DEFAULT_TAIL = PAGE_LINES"

definition FORMAT_STORAGE_KEY :: jsstring where "FORMAT_STORAGE_KEY = lit ''logging-console-plugin/log-format''"

text \<open>The local storage; \<open>None\<close> where it cannot be used.\<close>

type_synonym local_storage = "(jsstring \<rightharpoonup> jsstring) option"

definition readStoredFormat :: "local_storage \<Rightarrow> log_format option" where
  "readStoredFormat storage = Option.bind storage (\<lambda>m. Option.bind (m FORMAT_STORAGE_KEY) isLogFormat)"

definition storeFormat :: "log_format \<Rightarrow> local_storage \<Rightarrow> local_storage" where
  "storeFormat f storage = map_option (\<lambda>m. m(FORMAT_STORAGE_KEY \<mapsto> format_name f)) storage"

record pod_logs =
  pl_container :: jsstring
  pl_pagesLoaded :: nat
  pl_follow :: bool
  pl_previous :: bool
  pl_storedFormat :: "log_format option"
  pl_pickedFormat :: "log_format option"
  pl_storage :: local_storage

definition open_pod_logs :: "local_storage \<Rightarrow> pod_logs" where
  "open_pod_logs storage = \<lparr>pl_container = [], pl_pagesLoaded = 1, pl_follow = True, pl_previous = False,
     pl_storedFormat = readStoredFormat storage, pl_pickedFormat = None, pl_storage = storage\<rparr>"

definition pod_containers :: "logs_pod \<Rightarrow> jsstring list" where
  "pod_containers pod = pk_initContainers pod @ pk_containers pod @ pk_ephemeralContainers pod"

definition preferred :: "logs_pod \<Rightarrow> jsstring" where
  "preferred pod =
     (let containers = pod_containers pod;
          first = (case pk_containers pod of c # _ \<Rightarrow> c | [] \<Rightarrow> (case containers of c # _ \<Rightarrow> c | [] \<Rightarrow> []))
      in case pk_annotations pod (lit ''kubectl.kubernetes.io/default-container'') of
           None \<Rightarrow> first
         | Some c \<Rightarrow> if c \<in> set containers then c else first)"

definition activeContainer :: "logs_pod \<Rightarrow> pod_logs \<Rightarrow> jsstring" where
  "activeContainer pod tab = (if pl_container tab \<in> set (pod_containers pod) then pl_container tab else preferred pod)"

text \<open>The request of the stream and of a page; \<open>None\<close> where none is made.\<close>

definition pod_query :: "logs_pod \<Rightarrow> pod_logs \<Rightarrow> nat \<Rightarrow> bool \<Rightarrow> pod_log_query option" where
  "pod_query pod tab tailLines follow =
     (if pk_namespace pod = [] \<or> pk_name pod = [] \<or> activeContainer pod tab = [] then None
      else Some \<lparr>pq_namespace = pk_namespace pod, pq_podName = pk_name pod, pq_container = activeContainer pod tab,
             pq_tailLines = Some tailLines, pq_follow = follow, pq_previous = pl_previous tab\<rparr>)"

definition pod_stream :: "logs_pod \<Rightarrow> pod_logs \<Rightarrow> pod_log_query option" where
  "pod_stream pod tab = pod_query pod tab DEFAULT_TAIL (pl_follow tab)"

definition sample_lines :: "log_buffer \<Rightarrow> jsstring list" where
  "sample_lines b = List.map_filter (\<lambda>i. lineAt b (firstSeq b + int i)) [0 ..< min SNIFF_LINES (lb_length b)]"

definition pod_hint :: "host \<Rightarrow> logs_pod \<Rightarrow> pod_logs \<Rightarrow> format_hint option" where
  "pod_hint h pod tab = annotatedFormat h (pk_annotations pod FORMAT_ANNOTATION) (activeContainer pod tab)"

definition pod_format :: "host \<Rightarrow> logs_pod \<Rightarrow> pod_logs \<Rightarrow> log_buffer \<Rightarrow> log_format" where
  "pod_format h pod tab b =
     (case pl_pickedFormat tab of
        Some f \<Rightarrow> f
      | None \<Rightarrow>
          (case pod_hint h pod tab of
             Some hint \<Rightarrow> fh_format hint
           | None \<Rightarrow> (case pl_storedFormat tab of Some f \<Rightarrow> f | None \<Rightarrow> sniffFormat (sample_lines b))))"

definition pod_columns :: "host \<Rightarrow> logs_pod \<Rightarrow> pod_logs \<Rightarrow> log_buffer \<Rightarrow> column_spec list option" where
  "pod_columns h pod tab b =
     (case pod_hint h pod tab of
        None \<Rightarrow> None
      | Some hint \<Rightarrow> if fh_format hint = pod_format h pod tab b then Some (fh_columns hint) else None)"

definition onContainerChange :: "jsstring \<Rightarrow> pod_logs \<Rightarrow> pod_logs" where
  "onContainerChange value tab = tab\<lparr>pl_container := value, pl_pickedFormat := None, pl_pagesLoaded := 1\<rparr>"

definition onFormatChange :: "jsstring \<Rightarrow> pod_logs \<Rightarrow> pod_logs" where
  "onFormatChange name tab =
     (case isLogFormat name of
        None \<Rightarrow> tab
      | Some f \<Rightarrow> tab\<lparr>pl_pickedFormat := Some f, pl_storedFormat := Some f, pl_storage := storeFormat f (pl_storage tab)\<rparr>)"

definition setFollow :: "bool \<Rightarrow> pod_logs \<Rightarrow> pod_logs" where
  "setFollow checked tab = tab\<lparr>pl_follow := checked\<rparr>"

definition setPrevious :: "bool \<Rightarrow> pod_logs \<Rightarrow> pod_logs" where
  "setPrevious checked tab = tab\<lparr>pl_previous := checked\<rparr>"

text \<open>
  \<^verbatim>\<open>fetchEarlier\<close> up to its \<^verbatim>\<open>await\<close>, with the number of lines held and of the page asked for, and after it, with the buffer
  as it is then.
\<close>

definition fetchEarlier_pod :: "logs_pod \<Rightarrow> pod_logs \<Rightarrow> log_buffer \<Rightarrow> (pod_log_query \<times> nat \<times> nat) option" where
  "fetchEarlier_pod pod tab b =
     (let nextPage = pl_pagesLoaded tab + 1
      in map_option (\<lambda>q. (q, lb_length b, nextPage)) (pod_query pod tab (DEFAULT_TAIL * nextPage) False))"

definition fetched_pod :: "nat \<Rightarrow> nat \<Rightarrow> jsstring list \<Rightarrow> log_buffer \<Rightarrow> pod_logs \<Rightarrow> jsstring list \<times> pod_logs" where
  "fetched_pod held nextPage fetched b tab =
     (let earlier = earlierPodLines fetched (lineAt b (firstSeq b)) held
      in (earlier, if earlier \<noteq> [] then tab\<lparr>pl_pagesLoaded := nextPage\<rparr> else tab))"

definition pod_resetKey :: "logs_pod \<Rightarrow> pod_logs \<Rightarrow> jsstring" where
  "pod_resetKey pod tab =
     pk_namespace pod @ [47] @ pk_name pod @ [47] @ activeContainer pod tab @ [47] @
     (if pl_previous tab then lit ''true'' else lit ''false'')"

definition pod_download :: "logs_pod \<Rightarrow> pod_logs \<Rightarrow> log_buffer \<Rightarrow> jsstring \<times> jsstring" where
  "pod_download pod tab b = (pk_name pod @ [45] @ activeContainer pod tab @ lit ''.log'', lb_text b)"

section \<open>The node tab\<close>

record node_logs =
  nl_unitFilter :: jsstring
  nl_appliedUnits :: "jsstring list"

definition open_node_logs :: node_logs where
  "open_node_logs = \<lparr>nl_unitFilter = [], nl_appliedUnits = []\<rparr>"

definition setUnitFilter :: "jsstring \<Rightarrow> node_logs \<Rightarrow> node_logs" where
  "setUnitFilter typed tab = tab\<lparr>nl_unitFilter := typed\<rparr>"

definition applyUnits :: "node_logs \<Rightarrow> node_logs" where
  "applyUnits tab = tab\<lparr>nl_appliedUnits := parseUnits (nl_unitFilter tab)\<rparr>"

definition clearUnits :: "node_logs \<Rightarrow> node_logs" where
  "clearUnits tab = tab\<lparr>nl_unitFilter := [], nl_appliedUnits := []\<rparr>"

definition node_query :: "jsstring \<Rightarrow> node_logs \<Rightarrow> jsstring option \<Rightarrow> node_journal_query" where
  "node_query node tab cursor =
     \<lparr>jq_node = node, jq_units = nl_appliedUnits tab, jq_tailLines = Some DEFAULT_TAIL, jq_beforeCursor = cursor\<rparr>"

definition node_stream :: "jsstring \<Rightarrow> node_logs \<Rightarrow> node_journal_query option" where
  "node_stream node tab = (if node = [] then None else Some (node_query node tab None))"

definition fetchEarlier_node :: "jsstring \<Rightarrow> node_logs \<Rightarrow> log_buffer \<Rightarrow> (node_journal_query \<times> jsstring) option" where
  "fetchEarlier_node node tab b =
     (case Option.bind (lineAt b (firstSeq b)) cursorOf of
        None \<Rightarrow> None
      | Some anchor \<Rightarrow> Some (node_query node tab (Some anchor), anchor))"

definition fetched_node :: "jsstring \<Rightarrow> jsstring list \<Rightarrow> jsstring list" where
  "fetched_node anchor fetched = earlierJournalLines fetched (Some anchor)"

definition node_resetKey :: "jsstring \<Rightarrow> node_logs \<Rightarrow> jsstring" where
  "node_resetKey node tab = node @ [47] @ join [44] (nl_appliedUnits tab)"

definition node_download :: "jsstring \<Rightarrow> log_buffer \<Rightarrow> jsstring \<times> jsstring" where
  "node_download node b = (node @ lit ''-journal.ndjson'', lb_text b)"

section \<open>The status line\<close>

datatype panel_count = Loading | Lines nat
datatype panel_note = LoadingEarlier | BeginningOfLog | Said jsstring

definition panel_status :: "bool \<Rightarrow> log_buffer \<Rightarrow> panel_count \<times> int option" where
  "panel_status loading b =
     (if loading then Loading else Lines (lb_length b), if 0 < droppedLines b then Some (droppedLines b) else None)"

definition panel_earlier :: "bool \<times> bool \<times> jsstring option \<Rightarrow> log_buffer \<Rightarrow> panel_note option" where
  "panel_earlier shown b =
     (case shown of
        (loading, canLoad, err) \<Rightarrow>
          if loading then Some LoadingEarlier
          else if \<not> canLoad \<and> 0 < lb_length b then Some (case err of None \<Rightarrow> BeginningOfLog | Some e \<Rightarrow> Said e)
          else None)"

section \<open>What is read\<close>

lemma sample_lines_first:
  assumes "lb_inv b"
  shows "sample_lines b = take SNIFF_LINES (ll_lines (lb_abs b))"
proof -
  have len: "lb_length b = length (ll_lines (lb_abs b))" using assms by (rule lb_length_refines)
  have "lineAt b (firstSeq b + int i) = Some (ll_lines (lb_abs b) ! i)" if "i < lb_length b" for i
    using that len by (simp add: lineAt_refines [OF assms] firstSeq_refines Let_def)
  then have "sample_lines b = map (\<lambda>i. ll_lines (lb_abs b) ! i) [0 ..< min SNIFF_LINES (lb_length b)]"
    by (auto simp: sample_lines_def List.map_filter_def intro!: map_cong filter_True)
  also have "\<dots> = take SNIFF_LINES (ll_lines (lb_abs b))"
    by (rule nth_equalityI) (simp_all add: len)
  finally show ?thesis .
qed

lemma first_line: "lb_inv b \<Longrightarrow> ll_lines (lb_abs b) \<noteq> [] \<Longrightarrow> lineAt b (firstSeq b) = Some (hd (ll_lines (lb_abs b)))"
  by (simp add: lineAt_refines firstSeq_refines Let_def hd_conv_nth)

text \<open>A pod's container is always read when it has one.\<close>

lemma active_container_listed: "pod_containers pod \<noteq> [] \<Longrightarrow> activeContainer pod tab \<in> set (pod_containers pod)"
proof -
  assume "pod_containers pod \<noteq> []"
  moreover have "set (pk_containers pod) \<subseteq> set (pod_containers pod)" by (auto simp: pod_containers_def)
  ultimately show ?thesis
    by (cases "pk_containers pod"; cases "pod_containers pod")
      (auto simp: activeContainer_def preferred_def Let_def split: option.splits)
qed

text \<open>The reader's choice of a format: it is shown at once, whatever the annotation says; it is kept in the storage, where
  the next tab finds it; and when another container is chosen there, it gives way to that container's annotation and holds
  where there is none. Until something is chosen or annotated the format is guessed from the first five lines held.\<close>

theorem format_choice:
  assumes "lb_inv b"
  shows "pod_format h pod (onFormatChange (format_name f) tab) b = f \<and>
    (pl_storage tab \<noteq> None \<longrightarrow> pl_storedFormat (open_pod_logs (pl_storage (onFormatChange (format_name f) tab))) = Some f) \<and>
    (let t = onContainerChange c (onFormatChange (format_name f) tab)
     in pod_format h pod t b = (case pod_hint h pod t of None \<Rightarrow> f | Some hint \<Rightarrow> fh_format hint) \<and>
        pod_columns h pod t b = map_option fh_columns (pod_hint h pod t)) \<and>
    (pl_pickedFormat tab = None \<and> pl_storedFormat tab = None \<and> pod_hint h pod tab = None \<longrightarrow>
       pod_format h pod tab b = sniffFormat (take 5 (ll_lines (lb_abs b))))"
proof -
  have "pl_storedFormat (open_pod_logs (pl_storage (onFormatChange (format_name f) tab))) = Some f" if "pl_storage tab \<noteq> None"
    using that by (auto simp: onFormatChange_def isLogFormat_name open_pod_logs_def readStoredFormat_def storeFormat_def)
  moreover have "sample_lines b = take 5 (ll_lines (lb_abs b))" using sample_lines_first [OF assms] by (simp add: SNIFF_LINES_def)
  ultimately show ?thesis
    by (auto simp: pod_format_def pod_columns_def onFormatChange_def onContainerChange_def isLogFormat_name Let_def split: option.splits)
qed

section \<open>Paging state is per log\<close>

lemma append_sep_inj: "x \<notin> set a \<Longrightarrow> x \<notin> set c \<Longrightarrow> a @ x # b = c @ x # d \<longleftrightarrow> a = c \<and> b = d"
  by (auto simp: append_eq_append_conv2 append_eq_Cons_conv Cons_eq_append_conv)

lemma parseUnits_parts: "u \<in> set (parseUnits v) \<Longrightarrow> u \<noteq> [] \<and> 44 \<notin> set u"
  by (auto simp: parseUnits_def UNIT_RE_def unit_start_def is_alnum_def list_all_iff split: list.splits)

lemma join_units_inj:
  assumes "\<forall>u \<in> set xs. u \<noteq> [] \<and> 44 \<notin> set u" "\<forall>u \<in> set ys. u \<noteq> [] \<and> 44 \<notin> set u" "join [44] xs = join [44] ys"
  shows "xs = (ys :: jsstring list)"
proof (cases "xs = [] \<or> ys = []")
  case True
  have "join [44] zs = [] \<Longrightarrow> zs = []" if "\<forall>u \<in> set zs. u \<noteq> [] \<and> 44 \<notin> set u" for zs :: "jsstring list"
    using that by (induction zs rule: induct_list012) (auto simp: join_Cons)
  from this [OF assms(1)] this [OF assms(2)] show ?thesis using True assms(3) by auto
next
  case False
  then have "split_on 44 (join [44] xs) = xs" "split_on 44 (join [44] ys) = ys" using assms(1,2) by (simp_all add: list_all_iff)
  then show ?thesis using assms(3) by metis
qed

text \<open>Paging never carries over from one log to another: the key of its state tells the logs apart, by namespace, pod,
  container and run for a pod and by node and units for a node, given names without a slash.\<close>

theorem paging_keys_distinct:
  assumes "\<forall>n \<in> {pk_namespace p, pk_name p, activeContainer p t, pk_namespace p', pk_name p', activeContainer p' t', node, node'}. 47 \<notin> set n"
    "nl_appliedUnits u = parseUnits v" "nl_appliedUnits u' = parseUnits v'"
  shows "(pod_resetKey p t = pod_resetKey p' t' \<longleftrightarrow>
      pk_namespace p = pk_namespace p' \<and> pk_name p = pk_name p' \<and> activeContainer p t = activeContainer p' t' \<and> pl_previous t = pl_previous t') \<and>
    (node_resetKey node u = node_resetKey node' u' \<longleftrightarrow> node = node' \<and> nl_appliedUnits u = nl_appliedUnits u')"
proof -
  have flag: "(if a then lit ''true'' else lit ''false'') = (if b then lit ''true'' else lit ''false'') \<longleftrightarrow> a = b" for a b by simp
  have "pod_resetKey p t = pod_resetKey p' t' \<longleftrightarrow>
      pk_namespace p = pk_namespace p' \<and> pk_name p = pk_name p' \<and> activeContainer p t = activeContainer p' t' \<and> pl_previous t = pl_previous t'"
    using assms(1) by (simp add: pod_resetKey_def append_sep_inj flag del: lit_Cons)
  moreover have "node_resetKey node u = node_resetKey node' u' \<longleftrightarrow> node = node' \<and> nl_appliedUnits u = nl_appliedUnits u'"
    using assms join_units_inj [of "parseUnits v" "parseUnits v'"] parseUnits_parts by (auto simp: node_resetKey_def append_sep_inj)
  ultimately show ?thesis by blast
qed

section \<open>Reading backwards\<close>

text \<open>What the kubelet answers to \<^verbatim>\<open>tailLines=n\<close>, the container having written \<open>log\<close> so far.\<close>

definition tail_lines :: "nat \<Rightarrow> jsstring list \<Rightarrow> jsstring list" where
  "tail_lines n log = drop (length log - n) log"

definition plain_lines :: "jsstring list \<Rightarrow> bool" where
  "plain_lines ls \<longleftrightarrow> list_all (\<lambda>l. NL \<notin> set l \<and> CR \<notin> set l) ls"




text \<open>On a followed log that has grown, reading backwards stops too early: the tail asked for is counted from the end of
  the log and sized by the pages read, so when more lines are held than it has, it holds none that are older, the page is
  empty, and the tab says that this is the beginning of the log, whatever was written before.\<close>

theorem followed_log_cut_short:
  assumes "lb_inv b" "ll_lines (lb_abs b) = held" "fetchEarlier_pod pod tab b = Some (q, n, nextPage)"
    "DEFAULT_TAIL * (pl_pagesLoaded tab + 1) < length held" "hd held \<notin> set (tl held)"
    "pr_inFlight p = None" "pr_aborted p = []" "pr_buffer p = b"
    and page: "page = fst (fetched_pod n nextPage (tail_lines (the (pq_tailLines q)) (older @ held)) b tab)"
    and answered: "p' = page_arrives (pr_next p) (pr_key p) page (loadEarlier p)"
  shows "page = [] \<and> panel_earlier (shown_paging True p') (pr_buffer p') = Some BeginningOfLog"
proof -
  define tail where "tail = DEFAULT_TAIL * (pl_pagesLoaded tab + 1)"
  have q: "pq_tailLines q = Some tail" and n: "n = length held"
    using assms(1-3) by (auto simp: fetchEarlier_pod_def pod_query_def tail_def lb_length_refines Let_def split: if_splits)
  obtain x xs where held: "held = x # xs" using assms(4) by (cases held) auto
  have first: "lineAt b (firstSeq b) = Some (hd held)" using first_line [OF assms(1)] held unfolding assms(2) by blast
  have tail: "tail < length held" using assms(4) by (simp add: tail_def)
  have fetched: "tail_lines tail (older @ held) = drop (length held - tail) held" by (simp add: tail_lines_def) (use tail in simp)
  then have "set (tail_lines tail (older @ held)) \<subseteq> set (tl held)"
    using tail held by (auto simp: drop_Cons' split: if_splits dest: in_set_dropD)
  then have "earlierPodLines (tail_lines tail (older @ held)) (Some (hd held)) (length held) =
      take (length (tail_lines tail (older @ held)) - length held) (tail_lines tail (older @ held))"
    using assms(5) by (intro earlierPodLines_no_anchor) auto
  then have empty: "page = []"
    using first tail by (simp add: page fetched_pod_def Let_def q n fetched)
  moreover have "0 < lb_length b" using assms(1,2) held by (simp add: lb_length_refines)
  ultimately show ?thesis
    using assms(6-8) by (simp add: answered panel_earlier_def shown_paging_def page_arrives_def page_settled_def loadEarlier_def
        drop_request_def pager_update_def Let_def)
qed

subsection \<open>Sample runs\<close>

definition sample_pod :: logs_pod where
  "sample_pod = \<lparr>pk_name = lit ''web'', pk_namespace = lit ''ns'', pk_annotations = Map.empty, pk_initContainers = [],
     pk_containers = [lit ''app''], pk_ephemeralContainers = []\<rparr>"

lemma format_choice_witness:
  "pod_format ascii_host sample_pod (onFormatChange (format_name Json) (open_pod_logs (Some Map.empty))) one_line = Json"
  using format_choice [OF one_line(1)] by blast

lemma paging_keys_distinct_witness:
  "pod_resetKey sample_pod (open_pod_logs None) \<noteq> pod_resetKey sample_pod (setPrevious True (open_pod_logs None))"
proof -
  have "47 \<notin> set (activeContainer sample_pod t)" for t :: pod_logs
    by (simp add: activeContainer_def preferred_def pod_containers_def sample_pod_def)
  moreover have "parseUnits [] = []" by (simp add: parseUnits_def)
  ultimately show ?thesis
    using paging_keys_distinct [of sample_pod "open_pod_logs None" sample_pod "setPrevious True (open_pod_logs None)" "[]" "[]"
        "\<lparr>nl_unitFilter = [], nl_appliedUnits = []\<rparr>" "[]" "\<lparr>nl_unitFilter = [], nl_appliedUnits = []\<rparr>" "[]"]
    by (simp add: sample_pod_def setPrevious_def open_pod_logs_def)
qed


lemma append_whole_lines:
  assumes "ls \<noteq> []" "plain_lines ls" "length ls \<le> maxLines (new_log_buffer m p)"
  defines "b \<equiv> append (new_log_buffer m p) (join [NL] ls @ [NL])"
  shows "lb_inv b \<and> ll_lines (lb_abs b) = ls"
proof -
  note app = append_refines [OF new_log_buffer_refines(1) [of m p], of "join [NL] ls @ [NL]"]
  have "split_on NL (join [NL] ls) = ls" "map strip_cr ls = ls"
    using assms(1,2) by (auto simp: plain_lines_def list_all_iff intro!: map_idI)
  then show ?thesis
    using assms(3) app by (simp add: b_def new_log_buffer_refines(2) ll_append_def Let_def split_on_snoc ll_evict_fits)
qed

text \<open>A log of which 20001 lines are held.\<close>

definition grown_lines :: "jsstring list" where
  "grown_lines = [120] # replicate 20000 [121]"

definition grown_buffer :: log_buffer where
  "grown_buffer = append (new_log_buffer None None) (join [NL] grown_lines @ [NL])"

lemma grown: "lb_inv grown_buffer" "ll_lines (lb_abs grown_buffer) = grown_lines"
  using append_whole_lines [of grown_lines None None]
  by (simp_all add: grown_buffer_def grown_lines_def plain_lines_def new_log_buffer_def list_all_iff DEFAULT_MAX_LINES_def
      del: replicate.simps)

lemma followed_log_cut_short_witness:
  "panel_earlier (shown_paging True (page_arrives 0 [] [] (loadEarlier (new_pager [] grown_buffer))))
     (pr_buffer (page_arrives 0 [] [] (loadEarlier (new_pager [] grown_buffer)))) = Some BeginningOfLog"
proof -
  obtain q where q: "fetchEarlier_pod sample_pod (open_pod_logs None) grown_buffer = Some (q, lb_length grown_buffer, 2)"
    by (auto simp: fetchEarlier_pod_def pod_query_def sample_pod_def activeContainer_def preferred_def pod_containers_def open_pod_logs_def Let_def)
  have "DEFAULT_TAIL * (pl_pagesLoaded (open_pod_logs None) + 1) < length grown_lines" "hd grown_lines \<notin> set (tl grown_lines)"
    by (simp_all add: grown_lines_def DEFAULT_TAIL_def PAGE_LINES_def open_pod_logs_def del: replicate.simps)
  moreover have "pr_inFlight (new_pager [] grown_buffer) = None" "pr_aborted (new_pager [] grown_buffer) = []"
    "pr_buffer (new_pager [] grown_buffer) = grown_buffer" "pr_next (new_pager [] grown_buffer) = 0" "pr_key (new_pager [] grown_buffer) = []"
    by (simp_all add: new_pager_def)
  ultimately show ?thesis
    using followed_log_cut_short [OF grown q, where p = "new_pager [] grown_buffer" and older = "[[119]]"] by metis
qed

end
