(* ===== verification/Log_Reroute.thy ===== *)
theory Log_Reroute
  imports Console_Urls
begin

text \<open>
  The rerouting of console core's journal requests, \<^verbatim>\<open>plugins/logging/src/fetch-patch.ts\<close>: the URLs that are rewritten, the
  patched \<^verbatim>\<open>fetch\<close>, the rewriting of links in the page and the guard of the path menu. \<open>base\<close> is the console's base path.
\<close>

section \<open>The rewriting of a URL\<close>

definition node_char :: "code_unit \<Rightarrow> bool" where
  "node_char c \<longleftrightarrow> is_alnum c \<or> c = 46 \<or> c = 45"

definition line_end :: "code_unit \<Rightarrow> bool" where
  "line_end c \<longleftrightarrow> c \<in> {10, 13, 8232, 8233}"

definition after_prefix :: "jsstring \<Rightarrow> jsstring \<Rightarrow> jsstring option" where
  "after_prefix p s = (if starts_with p s then Some (drop (length p) s) else None)"

text \<open>
  \<^verbatim>\<open>journalURLRegExp().exec(url)\<close>, without the origin: the node and the query. The node's characters do not include the slash
  that follows, so nothing is tried twice.
\<close>

definition match_path :: "jsstring option \<Rightarrow> jsstring \<Rightarrow> (jsstring \<times> jsstring) option" where
  "match_path base s =
     Option.bind (after_prefix (consolePath base (lit ''/api/kubernetes/api/v1/nodes/'')) s) (\<lambda>r.
       let node = takeWhile node_char r
       in if node = [] then None
          else Option.bind (after_prefix (lit ''/proxy/logs/journal'') (dropWhile node_char r)) (\<lambda>r2.
            let r3 = (case after_prefix [47] r2 of None \<Rightarrow> r2 | Some x \<Rightarrow> x)
            in if r3 = [] then Some (node, [])
               else Option.bind (after_prefix [63] r3) (\<lambda>query. if list_ex line_end query then None else Some (node, query))))"

text \<open>The origin is tried with as long a host as there is, then shorter, and then without.\<close>

definition origin_lengths :: "jsstring \<Rightarrow> nat list" where
  "origin_lengths url =
     (let scheme = (if starts_with (lit ''https://'') url then 8 else if starts_with (lit ''http://'') url then 7 else 0);
          host = length (takeWhile (\<lambda>c. c \<noteq> 47) (drop scheme url))
      in (if scheme = 0 then [] else map (\<lambda>k. scheme + k) (rev [1 ..< Suc host])) @ [0])"

definition journalURLRegExp :: "jsstring option \<Rightarrow> jsstring \<Rightarrow> (jsstring \<times> jsstring) option" where
  "journalURLRegExp base url =
     (case List.map_filter (\<lambda>k. match_path base (drop k url)) (origin_lengths url) of [] \<Rightarrow> None | m # _ \<Rightarrow> Some m)"

definition pluginJournalAPI :: "jsstring option \<Rightarrow> jsstring" where
  "pluginJournalAPI base = consolePath base (lit ''/api/proxy/plugin/logging-console-plugin/api/v1/nodes'')"

definition rewriteTo :: "jsstring option \<Rightarrow> jsstring \<Rightarrow> jsstring \<Rightarrow> jsstring option" where
  "rewriteTo base route url =
     map_option (\<lambda>(node, query). pluginJournalAPI base @ [47] @ node @ [47] @ route @ (if query = [] then [] else [63] @ query))
       (journalURLRegExp base url)"

definition rewriteJournalURL :: "jsstring option \<Rightarrow> jsstring \<Rightarrow> jsstring option" where
  "rewriteJournalURL base url = rewriteTo base (lit ''journal'') url"

definition rewriteRawJournalURL :: "jsstring option \<Rightarrow> jsstring \<Rightarrow> jsstring option" where
  "rewriteRawJournalURL base url = rewriteTo base (lit ''journal/raw'') url"

section \<open>The page\<close>

text \<open>\<^verbatim>\<open>/\/nodes\/[^/]+\/logs\/?$/\<close>\<close>

definition NODE_LOGS_PAGE_RE :: "jsstring \<Rightarrow> bool" where
  "NODE_LOGS_PAGE_RE path =
     (let p = (if ends_with [47] path \<and> ends_with (lit ''/logs/'') path then butlast path else path)
      in ends_with (lit ''/logs'') p \<and>
         (let front = take (length p - 5) p; name = rev (takeWhile (\<lambda>c. c \<noteq> 47) (rev front))
          in name \<noteq> [] \<and> ends_with (lit ''/nodes/'') (take (length front - length name) front)))"

text \<open>An anchor is its \<^verbatim>\<open>href\<close>; setting it is what the observer sees next.\<close>

definition rewriteAnchor :: "jsstring option \<Rightarrow> jsstring option \<Rightarrow> jsstring option" where
  "rewriteAnchor base href =
     (case href of
        None \<Rightarrow> None
      | Some url \<Rightarrow>
          if url = [] then href
          else (case rewriteRawJournalURL base url of None \<Rightarrow> href | Some r \<Rightarrow> if r = [] then href else Some r))"

definition observe :: "jsstring option \<Rightarrow> jsstring \<Rightarrow> jsstring option list \<Rightarrow> jsstring option list" where
  "observe base pathname anchors = (if NODE_LOGS_PAGE_RE pathname then map (rewriteAnchor base) anchors else anchors)"

text \<open>
  The click on an entry of the path menu that is held back: the text of the toggle, if there is one, and of the entry clicked.
\<close>

definition path_select_guard :: "jsstring \<Rightarrow> jsstring option \<Rightarrow> jsstring option \<Rightarrow> bool" where
  "path_select_guard pathname toggle item =
     (NODE_LOGS_PAGE_RE pathname \<and>
      (case toggle of
         None \<Rightarrow> False
       | Some t \<Rightarrow> (case item of None \<Rightarrow> False | Some i \<Rightarrow> trim t \<noteq> [] \<and> trim i = trim t)))"

section \<open>The patch\<close>

text \<open>\<^verbatim>\<open>window.fetch\<close> and the two guards on the window. A request is the URL that is sent; \<open>None\<close> is an input that is no URL.\<close>

datatype window_fetch = OrigFetch | PatchedFetch window_fetch

record guarded_window =
  gw_fetch :: window_fetch
  gw_pathSelectGuards :: nat
  gw_rawLinkRewriters :: nat
  gw_flag :: bool

fun fetch_url :: "jsstring option \<Rightarrow> window_fetch \<Rightarrow> jsstring option \<Rightarrow> jsstring option" where
  "fetch_url base OrigFetch input = input"
| "fetch_url base (PatchedFetch orig) input =
     (case Option.bind input (rewriteJournalURL base) of
        None \<Rightarrow> fetch_url base orig input
      | Some rewritten \<Rightarrow> if rewritten = [] then fetch_url base orig input else fetch_url base orig (Some rewritten))"

definition installJournalFetchPatch :: "guarded_window \<Rightarrow> guarded_window" where
  "installJournalFetchPatch w =
     w\<lparr>gw_pathSelectGuards := (if 0 < gw_pathSelectGuards w then gw_pathSelectGuards w else 1),
       gw_rawLinkRewriters := (if 0 < gw_rawLinkRewriters w then gw_rawLinkRewriters w else 1),
       gw_fetch := (case gw_fetch w of PatchedFetch _ \<Rightarrow> gw_fetch w | OrigFetch \<Rightarrow> PatchedFetch OrigFetch),
       gw_flag := True\<rparr>"

section \<open>Lemmas\<close>

lemma starts_with_same: "starts_with (b @ x) (b @ y) \<longleftrightarrow> starts_with x y"
  by (simp add: starts_with_def)

lemma after_prefix_append [simp]: "after_prefix p (p @ s) = Some s"
  by (simp add: after_prefix_def starts_with_def)

lemma consolePath_split: "consolePath base p = consolePath base [] @ p"
  by (simp add: consolePath_def)

text \<open>A base path is empty or begins with a slash, and so does whatever is below it.\<close>

definition base_ok :: "jsstring option \<Rightarrow> bool" where
  "base_ok base \<longleftrightarrow> consolePath base [] = [] \<or> hd (consolePath base []) = 47"

lemma below_base_slash: "base_ok base \<Longrightarrow> \<exists>rest. consolePath base [] @ 47 # p = 47 # rest"
  by (cases "consolePath base []") (auto simp: base_ok_def)

lemma no_origin: "origin_lengths (47 # s) = [0]"
  by (simp add: origin_lengths_def starts_with_def Let_def)

definition journal_path :: "jsstring option \<Rightarrow> jsstring \<Rightarrow> jsstring \<Rightarrow> jsstring \<Rightarrow> jsstring" where
  "journal_path base node slash query =
     consolePath base (lit ''/api/kubernetes/api/v1/nodes/'') @ node @ lit ''/proxy/logs/journal'' @ slash @
     (if query = [] then [] else 63 # query)"

lemma match_path_journal:
  assumes "node \<noteq> []" "list_all node_char node" "\<not> list_ex line_end query" "slash \<in> {[], [47]}"
  shows "match_path base (journal_path base node slash query) = Some (node, query)"
proof -
  have node: "takeWhile node_char (node @ lit ''/proxy/logs/journal'' @ r) = node"
    "dropWhile node_char (node @ lit ''/proxy/logs/journal'' @ r) = lit ''/proxy/logs/journal'' @ r" for r
    using assms(2) by (simp_all add: list_all_iff takeWhile_append dropWhile_append node_char_def is_alnum_def)
  have "after_prefix [47] [] = None" "after_prefix [47] (63 # q) = None" "after_prefix [47] (47 # r) = Some r"
    "after_prefix [63] (63 # q) = Some q" for q r by (simp_all add: after_prefix_def starts_with_def)
  then show ?thesis
    unfolding match_path_def journal_path_def after_prefix_append bind.simps Let_def node using assms(1,3,4) by auto
qed

lemma journal_matched:
  assumes "base_ok base" "node \<noteq> []" "list_all node_char node" "\<not> list_ex line_end query" "slash \<in> {[], [47]}"
    "origin = [] \<or> origin = scheme @ host \<and> scheme \<in> {lit ''http://'', lit ''https://''} \<and> host \<noteq> [] \<and> 47 \<notin> set host"
  shows "journalURLRegExp base (origin @ journal_path base node slash query) = Some (node, query)"
proof -
  define p where "p = journal_path base node slash query"
  obtain r where r: "p = 47 # r"
    using below_base_slash [OF assms(1)] consolePath_split [of base "lit ''/api/kubernetes/api/v1/nodes/''"]
    by (fastforce simp: p_def journal_path_def)
  have m: "match_path base p = Some (node, query)" unfolding p_def by (rule match_path_journal [OF assms(2-5)])
  show ?thesis
  proof (cases "origin = []")
    case True
    then show ?thesis using m by (simp add: journalURLRegExp_def r no_origin map_filter_simps flip: p_def)
  next
    case False
    then have o: "origin = scheme @ host" "host \<noteq> []" "47 \<notin> set host" "scheme \<in> {lit ''http://'', lit ''https://''}" using assms(6) by auto
    have "takeWhile (\<lambda>c. c \<noteq> 47) (host @ 47 # r) = host" using o(3) by (induction host) auto
    moreover have "scheme = lit ''http://'' \<or> scheme = lit ''https://''" using o(4) by blast
    ultimately have "origin_lengths (origin @ 47 # r) = map (\<lambda>k. length scheme + k) (rev [1 ..< Suc (length host)]) @ [0]"
      by (elim disjE) (simp_all add: o(1) origin_lengths_def starts_with_def Let_def del: upt_Suc)
    moreover have "rev [1 ..< Suc (length host)] = length host # rev [1 ..< length host]" using o(2) by (cases host) simp_all
    ultimately have "origin_lengths (origin @ p) = length origin # map (\<lambda>k. length scheme + k) (rev [1 ..< length host]) @ [0]"
      unfolding r by (simp add: o(1))
    then show ?thesis using m by (simp add: journalURLRegExp_def map_filter_simps flip: p_def)
  qed
qed

lemma not_journal:
  assumes "base_ok base"
  shows "journalURLRegExp base (consolePath base (lit ''/api/proxy/plugin/logging-console-plugin/api/v1/nodes'') @ s) = None"
proof -
  let ?u = "consolePath base (lit ''/api/proxy/plugin/logging-console-plugin/api/v1/nodes'') @ s"
  obtain r where r: "?u = 47 # r"
    using below_base_slash [OF assms] consolePath_split [of base "lit ''/api/proxy/plugin/logging-console-plugin/api/v1/nodes''"] by fastforce
  have "\<not> starts_with (consolePath base (lit ''/api/kubernetes/api/v1/nodes/'')) ?u"
    unfolding consolePath_split [of base "lit _"] append_assoc starts_with_same by (simp add: starts_with_def)
  then have "match_path base ?u = None" by (simp add: match_path_def after_prefix_def)
  then show ?thesis unfolding journalURLRegExp_def r no_origin by (simp add: map_filter_simps)
qed

section \<open>Properties\<close>

text \<open>C35: The journal requests of console core, relative or with an origin and under any base path, go to the plugin's own
  journal of the same node with the query unchanged; and what has been rewritten is not rewritten again, so the observer that
  rewrites links does not answer to its own changes for ever.\<close>

theorem journal_rerouted:
  assumes "base_ok base" "node \<noteq> []" "list_all node_char node" "\<not> list_ex line_end query" "slash \<in> {[], [47]}"
    "origin = [] \<or> origin = scheme @ host \<and> scheme \<in> {lit ''http://'', lit ''https://''} \<and> host \<noteq> [] \<and> 47 \<notin> set host"
  shows "rewriteTo base route (origin @ journal_path base node slash query) =
    Some (consolePath base (lit ''/api/proxy/plugin/logging-console-plugin/api/v1/nodes/'') @ node @ [47] @ route @
      (if query = [] then [] else 63 # query)) \<and>
    (rewriteTo base route url = Some v \<longrightarrow> rewriteTo base route' v = None)"
proof -
  have "rewriteTo base route' v = None" if "rewriteTo base route url = Some v" for v
    using that not_journal [OF assms(1)] by (auto simp: rewriteTo_def pluginJournalAPI_def simp del: lit_Cons)
  moreover have "rewriteTo base route (origin @ journal_path base node slash query) =
      Some (pluginJournalAPI base @ [47] @ node @ [47] @ route @ (if query = [] then [] else [63] @ query))"
    by (simp only: rewriteTo_def journal_matched [OF assms] option.map prod.case)
  moreover have "consolePath base (lit ''/api/proxy/plugin/logging-console-plugin/api/v1/nodes/'') = pluginJournalAPI base @ [47]"
    by (simp add: pluginJournalAPI_def consolePath_def)
  ultimately show ?thesis by (simp only: append_assoc append_Cons append_Nil) blast
qed

lemma journal_rerouted_witness:
  "rewriteTo None (lit ''journal'') (lit ''https://h'' @ journal_path None (lit ''n1'') [] (lit ''tailLines=5'')) =
     Some (lit ''/api/proxy/plugin/logging-console-plugin/api/v1/nodes/n1/journal?tailLines=5'')"
proof -
  have "base_ok None" by (simp add: base_ok_def consolePath_def trim_end_def)
  from journal_rerouted [OF this, of "lit ''n1''" "lit ''tailLines=5''" "[]" "lit ''https://h''" "lit ''https://''" "lit ''h''" "lit ''journal''"]
  show ?thesis by (simp add: node_char_def is_alnum_def line_end_def consolePath_def trim_end_def)
qed

text \<open>
  Requests that are not for the journal go through as they are, installing the patch again changes nothing, and a link that
  the observer has seen is left alone.
\<close>

lemma other_requests_untouched: "Option.bind input (rewriteJournalURL base) = None \<Longrightarrow> fetch_url base (PatchedFetch OrigFetch) input = input"
  by simp

lemma install_once: "installJournalFetchPatch (installJournalFetchPatch w) = installJournalFetchPatch w"
  by (simp add: installJournalFetchPatch_def split: window_fetch.split)

lemma anchors_settle:
  assumes "base_ok base"
  shows "observe base pathname (observe base pathname anchors) = observe base pathname anchors"
proof -
  have "rewriteRawJournalURL base v = None" if "rewriteRawJournalURL base u = Some v" for u v
    using that not_journal [OF assms] by (auto simp: rewriteRawJournalURL_def rewriteTo_def pluginJournalAPI_def simp del: lit_Cons)
  then have "rewriteAnchor base (rewriteAnchor base a) = rewriteAnchor base a" for a
    by (auto simp: rewriteAnchor_def split: option.splits)
  then show ?thesis by (simp add: observe_def)
qed

end
