(* ===== verification/Log_Settings.thy ===== *)
theory Log_Settings
  imports Fs_Dates Complex_Main
begin

text \<open>
  How the log viewer is set up: the format of its time column from the console's preferences, which it follows
  (\<^verbatim>\<open>plugins/logging/src/logs/time-format.ts\<close>), and its height (\<^verbatim>\<open>fill-height.ts\<close>). The storage, the zones and the locales are
  those of \<open>Fs_Dates\<close>; whether \<^verbatim>\<open>Intl.DateTimeFormat\<close> accepts a locale and options is a parameter.
\<close>

section \<open>The time column\<close>

definition timeZoneFromPreference :: "browser_prefs \<Rightarrow> jsstring option" where
  "timeZoneFromPreference b =
     (let timeZone = getItem b ''bridge/time-zone''
      in if \<not> unset timeZone \<and> timeZone \<noteq> Some (lit ''browser'') \<and> bp_zone_ok b (the timeZone) then timeZone else None)"

text \<open>The compact format in a zone, or the engine's in a locale (\<open>None\<close> for the browser's), with an hour cycle and a zone.\<close>

datatype column_format = CompactFormat jsstring | IntlFormat "jsstring option" "jsstring option" "jsstring option"

definition timestampFormatFromPreference :: "(jsstring option \<Rightarrow> jsstring option \<Rightarrow> jsstring option \<Rightarrow> bool) \<Rightarrow> browser_prefs \<Rightarrow>
    column_format option" where
  "timestampFormatFromPreference accepts b =
     (let locale = getItem b ''bridge/date-time-locale'';
          storedHourCycle = getItem b ''bridge/hour-cycle'';
          hourCycle = (if storedHourCycle = Some (lit ''h12'') \<or> storedHourCycle = Some (lit ''h23'') then storedHourCycle else None);
          timeZone = timeZoneFromPreference b;
          ownLocale = (\<not> unset locale \<and> locale \<noteq> Some (lit ''language''));
          compact = map_option CompactFormat timeZone
      in if \<not> ownLocale \<and> hourCycle = None then compact
         else (let resolved = (if locale = Some (lit ''browser'') then None
                               else if ownLocale then locale
                               else Some (case getItem b ''bridge/last-language'' of None \<Rightarrow> bp_language b | Some l \<Rightarrow> l))
               in if accepts resolved hourCycle timeZone then Some (IntlFormat resolved hourCycle timeZone) else compact))"

text \<open>
  The compact format from the parts of a date; a part the engine does not give is empty. The date with its time, and the time
  alone.
\<close>

definition compact_time :: "(jsstring \<rightharpoonup> jsstring) \<Rightarrow> jsstring" where
  "compact_time parts =
     (let p = (\<lambda>key. case parts (lit key) of None \<Rightarrow> [] | Some s \<Rightarrow> s)
      in p ''hour'' @ [58] @ p ''minute'' @ [58] @ p ''second'' @ [46] @ p ''fractionalSecond'')"

definition compact_dateTime :: "(jsstring \<rightharpoonup> jsstring) \<Rightarrow> jsstring" where
  "compact_dateTime parts =
     (let p = (\<lambda>key. case parts (lit key) of None \<Rightarrow> [] | Some s \<Rightarrow> s)
      in p ''month'' @ [45] @ p ''day'' @ [32] @ compact_time parts)"

text \<open>\<^verbatim>\<open>Array.from(text)\<close>: a surrogate pair is one character.\<close>

fun displayWidth :: "jsstring \<Rightarrow> nat" where
  "displayWidth [] = 0"
| "displayWidth [c] = (if 11904 \<le> c then 2 else 1)"
| "displayWidth (c # d # s) =
     (if 55296 \<le> c \<and> c \<le> 56319 \<and> 56320 \<le> d \<and> d \<le> 57343 then 2 + displayWidth s
      else (if 11904 \<le> c then 2 else 1) + displayWidth (d # s))"

definition timestampColumnWidth :: "jsstring \<Rightarrow> jsstring \<Rightarrow> jsstring" where
  "timestampColumnWidth morning evening = show_nat (max (displayWidth morning) (displayWidth evening) + 1) @ lit ''ch''"

section \<open>Following the preferences\<close>

definition FORMAT_KEYS :: "jsstring list" where
  "FORMAT_KEYS = map lit [''bridge/date-time-locale'', ''bridge/hour-cycle'', ''bridge/time-zone'', ''bridge/last-language'']"

text \<open>
  \<^verbatim>\<open>useTimestampFormat\<close>: the format held, and the storage it was read from. A key is written by console in this window, which
  says so with its own event, or in another one, which is the \<^verbatim>\<open>storage\<close> event with the key; \<open>None\<close> is a storage that was cleared.
\<close>

record format_hook =
  hk_prefs :: browser_prefs
  hk_format :: "column_format option"

datatype format_event = PreferenceChanged jsstring "jsstring option" | StorageEvent jsstring "jsstring option" | StorageCleared

definition write_item :: "jsstring \<Rightarrow> jsstring option \<Rightarrow> browser_prefs \<Rightarrow> browser_prefs" where
  "write_item key v b = b\<lparr>bp_items := (bp_items b)(key := v)\<rparr>"

fun on_format_event :: "(jsstring option \<Rightarrow> jsstring option \<Rightarrow> jsstring option \<Rightarrow> bool) \<Rightarrow> format_event \<Rightarrow> format_hook \<Rightarrow> format_hook" where
  "on_format_event accepts (PreferenceChanged key v) hk =
     (let b = write_item key v (hk_prefs hk) in hk\<lparr>hk_prefs := b, hk_format := timestampFormatFromPreference accepts b\<rparr>)"
| "on_format_event accepts (StorageEvent key v) hk =
     (let b = write_item key v (hk_prefs hk)
      in if key \<in> set FORMAT_KEYS then hk\<lparr>hk_prefs := b, hk_format := timestampFormatFromPreference accepts b\<rparr> else hk\<lparr>hk_prefs := b\<rparr>)"
| "on_format_event accepts StorageCleared hk =
     (let b = (hk_prefs hk)\<lparr>bp_items := Map.empty\<rparr> in hk\<lparr>hk_prefs := b, hk_format := timestampFormatFromPreference accepts b\<rparr>)"

definition useTimestampFormat :: "(jsstring option \<Rightarrow> jsstring option \<Rightarrow> jsstring option \<Rightarrow> bool) \<Rightarrow> browser_prefs \<Rightarrow> format_hook" where
  "useTimestampFormat accepts b = \<lparr>hk_prefs = b, hk_format = timestampFormatFromPreference accepts b\<rparr>"

section \<open>The height\<close>

definition MIN_VIEWER_HEIGHT :: int where "MIN_VIEWER_HEIGHT = 240"
definition VIEWER_BOTTOM_GUTTER :: rat where "VIEWER_BOTTOM_GUTTER = 16"

text \<open>\<^verbatim>\<open>Math.round\<close> rounds halves up.\<close>

definition computeFillHeight :: "rat \<Rightarrow> rat \<Rightarrow> rat \<Rightarrow> rat \<Rightarrow> int" where
  "computeFillHeight viewerTop scrollerTop scrollerClientHeight scrollerScrollTop =
     (let offsetWithinScroller = viewerTop - scrollerTop + scrollerScrollTop;
          available = scrollerClientHeight - offsetWithinScroller - VIEWER_BOTTOM_GUTTER
      in max MIN_VIEWER_HEIGHT \<lfloor>available + 1 / 2\<rfloor>)"

text \<open>The overflow of the element's ancestors, nearest first; the place of the one found.\<close>

fun findScrollParent :: "jsstring list \<Rightarrow> nat option" where
  "findScrollParent [] = None"
| "findScrollParent (overflowY # ancestors) =
     (if overflowY = lit ''auto'' \<or> overflowY = lit ''scroll'' then Some 0 else map_option Suc (findScrollParent ancestors))"

section \<open>Properties\<close>

lemma other_keys_ignored:
  assumes "key \<notin> set FORMAT_KEYS"
  shows "timestampFormatFromPreference accepts (write_item key v b) = timestampFormatFromPreference accepts b"
proof -
  have "getItem (write_item key v b) k = getItem b k" if "lit k \<in> set FORMAT_KEYS" for k
    using assms that by (auto simp: getItem_def write_item_def)
  then have "getItem (write_item key v b) ''bridge/date-time-locale'' = getItem b ''bridge/date-time-locale''"
    "getItem (write_item key v b) ''bridge/hour-cycle'' = getItem b ''bridge/hour-cycle''"
    "getItem (write_item key v b) ''bridge/time-zone'' = getItem b ''bridge/time-zone''"
    "getItem (write_item key v b) ''bridge/last-language'' = getItem b ''bridge/last-language''"
    by (simp_all add: FORMAT_KEYS_def del: lit_Cons)
  moreover have "bp_zone_ok (write_item key v b) = bp_zone_ok b" "bp_language (write_item key v b) = bp_language b"
    by (simp_all add: write_item_def)
  ultimately show ?thesis by (simp only: timestampFormatFromPreference_def timeZoneFromPreference_def)
qed

text \<open>The time column follows the preferences: whatever is written to the storage, in this window or another, and whether the
  hook acts on it or passes it over, the format it holds is the one the storage now asks for.\<close>

theorem time_format_current:
  "hk_format (fold (on_format_event accepts) es (useTimestampFormat accepts b)) =
     timestampFormatFromPreference accepts (hk_prefs (fold (on_format_event accepts) es (useTimestampFormat accepts b)))"
proof -
  have "hk_format (fold (on_format_event accepts) es hk) = timestampFormatFromPreference accepts (hk_prefs (fold (on_format_event accepts) es hk))"
    if "hk_format hk = timestampFormatFromPreference accepts (hk_prefs hk)" for hk
    using that
  proof (induction es arbitrary: hk)
    case (Cons e es)
    have "hk_format (on_format_event accepts e hk) = timestampFormatFromPreference accepts (hk_prefs (on_format_event accepts e hk))"
      using Cons.prems by (cases e) (simp_all add: Let_def other_keys_ignored)
    then show ?case using Cons.IH by simp
  qed simp
  then show ?thesis by (simp add: useTimestampFormat_def)
qed

text \<open>The height does not change when the page is scrolled, and never goes below the least.\<close>

lemma fill_height_scrolled:
  "computeFillHeight (top_edge - d) scroller_top height (scrolled + d) = computeFillHeight top_edge scroller_top height scrolled \<and>
   240 \<le> computeFillHeight top_edge scroller_top height scrolled"
  by (simp add: computeFillHeight_def MIN_VIEWER_HEIGHT_def algebra_simps)

lemma findScrollParent_nearest:
  "findScrollParent os = Some i \<longleftrightarrow>
     i < length os \<and> os ! i \<in> {lit ''auto'', lit ''scroll''} \<and> (\<forall>j < i. os ! j \<notin> {lit ''auto'', lit ''scroll''})"
proof (induction os arbitrary: i)
  case (Cons a os)
  then show ?case by (cases i) (auto simp: All_less_Suc2 simp del: lit_Cons)
qed simp

lemma displayWidth_bounds: "displayWidth s \<le> 2 * length s"
  by (induction s rule: displayWidth.induct) auto

end
