(* ===== verification/Plugin_Config.thy ===== *)
theory Plugin_Config
  imports Event_System Js_Values
begin

text \<open>
  The plugins' own configuration: \<^verbatim>\<open>plugins/logging/src/plugin-config.ts\<close>, \<^verbatim>\<open>plugins/terminal/src/shared/pluginConfig.ts\<close> and
  \<^verbatim>\<open>plugins/filesystem/src/shared/config.ts\<close>, the flags set from it (\<^verbatim>\<open>flags.ts\<close>, \<^verbatim>\<open>terminalFlags.ts\<close>, \<^verbatim>\<open>filesystemFlags.ts\<close>)
  and the colour scheme it names (\<^verbatim>\<open>logs/color-schemes.ts\<close>).

  The three loaders memoise one promise in the same way. What each makes of the answer is a parameter of the loader.
\<close>

section \<open>The loader\<close>

datatype promise = Pending | Fulfilled jsval | Rejected

record loader =
  ld_memo :: "nat option"
  ld_promises :: "promise list"

definition new_loader :: loader where
  "new_loader = \<lparr>ld_memo = None, ld_promises = []\<rparr>"

text \<open>A promise is its place among the requests made. The promise a caller gets and the loader after.\<close>

definition loadPluginConfig :: "loader \<Rightarrow> nat \<times> loader" where
  "loadPluginConfig s =
     (case ld_memo s of
        Some p \<Rightarrow> (p, s)
      | None \<Rightarrow> (length (ld_promises s), s\<lparr>ld_memo := Some (length (ld_promises s)), ld_promises := ld_promises s @ [Pending]\<rparr>))"

definition config_arrives :: "(jsval \<Rightarrow> jsval) \<Rightarrow> nat \<Rightarrow> jsval \<Rightarrow> loader \<Rightarrow> loader" where
  "config_arrives finish p answer s = s\<lparr>ld_promises := (ld_promises s)[p := Fulfilled (finish answer)]\<rparr>"

definition config_fails :: "nat \<Rightarrow> loader \<Rightarrow> loader" where
  "config_fails p s = s\<lparr>ld_memo := None, ld_promises := (ld_promises s)[p := Rejected]\<rparr>"

text \<open>\<^verbatim>\<open>{ ...DEFAULT_CONFIG, ...config }\<close>: the fields of an object, laid over the defaults. Other values have none of these.\<close>

definition spread :: "(jsstring \<times> jsval) list \<Rightarrow> jsval \<Rightarrow> jsval" where
  "spread defaults v = JObj (fold (\<lambda>(k, x). obj_put k x) (case v of JObj fs \<Rightarrow> fs | _ \<Rightarrow> []) defaults)"

definition fs_defaults :: "(jsstring \<times> jsval) list" where
  "fs_defaults = [(lit ''podFileBrowserEnabled'', JBool True), (lit ''uploadChunkBytes'', JNum (num_of_int (4 * 1024 * 1024))),
     (lit ''viewMaxBytes'', JNum (num_of_int (2 * 1024 * 1024))), (lit ''defaultArchiveFormat'', JStr (lit ''tar.gz''))]"

definition fs_finish :: "jsval \<Rightarrow> jsval" where
  "fs_finish answer = spread fs_defaults answer"

section \<open>Flags\<close>

text \<open>
  The flags set from what the promise came to; a configuration that is \<^verbatim>\<open>null\<close> cannot be read, which ends in the same
  \<^verbatim>\<open>catch\<close> as a failure.
\<close>

definition flags_from :: "(string \<times> string) list \<Rightarrow> jsval option \<Rightarrow> (string \<times> bool) list" where
  "flags_from settings config =
     (case config of
        Some c \<Rightarrow>
          if c \<in> {JNull, JUndef} then map (\<lambda>(flag, key). (flag, False)) settings
          else map (\<lambda>(flag, key). (flag, \<not> falsy (get_prop c (lit key)))) settings
      | None \<Rightarrow> map (\<lambda>(flag, key). (flag, False)) settings)"

definition setLoggingPluginFlags :: "jsval option \<Rightarrow> (string \<times> bool) list" where
  "setLoggingPluginFlags config =
     flags_from [(''LOGGING_PLUGIN_NODE_LOGS_ENABLED'', ''nodeLogsEnabled''), (''LOGGING_PLUGIN_POD_LOGS_ENABLED'', ''podLogsEnabled'')] config"

definition setTerminalPluginFlags :: "jsval option \<Rightarrow> (string \<times> bool) list" where
  "setTerminalPluginFlags config =
     flags_from [(''TERMINAL_PLUGIN_POD_TERMINAL_ENABLED'', ''podTerminalEnabled''),
       (''TERMINAL_PLUGIN_NODE_TERMINAL_ENABLED'', ''nodeTerminalEnabled'')] config"

definition setFilesystemPluginFlags :: "jsval option \<Rightarrow> (string \<times> bool) list" where
  "setFilesystemPluginFlags config = flags_from [(''FILESYSTEM_PLUGIN_POD_BROWSER_ENABLED'', ''podFileBrowserEnabled'')] config"

section \<open>The colour scheme of the log panel\<close>

definition COLOR_SCHEMES :: "jsstring list" where
  "COLOR_SCHEMES = map lit [''default'', ''solarized-light'', ''solarized-dark'', ''gruvbox-light'', ''gruvbox-dark'']"

definition resolveColorScheme :: "jsstring option \<Rightarrow> jsstring" where
  "resolveColorScheme name = (if \<not> unset name \<and> the name \<in> set COLOR_SCHEMES then the name else lit ''default'')"

record color_config =
  cc_light :: "jsstring option"
  cc_dark :: "jsstring option"
  cc_background :: "jsstring option"

definition colorSchemeClass :: "color_config \<Rightarrow> bool \<Rightarrow> jsstring" where
  "colorSchemeClass config dark =
     (let scheme = resolveColorScheme (if dark then cc_dark config else cc_light config);
          schemeClass = lit ''logging-color-scheme--'' @ scheme
      in if cc_background config = Some (lit ''console'') \<and> scheme \<noteq> lit ''default''
         then schemeClass @ lit '' logging-color-scheme--console-background'' else schemeClass)"

section \<open>Runs of the loader\<close>

datatype config_event = Load | Arrive nat jsval | Fail nat

fun config_enabled :: "config_event \<Rightarrow> loader \<Rightarrow> bool" where
  "config_enabled Load s = True"
| "config_enabled (Arrive p v) s = (p < length (ld_promises s) \<and> ld_promises s ! p = Pending)"
| "config_enabled (Fail p) s = (p < length (ld_promises s) \<and> ld_promises s ! p = Pending)"

fun config_apply :: "(jsval \<Rightarrow> jsval) \<Rightarrow> config_event \<Rightarrow> loader \<Rightarrow> loader" where
  "config_apply finish Load s = snd (loadPluginConfig s)"
| "config_apply finish (Arrive p v) s = config_arrives finish p v s"
| "config_apply finish (Fail p) s = config_fails p s"

inductive config_reach :: "(jsval \<Rightarrow> jsval) \<Rightarrow> loader \<Rightarrow> bool" for finish where
  unloaded: "config_reach finish new_loader"
| config_step: "config_reach finish s \<Longrightarrow> config_enabled e s \<Longrightarrow> config_reach finish (config_apply finish e s)"

interpretation config: event_system "\<lambda>s. s = new_loader" config_enabled "config_apply finish" "config_reach finish" for finish
  by (unfold_locales, auto intro: config_reach.intros) (erule config_reach.induct, auto)

text \<open>All requests but the memoised one have failed.\<close>

definition config_inv :: "loader \<Rightarrow> bool" where
  "config_inv s \<longleftrightarrow>
     (case ld_memo s of
        None \<Rightarrow> list_all (\<lambda>p. p = Rejected) (ld_promises s)
      | Some m \<Rightarrow> (\<exists>n p. ld_promises s = replicate n Rejected @ [p] \<and> m = n \<and> p \<noteq> Rejected))"

lemma all_rejected: "list_all (\<lambda>p. p = Rejected) ps \<longleftrightarrow> ps = replicate (length ps) Rejected"
  by (induction ps) auto

lemma pending_is_last:
  assumes "config_inv s" "p < length (ld_promises s)" "ld_promises s ! p = Pending"
  shows "ld_memo s = Some p" "ld_promises s = replicate p Rejected @ [Pending]"
  using assms by (auto simp: config_inv_def list_all_length nth_append split: option.splits if_splits)

lemma config_apply_inv: "config_inv s \<Longrightarrow> config_enabled e s \<Longrightarrow> config_inv (config_apply finish e s)"
proof (cases e)
  case Load
  assume "config_inv s"
  with Load show ?thesis
    by (cases "ld_memo s") (auto simp: config_inv_def loadPluginConfig_def all_rejected intro!: exI [of _ "length (ld_promises s)"])
next
  case (Arrive p v)
  assume "config_inv s" "config_enabled e s"
  with Arrive show ?thesis
    using pending_is_last [of s p] by (auto simp: config_arrives_def config_inv_def list_update_append)
next
  case (Fail p)
  assume "config_inv s" "config_enabled e s"
  with Fail show ?thesis
    using pending_is_last [of s p] by (auto simp: config_fails_def config_inv_def list_update_append list_all_iff)
qed

lemma config_reach_inv: "config_reach finish s \<Longrightarrow> config_inv s"
proof (erule config.always)
  show "config_inv s" if "s = new_loader" for s using that by (simp add: config_inv_def new_loader_def)
qed (rule config_apply_inv)

section \<open>Properties\<close>

text \<open>C37: A plugin's configuration is fetched once: a second request is made only when every one before it has failed, a caller
  that comes while one is running or has succeeded shares it, and once one has succeeded, whatever is called and answered
  after, every caller gets that configuration and no request is made any more.\<close>

theorem config_fetched_once:
  assumes "config_reach finish s"
  shows "(ld_memo s = None \<longleftrightarrow> list_all (\<lambda>p. p = Rejected) (ld_promises s)) \<and>
    (p < q \<and> q < length (ld_promises s) \<longrightarrow> ld_promises s ! p = Rejected) \<and>
    (p < length (ld_promises s) \<and> ld_promises s ! p = Fulfilled c \<and> events_ok config_enabled (config_apply finish) es s \<longrightarrow>
       loadPluginConfig (fold (config_apply finish) es s) = (p, s))"
proof -
  have inv: "config_inv s" using assms by (rule config_reach_inv)
  have "ld_memo s = None \<longleftrightarrow> list_all (\<lambda>p. p = Rejected) (ld_promises s)" using inv by (auto simp: config_inv_def split: option.splits)
  moreover have "ld_promises s ! p = Rejected" if "p < q" "q < length (ld_promises s)"
    using inv that by (auto simp: config_inv_def list_all_length nth_append split: option.splits)
  moreover have "loadPluginConfig (fold (config_apply finish) es s) = (p, s)"
    if p: "p < length (ld_promises s)" "ld_promises s ! p = Fulfilled c" and es: "events_ok config_enabled (config_apply finish) es s"
  proof -
    obtain n where done_once: "ld_promises s = replicate n Rejected @ [Fulfilled c]" "ld_memo s = Some n" "p = n"
      using inv p by (auto simp: config_inv_def list_all_length nth_append split: option.splits if_splits)
    have "config_apply finish e s = s" if "config_enabled e s" for e
      using that done_once by (cases e) (auto simp: loadPluginConfig_def nth_append split: if_splits)
    then have "fold (config_apply finish) es s = s" using es by (induction es) auto
    then show ?thesis using done_once by (simp add: loadPluginConfig_def)
  qed
  ultimately show ?thesis by blast
qed

lemma config_fetched_once_witness:
  "loadPluginConfig (fold (config_apply fs_finish) [Load, Load] \<lparr>ld_memo = Some 1, ld_promises = [Rejected, Fulfilled (fs_finish JNull)]\<rparr>) =
     (1, \<lparr>ld_memo = Some 1, ld_promises = [Rejected, Fulfilled (fs_finish JNull)]\<rparr>)"
proof -
  let ?s = "fold (config_apply fs_finish) [Load, Fail 0, Load, Arrive 1 JNull] new_loader"
  have s: "?s = \<lparr>ld_memo = Some 1, ld_promises = [Rejected, Fulfilled (fs_finish JNull)]\<rparr>"
    by (simp add: new_loader_def loadPluginConfig_def config_fails_def config_arrives_def)
  have "config_reach fs_finish ?s"
    by (rule config.reached_run [OF config_reach.unloaded]) (simp add: new_loader_def loadPluginConfig_def config_fails_def)
  then have "config_reach fs_finish \<lparr>ld_memo = Some 1, ld_promises = [Rejected, Fulfilled (fs_finish JNull)]\<rparr>" unfolding s .
  from config_fetched_once [OF this, where p = 1 and es = "[Load, Load]" and c = "fs_finish JNull"]
  show ?thesis by (simp add: loadPluginConfig_def)
qed

text \<open>A flag is never set on without a configuration that says so.\<close>

lemma flags_need_config:
  "(flag, True) \<in> set (flags_from settings config) \<longleftrightarrow>
     (\<exists>c key. config = Some c \<and> c \<notin> {JNull, JUndef} \<and> (flag, key) \<in> set settings \<and> \<not> falsy (get_prop c (lit key)))"
  by (auto simp: flags_from_def split: option.splits if_splits) force

text \<open>The class of a scheme that is not known is the default's, and the default never gets the console's background.\<close>

lemma default_scheme_plain:
  "resolveColorScheme (if dark then cc_dark config else cc_light config) = lit ''default'' \<Longrightarrow>
   colorSchemeClass config dark = lit ''logging-color-scheme--default''"
  by (simp add: colorSchemeClass_def Let_def)

end
