(* ===== verification/Term_Colors.thy ===== *)
theory Term_Colors
  imports Js_Values Complex_Main
begin

text \<open>
  The colour schemes of the terminals, \<^verbatim>\<open>plugins/terminal/src/shared/colorSchemes.ts\<close>: the palettes and schemes, the scheme a
  name stands for, mixing colours, and the scheme on the console's own background.

  A theme is the list of its colours, a later entry overriding an earlier one as in a spread. Channels are mixed in rational
  arithmetic; the amounts used (a half, a fifth and a quarter) never come to rest on a half where rounding of doubles could
  differ.
\<close>

section \<open>The schemes\<close>

type_synonym theme = "(string \<times> jsstring) list"

definition theme_color :: "theme \<Rightarrow> string \<Rightarrow> jsstring option" where
  "theme_color t key = map_of (rev t) key"

record color_scheme =
  sc_theme :: theme
  sc_search :: theme

definition solarized_palette :: "(string \<times> jsstring) list" where
  "solarized_palette =
     [(''base03'', lit ''#002b36''), (''base02'', lit ''#073642''), (''base01'', lit ''#586e75''), (''base00'', lit ''#657b83''),
      (''base0'', lit ''#839496''), (''base1'', lit ''#93a1a1''), (''base2'', lit ''#eee8d5''), (''base3'', lit ''#fdf6e3''),
      (''yellow'', lit ''#b58900''), (''orange'', lit ''#cb4b16''), (''red'', lit ''#dc322f''), (''magenta'', lit ''#d33682''),
      (''violet'', lit ''#6c71c4''), (''blue'', lit ''#268bd2''), (''cyan'', lit ''#2aa198''), (''green'', lit ''#859900'')]"

definition solarized :: "string \<Rightarrow> jsstring" where
  "solarized name = (case map_of solarized_palette name of None \<Rightarrow> [] | Some c \<Rightarrow> c)"

definition gruvbox_palette :: "(string \<times> jsstring) list" where
  "gruvbox_palette =
     [(''dark0'', lit ''#282828''), (''dark1'', lit ''#3c3836''), (''dark2'', lit ''#504945''), (''dark3'', lit ''#665c54''),
      (''dark4'', lit ''#7c6f64''), (''gray'', lit ''#928374''), (''light0'', lit ''#fbf1c7''), (''light1'', lit ''#ebdbb2''),
      (''light2'', lit ''#d5c4a1''), (''light4'', lit ''#a89984''), (''red'', lit ''#cc241d''), (''green'', lit ''#98971a''),
      (''yellow'', lit ''#d79921''), (''blue'', lit ''#458588''), (''purple'', lit ''#b16286''), (''aqua'', lit ''#689d6a''),
      (''orange'', lit ''#d65d0e''), (''brightRed'', lit ''#fb4934''), (''brightGreen'', lit ''#b8bb26''),
      (''brightYellow'', lit ''#fabd2f''), (''brightBlue'', lit ''#83a598''), (''brightPurple'', lit ''#d3869b''),
      (''brightAqua'', lit ''#8ec07c''), (''brightOrange'', lit ''#fe8019''), (''fadedRed'', lit ''#9d0006''),
      (''fadedGreen'', lit ''#79740e''), (''fadedYellow'', lit ''#b57614''), (''fadedBlue'', lit ''#076678''),
      (''fadedPurple'', lit ''#8f3f71''), (''fadedAqua'', lit ''#427b58''), (''fadedOrange'', lit ''#af3a03'')]"

definition gruvbox :: "string \<Rightarrow> jsstring" where
  "gruvbox name = (case map_of gruvbox_palette name of None \<Rightarrow> [] | Some c \<Rightarrow> c)"

definition darkSearchDecorations :: theme where
  "darkSearchDecorations =
     [(''matchBackground'', lit ''#3d3d00''), (''matchBorder'', lit ''#7d7d00''), (''matchOverviewRuler'', lit ''#7d7d00''),
      (''activeMatchBackground'', lit ''#515c00''), (''activeMatchBorder'', lit ''#c9c900''),
      (''activeMatchColorOverviewRuler'', lit ''#c9c900'')]"

definition solarizedAnsi :: theme where
  "solarizedAnsi =
     [(''black'', solarized ''base02''), (''red'', solarized ''red''), (''green'', solarized ''green''),
      (''yellow'', solarized ''yellow''), (''blue'', solarized ''blue''), (''magenta'', solarized ''magenta''),
      (''cyan'', solarized ''cyan''), (''white'', solarized ''base2''), (''brightBlack'', solarized ''base03''),
      (''brightRed'', solarized ''orange''), (''brightGreen'', solarized ''base01''), (''brightYellow'', solarized ''base00''),
      (''brightBlue'', solarized ''base0''), (''brightMagenta'', solarized ''violet''), (''brightCyan'', solarized ''base1''),
      (''brightWhite'', solarized ''base3'')]"

definition gruvboxNeutral :: theme where
  "gruvboxNeutral =
     [(''red'', gruvbox ''red''), (''green'', gruvbox ''green''), (''yellow'', gruvbox ''yellow''), (''blue'', gruvbox ''blue''),
      (''magenta'', gruvbox ''purple''), (''cyan'', gruvbox ''aqua''), (''brightBlack'', gruvbox ''gray'')]"

definition solarized_dark :: color_scheme where
  "solarized_dark =
     \<lparr>sc_theme = solarizedAnsi @
        [(''background'', solarized ''base03''), (''foreground'', solarized ''base0''), (''cursor'', solarized ''base1''),
         (''cursorAccent'', solarized ''base03''), (''selectionBackground'', solarized ''base02'')],
      sc_search =
        [(''matchBackground'', solarized ''base02''), (''matchBorder'', solarized ''yellow''),
         (''matchOverviewRuler'', solarized ''yellow''), (''activeMatchBackground'', lit ''#3d4a00''),
         (''activeMatchBorder'', solarized ''orange''), (''activeMatchColorOverviewRuler'', solarized ''orange'')]\<rparr>"

definition solarized_light :: color_scheme where
  "solarized_light =
     \<lparr>sc_theme = solarizedAnsi @
        [(''background'', solarized ''base3''), (''foreground'', solarized ''base00''), (''cursor'', solarized ''base01''),
         (''cursorAccent'', solarized ''base3''), (''selectionBackground'', solarized ''base2''),
         (''selectionInactiveBackground'', solarized ''base2'')],
      sc_search =
        [(''matchBackground'', lit ''#f5e7b0''), (''matchBorder'', solarized ''yellow''),
         (''matchOverviewRuler'', solarized ''yellow''), (''activeMatchBackground'', lit ''#f0c987''),
         (''activeMatchBorder'', solarized ''orange''), (''activeMatchColorOverviewRuler'', solarized ''orange'')]\<rparr>"

definition gruvbox_dark :: color_scheme where
  "gruvbox_dark =
     \<lparr>sc_theme = gruvboxNeutral @
        [(''black'', gruvbox ''dark0''), (''white'', gruvbox ''light4''), (''brightRed'', gruvbox ''brightRed''),
         (''brightGreen'', gruvbox ''brightGreen''), (''brightYellow'', gruvbox ''brightYellow''),
         (''brightBlue'', gruvbox ''brightBlue''), (''brightMagenta'', gruvbox ''brightPurple''),
         (''brightCyan'', gruvbox ''brightAqua''), (''brightWhite'', gruvbox ''light1''), (''background'', gruvbox ''dark0''),
         (''foreground'', gruvbox ''light1''), (''cursor'', gruvbox ''light1''), (''cursorAccent'', gruvbox ''dark0''),
         (''selectionBackground'', gruvbox ''dark2'')],
      sc_search =
        [(''matchBackground'', gruvbox ''dark2''), (''matchBorder'', gruvbox ''yellow''),
         (''matchOverviewRuler'', gruvbox ''yellow''), (''activeMatchBackground'', gruvbox ''dark3''),
         (''activeMatchBorder'', gruvbox ''brightOrange''), (''activeMatchColorOverviewRuler'', gruvbox ''brightOrange'')]\<rparr>"

definition gruvbox_light :: color_scheme where
  "gruvbox_light =
     \<lparr>sc_theme = gruvboxNeutral @
        [(''black'', gruvbox ''light0''), (''white'', gruvbox ''dark4''), (''brightRed'', gruvbox ''fadedRed''),
         (''brightGreen'', gruvbox ''fadedGreen''), (''brightYellow'', gruvbox ''fadedYellow''),
         (''brightBlue'', gruvbox ''fadedBlue''), (''brightMagenta'', gruvbox ''fadedPurple''),
         (''brightCyan'', gruvbox ''fadedAqua''), (''brightWhite'', gruvbox ''dark1''), (''background'', gruvbox ''light0''),
         (''foreground'', gruvbox ''dark1''), (''cursor'', gruvbox ''dark1''), (''cursorAccent'', gruvbox ''light0''),
         (''selectionBackground'', gruvbox ''light2''), (''selectionInactiveBackground'', gruvbox ''light2'')],
      sc_search =
        [(''matchBackground'', lit ''#f2dfa0''), (''matchBorder'', gruvbox ''fadedYellow''),
         (''matchOverviewRuler'', gruvbox ''fadedYellow''), (''activeMatchBackground'', lit ''#f5c58c''),
         (''activeMatchBorder'', gruvbox ''fadedOrange''), (''activeMatchColorOverviewRuler'', gruvbox ''fadedOrange'')]\<rparr>"

definition default_scheme :: color_scheme where
  "default_scheme = \<lparr>sc_theme = [], sc_search = darkSearchDecorations\<rparr>"

definition colorSchemes :: "(jsstring \<times> color_scheme) list" where
  "colorSchemes =
     [(lit ''default'', default_scheme), (lit ''solarized-dark'', solarized_dark),
      (lit ''solarized-light'', solarized_light),
      (lit ''gruvbox-dark'', gruvbox_dark),
      (lit ''gruvbox-light'', gruvbox_light)]"

text \<open>
  \<^verbatim>\<open>colorSchemes[name]\<close> also finds what the table inherits from \<^verbatim>\<open>Object.prototype\<close>, which is no scheme: \<open>Inr\<close>.
\<close>

definition resolveColorScheme :: "jsstring option \<Rightarrow> color_scheme + jsval" where
  "resolveColorScheme name =
     (if unset name then Inl default_scheme
      else case map_of colorSchemes (the name) of
             Some scheme \<Rightarrow> Inl scheme
           | None \<Rightarrow> (case object_inherited (the name) of None \<Rightarrow> Inl default_scheme | Some v \<Rightarrow> if falsy v then Inl default_scheme else Inr v))"

section \<open>Mixing\<close>

definition hex_digit_value :: "code_unit \<Rightarrow> nat option" where
  "hex_digit_value c =
     (if 48 \<le> c \<and> c \<le> 57 then Some (c - 48) else if 97 \<le> c \<and> c \<le> 102 then Some (c - 87)
      else if 65 \<le> c \<and> c \<le> 70 then Some (c - 55) else None)"

definition hex_byte :: "code_unit \<Rightarrow> code_unit \<Rightarrow> nat" where
  "hex_byte a b = the (hex_digit_value a) * 16 + the (hex_digit_value b)"

definition parseHex :: "jsstring \<Rightarrow> (nat \<times> nat \<times> nat) option" where
  "parseHex color =
     (let t = trim color; hex = (if starts_with [35] t then tl t else t)
      in if list_ex (\<lambda>c. hex_digit_value c = None) hex then None
         else if length hex = 3 then Some (hex_byte (hex ! 0) (hex ! 0), hex_byte (hex ! 1) (hex ! 1), hex_byte (hex ! 2) (hex ! 2))
         else if length hex = 6 \<or> length hex = 8
         then Some (hex_byte (hex ! 0) (hex ! 1), hex_byte (hex ! 2) (hex ! 3), hex_byte (hex ! 4) (hex ! 5))
         else None)"

definition hex_char :: "nat \<Rightarrow> code_unit" where
  "hex_char n = (if n < 10 then 48 + n else 87 + n)"

text \<open>\<^verbatim>\<open>toString(16).padStart(2, '0')\<close> of a number below 256.\<close>

definition two_hex :: "nat \<Rightarrow> jsstring" where
  "two_hex n = [hex_char (n div 16), hex_char (n mod 16)]"

definition mix_channel :: "nat \<Rightarrow> nat \<Rightarrow> rat \<Rightarrow> nat" where
  "mix_channel channel top_channel amount =
     nat \<lfloor>of_nat channel + (of_nat top_channel - of_nat channel) * amount + 1 / 2\<rfloor>"

definition mixHex :: "jsstring \<Rightarrow> jsstring \<Rightarrow> rat \<Rightarrow> jsstring option" where
  "mixHex base top_color amount =
     (case (parseHex base, parseHex top_color) of
        (Some (r, g, b), Some (r', g', b')) \<Rightarrow>
          Some (35 # two_hex (mix_channel r r' amount) @ two_hex (mix_channel g g' amount) @ two_hex (mix_channel b b' amount))
      | _ \<Rightarrow> None)"

section \<open>The console's background\<close>

definition BACKGROUND_OFFSET :: "bool \<Rightarrow> jsstring \<times> rat" where
  "BACKGROUND_OFFSET dark = (if dark then (lit ''#000000'', 1 / 5) else (lit ''#ffffff'', 1 / 2))"

text \<open>\<open>content\<close> is the computed style's value of the content background.\<close>

definition withConsoleBackground :: "jsstring \<Rightarrow> bool \<Rightarrow> color_scheme \<Rightarrow> color_scheme" where
  "withConsoleBackground content dark scheme =
     (let content = trim content;
          background = (if content = [] then content
                        else case mixHex content (fst (BACKGROUND_OFFSET dark)) (snd (BACKGROUND_OFFSET dark)) of
                               None \<Rightarrow> content
                             | Some c \<Rightarrow> c);
          foreground = theme_color (sc_theme scheme) ''foreground''
      in if background = [] \<or> unset foreground then scheme
         else scheme\<lparr>sc_theme := sc_theme scheme @ [(''background'', background), (''cursorAccent'', background)] @
                (case mixHex background (the foreground) (1 / 4) of
                   None \<Rightarrow> []
                 | Some selection \<Rightarrow> [(''selectionBackground'', selection), (''selectionInactiveBackground'', selection)])\<rparr>)"

definition useColorScheme :: "jsstring option \<Rightarrow> jsstring option \<Rightarrow> jsstring \<Rightarrow> bool \<Rightarrow> (color_scheme + jsval) option" where
  "useColorScheme name background content dark =
     (let scheme = resolveColorScheme name
      in if background = Some (lit ''console'')
         then (case scheme of Inl s \<Rightarrow> Some (Inl (withConsoleBackground content dark s)) | Inr v \<Rightarrow> None)
         else Some scheme)"

section \<open>Mixing stays between\<close>

lemma mix_channel_between:
  assumes "0 \<le> t" "t \<le> 1"
  shows "min a b \<le> mix_channel a b t \<and> mix_channel a b t \<le> max a b"
proof -
  define x :: rat where "x = of_nat a + (of_nat b - of_nat a) * t"
  have x: "of_nat (min a b) \<le> x \<and> x \<le> of_nat (max a b)"
  proof (cases "a \<le> b")
    case True
    then have d: "0 \<le> (of_nat b :: rat) - of_nat a" by simp
    have "0 \<le> (of_nat b - of_nat a) * t" "(of_nat b - of_nat a) * t \<le> of_nat b - (of_nat a :: rat)"
      using mult_nonneg_nonneg [OF d assms(1)] mult_left_mono [OF assms(2) d] by simp_all
    then show ?thesis using True by (simp add: x_def min_def max_def)
  next
    case False
    then have d: "0 \<le> (of_nat a :: rat) - of_nat b" by simp
    have "0 \<le> (of_nat a - of_nat b) * t" "(of_nat a - of_nat b) * t \<le> of_nat a - (of_nat b :: rat)"
      using mult_nonneg_nonneg [OF d assms(1)] mult_left_mono [OF assms(2) d] by simp_all
    then show ?thesis using False by (simp add: x_def min_def max_def algebra_simps)
  qed
  have "int (min a b) \<le> \<lfloor>x + 1 / 2\<rfloor>" using x by (simp add: le_floor_iff)
  moreover have "x + 1 / 2 < of_int (int (max a b) + 1)" using x by simp
  then have "\<lfloor>x + 1 / 2\<rfloor> < int (max a b) + 1" by (simp only: floor_less_iff)
  ultimately show ?thesis unfolding mix_channel_def x_def [symmetric] by linarith
qed

lemma hex_char_value: "n < 16 \<Longrightarrow> hex_digit_value (hex_char n) = Some n"
  by (auto simp: hex_digit_value_def hex_char_def)

lemma hex_byte_digits: "n < 256 \<Longrightarrow> hex_byte (hex_char (n div 16)) (hex_char (n mod 16)) = n"
  by (simp add: hex_byte_def hex_char_value less_mult_imp_div_less)

lemma hex_value_less: "hex_digit_value c = Some n \<Longrightarrow> n < 16"
  by (auto simp: hex_digit_value_def split: if_splits)

lemma hex_byte_less: "hex_digit_value c \<noteq> None \<Longrightarrow> hex_digit_value d \<noteq> None \<Longrightarrow> hex_byte c d < 256"
  using hex_value_less [of c] hex_value_less [of d] by (fastforce simp: hex_byte_def)

lemma parseHex_bytes: "parseHex c = Some (r, g, b) \<Longrightarrow> r < 256 \<and> g < 256 \<and> b < 256"
  by (auto simp: parseHex_def Let_def list_ex_length intro!: hex_byte_less split: if_splits)

lemma hex_char_not_space: "n < 16 \<Longrightarrow> \<not> is_space (hex_char n)"
  by (auto simp: is_space_def hex_char_def)

lemma parse_two_hex:
  assumes "r < 256" "g < 256" "b < 256"
  shows "parseHex (35 # two_hex r @ two_hex g @ two_hex b) = Some (r, g, b)"
proof -
  let ?s = "35 # two_hex r @ two_hex g @ two_hex b"
  have "\<not> is_space 35" by (simp add: is_space_def)
  then have "trim ?s = ?s" using assms by (intro trim_ends_id) (simp add: two_hex_def hex_char_not_space)
  moreover have "starts_with [35] ?s" by (simp add: starts_with_def)
  moreover have "\<not> list_ex (\<lambda>c. hex_digit_value c = None) (tl ?s)"
    using assms by (simp add: two_hex_def hex_char_value less_mult_imp_div_less)
  ultimately show ?thesis
    using assms unfolding parseHex_def Let_def by (simp add: two_hex_def hex_byte_digits)
qed

lemma mixHex_result:
  assumes "parseHex base = Some (r, g, b)" "parseHex over = Some (r', g', b')" "0 \<le> t" "t \<le> 1"
  shows "\<exists>c. mixHex base over t = Some c \<and> length c = 7 \<and>
    parseHex c = Some (mix_channel r r' t, mix_channel g g' t, mix_channel b b' t) \<and>
    min r r' \<le> mix_channel r r' t \<and> mix_channel r r' t \<le> max r r' \<and> min g g' \<le> mix_channel g g' t \<and>
    mix_channel g g' t \<le> max g g' \<and> min b b' \<le> mix_channel b b' t \<and> mix_channel b b' t \<le> max b b'"
proof -
  have "max r r' < 256" "max g g' < 256" "max b b' < 256" using parseHex_bytes [OF assms(1)] parseHex_bytes [OF assms(2)] by simp_all
  then have "mix_channel r r' t < 256" "mix_channel g g' t < 256" "mix_channel b b' t < 256"
    using mix_channel_between [OF assms(3,4)] by (meson le_less_trans)+
  then have "parseHex (35 # two_hex (mix_channel r r' t) @ two_hex (mix_channel g g' t) @ two_hex (mix_channel b b' t)) =
      Some (mix_channel r r' t, mix_channel g g' t, mix_channel b b' t)" by (rule parse_two_hex)
  moreover have "length (35 # two_hex x @ two_hex y @ two_hex z) = 7" for x y z by (simp add: two_hex_def)
  ultimately show ?thesis using assms(1,2) mix_channel_between [OF assms(3,4)] by (auto simp: mixHex_def)
qed

text \<open>A mix of two colours is a colour between them: of two hex colours, in three, six or eight digits, with any share from
  none to all of the second, it is the six-digit hex colour whose channels are the mixed ones, each between the two it is
  mixed of.\<close>

theorem mixHex_between:
  assumes "parseHex base = Some (r, g, b)" "parseHex over = Some (r', g', b')" "0 \<le> t" "t \<le> 1"
  shows "\<exists>c. mixHex base over t = Some c \<and> length c = 7 \<and>
    parseHex c = Some (mix_channel r r' t, mix_channel g g' t, mix_channel b b' t) \<and>
    min r r' \<le> mix_channel r r' t \<and> mix_channel r r' t \<le> max r r' \<and> min g g' \<le> mix_channel g g' t \<and>
    mix_channel g g' t \<le> max g g' \<and> min b b' \<le> mix_channel b b' t \<and> mix_channel b b' t \<le> max b b'"
  using assms by (rule mixHex_result)

lemma mixHex_between_witness: "\<exists>c. mixHex (lit ''#000'') (lit ''#ffffff'') (1 / 4) = Some c \<and> length c = 7"
proof -
  have "parseHex (lit ''#000'') = Some (0, 0, 0)" "parseHex (lit ''#ffffff'') = Some (255, 255, 255)" by code_simp+
  from mixHex_between [OF this, of "1 / 4"] show ?thesis by auto
qed

section \<open>Every scheme is well formed\<close>

text \<open>
  A hex colour as CSS writes it, apart from what the source's own parser takes: a hash sign and three, four, six or eight
  digits.
\<close>

definition css_hex_digit :: "code_unit \<Rightarrow> bool" where
  "css_hex_digit c \<longleftrightarrow> c \<in> set (lit ''0123456789abcdefABCDEF'')"

definition is_hex :: "jsstring \<Rightarrow> bool" where
  "is_hex c \<longleftrightarrow> c \<noteq> [] \<and> hd c = 35 \<and> list_all css_hex_digit (tl c) \<and> length (tl c) \<in> {3, 4, 6, 8}"

definition hex_theme :: "theme \<Rightarrow> bool" where
  "hex_theme t \<longleftrightarrow> list_all (\<lambda>(key, c). is_hex c) t"

lemma hex_char_digit: "n < 16 \<Longrightarrow> css_hex_digit (hex_char n)"
proof -
  have "list_all (\<lambda>n. css_hex_digit (hex_char n)) [0 ..< 16]" by code_simp
  then show "n < 16 \<Longrightarrow> css_hex_digit (hex_char n)" by (simp add: list_all_iff del: upt.simps)
qed

lemma two_hex_digits: "n < 256 \<Longrightarrow> list_all css_hex_digit (two_hex n)"
  by (simp add: two_hex_def hex_char_digit less_mult_imp_div_less)

lemmas hex_literal = is_hex_def css_hex_digit_def

lemma palettes_hex: "hex_theme solarized_palette" "hex_theme gruvbox_palette" "hex_theme darkSearchDecorations"
  by (simp_all add: hex_theme_def solarized_palette_def gruvbox_palette_def darkSearchDecorations_def hex_literal)

lemma map_of_hex: "hex_theme t \<Longrightarrow> map_of t k = Some c \<Longrightarrow> is_hex c"
  by (auto simp: hex_theme_def list_all_iff dest: map_of_SomeD)

lemma theme_color_hex: "hex_theme t \<Longrightarrow> theme_color t k = Some c \<Longrightarrow> is_hex c"
  using map_of_hex [of "rev t" k c] by (simp add: theme_color_def hex_theme_def)

lemma palette_colors:
  "list_all (\<lambda>k. is_hex (solarized k)) (map fst solarized_palette)" "list_all (\<lambda>k. is_hex (gruvbox k)) (map fst gruvbox_palette)"
proof -
  have "is_hex (case map_of t k of None \<Rightarrow> [] | Some c \<Rightarrow> c)" if "hex_theme t" "k \<in> fst ` set t" for t k
    using that map_of_hex [OF that(1), of k] by (auto simp: map_of_eq_None_iff split: option.splits)
  from this [OF palettes_hex(1)] this [OF palettes_hex(2)]
  show "list_all (\<lambda>k. is_hex (solarized k)) (map fst solarized_palette)" "list_all (\<lambda>k. is_hex (gruvbox k)) (map fst gruvbox_palette)"
    by (simp_all add: list_all_iff solarized_def gruvbox_def)
qed

lemmas solarized_colors = palette_colors(1) [unfolded solarized_palette_def, simplified list.map fst_conv list.pred_inject]
  and gruvbox_colors = palette_colors(2) [unfolded gruvbox_palette_def, simplified list.map fst_conv list.pred_inject]

lemma ansi_hex: "hex_theme solarizedAnsi" "hex_theme gruvboxNeutral"
  by (simp_all only: hex_theme_def solarizedAnsi_def gruvboxNeutral_def list.pred_inject prod.case solarized_colors gruvbox_colors simp_thms)

lemma hex_theme_append: "hex_theme (t @ u) \<longleftrightarrow> hex_theme t \<and> hex_theme u"
  by (simp add: hex_theme_def)

lemma search_hex:
  "is_hex (lit ''#3d4a00'')" "is_hex (lit ''#f5e7b0'')" "is_hex (lit ''#f0c987'')" "is_hex (lit ''#f2dfa0'')" "is_hex (lit ''#f5c58c'')"
  by (simp_all add: hex_literal)

lemma hex_theme_steps: "hex_theme []" "hex_theme ((k, c) # t) \<longleftrightarrow> is_hex c \<and> hex_theme t"
  by (simp_all add: hex_theme_def)

lemmas hex_rules = hex_theme_append hex_theme_steps ansi_hex solarized_colors gruvbox_colors search_hex palettes_hex(3) simp_thms
  color_scheme.select_convs

lemma schemes_hex:
  "hex_theme (sc_theme default_scheme) \<and> hex_theme (sc_search default_scheme)"
  "hex_theme (sc_theme solarized_dark) \<and> hex_theme (sc_search solarized_dark)"
  "hex_theme (sc_theme solarized_light) \<and> hex_theme (sc_search solarized_light)"
  "hex_theme (sc_theme gruvbox_dark) \<and> hex_theme (sc_search gruvbox_dark)"
  "hex_theme (sc_theme gruvbox_light) \<and> hex_theme (sc_search gruvbox_light)"
  by (simp_all only: default_scheme_def solarized_dark_def solarized_light_def gruvbox_dark_def gruvbox_light_def hex_rules)

lemma resolved_hex: "resolveColorScheme name = Inl s \<Longrightarrow> hex_theme (sc_theme s) \<and> hex_theme (sc_search s)"
  by (auto simp: resolveColorScheme_def colorSchemes_def schemes_hex simp del: lit_Cons split: if_splits option.splits dest!: map_of_SomeD)

lemma mixHex_hex:
  assumes "mixHex base over t = Some c" "0 \<le> t" "t \<le> 1"
  shows "is_hex c"
proof -
  obtain r g b r' g' b' where parsed: "parseHex base = Some (r, g, b)" "parseHex over = Some (r', g', b')"
    using assms(1) by (auto simp: mixHex_def split: option.splits)
  have "max r r' < 256" "max g g' < 256" "max b b' < 256" using parseHex_bytes [OF parsed(1)] parseHex_bytes [OF parsed(2)] by simp_all
  then have "mix_channel r r' t < 256" "mix_channel g g' t < 256" "mix_channel b b' t < 256"
    using mix_channel_between [OF assms(2,3)] by (meson le_less_trans)+
  moreover have "length (two_hex n) = 2" for n by (simp add: two_hex_def)
  moreover have "c = 35 # two_hex (mix_channel r r' t) @ two_hex (mix_channel g g' t) @ two_hex (mix_channel b b' t)"
    using assms(1) parsed by (simp add: mixHex_def)
  ultimately show ?thesis by (simp add: is_hex_def two_hex_digits)
qed

lemma offset_amount: "0 \<le> snd (BACKGROUND_OFFSET dark)" "snd (BACKGROUND_OFFSET dark) \<le> 1"
  by (simp_all add: BACKGROUND_OFFSET_def)

lemma background_hex:
  assumes "trim content = [] \<or> is_hex (trim content)" "hex_theme (sc_theme s)" "hex_theme (sc_search s)"
  shows "hex_theme (sc_theme (withConsoleBackground content dark s)) \<and> hex_theme (sc_search (withConsoleBackground content dark s))"
proof -
  have mixed: "is_hex c" if "mixHex b (fst (BACKGROUND_OFFSET dark)) (snd (BACKGROUND_OFFSET dark)) = Some c" for b c
    using mixHex_hex [OF that offset_amount] .
  have selected: "is_hex c" if "mixHex b f (1 / 4) = Some c" for b f c
    using mixHex_hex [OF that] by simp
  show ?thesis
    using assms
    by (auto simp: withConsoleBackground_def Let_def hex_theme_append hex_theme_steps unset_def split: option.splits intro: mixed selected)
qed

text \<open>C38: Whatever scheme the terminal is given, when it is one of the table's or the default, and whichever background: if the
  console's content background is blank or, without the blanks around it, a hex colour, then every colour of the theme and of
  the search highlights is a hex colour as CSS writes it (a hash sign and three, four, six or eight hex digits), the mixed
  ones included.\<close>

theorem scheme_colors_hex:
  assumes "trim content = [] \<or> is_hex (trim content)" "useColorScheme name background content dark = Some (Inl s)"
  shows "hex_theme (sc_theme s) \<and> hex_theme (sc_search s)"
  using assms(2) resolved_hex background_hex [OF assms(1)]
  by (auto simp: useColorScheme_def Let_def simp del: lit_Cons split: if_splits sum.splits)

lemma scheme_colors_hex_witness:
  "\<exists>s. useColorScheme (Some (lit ''gruvbox-dark'')) (Some (lit ''console'')) (lit ''#1f1f1f'') True = Some (Inl s) \<and>
     hex_theme (sc_theme s) \<and> hex_theme (sc_search s)"
proof -
  have "is_hex (trim (lit ''#1f1f1f''))" by code_simp
  moreover obtain s where "useColorScheme (Some (lit ''gruvbox-dark'')) (Some (lit ''console'')) (lit ''#1f1f1f'') True = Some (Inl s)"
    by (simp add: useColorScheme_def resolveColorScheme_def colorSchemes_def unset_def Let_def)
  ultimately show ?thesis using scheme_colors_hex by blast
qed

end
