(* ===== verification/Term_Widget.thy ===== *)
theory Term_Widget
  imports Js_Date Event_System
begin

text \<open>
  The terminal itself, \<^verbatim>\<open>plugins/terminal/src/shared/Terminal.tsx\<close>, with \<^verbatim>\<open>fonts.ts\<close>: when xterm is opened, what size it
  reports to the tab, what is written and typed, and the search box.

  Of xterm and its add-ons the model has what the component relies on: a terminal has a size, fitting it to its container
  sets the size and reports it when it changed, written data is kept in order, and a terminal whose input is disabled passes
  none on. The size that fits the container is given by the browser at that moment.
\<close>

section \<open>Fonts\<close>

text \<open>
  \<^verbatim>\<open>terminalFontsReady\<close>: whether there is a promise to wait for. The font loading API, if there is one, and which fonts it
  says are there (\<open>None\<close> where it cannot be asked).
\<close>

definition font_spec :: "nat \<Rightarrow> jsstring \<Rightarrow> jsstring" where
  "font_spec fontSize weight = weight @ [32] @ show_nat fontSize @ lit ''px '' @ [39] @ lit ''VictorMono Nerd Font Propo'' @ [39]"

definition terminalFontsReady :: "(jsstring \<Rightarrow> bool) option option \<Rightarrow> nat \<Rightarrow> bool" where
  "terminalFontsReady fonts fontSize =
     (case fonts of
        None \<Rightarrow> False
      | Some check \<Rightarrow>
          \<not> (case check of None \<Rightarrow> False | Some c \<Rightarrow> list_all c (map (font_spec fontSize) [lit ''normal'', lit ''bold''])))"

section \<open>The terminal\<close>

record widget =
  wd_opened :: bool
  wd_disposed :: bool
  wd_size :: "nat \<times> nat"
  wd_screen :: "jsstring list"
  wd_stdin :: bool
  wd_timer :: bool
  wd_loading :: bool
  wd_fallback :: bool

text \<open>What the component calls of its properties.\<close>

datatype widget_out = Resized nat nat | Typed jsstring

definition new_widget :: widget where
  "new_widget = \<lparr>wd_opened = False, wd_disposed = False, wd_size = (24, 80), wd_screen = [], wd_stdin = True, wd_timer = False,
     wd_loading = False, wd_fallback = False\<rparr>"

text \<open>\<^verbatim>\<open>fit.fit()\<close> with the size that fits; \<open>listening\<close>: whether the resize listener is there yet.\<close>

definition fit :: "nat \<times> nat \<Rightarrow> bool \<Rightarrow> widget \<Rightarrow> widget \<times> widget_out list" where
  "fit dims listening w =
     (w\<lparr>wd_size := dims\<rparr>, if listening \<and> dims \<noteq> wd_size w then [Resized (fst dims) (snd dims)] else [])"

definition open_widget :: "nat \<times> nat \<Rightarrow> bool \<Rightarrow> widget \<Rightarrow> widget \<times> widget_out list" where
  "open_widget dims listening w =
     (if wd_disposed w \<or> wd_opened w then (w, [])
      else case fit dims listening (w\<lparr>wd_opened := True\<rparr>) of
             (w1, outs) \<Rightarrow> (w1, outs @ [Resized (fst (wd_size w1)) (snd (wd_size w1))]))"

text \<open>The effect that makes the terminal. The listeners are added after the terminal was opened, if it is at once.\<close>

definition mount_widget :: "bool \<Rightarrow> nat \<times> nat \<Rightarrow> widget \<times> widget_out list" where
  "mount_widget fontsReady dims =
     (if fontsReady then (new_widget\<lparr>wd_timer := True, wd_loading := True\<rparr>, []) else open_widget dims False new_widget)"

definition font_timeout :: "nat \<times> nat \<Rightarrow> widget \<Rightarrow> widget \<times> widget_out list" where
  "font_timeout dims w = open_widget dims True (w\<lparr>wd_timer := False\<rparr>)"

definition fonts_arrive :: "nat \<times> nat \<Rightarrow> widget \<Rightarrow> widget \<times> widget_out list" where
  "fonts_arrive dims w =
     (let w = w\<lparr>wd_loading := False\<rparr>
      in if wd_disposed w then (w, [])
         else if \<not> wd_opened w then open_widget dims True (w\<lparr>wd_timer := False\<rparr>)
         else fit dims True (w\<lparr>wd_fallback := True\<rparr>))"

definition container_resized :: "nat \<times> nat \<Rightarrow> widget \<Rightarrow> widget \<times> widget_out list" where
  "container_resized dims w = (if wd_opened w \<and> \<not> wd_disposed w then fit dims True w else (w, []))"

definition typed :: "jsstring \<Rightarrow> widget \<Rightarrow> widget \<times> widget_out list" where
  "typed data w = (w, if wd_opened w \<and> \<not> wd_disposed w \<and> wd_stdin w then [Typed data] else [])"

definition dispose_widget :: "widget \<Rightarrow> widget" where
  "dispose_widget w = w\<lparr>wd_disposed := True, wd_timer := False\<rparr>"

text \<open>The handle.\<close>

definition getSize :: "widget \<Rightarrow> (nat \<times> nat) option" where
  "getSize w = (if wd_opened w \<and> \<not> wd_disposed w then Some (wd_size w) else None)"

definition onDataReceived :: "jsstring \<Rightarrow> widget \<Rightarrow> widget" where
  "onDataReceived data w = w\<lparr>wd_screen := wd_screen w @ [data]\<rparr>"

definition onConnectionClosed :: "jsstring \<Rightarrow> widget \<Rightarrow> widget" where
  "onConnectionClosed msg w =
     w\<lparr>wd_screen := wd_screen w @ [[27] @ lit ''[31m'' @ (if msg = [] then lit ''disconnected'' else msg) @ [27] @ lit ''[m'' @ [13, 10]],
       wd_stdin := False\<rparr>"

section \<open>Searching\<close>

record pressed_key =
  ke_key :: jsstring
  ke_ctrl :: bool
  ke_meta :: bool
  ke_alt :: bool
  ke_shift :: bool

definition isFindShortcut :: "host \<Rightarrow> pressed_key \<Rightarrow> bool" where
  "isFindShortcut h e \<longleftrightarrow>
     toLowerCase h (ke_key e) = lit ''f'' \<and> (ke_ctrl e \<or> ke_meta e) \<and> \<not> ke_alt e \<and> \<not> (ke_ctrl e \<and> ke_meta e)"

text \<open>The search box; \<open>sb_calls\<close> are the calls to the search add-on.\<close>

datatype search_call = FindNext jsstring bool | FindPrevious jsstring | ClearDecorations

record search_box =
  sb_open :: bool
  sb_term :: jsstring
  sb_result :: "int \<times> nat"
  sb_calls :: "search_call list"

definition new_search_box :: search_box where
  "new_search_box = \<lparr>sb_open = False, sb_term = [], sb_result = (-1, 0), sb_calls = []\<rparr>"

definition openSearch :: "search_box \<Rightarrow> search_box" where
  "openSearch b = b\<lparr>sb_open := True\<rparr>"

definition closeSearch :: "search_box \<Rightarrow> search_box" where
  "closeSearch b = b\<lparr>sb_open := False, sb_calls := sb_calls b @ [ClearDecorations]\<rparr>"

text \<open>The key handler of xterm: whether the key goes to the session, and the search box after.\<close>

definition terminal_key :: "host \<Rightarrow> bool \<Rightarrow> pressed_key \<Rightarrow> search_box \<Rightarrow> bool \<times> search_box" where
  "terminal_key h keydown e b = (if keydown \<and> isFindShortcut h e then (False, openSearch b) else (True, b))"

definition onSearchInputChange :: "jsstring \<Rightarrow> search_box \<Rightarrow> search_box" where
  "onSearchInputChange term b =
     b\<lparr>sb_term := term, sb_calls := sb_calls b @ [if term \<noteq> [] then FindNext term True else ClearDecorations]\<rparr>"

definition onSearchKeyDown :: "host \<Rightarrow> pressed_key \<Rightarrow> search_box \<Rightarrow> search_box" where
  "onSearchKeyDown h e b =
     (if ke_key e = lit ''Escape'' \<or> isFindShortcut h e then closeSearch b
      else if ke_key e = lit ''Enter''
      then b\<lparr>sb_calls := sb_calls b @ [if ke_shift e then FindPrevious (sb_term b) else FindNext (sb_term b) False]\<rparr>
      else b)"

datatype search_shown = NoCount | NoResults | IndexOf int nat

definition search_count :: "search_box \<Rightarrow> search_shown" where
  "search_count b =
     (if sb_term b = [] then NoCount
      else if 0 \<le> fst (sb_result b) then IndexOf (fst (sb_result b) + 1) (snd (sb_result b)) else NoResults)"

section \<open>The size the tab knows\<close>

text \<open>The size last reported, if any was.\<close>

fun told :: "widget_out list \<Rightarrow> (nat \<times> nat) option \<Rightarrow> (nat \<times> nat) option" where
  "told [] known = known"
| "told (Resized r c # outs) known = told outs (Some (r, c))"
| "told (Typed d # outs) known = told outs known"

lemma told_append [simp]: "told (xs @ ys) known = told ys (told xs known)"
  by (induction xs known rule: told.induct) simp_all

datatype widget_event =
    FontTimeout "nat \<times> nat" | FontsArrive "nat \<times> nat" | ContainerResized "nat \<times> nat" | TypedIn jsstring
  | Received jsstring | ConnectionClosed jsstring

fun widget_enabled :: "widget_event \<Rightarrow> widget \<Rightarrow> bool" where
  "widget_enabled (FontTimeout dims) w = wd_timer w"
| "widget_enabled (FontsArrive dims) w = wd_loading w"
| "widget_enabled (ContainerResized dims) w = wd_opened w"
| "widget_enabled (TypedIn d) w = wd_opened w"
| "widget_enabled (Received d) w = True"
| "widget_enabled (ConnectionClosed m) w = True"

fun widget_step :: "widget_event \<Rightarrow> widget \<Rightarrow> widget \<times> widget_out list" where
  "widget_step (FontTimeout dims) w = font_timeout dims w"
| "widget_step (FontsArrive dims) w = fonts_arrive dims w"
| "widget_step (ContainerResized dims) w = container_resized dims w"
| "widget_step (TypedIn d) w = typed d w"
| "widget_step (Received d) w = (onDataReceived d w, [])"
| "widget_step (ConnectionClosed m) w = (onConnectionClosed m w, [])"

lemmas widget_ops = font_timeout_def fonts_arrive_def container_resized_def typed_def onDataReceived_def onConnectionClosed_def
  open_widget_def fit_def mount_widget_def new_widget_def getSize_def Let_def

text \<open>Every step tells the size it leaves.\<close>

lemma step_tells: "\<not> wd_disposed w \<Longrightarrow> getSize (fst (widget_step e w)) = told (snd (widget_step e w)) (getSize w)"
  by (cases e) (auto simp: widget_ops)

lemma mount_tells: "getSize (fst (mount_widget fonts dims)) = told (snd (mount_widget fonts dims)) None"
  by (auto simp: widget_ops)

lemma step_alive: "wd_disposed (fst (widget_step e w)) = wd_disposed w"
  by (cases e) (auto simp: widget_ops)

lemma mount_alive: "\<not> wd_disposed (fst (mount_widget fonts dims))"
  by (auto simp: widget_ops)

text \<open>The terminal with everything it has reported.\<close>

definition widget_apply :: "widget_event \<Rightarrow> widget \<times> widget_out list \<Rightarrow> widget \<times> widget_out list" where
  "widget_apply e s = (fst (widget_step e (fst s)), snd s @ snd (widget_step e (fst s)))"

inductive widget_reach :: "widget \<times> widget_out list \<Rightarrow> bool" where
  widget_mount: "widget_reach (mount_widget fonts dims)"
| widget_event: "widget_reach s \<Longrightarrow> widget_enabled e (fst s) \<Longrightarrow> widget_reach (widget_apply e s)"

interpretation widget_runs: event_system "\<lambda>s. \<exists>fonts dims. s = mount_widget fonts dims" "\<lambda>e s. widget_enabled e (fst s)" widget_apply widget_reach
proof unfold_locales
  fix s and P :: "widget \<times> widget_out list \<Rightarrow> bool"
  assume "widget_reach s" "\<And>s. \<exists>fonts dims. s = mount_widget fonts dims \<Longrightarrow> P s"
    "\<And>s e. widget_reach s \<Longrightarrow> widget_enabled e (fst s) \<Longrightarrow> P s \<Longrightarrow> P (widget_apply e s)"
  then show "P s" by (induction rule: widget_reach.induct) blast+
qed (blast intro: widget_reach.intros)+

definition widget_inv :: "widget \<times> widget_out list \<Rightarrow> bool" where
  "widget_inv s \<longleftrightarrow> \<not> wd_disposed (fst s) \<and> (wd_opened (fst s) \<or> wd_timer (fst s) \<and> wd_loading (fst s)) \<and>
     getSize (fst s) = told (snd s) None \<and> (\<not> wd_opened (fst s) \<longrightarrow> snd s = [])"

lemma step_opens:
  assumes "\<not> wd_disposed w" "widget_enabled e w" "wd_opened w \<or> wd_timer w \<and> wd_loading w"
  shows "wd_opened (fst (widget_step e w)) \<or>
    \<not> wd_opened w \<and> wd_timer (fst (widget_step e w)) \<and> wd_loading (fst (widget_step e w)) \<and> snd (widget_step e w) = []"
  using assms by (cases e) (auto simp: widget_ops)

lemma widget_inv_step: "widget_inv s \<Longrightarrow> widget_enabled e (fst s) \<Longrightarrow> widget_inv (widget_apply e s)"
  using step_tells [of "fst s" e] step_alive [of e "fst s"] step_opens [of "fst s" e]
  by (auto simp: widget_inv_def widget_apply_def)

lemma widget_inv_mount: "widget_inv (mount_widget fonts dims)"
  by (cases fonts) (simp_all add: widget_inv_def widget_ops)

lemma widget_reach_inv: "widget_reach s \<Longrightarrow> widget_inv s"
  by (erule widget_runs.always) (auto simp only: widget_inv_mount intro: widget_inv_step)

text \<open>The tab always knows the size of the terminal, and the terminal does open: until it is open it reports nothing and
  the font timer is still running, whose end opens it; from then on the last size reported is the size it has, whether it
  opened at once, when the font came or when the timer ended, and whatever it was resized to since.\<close>

theorem terminal_size_reported:
  assumes "widget_reach (w, outs)"
  shows "(if wd_opened w then told outs None = Some (wd_size w) else outs = [] \<and> wd_timer w \<and> wd_opened (fst (font_timeout dims w)))"
  using widget_reach_inv [OF assms] by (auto simp: widget_inv_def widget_ops)

definition sample_widget :: widget where
  "sample_widget = new_widget\<lparr>wd_opened := True, wd_size := (30, 100), wd_fallback := True\<rparr>"

lemma terminal_size_reported_witness:
  "widget_reach (sample_widget, [Resized 30 90, Resized 30 90, Resized 30 100]) \<and>
   told [Resized 30 90, Resized 30 90, Resized 30 100] None = Some (wd_size sample_widget)"
proof -
  let ?s = "fold widget_apply [FontTimeout (30, 90), FontsArrive (30, 100)] (mount_widget True (24, 80))"
  have "?s = (sample_widget, [Resized 30 90, Resized 30 90, Resized 30 100])"
    by (simp add: widget_apply_def widget_ops sample_widget_def)
  moreover have "widget_reach ?s"
    by (rule widget_runs.reached_run [OF widget_mount]) (simp add: widget_apply_def widget_ops)
  ultimately have reach: "widget_reach (sample_widget, [Resized 30 90, Resized 30 90, Resized 30 100])" by simp
  have "wd_opened sample_widget" by (simp add: sample_widget_def)
  with reach terminal_size_reported [OF reach] show ?thesis by simp
qed

text \<open>The find shortcut never reaches the session, everything else does; in the box it closes the search.\<close>

lemma find_shortcut_kept:
  "fst (terminal_key h keydown e b) \<longleftrightarrow> \<not> (keydown \<and> isFindShortcut h e)"
  "isFindShortcut h e \<Longrightarrow> sb_open (onSearchKeyDown h e (snd (terminal_key h True e b))) = False"
  by (simp_all add: terminal_key_def onSearchKeyDown_def closeSearch_def)

end
