(* ===== verification/Term_PodTab.thy ===== *)
theory Term_PodTab
  imports Term_Widget Term_Channels Term_Vnc Term_TimeZone Console_Urls
begin

text \<open>
  The life of the shell sessions of a pod's terminal tab, \<^verbatim>\<open>plugins/terminal/src/pod/PodTerminalTab.tsx\<close>: the effect that
  connects, the handlers of its channel, and the terminal that is mounted while there is something to show. The tab puts
  together the channel of \<open>Term_Channels\<close>, the terminal of \<open>Term_Widget\<close> and the entries of \<open>Term_Vnc\<close>.

  A commit of the component, with the effects that follow from it, is complete before the next event comes. The VNC console
  reports its errors and actions by events.
\<close>

section \<open>What is connected to\<close>

record exec_deps =
  xd_vnc :: bool
  xd_namespace :: "jsstring option"
  xd_pod :: "jsstring option"
  xd_container :: "jsstring option"
  xd_windows :: bool

definition activeValue :: "pod_kind \<Rightarrow> jsstring option \<Rightarrow> jsstring" where
  "activeValue obj selected = (case activeEntry obj selected of None \<Rightarrow> [] | Some e \<Rightarrow> entry_value e)"

definition exec_deps_of :: "pod_kind \<Rightarrow> jsstring option \<Rightarrow> exec_deps" where
  "exec_deps_of obj selected =
     (let entry = activeEntry obj selected
      in \<lparr>xd_vnc = (case entry of None \<Rightarrow> False | Some e \<Rightarrow> connectionId e \<noteq> None),
          xd_namespace = pod_namespace obj,
          xd_pod = pod_name obj,
          xd_container = (case entry of
              Some e \<Rightarrow> Some (entry_container e)
            | None \<Rightarrow> (case pod_containers obj of [] \<Rightarrow> None | c # _ \<Rightarrow> Some c)),
          xd_windows = (pod_os obj = Some (lit ''windows''))\<rparr>)"

text \<open>The command of the session; \<open>tz\<close> is what \<^verbatim>\<open>sessionTimeZone\<close> gives.\<close>

definition session_command :: "(jsstring \<times> jsstring) option \<Rightarrow> bool \<Rightarrow> jsstring list" where
  "session_command tz isWindows =
     (if isWindows then [lit ''cmd'']
      else [lit ''sh'', lit ''-i'', lit ''-c'', shellTimeZonePrefix tz @ lit ''TERM=xterm sh''])"

definition session_url :: "jsstring option \<Rightarrow> location \<Rightarrow> (jsstring \<times> jsstring) option \<Rightarrow> exec_deps \<Rightarrow> jsstring option" where
  "session_url base l tz d =
     execURL base (the (xd_namespace d)) (the (xd_pod d)) (the (xd_container d)) (session_command tz (xd_windows d)) l"

definition NO_SH :: jsstring where
  "NO_SH = lit ''starting container process caused '' @ [34] @ lit ''exec: '' @ [92, 34] @ lit ''sh'' @ [92, 34] @
     lit '': executable file not found in $PATH'' @ [34]"

definition no_shell_hint :: "jsstring \<Rightarrow> jsstring \<Rightarrow> jsstring" where
  "no_shell_hint namespace pod =
     lit ''This container doesn'' @ [39] @ lit ''t have a /bin/sh shell. Try specifying your command in a terminal with:'' @
     [13, 10, 13, 10] @ lit '' oc -n '' @ namespace @ lit '' exec '' @ pod @ lit '' -ti <command>''"

section \<open>The tab\<close>

record exec_run =
  xr_deps :: exec_deps
  xr_channel :: exec_channel
  xr_cancelled :: bool
  xr_lastData :: jsstring

record pod_tab =
  pt_mounted :: bool
  pt_value :: jsstring
  pt_deps :: exec_deps
  pt_open :: bool
  pt_error :: "jsstring option"
  pt_actions :: "jsstring list"
  pt_runs :: "exec_run list"
  pt_exec :: "nat option"
  pt_widget :: "widget option"

definition set_run :: "nat \<Rightarrow> (exec_run \<Rightarrow> exec_run) \<Rightarrow> pod_tab \<Rightarrow> pod_tab" where
  "set_run i f s = s\<lparr>pt_runs := (pt_runs s)[i := f (pt_runs s ! i)]\<rparr>"

definition on_channel :: "(exec_channel \<Rightarrow> exec_channel) \<Rightarrow> exec_run \<Rightarrow> exec_run" where
  "on_channel f r = r\<lparr>xr_channel := f (xr_channel r)\<rparr>"

text \<open>\<^verbatim>\<open>execRef.current?.\<close> and \<^verbatim>\<open>terminalRef.current?.\<close>\<close>

definition to_exec :: "(exec_channel \<Rightarrow> exec_channel) \<Rightarrow> pod_tab \<Rightarrow> pod_tab" where
  "to_exec f s = (case pt_exec s of None \<Rightarrow> s | Some i \<Rightarrow> set_run i (on_channel f) s)"

definition to_widget :: "(widget \<Rightarrow> widget) \<Rightarrow> pod_tab \<Rightarrow> pod_tab" where
  "to_widget f s = s\<lparr>pt_widget := map_option f (pt_widget s)\<rparr>"

fun on_widget_out :: "base64 \<Rightarrow> widget_out \<Rightarrow> pod_tab \<Rightarrow> pod_tab" where
  "on_widget_out b (Resized rows cols) s = to_exec (sendResize b rows cols) s"
| "on_widget_out b (Typed data) s = to_exec (sendInput b data) s"

section \<open>Rendering\<close>

text \<open>What the browser says when a terminal is mounted: whether a font is being waited for, and the size that fits.\<close>

record page =
  pg_fonts :: bool
  pg_dims :: "nat \<times> nat"

definition shows_terminal :: "pod_tab \<Rightarrow> bool" where
  "shows_terminal s \<longleftrightarrow> pt_mounted s \<and> \<not> xd_vnc (pt_deps s) \<and> (pt_open s \<or> \<not> unset (pt_error s))"

definition commit :: "base64 \<Rightarrow> page \<Rightarrow> pod_tab \<Rightarrow> pod_tab" where
  "commit b p s =
     (case pt_widget s of
        None \<Rightarrow>
          if shows_terminal s
          then (case mount_widget (pg_fonts p) (pg_dims p) of
                  (w, outs) \<Rightarrow> fold (on_widget_out b) outs (s\<lparr>pt_widget := Some w\<rparr>))
          else s
      | Some w \<Rightarrow> if shows_terminal s then s else s\<lparr>pt_widget := None\<rparr>)"

text \<open>The toolbar: whether there is a choice of connections, the actions menu, the full screen button; and the alert's link.\<close>

definition connection_label :: "entry list \<Rightarrow> jsstring \<Rightarrow> jsstring" where
  "connection_label options selected =
     (case find (\<lambda>e. entry_value e = selected) options of None \<Rightarrow> selected | Some e \<Rightarrow> entry_label e)"

definition tab_toolbar :: "entry list \<Rightarrow> bool \<Rightarrow> pod_tab \<Rightarrow> bool \<times> bool \<times> bool" where
  "tab_toolbar options canUseFullScreen s =
     (length options > 1, pt_actions s \<noteq> [], unset (pt_error s) \<and> canUseFullScreen)"

definition reconnect_link :: "jsstring option \<Rightarrow> pod_tab \<Rightarrow> bool" where
  "reconnect_link phase s \<longleftrightarrow>
     \<not> unset (pt_error s) \<and> \<not> xd_vnc (pt_deps s) \<and> phase = Some (lit ''Running'')"

text \<open>\<^verbatim>\<open>useFullscreen\<close>: what the change event and the button do; the element in full screen, and the tab's own.\<close>

definition fullscreen_changed :: "nat option \<Rightarrow> nat \<Rightarrow> bool" where
  "fullscreen_changed fullscreenElement mine = (fullscreenElement = Some mine)"

definition toggle_fullscreen :: "nat option \<Rightarrow> nat \<Rightarrow> nat option" where
  "toggle_fullscreen fullscreenElement mine = (case fullscreenElement of Some _ \<Rightarrow> None | None \<Rightarrow> Some mine)"

section \<open>Connecting\<close>

definition exec_cleanup :: "base64 \<Rightarrow> pod_tab \<Rightarrow> pod_tab" where
  "exec_cleanup b s =
     (case pt_exec s of
        None \<Rightarrow> s
      | Some i \<Rightarrow>
          (set_run i (\<lambda>r. on_channel (ec_destroy \<circ> sendInput b (lit ''exit'' @ [13])) (r\<lparr>xr_cancelled := True\<rparr>)) s)\<lparr>pt_exec := None\<rparr>)"

definition can_connect :: "exec_deps \<Rightarrow> bool" where
  "can_connect d \<longleftrightarrow> \<not> (xd_vnc d \<or> unset (xd_namespace d) \<or> unset (xd_pod d) \<or> unset (xd_container d))"

definition connect_effect :: "base64 \<Rightarrow> pod_tab \<Rightarrow> pod_tab" where
  "connect_effect b s =
     (let d = pt_deps s
      in if \<not> can_connect d then s
         else (let channel = (case Option.bind (pt_widget s) getSize of
                                None \<Rightarrow> new_exec_channel
                              | Some (rows, cols) \<Rightarrow> sendResize b rows cols new_exec_channel)
               in s\<lparr>pt_open := False, pt_error := None,
                    pt_runs := pt_runs s @ [\<lparr>xr_deps = d, xr_channel = channel, xr_cancelled = False, xr_lastData = []\<rparr>],
                    pt_exec := Some (length (pt_runs s))\<rparr>))"

definition mount_tab :: "base64 \<Rightarrow> page \<Rightarrow> jsstring \<Rightarrow> exec_deps \<Rightarrow> pod_tab" where
  "mount_tab b p v d =
     commit b p (connect_effect b
       \<lparr>pt_mounted = True, pt_value = v, pt_deps = d, pt_open = False, pt_error = None, pt_actions = [], pt_runs = [],
        pt_exec = None, pt_widget = None\<rparr>)"

text \<open>A render with another selection or another pod: the clean-up, the commit, the effects, and the commit they lead to.\<close>

definition set_view :: "base64 \<Rightarrow> page \<Rightarrow> jsstring \<Rightarrow> exec_deps \<Rightarrow> pod_tab \<Rightarrow> pod_tab" where
  "set_view b p v d s =
     (let s1 = s\<lparr>pt_value := v, pt_deps := d\<rparr>;
          s2 = (if d \<noteq> pt_deps s then exec_cleanup b s1 else s1);
          s3 = commit b p s2;
          s4 = (if v \<noteq> pt_value s then s3\<lparr>pt_error := None, pt_actions := []\<rparr> else s3);
          s5 = (if d \<noteq> pt_deps s then connect_effect b s4 else s4)
      in commit b p s5)"

definition reconnect_tab :: "base64 \<Rightarrow> page \<Rightarrow> pod_tab \<Rightarrow> pod_tab" where
  "reconnect_tab b p s = commit b p (connect_effect b (exec_cleanup b s))"

definition unmount_tab :: "base64 \<Rightarrow> pod_tab \<Rightarrow> pod_tab" where
  "unmount_tab b s = (exec_cleanup b s)\<lparr>pt_mounted := False, pt_widget := None\<rparr>"

section \<open>The handlers of a channel\<close>

fun contains :: "jsstring \<Rightarrow> jsstring \<Rightarrow> bool" where
  "contains [] p \<longleftrightarrow> p = []"
| "contains (c # s) p \<longleftrightarrow> starts_with p (c # s) \<or> contains s p"

fun on_exec_event :: "nat \<Rightarrow> exec_event \<Rightarrow> pod_tab \<Rightarrow> pod_tab" where
  "on_exec_event i ExOpen s = s\<lparr>pt_open := True, pt_error := None\<rparr>"
| "on_exec_event i (ExData data) s = set_run i (\<lambda>r. r\<lparr>xr_lastData := data\<rparr>) (to_widget (onDataReceived data) s)"
| "on_exec_event i (ExStreamError message) s =
     (let r = pt_runs s ! i
      in if contains (xr_lastData r) NO_SH
         then (let hint = no_shell_hint (the (xd_namespace (xr_deps r))) (the (xd_pod (xr_deps r)))
               in (to_widget (onConnectionClosed hint) s)\<lparr>pt_error := Some hint\<rparr>)
         else s\<lparr>pt_error := Some message\<rparr>)"
| "on_exec_event i (ExClose message) s =
     (if xr_cancelled (pt_runs s ! i) then s
      else (let errorMsg = (if message = [] then lit ''The terminal connection has closed.'' else message)
            in to_widget (onConnectionClosed errorMsg) (s\<lparr>pt_open := False, pt_error := Some errorMsg\<rparr>)))"

definition socket_opens :: "base64 \<Rightarrow> page \<Rightarrow> nat \<Rightarrow> pod_tab \<Rightarrow> pod_tab" where
  "socket_opens b p i s =
     (case ec_onopen b (xr_channel (pt_runs s ! i)) of
        (c, events) \<Rightarrow> commit b p (fold (on_exec_event i) events (set_run i (on_channel (\<lambda>_. c)) s)))"

definition socket_message :: "base64 \<Rightarrow> page \<Rightarrow> nat \<Rightarrow> jsstring \<Rightarrow> pod_tab \<Rightarrow> pod_tab" where
  "socket_message b p i raw s =
     commit b p (fold (on_exec_event i) (ec_onMessage b raw (xr_channel (pt_runs s ! i))) s)"

definition socket_closes :: "base64 \<Rightarrow> page \<Rightarrow> nat \<Rightarrow> bool \<Rightarrow> jsstring \<Rightarrow> pod_tab \<Rightarrow> pod_tab" where
  "socket_closes b p i wasClean reason s =
     (case ec_onclose wasClean reason (xr_channel (pt_runs s ! i)) of
        (c, events) \<Rightarrow> commit b p (fold (on_exec_event i) events (set_run i (on_channel (\<lambda>_. c)) s)))"

definition widget_happens :: "base64 \<Rightarrow> widget_event \<Rightarrow> pod_tab \<Rightarrow> pod_tab" where
  "widget_happens b e s =
     (case pt_widget s of
        None \<Rightarrow> s
      | Some w \<Rightarrow> (case widget_step e w of (w', outs) \<Rightarrow> fold (on_widget_out b) outs (s\<lparr>pt_widget := Some w'\<rparr>)))"

section \<open>Runs of the tab\<close>

datatype pod_event =
    View jsstring exec_deps | Reconnect | LeaveTab | SocketOpens nat | SocketMessage nat jsstring
  | SocketCloses nat bool jsstring | InTerminal widget_event | VncError "jsstring option" | VncActions "jsstring list"

fun pod_apply :: "base64 \<Rightarrow> page \<times> pod_event \<Rightarrow> pod_tab \<Rightarrow> pod_tab" where
  "pod_apply b (p, View v d) s = set_view b p v d s"
| "pod_apply b (p, Reconnect) s = reconnect_tab b p s"
| "pod_apply b (p, LeaveTab) s = unmount_tab b s"
| "pod_apply b (p, SocketOpens i) s = socket_opens b p i s"
| "pod_apply b (p, SocketMessage i raw) s = socket_message b p i raw s"
| "pod_apply b (p, SocketCloses i wasClean reason) s = socket_closes b p i wasClean reason s"
| "pod_apply b (p, InTerminal e) s = widget_happens b e s"
| "pod_apply b (p, VncError e) s = s\<lparr>pt_error := e\<rparr>"
| "pod_apply b (p, VncActions as) s = s\<lparr>pt_actions := as\<rparr>"

text \<open>
  The alert with the Reconnect link is there while there is an error and no VNC console. A socket opens once, and says
  something only while it is open. What the terminal passes on is what a reader can do to a mounted one.
\<close>

definition channel_of :: "pod_tab \<Rightarrow> nat \<Rightarrow> exec_channel" where
  "channel_of s i = xr_channel (pt_runs s ! i)"

fun pod_enabled :: "page \<times> pod_event \<Rightarrow> pod_tab \<Rightarrow> bool" where
  "pod_enabled (p, View v d) s = pt_mounted s"
| "pod_enabled (p, Reconnect) s = (pt_mounted s \<and> \<not> unset (pt_error s) \<and> \<not> xd_vnc (pt_deps s))"
| "pod_enabled (p, LeaveTab) s = pt_mounted s"
| "pod_enabled (p, SocketOpens i) s = (i < length (pt_runs s) \<and> ec_socket (channel_of s i) = CONNECTING)"
| "pod_enabled (p, SocketMessage i raw) s = (i < length (pt_runs s) \<and> ec_socket (channel_of s i) = OPEN)"
| "pod_enabled (p, SocketCloses i wasClean reason) s = (i < length (pt_runs s) \<and> ec_socket (channel_of s i) \<noteq> CLOSED)"
| "pod_enabled (p, InTerminal e) s =
     (case pt_widget s of
        None \<Rightarrow> False
      | Some w \<Rightarrow> widget_enabled e w \<and> (case e of Received _ \<Rightarrow> False | ConnectionClosed _ \<Rightarrow> False | _ \<Rightarrow> True))"
| "pod_enabled (p, VncError e) s = (pt_mounted s \<and> xd_vnc (pt_deps s))"
| "pod_enabled (p, VncActions as) s = (pt_mounted s \<and> xd_vnc (pt_deps s))"

inductive pod_reach :: "base64 \<Rightarrow> pod_tab \<Rightarrow> bool" for b where
  pod_mount: "pod_reach b (mount_tab b p v d)"
| pod_event: "pod_reach b s \<Longrightarrow> pod_enabled e s \<Longrightarrow> pod_reach b (pod_apply b e s)"

interpretation pod_runs: event_system "\<lambda>s. \<exists>p v d. s = mount_tab b p v d" pod_enabled "pod_apply b" "pod_reach b" for b
proof unfold_locales
  fix s P
  assume "pod_reach b s" "\<And>s. \<exists>p v d. s = mount_tab b p v d \<Longrightarrow> P s"
    "\<And>s e. pod_reach b s \<Longrightarrow> pod_enabled e s \<Longrightarrow> P s \<Longrightarrow> P (pod_apply b e s)"
  then show "P s" by (induction rule: pod_reach.induct) blast+
qed (blast intro: pod_reach.intros)+

section \<open>Channels\<close>

definition is_resize :: "jsstring \<Rightarrow> bool" where
  "is_resize f \<longleftrightarrow> f \<noteq> [] \<and> hd f = RESIZE_CHANNEL"

text \<open>The size the server was told last.\<close>

definition last_resize :: "exec_channel \<Rightarrow> jsstring option" where
  "last_resize c = find is_resize (rev (ec_sent c))"

definition size_frame :: "base64 \<Rightarrow> nat \<times> nat \<Rightarrow> jsstring" where
  "size_frame b sz = call_frame b (Resize (fst sz) (snd sz))"

definition channel_ok :: "base64 \<Rightarrow> exec_channel \<Rightarrow> bool" where
  "channel_ok b c \<longleftrightarrow> (ec_socket c = CONNECTING \<longrightarrow> ec_sent c = []) \<and>
     (ec_socket c = OPEN \<longrightarrow> last_resize c = map_option (size_frame b) (ec_size c))"

lemmas channel_ops = sendResize_def sendInput_def ec_send_def ec_destroy_def ec_onclose_def ec_onopen_def new_exec_channel_def

lemma channel_ok_ops:
  "channel_ok b new_exec_channel"
  "channel_ok b c \<Longrightarrow> channel_ok b (sendResize b rows cols c)"
  "channel_ok b c \<Longrightarrow> channel_ok b (sendInput b data c)"
  "channel_ok b c \<Longrightarrow> channel_ok b (ec_destroy c)"
  "channel_ok b c \<Longrightarrow> channel_ok b (fst (ec_onclose wasClean reason c))"
  "channel_ok b c \<Longrightarrow> ec_handlers c \<Longrightarrow> ec_socket c = CONNECTING \<Longrightarrow> channel_ok b (fst (ec_onopen b c))"
  by (auto simp: channel_ok_def channel_ops last_resize_def is_resize_def size_frame_def STDIN_CHANNEL_def RESIZE_CHANNEL_def Let_def
      split: option.splits)

lemma send_parts [simp]:
  "ec_handlers (sendResize b rows cols c) = ec_handlers c" "ec_handlers (sendInput b data c) = ec_handlers c"
  "ec_socket (sendResize b rows cols c) = ec_socket c" "ec_socket (sendInput b data c) = ec_socket c"
  "ec_size (sendResize b rows cols c) = Some (rows, cols)" "ec_size (sendInput b data c) = ec_size c"
  by (simp_all add: channel_ops)

definition stale :: "exec_run \<Rightarrow> bool" where
  "stale r \<longleftrightarrow> xr_cancelled r \<and> \<not> ec_handlers (xr_channel r) \<and> ec_socket (xr_channel r) \<in> {CLOSING, CLOSED}"

definition in_use :: "exec_run \<Rightarrow> bool" where
  "in_use r \<longleftrightarrow> \<not> xr_cancelled r \<and> ec_handlers (xr_channel r)"

section \<open>Invariants\<close>

definition sessions_inv :: "base64 \<Rightarrow> pod_tab \<Rightarrow> bool" where
  "sessions_inv b s \<longleftrightarrow> list_all (\<lambda>r. channel_ok b (xr_channel r)) (pt_runs s) \<and>
     (\<forall>i < length (pt_runs s). if pt_exec s = Some i then in_use (pt_runs s ! i) \<and> xr_deps (pt_runs s ! i) = pt_deps s
        else stale (pt_runs s ! i)) \<and>
     (\<forall>i. pt_exec s = Some i \<longrightarrow> i < length (pt_runs s) \<and> can_connect (pt_deps s))"

definition exec_size :: "pod_tab \<Rightarrow> (nat \<times> nat) option" where
  "exec_size s = Option.bind (pt_exec s) (\<lambda>i. ec_size (channel_of s i))"

definition size_inv :: "pod_tab \<Rightarrow> bool" where
  "size_inv s \<longleftrightarrow> (\<forall>w. pt_widget s = Some w \<longrightarrow> \<not> wd_disposed w \<and>
     (pt_exec s \<noteq> None \<and> getSize w \<noteq> None \<longrightarrow> exec_size s = getSize w))"

lemma sessions_inv_frame: "sessions_inv b s \<Longrightarrow> pt_runs s' = pt_runs s \<Longrightarrow> pt_exec s' = pt_exec s \<Longrightarrow> pt_deps s' = pt_deps s \<Longrightarrow> sessions_inv b s'"
  by (simp add: sessions_inv_def)

lemma exec_size_frame: "pt_runs s' = pt_runs s \<Longrightarrow> pt_exec s' = pt_exec s \<Longrightarrow> exec_size s' = exec_size s"
  by (simp add: exec_size_def channel_of_def)

lemma set_run_parts [simp]:
  "pt_exec (set_run i f s) = pt_exec s" "pt_deps (set_run i f s) = pt_deps s" "pt_widget (set_run i f s) = pt_widget s"
  "pt_open (set_run i f s) = pt_open s" "pt_error (set_run i f s) = pt_error s" "pt_mounted (set_run i f s) = pt_mounted s"
  "length (pt_runs (set_run i f s)) = length (pt_runs s)" "shows_terminal (set_run i f s) = shows_terminal s"
  by (simp_all add: set_run_def shows_terminal_def)

lemma set_run_inv:
  assumes "sessions_inv b s" "i < length (pt_runs s)" "channel_ok b (xr_channel (f (pt_runs s ! i)))"
    "xr_cancelled (f (pt_runs s ! i)) = xr_cancelled (pt_runs s ! i)" "xr_deps (f (pt_runs s ! i)) = xr_deps (pt_runs s ! i)"
    "ec_handlers (xr_channel (f (pt_runs s ! i))) = ec_handlers (xr_channel (pt_runs s ! i))"
    "ec_socket (xr_channel (pt_runs s ! i)) \<in> {CLOSING, CLOSED} \<Longrightarrow> ec_socket (xr_channel (f (pt_runs s ! i))) \<in> {CLOSING, CLOSED}"
  shows "sessions_inv b (set_run i f s)"
  using assms by (auto simp: sessions_inv_def set_run_def list_all_length nth_list_update in_use_def stale_def)

lemma sessions_inv_channel: "sessions_inv b s \<Longrightarrow> i < length (pt_runs s) \<Longrightarrow> channel_ok b (xr_channel (pt_runs s ! i))"
  by (simp add: sessions_inv_def list_all_length)

lemma sessions_inv_exec: "sessions_inv b s \<Longrightarrow> pt_exec s = Some i \<Longrightarrow> i < length (pt_runs s)"
  by (simp add: sessions_inv_def)

lemma to_exec_inv:
  assumes "sessions_inv b s" "\<And>c. channel_ok b c \<Longrightarrow> channel_ok b (f c)" "\<And>c. ec_handlers (f c) = ec_handlers c" "\<And>c. ec_socket (f c) = ec_socket c"
  shows "sessions_inv b (to_exec f s)"
  using assms sessions_inv_exec [OF assms(1)] sessions_inv_channel [OF assms(1)]
  by (auto simp: to_exec_def on_channel_def split: option.splits intro!: set_run_inv)

lemma on_widget_out_inv: "sessions_inv b s \<Longrightarrow> sessions_inv b (on_widget_out b x s)"
  by (cases x) (simp_all add: to_exec_inv channel_ok_ops)

lemma on_widget_out_parts [simp]:
  "pt_exec (on_widget_out b x s) = pt_exec s" "pt_deps (on_widget_out b x s) = pt_deps s" "pt_widget (on_widget_out b x s) = pt_widget s"
  "shows_terminal (on_widget_out b x s) = shows_terminal s"
  by (cases x; simp add: to_exec_def split: option.splits)+

lemma on_widget_out_size:
  "sessions_inv b s \<Longrightarrow> pt_exec s \<noteq> None \<Longrightarrow> exec_size (on_widget_out b x s) = told [x] (exec_size s)"
  by (cases x) (auto simp: exec_size_def channel_of_def to_exec_def set_run_def on_channel_def dest: sessions_inv_exec)

lemma widget_outs:
  assumes "sessions_inv b s"
  shows "sessions_inv b (fold (on_widget_out b) outs s)"
    "pt_exec (fold (on_widget_out b) outs s) = pt_exec s" "pt_deps (fold (on_widget_out b) outs s) = pt_deps s"
    "pt_widget (fold (on_widget_out b) outs s) = pt_widget s" "shows_terminal (fold (on_widget_out b) outs s) = shows_terminal s"
    "pt_exec s \<noteq> None \<Longrightarrow> exec_size (fold (on_widget_out b) outs s) = told outs (exec_size s)"
proof -
  have "sessions_inv b (fold (on_widget_out b) outs s) \<and> pt_exec (fold (on_widget_out b) outs s) = pt_exec s \<and>
      pt_deps (fold (on_widget_out b) outs s) = pt_deps s \<and> pt_widget (fold (on_widget_out b) outs s) = pt_widget s \<and>
      shows_terminal (fold (on_widget_out b) outs s) = shows_terminal s \<and>
      (pt_exec s \<noteq> None \<longrightarrow> exec_size (fold (on_widget_out b) outs s) = told outs (exec_size s))"
    using assms
  proof (induction outs arbitrary: s)
    case (Cons x outs)
    have "told [x] k = told (x # outs) k \<or> told (x # outs) k = told outs (told [x] k)" for k by (cases x) simp_all
    moreover have "told (x # outs) k = told outs (told [x] k)" for k by (cases x) simp_all
    ultimately show ?case using Cons.IH [OF on_widget_out_inv [OF Cons.prems]] on_widget_out_size [OF Cons.prems] by simp
  qed simp
  then show "sessions_inv b (fold (on_widget_out b) outs s)"
    "pt_exec (fold (on_widget_out b) outs s) = pt_exec s" "pt_deps (fold (on_widget_out b) outs s) = pt_deps s"
    "pt_widget (fold (on_widget_out b) outs s) = pt_widget s" "shows_terminal (fold (on_widget_out b) outs s) = shows_terminal s"
    "pt_exec s \<noteq> None \<Longrightarrow> exec_size (fold (on_widget_out b) outs s) = told outs (exec_size s)"
    by simp_all
qed

lemma told_any: "told outs None \<noteq> None \<Longrightarrow> told outs k = told outs None"
  by (induction outs k rule: told.induct) simp_all

lemma outs_fields [simp]:
  "pt_open (fold (on_widget_out b) outs s) = pt_open s" "pt_error (fold (on_widget_out b) outs s) = pt_error s"
  "pt_mounted (fold (on_widget_out b) outs s) = pt_mounted s" "length (pt_runs (fold (on_widget_out b) outs s)) = length (pt_runs s)"
  "pt_exec (fold (on_widget_out b) outs s) = pt_exec s" "pt_deps (fold (on_widget_out b) outs s) = pt_deps s"
  "pt_widget (fold (on_widget_out b) outs s) = pt_widget s"
proof -
  have "pt_open (on_widget_out b x s) = pt_open s" "pt_error (on_widget_out b x s) = pt_error s"
    "pt_mounted (on_widget_out b x s) = pt_mounted s" "length (pt_runs (on_widget_out b x s)) = length (pt_runs s)" for x s
    by (cases x; simp add: to_exec_def split: option.splits)+
  then show "pt_open (fold (on_widget_out b) outs s) = pt_open s" "pt_error (fold (on_widget_out b) outs s) = pt_error s"
    "pt_mounted (fold (on_widget_out b) outs s) = pt_mounted s" "length (pt_runs (fold (on_widget_out b) outs s)) = length (pt_runs s)"
    "pt_exec (fold (on_widget_out b) outs s) = pt_exec s" "pt_deps (fold (on_widget_out b) outs s) = pt_deps s"
    "pt_widget (fold (on_widget_out b) outs s) = pt_widget s"
    by (induction outs arbitrary: s) simp_all
qed

lemma commit_fields [simp]:
  "pt_open (commit b p s) = pt_open s" "pt_error (commit b p s) = pt_error s" "pt_mounted (commit b p s) = pt_mounted s"
  "length (pt_runs (commit b p s)) = length (pt_runs s)" "pt_exec (commit b p s) = pt_exec s" "pt_deps (commit b p s) = pt_deps s"
  by (auto simp: commit_def split: option.splits prod.splits)

text \<open>A commit makes the terminal what is shown.\<close>

definition tab_ok :: "base64 \<Rightarrow> pod_tab \<Rightarrow> bool" where
  "tab_ok b s \<longleftrightarrow> sessions_inv b s \<and> size_inv s \<and> (pt_widget s \<noteq> None \<longleftrightarrow> shows_terminal s)"

lemma commit_ok:
  assumes "sessions_inv b s" "size_inv s"
  shows "tab_ok b (commit b p s)" "pt_exec (commit b p s) = pt_exec s" "pt_deps (commit b p s) = pt_deps s"
proof -
  have hide: "sessions_inv b (s\<lparr>pt_widget := x\<rparr>)" "shows_terminal (s\<lparr>pt_widget := x\<rparr>) = shows_terminal s" for x
    using assms(1) by (simp_all add: sessions_inv_def shows_terminal_def)
  obtain w outs where mount: "mount_widget (pg_fonts p) (pg_dims p) = (w, outs)" by fastforce
  note out = widget_outs [OF hide(1) [of "Some w"], of outs]
  have told: "getSize w = told outs None" and alive: "\<not> wd_disposed w"
    using mount_tells [of "pg_fonts p" "pg_dims p"] mount_alive [of "pg_fonts p" "pg_dims p"] by (simp_all add: mount)
  have "exec_size (fold (on_widget_out b) outs (s\<lparr>pt_widget := Some w\<rparr>)) = getSize w" if "pt_exec s \<noteq> None" "getSize w \<noteq> None"
    using that out(6) told_any [of outs "exec_size (s\<lparr>pt_widget := Some w\<rparr>)"] unfolding told by simp
  then have "size_inv (fold (on_widget_out b) outs (s\<lparr>pt_widget := Some w\<rparr>))"
    using alive out(2,4) by (simp add: size_inv_def)
  then show "tab_ok b (commit b p s)" "pt_exec (commit b p s) = pt_exec s" "pt_deps (commit b p s) = pt_deps s"
    using assms hide out mount by (auto simp: commit_def tab_ok_def size_inv_def split: option.splits)
qed

lemma cleanup_ok:
  assumes "sessions_inv b s" "size_inv s" "pt_runs s' = pt_runs s" "pt_exec s' = pt_exec s" "pt_widget s' = pt_widget s"
  shows "sessions_inv b (exec_cleanup b s')" "size_inv (exec_cleanup b s')" "pt_exec (exec_cleanup b s') = None"
proof -
  have left: "stale (on_channel (ec_destroy \<circ> sendInput b data) (r\<lparr>xr_cancelled := True\<rparr>))" for r data
    by (simp add: stale_def on_channel_def ec_destroy_def)
  have "channel_ok b (xr_channel r) \<Longrightarrow> channel_ok b (xr_channel (on_channel (ec_destroy \<circ> sendInput b data) (r\<lparr>xr_cancelled := True\<rparr>)))" for r data
    by (simp add: on_channel_def channel_ok_ops)
  with left assms show "sessions_inv b (exec_cleanup b s')"
    by (auto simp: exec_cleanup_def sessions_inv_def set_run_def list_all_length nth_list_update split: option.splits)
  show "size_inv (exec_cleanup b s')" using assms by (auto simp: size_inv_def exec_cleanup_def split: option.splits)
  show "pt_exec (exec_cleanup b s') = None" by (simp add: exec_cleanup_def split: option.splits)
qed

lemma connect_ok:
  assumes "sessions_inv b s" "size_inv s" "pt_exec s = None"
  shows "sessions_inv b (connect_effect b s)" "size_inv (connect_effect b s)"
proof -
  have "in_use \<lparr>xr_deps = d, xr_channel = new_exec_channel, xr_cancelled = False, xr_lastData = []\<rparr>"
    "in_use \<lparr>xr_deps = d, xr_channel = sendResize b rows cols new_exec_channel, xr_cancelled = False, xr_lastData = []\<rparr>" for d rows cols
    by (simp_all add: in_use_def new_exec_channel_def channel_ops)
  with assms(1,3) show "sessions_inv b (connect_effect b s)"
    by (auto simp: connect_effect_def Let_def sessions_inv_def nth_append less_Suc_eq channel_ok_ops split: option.splits)
  show "size_inv (connect_effect b s)"
    using assms(2,3) by (auto simp: size_inv_def connect_effect_def Let_def exec_size_def channel_of_def split: option.splits)
qed

lemma to_widget_ok:
  assumes "sessions_inv b s" "size_inv s" "\<And>w. wd_disposed (f w) = wd_disposed w" "\<And>w. getSize (f w) = getSize w"
  shows "sessions_inv b (to_widget f s)" "size_inv (to_widget f s)"
proof -
  show "sessions_inv b (to_widget f s)" using assms(1) by (rule sessions_inv_frame) (simp_all add: to_widget_def)
  have "exec_size (to_widget f s) = exec_size s" by (rule exec_size_frame) (simp_all add: to_widget_def)
  then show "size_inv (to_widget f s)" using assms(2-4) by (auto simp: size_inv_def to_widget_def)
qed

lemma handle_ops [simp]:
  "wd_disposed (onDataReceived d w) = wd_disposed w" "getSize (onDataReceived d w) = getSize w"
  "wd_disposed (onConnectionClosed m w) = wd_disposed w" "getSize (onConnectionClosed m w) = getSize w"
  by (simp_all add: onDataReceived_def onConnectionClosed_def getSize_def)

text \<open>Fields the invariants do not look at.\<close>

lemma shown_fields [simp]:
  "sessions_inv b (s\<lparr>pt_open := x\<rparr>) = sessions_inv b s" "sessions_inv b (s\<lparr>pt_error := e\<rparr>) = sessions_inv b s"
  "sessions_inv b (s\<lparr>pt_actions := as\<rparr>) = sessions_inv b s" "sessions_inv b (s\<lparr>pt_value := v\<rparr>) = sessions_inv b s"
  "size_inv (s\<lparr>pt_open := x\<rparr>) = size_inv s" "size_inv (s\<lparr>pt_error := e\<rparr>) = size_inv s"
  "size_inv (s\<lparr>pt_actions := as\<rparr>) = size_inv s" "size_inv (s\<lparr>pt_value := v\<rparr>) = size_inv s"
  by (simp_all add: sessions_inv_def size_inv_def exec_size_def channel_of_def)

lemma set_run_size:
  assumes "size_inv s" "i < length (pt_runs s)" "ec_size (xr_channel (f (pt_runs s ! i))) = ec_size (xr_channel (pt_runs s ! i))"
  shows "size_inv (set_run i f s)"
proof -
  have "exec_size (set_run i f s) = exec_size s"
    using assms(2,3) by (auto simp: exec_size_def channel_of_def set_run_def nth_list_update split: Option.bind_splits)
  then show ?thesis using assms(1) by (simp add: size_inv_def)
qed

lemma exec_event_ok:
  assumes "sessions_inv b s" "size_inv s" "i < length (pt_runs s)"
  shows "sessions_inv b (on_exec_event i e s) \<and> size_inv (on_exec_event i e s)"
proof (cases e)
  case (ExData data)
  note w = to_widget_ok [OF assms(1,2), of "onDataReceived data", simplified]
  have "pt_runs (to_widget (onDataReceived data) s) = pt_runs s" by (simp add: to_widget_def)
  then show ?thesis
    using assms(3) w sessions_inv_channel [OF w(1)] unfolding ExData on_exec_event.simps by (auto intro!: set_run_inv set_run_size)
next
  case (ExStreamError m)
  then show ?thesis using assms(1,2) to_widget_ok [OF assms(1,2), of "onConnectionClosed _", simplified] by (simp add: Let_def)
next
  case (ExClose m)
  show ?thesis unfolding ExClose on_exec_event.simps Let_def
    using assms(1,2) to_widget_ok [of b "s\<lparr>pt_open := False, pt_error := Some _\<rparr>" "onConnectionClosed _", simplified] by simp
qed (use assms in simp)

lemma exec_events_ok:
  assumes "sessions_inv b s" "size_inv s" "i < length (pt_runs s)" "length es \<le> 1"
  shows "tab_ok b (commit b p (fold (on_exec_event i) es s))"
  using assms exec_event_ok [OF assms(1-3)] by (cases es) (auto intro: commit_ok)

lemma run_alive:
  assumes "sessions_inv b s" "i < length (pt_runs s)" "ec_socket (channel_of s i) \<notin> {CLOSING, CLOSED}"
  shows "pt_exec s = Some i" "ec_handlers (channel_of s i)"
  using assms by (auto simp: sessions_inv_def channel_of_def stale_def in_use_def split: if_splits)

lemma socket_ok:
  assumes "sessions_inv b s" "size_inv s" "i < length (pt_runs s)" "channel_ok b c" "ec_handlers c = ec_handlers (channel_of s i)"
    "ec_size c = ec_size (channel_of s i)" "ec_socket (channel_of s i) \<in> {CLOSING, CLOSED} \<Longrightarrow> ec_socket c \<in> {CLOSING, CLOSED}"
  shows "sessions_inv b (set_run i (on_channel (\<lambda>_. c)) s)" "size_inv (set_run i (on_channel (\<lambda>_. c)) s)"
  using assms by (auto simp: on_channel_def channel_of_def intro!: set_run_inv set_run_size)

lemma widget_happens_ok:
  assumes "tab_ok b s"
  shows "tab_ok b (widget_happens b e s)"
proof (cases "pt_widget s")
  case (Some w)
  obtain w' outs where step: "widget_step e w = (w', outs)" by fastforce
  let ?s = "s\<lparr>pt_widget := Some w'\<rparr>"
  have runs: "sessions_inv b ?s" using assms by (simp add: tab_ok_def sessions_inv_def)
  note out = widget_outs [OF runs, of outs]
  have w: "\<not> wd_disposed w" "pt_exec s \<noteq> None \<Longrightarrow> getSize w \<noteq> None \<Longrightarrow> exec_size s = getSize w"
    using assms Some by (auto simp: tab_ok_def size_inv_def)
  have told: "getSize w' = told outs (getSize w)" and alive: "\<not> wd_disposed w'"
    using step_tells [OF w(1), of e] step_alive [of e w] w(1) by (simp_all add: step)
  have "exec_size ?s = exec_size s" by (rule exec_size_frame) simp_all
  then have "exec_size (fold (on_widget_out b) outs ?s) = getSize w'" if "pt_exec s \<noteq> None" "getSize w' \<noteq> None"
    using that out(6) told w(2) told_any [of outs "exec_size s"] by (cases "getSize w") auto
  then have "size_inv (fold (on_widget_out b) outs ?s)" using alive out(2,4) by (simp add: size_inv_def)
  moreover have "shows_terminal ?s = shows_terminal s" by (simp add: shows_terminal_def)
  ultimately show ?thesis using assms Some step out by (simp add: tab_ok_def widget_happens_def)
qed (use assms in \<open>simp add: widget_happens_def\<close>)

lemma cleared_ok:
  "sessions_inv b (if x then s\<lparr>pt_error := None, pt_actions := []\<rparr> else s) = sessions_inv b s"
  "size_inv (if x then s\<lparr>pt_error := None, pt_actions := []\<rparr> else s) = size_inv s"
  "pt_exec (if x then s\<lparr>pt_error := None, pt_actions := []\<rparr> else s) = pt_exec s"
  by simp_all

lemma set_view_ok:
  assumes "tab_ok b s"
  shows "tab_ok b (set_view b p v d s)"
proof -
  define s1 where "s1 = s\<lparr>pt_value := v, pt_deps := d\<rparr>"
  define s4 where "s4 = (\<lambda>s3 :: pod_tab. if v \<noteq> pt_value s then s3\<lparr>pt_error := None, pt_actions := []\<rparr> else s3)"
  have inv: "sessions_inv b s" "size_inv s" using assms by (simp_all add: tab_ok_def)
  have s4: "tab_ok b s3 \<Longrightarrow> sessions_inv b (s4 s3)" "tab_ok b s3 \<Longrightarrow> size_inv (s4 s3)" "pt_exec (s4 s3) = pt_exec s3" for s3
    by (simp_all only: s4_def cleared_ok tab_ok_def)
  show ?thesis
  proof (cases "d = pt_deps s")
    case True
    then have "tab_ok b (commit b p s1)" using inv by (intro commit_ok(1)) (simp_all add: s1_def)
    then have "tab_ok b (commit b p (s4 (commit b p s1)))" using commit_ok(1) s4 by blast
    then show ?thesis using True by (simp only: set_view_def Let_def s1_def s4_def simp_thms if_False)
  next
    case False
    note clean = cleanup_ok [OF inv, of s1, unfolded s1_def, simplified, folded s1_def]
    note s3 = commit_ok [OF clean(1,2), of p]
    have "tab_ok b (commit b p (connect_effect b (s4 (commit b p (exec_cleanup b s1)))))"
      by (rule commit_ok(1) [OF connect_ok [OF s4(1,2) [OF s3(1)]]]) (simp_all add: s4(3) s3(2) clean(3))
    then show ?thesis using False by (simp only: set_view_def Let_def s1_def s4_def simp_thms if_True)
  qed
qed

lemma socket_opens_ok:
  assumes "tab_ok b s" "i < length (pt_runs s)" "ec_socket (channel_of s i) = CONNECTING"
  shows "tab_ok b (socket_opens b p i s)"
proof -
  have inv: "sessions_inv b s" "size_inv s" using assms(1) by (simp_all add: tab_ok_def)
  note alive = run_alive [OF inv(1) assms(2)]
  obtain c es where c: "ec_onopen b (channel_of s i) = (c, es)" by fastforce
  have "channel_ok b c"
    using channel_ok_ops(6) [OF sessions_inv_channel [OF inv(1) assms(2), folded channel_of_def] alive(2)] assms(3) c by simp
  then have ok: "sessions_inv b (set_run i (on_channel (\<lambda>_. c)) s)" "size_inv (set_run i (on_channel (\<lambda>_. c)) s)"
    using c by (intro socket_ok [OF inv assms(2)]; auto simp: ec_onopen_def Let_def assms split: if_splits option.splits)+
  show ?thesis
    using exec_events_ok [OF ok, of i es p] assms(2) c by (auto simp: socket_opens_def channel_of_def ec_onopen_def Let_def split: if_splits)
qed

lemma socket_closes_ok:
  assumes "tab_ok b s" "i < length (pt_runs s)"
  shows "tab_ok b (socket_closes b p i wasClean reason s)"
proof -
  have inv: "sessions_inv b s" "size_inv s" using assms(1) by (simp_all add: tab_ok_def)
  obtain c es where c: "ec_onclose wasClean reason (channel_of s i) = (c, es)" by fastforce
  have "channel_ok b c" using channel_ok_ops(5) [OF sessions_inv_channel [OF inv(1) assms(2), folded channel_of_def]] c by (metis fst_conv)
  then have ok: "sessions_inv b (set_run i (on_channel (\<lambda>_. c)) s)" "size_inv (set_run i (on_channel (\<lambda>_. c)) s)"
    using c by (intro socket_ok [OF inv assms(2)]; auto simp: ec_onclose_def)+
  show ?thesis
    using exec_events_ok [OF ok, of i es p] assms(2) c by (auto simp: socket_closes_def channel_of_def ec_onclose_def)
qed

lemma pod_step_ok:
  assumes "tab_ok b s" "pod_enabled (p, e) s"
  shows "tab_ok b (pod_apply b (p, e) s)"
proof -
  have inv: "sessions_inv b s" "size_inv s" using assms(1) by (simp_all add: tab_ok_def)
  note clean = cleanup_ok [OF inv refl refl refl]
  show ?thesis
  proof (cases e)
    case Reconnect
    then show ?thesis using commit_ok(1) [OF connect_ok [OF clean], of p] by (simp add: reconnect_tab_def)
  next
    case LeaveTab
    have "sessions_inv b (unmount_tab b s)" using clean(1) unfolding unmount_tab_def by (rule sessions_inv_frame) simp_all
    then show ?thesis using LeaveTab by (simp add: tab_ok_def unmount_tab_def size_inv_def shows_terminal_def)
  next
    case (SocketMessage i raw)
    have "length (ec_onMessage b raw (channel_of s i)) \<le> 1" by (simp add: ec_onMessage_def Let_def split: list.splits)
    then show ?thesis
      using exec_events_ok [OF inv, of i _ p] assms(2) by (simp add: SocketMessage socket_message_def channel_of_def)
  qed (use assms set_view_ok widget_happens_ok socket_opens_ok socket_closes_ok in \<open>simp_all add: tab_ok_def shows_terminal_def\<close>)
qed

lemma mount_ok: "tab_ok b (mount_tab b p v d)"
  unfolding mount_tab_def
  by (rule commit_ok(1); rule connect_ok; simp add: sessions_inv_def size_inv_def)

lemma pod_reach_ok: "pod_reach b s \<Longrightarrow> tab_ok b s"
  by (erule pod_runs.always) (auto simp: mount_ok intro: pod_step_ok)

section \<open>Properties\<close>

text \<open>C10: The shell in the pod always has the size of the terminal on the screen: in every state the tab can reach, once the
  terminal has opened and the socket of the session is open, the last size the server was told is the terminal's, whether the
  terminal, its font or the socket came first, after a resize, a reconnect or a change of container.\<close>

theorem session_knows_size:
  assumes "pod_reach b s" "pt_exec s = Some i" "ec_socket (channel_of s i) = OPEN" "pt_widget s = Some w" "getSize w = Some sz"
  shows "last_resize (channel_of s i) = Some (size_frame b sz)"
proof -
  have ok: "sessions_inv b s" "size_inv s" using pod_reach_ok [OF assms(1)] by (simp_all add: tab_ok_def)
  have "ec_size (channel_of s i) = Some sz" using ok(2) assms(2,4,5) by (auto simp: size_inv_def exec_size_def)
  then show ?thesis
    using sessions_inv_channel [OF ok(1) sessions_inv_exec [OF ok(1) assms(2)]] assms(3) by (simp add: channel_ok_def channel_of_def)
qed

lemma commit_same: "tab_ok b s \<Longrightarrow> commit b p s = s"
  by (auto simp: tab_ok_def commit_def split: option.splits)

lemma stale_message: "tab_ok b s \<Longrightarrow> \<not> ec_handlers (channel_of s i) \<Longrightarrow> socket_message b p i raw s = s"
  by (simp add: socket_message_def channel_of_def ec_onMessage_def commit_same)

text \<open>C33: There is one session at a time and it is the one shown: every session but the current one has been cancelled, its
  socket is closed or closing and nothing it still receives changes anything; the current one is for the pod and the
  container selected, and there is none beside a VNC console.\<close>

theorem one_session:
  assumes "pod_reach b s" "i < length (pt_runs s)"
  shows "if pt_exec s = Some i then xr_deps (pt_runs s ! i) = pt_deps s \<and> can_connect (pt_deps s)
    else xr_cancelled (pt_runs s ! i) \<and> ec_socket (channel_of s i) \<in> {CLOSING, CLOSED} \<and> socket_message b p i raw s = s"
proof -
  have ok: "tab_ok b s" using assms(1) by (rule pod_reach_ok)
  then have "if pt_exec s = Some i then xr_deps (pt_runs s ! i) = pt_deps s \<and> can_connect (pt_deps s) else stale (pt_runs s ! i)"
    using assms(2) by (simp add: tab_ok_def sessions_inv_def)
  then show ?thesis using stale_message [OF ok] by (auto simp: stale_def channel_of_def)
qed

text \<open>A connection that breaks, and the three steps by which it is replaced.\<close>

lemma broken:
  assumes "tab_ok b s" "pt_mounted s" "pt_exec s = Some i" "ec_socket (channel_of s i) = OPEN"
    and s1: "s1 = socket_closes b p i False reason s"
  shows "pt_exec s1 = Some i" "pt_deps s1 = pt_deps s" "pt_mounted s1" "\<not> pt_open s1" "\<not> unset (pt_error s1)"
    "length (pt_runs s1) = length (pt_runs s)" "can_connect (pt_deps s)"
proof -
  have i: "i < length (pt_runs s)" "in_use (pt_runs s ! i)" and deps: "can_connect (pt_deps s)"
    using assms(1,3) by (auto simp: tab_ok_def sessions_inv_def)
  define message where "message = (if reason = [] then lit ''The terminal connection has closed.'' else reason)"
  define s0 where "s0 = to_widget (onConnectionClosed message)
      ((set_run i (on_channel (\<lambda>c. c\<lparr>ec_socket := CLOSED\<rparr>)) s)\<lparr>pt_open := False, pt_error := Some message\<rparr>)"
  have "message \<noteq> []" by (simp add: message_def)
  moreover have "s1 = commit b p s0"
    using i by (simp add: s1 socket_closes_def ec_onclose_def in_use_def s0_def message_def [symmetric] Let_def set_run_def
        on_channel_def del: lit_Cons)
  moreover have "tab_ok b s1" unfolding s1 using assms(1) i(1) by (rule socket_closes_ok)
  ultimately show "pt_exec s1 = Some i" "pt_deps s1 = pt_deps s" "pt_mounted s1" "\<not> pt_open s1" "\<not> unset (pt_error s1)"
    "length (pt_runs s1) = length (pt_runs s)" "can_connect (pt_deps s)"
    using assms(2,3) deps by (simp_all add: s0_def to_widget_def unset_def)
qed

lemma replaced:
  assumes "tab_ok b s" "can_connect (pt_deps s)" "pt_exec s = Some i"
    and s1: "s1 = reconnect_tab b p s"
  shows "pt_exec s1 = Some (length (pt_runs s))" "pt_deps s1 = pt_deps s" "pt_mounted s1 = pt_mounted s" "pt_widget s1 = None"
    "length (pt_runs s1) = Suc (length (pt_runs s))" "ec_socket (channel_of s1 (length (pt_runs s))) = CONNECTING"
    "ec_handlers (channel_of s1 (length (pt_runs s)))"
proof -
  define s0 where "s0 = connect_effect b (exec_cleanup b s)"
  have parts: "pt_deps (exec_cleanup b s) = pt_deps s" "pt_mounted (exec_cleanup b s) = pt_mounted s"
    "length (pt_runs (exec_cleanup b s)) = length (pt_runs s)"
    using assms(3) by (simp_all add: exec_cleanup_def)
  have "\<not> shows_terminal s0" using assms(2) parts by (simp add: s0_def connect_effect_def Let_def shows_terminal_def unset_def)
  then have "s1 = s0\<lparr>pt_widget := None\<rparr>"
    by (cases "pt_widget s0") (simp_all add: s1 reconnect_tab_def commit_def s0_def [symmetric])
  then show "pt_exec s1 = Some (length (pt_runs s))" "pt_deps s1 = pt_deps s" "pt_mounted s1 = pt_mounted s" "pt_widget s1 = None"
    "length (pt_runs s1) = Suc (length (pt_runs s))" "ec_socket (channel_of s1 (length (pt_runs s))) = CONNECTING"
    "ec_handlers (channel_of s1 (length (pt_runs s)))"
    using assms(2) parts
    by (auto simp: s0_def connect_effect_def Let_def channel_of_def nth_append new_exec_channel_def split: option.splits)
qed

lemma opened:
  assumes "i < length (pt_runs s)" "ec_handlers (channel_of s i)" "pt_mounted s" "\<not> xd_vnc (pt_deps s)" "pt_widget s = None"
  shows "pt_open (socket_opens b p i s)" "pt_error (socket_opens b p i s) = None"
    "pt_widget (socket_opens b p i s) = Some (fst (mount_widget (pg_fonts p) (pg_dims p)))"
proof -
  obtain w outs where mount: "mount_widget (pg_fonts p) (pg_dims p) = (w, outs)" by fastforce
  show "pt_open (socket_opens b p i s)" "pt_error (socket_opens b p i s) = None"
    "pt_widget (socket_opens b p i s) = Some (fst (mount_widget (pg_fonts p) (pg_dims p)))"
    using assms mount
    by (simp_all add: socket_opens_def ec_onopen_def channel_of_def Let_def commit_def shows_terminal_def split: option.splits)
qed

text \<open>C14: After a connection has broken, Reconnect gives a working one: the error is shown with the link, and when it is used and
  the new socket opens, there is no error, the session is for the same pod and container, and a new terminal is shown that
  takes input again, although the input of the old one had been switched off.\<close>

theorem reconnect_works:
  assumes "pod_reach b s" "pt_mounted s" "pt_exec s = Some i" "ec_socket (channel_of s i) = OPEN"
    and es: "es = [(p, SocketCloses i False reason), (p', Reconnect), (p'', SocketOpens (length (pt_runs s)))]"
    and s': "s' = fold (pod_apply b) es s"
  shows "events_ok pod_enabled (pod_apply b) es s \<and> pt_open s' \<and> pt_error s' = None \<and>
    (\<exists>w. pt_widget s' = Some w \<and> wd_stdin w \<and> wd_screen w = [])"
proof -
  have ok: "tab_ok b s" using assms(1) by (rule pod_reach_ok)
  then have i: "i < length (pt_runs s)" using assms(3) by (simp add: tab_ok_def sessions_inv_def)
  define s1 where "s1 = socket_closes b p i False reason s"
  define s2 where "s2 = reconnect_tab b p' s1"
  note b1 = broken [OF ok assms(2-4) s1_def]
  have "tab_ok b s1" unfolding s1_def using ok i by (rule socket_closes_ok)
  note b2 = replaced [OF this b1(7) [folded b1(2)] b1(1) s2_def]
  have vnc: "\<not> xd_vnc (pt_deps s)" using b1(7) by (simp add: can_connect_def)
  have "wd_stdin (fst (mount_widget f dims))" "wd_screen (fst (mount_widget f dims)) = []" for f dims by (auto simp: widget_ops)
  moreover note opened [of "length (pt_runs s)" s2 b p'']
  ultimately show ?thesis
    using b1 b2 vnc assms(4) i by (simp add: es s' reconnect_link_def s1_def [symmetric] s2_def [symmetric])
qed

text \<open>A socket that closes cleanly, as it does when the shell ends, is not noticed: the terminal stays as it is, open and
  without a Reconnect link, over a closed socket.\<close>

lemma clean_close_unnoticed:
  assumes "tab_ok b s"
  shows "socket_closes b p i True reason s = set_run i (on_channel (\<lambda>c. c\<lparr>ec_socket := CLOSED\<rparr>)) s"
proof -
  have "commit b p (set_run i (on_channel (\<lambda>c. c\<lparr>ec_socket := CLOSED\<rparr>)) s) = set_run i (on_channel (\<lambda>c. c\<lparr>ec_socket := CLOSED\<rparr>)) s"
    using assms by (auto simp: tab_ok_def commit_def split: option.splits)
  then show ?thesis by (simp add: socket_closes_def ec_onclose_def on_channel_def set_run_def)
qed

subsection \<open>A sample run\<close>

definition sample_deps :: exec_deps where
  "sample_deps = \<lparr>xd_vnc = False, xd_namespace = Some (lit ''ns''), xd_pod = Some (lit ''web''), xd_container = Some (lit ''app''),
     xd_windows = False\<rparr>"

definition sample_page :: page where
  "sample_page = \<lparr>pg_fonts = False, pg_dims = (30, 100)\<rparr>"

definition sample_codec :: base64 where
  "sample_codec = \<lparr>b64_encode = rev, b64_decode = rev\<rparr>"

text \<open>A session that is open, and the one it replaced after a change of container.\<close>

definition sample_tab :: pod_tab where
  "sample_tab = fold (pod_apply sample_codec)
     [(sample_page, SocketOpens 0), (sample_page, View [] (sample_deps\<lparr>xd_container := Some (lit ''db'')\<rparr>)), (sample_page, SocketOpens 1)]
     (mount_tab sample_codec sample_page [] sample_deps)"

lemmas sample_run = reconnect_link_def sample_deps_def sample_page_def mount_tab_def connect_effect_def commit_def set_view_def socket_opens_def
  exec_cleanup_def can_connect_def unset_def shows_terminal_def channel_of_def set_run_def on_channel_def to_exec_def
  channel_ops widget_ops sample_tab_def

lemma sample_reached: "pod_reach sample_codec sample_tab"
  unfolding sample_tab_def by (rule pod_runs.reached_run [OF pod_mount]) (simp add: sample_run)

lemma sample_state:
  "pt_mounted sample_tab" "pt_exec sample_tab = Some 1" "ec_socket (channel_of sample_tab 1) = OPEN" "length (pt_runs sample_tab) = 2"
  "\<exists>w. pt_widget sample_tab = Some w \<and> getSize w = Some (30, 100)"
  by (simp_all add: sample_run)

lemma session_knows_size_witness: "last_resize (channel_of sample_tab 1) = Some (size_frame sample_codec (30, 100))"
proof -
  obtain w where "pt_widget sample_tab = Some w" "getSize w = Some (30, 100)" using sample_state(5) by blast
  then show ?thesis by (rule session_knows_size [OF sample_reached sample_state(2,3)])
qed

lemma one_session_witness:
  "xr_cancelled (pt_runs sample_tab ! 0) \<and> socket_message sample_codec sample_page 0 (lit ''1x'') sample_tab = sample_tab"
  using one_session [OF sample_reached, of 0 sample_page "lit ''1x''"] sample_state(2,4) by simp

lemma reconnect_works_witness:
  "pt_open (fold (pod_apply sample_codec)
     [(sample_page, SocketCloses 1 False []), (sample_page, Reconnect), (sample_page, SocketOpens 2)] sample_tab)"
  using reconnect_works [OF sample_reached sample_state(1-3) refl refl, of sample_page "[]" sample_page sample_page]
  unfolding sample_state(4) by blast

end
