(* ===== verification/Flux_Models.thy ===== *)
theory Flux_Models
  imports Prelude
begin

text \<open>
  The kinds the flux plugin shows (\<^verbatim>\<open>plugins/flux/src/models.ts\<close>) and what it declares to the console for them
  (\<^verbatim>\<open>plugins/flux/plugin-manifest.ts\<close>): navigation, list pages, details, tabs and the flag they all depend on.
\<close>

section \<open>The models\<close>

text \<open>A flag that is not set is false.\<close>

record reconcile_capability =
  rc_withSource :: bool
  rc_forceReset :: bool

record flux_model =
  fm_group :: string
  fm_version :: string
  fm_kind :: string
  fm_plural :: string
  fm_namespaced :: bool
  fm_label :: string
  fm_labelPlural :: string
  fm_abbr :: string
  fm_id :: string
  fm_reconcile :: "reconcile_capability option"

definition HELM_TOOLKIT_GROUP :: string where "HELM_TOOLKIT_GROUP = ''helm.toolkit.fluxcd.io''"
definition SOURCE_TOOLKIT_GROUP :: string where "SOURCE_TOOLKIT_GROUP = ''source.toolkit.fluxcd.io''"
definition SOURCE_EXTENSIONS_GROUP :: string where "SOURCE_EXTENSIONS_GROUP = ''source.extensions.fluxcd.io''"
definition KUSTOMIZE_TOOLKIT_GROUP :: string where "KUSTOMIZE_TOOLKIT_GROUP = ''kustomize.toolkit.fluxcd.io''"
definition IMAGE_TOOLKIT_GROUP :: string where "IMAGE_TOOLKIT_GROUP = ''image.toolkit.fluxcd.io''"
definition NOTIFICATION_TOOLKIT_GROUP :: string where "NOTIFICATION_TOOLKIT_GROUP = ''notification.toolkit.fluxcd.io''"
definition CONTROLPLANE_GROUP :: string where "CONTROLPLANE_GROUP = ''fluxcd.controlplane.io''"

definition HelmReleaseModel :: flux_model where
  "HelmReleaseModel = \<lparr>fm_group = HELM_TOOLKIT_GROUP, fm_version = ''v2'', fm_kind = ''HelmRelease'', fm_plural = ''helmreleases'', fm_namespaced = True,
     fm_label = ''HelmRelease'', fm_labelPlural = ''HelmReleases'', fm_abbr = ''HR'', fm_id = ''helmrelease'', fm_reconcile = Some \<lparr>rc_withSource = True, rc_forceReset = True\<rparr>\<rparr>"

definition HelmChartModel :: flux_model where
  "HelmChartModel = \<lparr>fm_group = SOURCE_TOOLKIT_GROUP, fm_version = ''v1'', fm_kind = ''HelmChart'', fm_plural = ''helmcharts'', fm_namespaced = True,
     fm_label = ''HelmChart'', fm_labelPlural = ''HelmCharts'', fm_abbr = ''HC'', fm_id = ''helmchart'', fm_reconcile = Some \<lparr>rc_withSource = True, rc_forceReset = False\<rparr>\<rparr>"

definition KustomizationModel :: flux_model where
  "KustomizationModel = \<lparr>fm_group = KUSTOMIZE_TOOLKIT_GROUP, fm_version = ''v1'', fm_kind = ''Kustomization'', fm_plural = ''kustomizations'', fm_namespaced = True,
     fm_label = ''Kustomization'', fm_labelPlural = ''Kustomizations'', fm_abbr = ''K'', fm_id = ''kustomization'', fm_reconcile = Some \<lparr>rc_withSource = True, rc_forceReset = False\<rparr>\<rparr>"

definition GitRepositoryModel :: flux_model where
  "GitRepositoryModel = \<lparr>fm_group = SOURCE_TOOLKIT_GROUP, fm_version = ''v1'', fm_kind = ''GitRepository'', fm_plural = ''gitrepositories'', fm_namespaced = True,
     fm_label = ''GitRepository'', fm_labelPlural = ''GitRepositories'', fm_abbr = ''GR'', fm_id = ''gitrepository'', fm_reconcile = Some \<lparr>rc_withSource = False, rc_forceReset = False\<rparr>\<rparr>"

definition OCIRepositoryModel :: flux_model where
  "OCIRepositoryModel = \<lparr>fm_group = SOURCE_TOOLKIT_GROUP, fm_version = ''v1'', fm_kind = ''OCIRepository'', fm_plural = ''ocirepositories'', fm_namespaced = True,
     fm_label = ''OCIRepository'', fm_labelPlural = ''OCIRepositories'', fm_abbr = ''OCI'', fm_id = ''ocirepository'', fm_reconcile = Some \<lparr>rc_withSource = False, rc_forceReset = False\<rparr>\<rparr>"

definition HelmRepositoryModel :: flux_model where
  "HelmRepositoryModel = \<lparr>fm_group = SOURCE_TOOLKIT_GROUP, fm_version = ''v1'', fm_kind = ''HelmRepository'', fm_plural = ''helmrepositories'', fm_namespaced = True,
     fm_label = ''HelmRepository'', fm_labelPlural = ''HelmRepositories'', fm_abbr = ''HR'', fm_id = ''helmrepository'', fm_reconcile = Some \<lparr>rc_withSource = False, rc_forceReset = False\<rparr>\<rparr>"

definition BucketModel :: flux_model where
  "BucketModel = \<lparr>fm_group = SOURCE_TOOLKIT_GROUP, fm_version = ''v1'', fm_kind = ''Bucket'', fm_plural = ''buckets'', fm_namespaced = True,
     fm_label = ''Bucket'', fm_labelPlural = ''Buckets'', fm_abbr = ''B'', fm_id = ''bucket'', fm_reconcile = Some \<lparr>rc_withSource = False, rc_forceReset = False\<rparr>\<rparr>"

definition ArtifactGeneratorModel :: flux_model where
  "ArtifactGeneratorModel = \<lparr>fm_group = SOURCE_EXTENSIONS_GROUP, fm_version = ''v1beta1'', fm_kind = ''ArtifactGenerator'', fm_plural = ''artifactgenerators'', fm_namespaced = True,
     fm_label = ''ArtifactGenerator'', fm_labelPlural = ''ArtifactGenerators'', fm_abbr = ''AG'', fm_id = ''artifactgenerator'', fm_reconcile = None\<rparr>"

definition ExternalArtifactModel :: flux_model where
  "ExternalArtifactModel = \<lparr>fm_group = SOURCE_TOOLKIT_GROUP, fm_version = ''v1'', fm_kind = ''ExternalArtifact'', fm_plural = ''externalartifacts'', fm_namespaced = True,
     fm_label = ''ExternalArtifact'', fm_labelPlural = ''ExternalArtifacts'', fm_abbr = ''EA'', fm_id = ''externalartifact'', fm_reconcile = None\<rparr>"

definition ImageRepositoryModel :: flux_model where
  "ImageRepositoryModel = \<lparr>fm_group = IMAGE_TOOLKIT_GROUP, fm_version = ''v1'', fm_kind = ''ImageRepository'', fm_plural = ''imagerepositories'', fm_namespaced = True,
     fm_label = ''ImageRepository'', fm_labelPlural = ''ImageRepositories'', fm_abbr = ''IR'', fm_id = ''imagerepository'', fm_reconcile = Some \<lparr>rc_withSource = False, rc_forceReset = False\<rparr>\<rparr>"

definition ImagePolicyModel :: flux_model where
  "ImagePolicyModel = \<lparr>fm_group = IMAGE_TOOLKIT_GROUP, fm_version = ''v1'', fm_kind = ''ImagePolicy'', fm_plural = ''imagepolicies'', fm_namespaced = True,
     fm_label = ''ImagePolicy'', fm_labelPlural = ''ImagePolicies'', fm_abbr = ''IP'', fm_id = ''imagepolicy'', fm_reconcile = Some \<lparr>rc_withSource = False, rc_forceReset = False\<rparr>\<rparr>"

definition ImageUpdateAutomationModel :: flux_model where
  "ImageUpdateAutomationModel = \<lparr>fm_group = IMAGE_TOOLKIT_GROUP, fm_version = ''v1'', fm_kind = ''ImageUpdateAutomation'', fm_plural = ''imageupdateautomations'', fm_namespaced = True,
     fm_label = ''ImageUpdateAutomation'', fm_labelPlural = ''ImageUpdateAutomations'', fm_abbr = ''IUA'', fm_id = ''imageupdateautomation'', fm_reconcile = Some \<lparr>rc_withSource = False, rc_forceReset = False\<rparr>\<rparr>"

definition ProviderModel :: flux_model where
  "ProviderModel = \<lparr>fm_group = NOTIFICATION_TOOLKIT_GROUP, fm_version = ''v1beta3'', fm_kind = ''Provider'', fm_plural = ''providers'', fm_namespaced = True,
     fm_label = ''Provider'', fm_labelPlural = ''Providers'', fm_abbr = ''P'', fm_id = ''notification-provider'', fm_reconcile = None\<rparr>"

definition ReceiverModel :: flux_model where
  "ReceiverModel = \<lparr>fm_group = NOTIFICATION_TOOLKIT_GROUP, fm_version = ''v1'', fm_kind = ''Receiver'', fm_plural = ''receivers'', fm_namespaced = True,
     fm_label = ''Receiver'', fm_labelPlural = ''Receivers'', fm_abbr = ''R'', fm_id = ''receiver'', fm_reconcile = Some \<lparr>rc_withSource = False, rc_forceReset = False\<rparr>\<rparr>"

definition AlertModel :: flux_model where
  "AlertModel = \<lparr>fm_group = NOTIFICATION_TOOLKIT_GROUP, fm_version = ''v1beta3'', fm_kind = ''Alert'', fm_plural = ''alerts'', fm_namespaced = True,
     fm_label = ''Alert'', fm_labelPlural = ''Alerts'', fm_abbr = ''A'', fm_id = ''alert'', fm_reconcile = None\<rparr>"

definition FluxReportModel :: flux_model where
  "FluxReportModel = \<lparr>fm_group = CONTROLPLANE_GROUP, fm_version = ''v1'', fm_kind = ''FluxReport'', fm_plural = ''fluxreports'', fm_namespaced = True,
     fm_label = ''FluxReport'', fm_labelPlural = ''FluxReports'', fm_abbr = ''FR'', fm_id = ''fluxreport'', fm_reconcile = None\<rparr>"

definition FluxInstanceModel :: flux_model where
  "FluxInstanceModel = \<lparr>fm_group = CONTROLPLANE_GROUP, fm_version = ''v1'', fm_kind = ''FluxInstance'', fm_plural = ''fluxinstances'', fm_namespaced = True,
     fm_label = ''FluxInstance'', fm_labelPlural = ''FluxInstances'', fm_abbr = ''FI'', fm_id = ''fluxinstance'', fm_reconcile = None\<rparr>"

definition ResourceSetModel :: flux_model where
  "ResourceSetModel = \<lparr>fm_group = CONTROLPLANE_GROUP, fm_version = ''v1'', fm_kind = ''ResourceSet'', fm_plural = ''resourcesets'', fm_namespaced = True,
     fm_label = ''ResourceSet'', fm_labelPlural = ''ResourceSets'', fm_abbr = ''RS'', fm_id = ''resourceset'', fm_reconcile = None\<rparr>"

definition ResourceSetInputProviderModel :: flux_model where
  "ResourceSetInputProviderModel = \<lparr>fm_group = CONTROLPLANE_GROUP, fm_version = ''v1'', fm_kind = ''ResourceSetInputProvider'', fm_plural = ''resourcesetinputproviders'', fm_namespaced = True,
     fm_label = ''ResourceSetInputProvider'', fm_labelPlural = ''ResourceSetInputProviders'', fm_abbr = ''RSIP'', fm_id = ''resourcesetinputprovider'', fm_reconcile = None\<rparr>"

definition flux_models :: "flux_model list" where
  "flux_models = [HelmReleaseModel, HelmChartModel, KustomizationModel, GitRepositoryModel, OCIRepositoryModel, HelmRepositoryModel, BucketModel, ArtifactGeneratorModel, ExternalArtifactModel, ImageRepositoryModel, ImagePolicyModel, ImageUpdateAutomationModel, ProviderModel, ReceiverModel, AlertModel, FluxReportModel, FluxInstanceModel, ResourceSetModel, ResourceSetInputProviderModel]"

definition referenceForModel :: "flux_model \<Rightarrow> string" where
  "referenceForModel model = fm_group model @ ''~'' @ fm_version model @ ''~'' @ fm_kind model"

text \<open>What the console's functions for Kubernetes take.\<close>

record k8s_model =
  km_abbr :: string
  km_kind :: string
  km_label :: string
  km_labelPlural :: string
  km_plural :: string
  km_apiVersion :: string
  km_apiGroup :: string
  km_namespaced :: bool

definition toK8sModel :: "flux_model \<Rightarrow> k8s_model" where
  "toK8sModel model = \<lparr>km_abbr = fm_abbr model, km_kind = fm_kind model, km_label = fm_label model,
     km_labelPlural = fm_labelPlural model, km_plural = fm_plural model, km_apiVersion = fm_version model,
     km_apiGroup = fm_group model, km_namespaced = fm_namespaced model\<rparr>"

lemmas flux_groups_def = HELM_TOOLKIT_GROUP_def SOURCE_TOOLKIT_GROUP_def SOURCE_EXTENSIONS_GROUP_def KUSTOMIZE_TOOLKIT_GROUP_def IMAGE_TOOLKIT_GROUP_def NOTIFICATION_TOOLKIT_GROUP_def CONTROLPLANE_GROUP_def

lemmas flux_model_defs = HelmReleaseModel_def HelmChartModel_def KustomizationModel_def GitRepositoryModel_def OCIRepositoryModel_def HelmRepositoryModel_def BucketModel_def ArtifactGeneratorModel_def ExternalArtifactModel_def ImageRepositoryModel_def ImagePolicyModel_def ImageUpdateAutomationModel_def ProviderModel_def ReceiverModel_def AlertModel_def FluxReportModel_def FluxInstanceModel_def ResourceSetModel_def ResourceSetInputProviderModel_def

section \<open>The manifest\<close>

text \<open>A reference to a kind: group, version, kind.\<close>

type_synonym gvk = "string \<times> string \<times> string"

definition model_gvk :: "flux_model \<Rightarrow> gvk" where
  "model_gvk model = (fm_group model, fm_version model, fm_kind model)"

text \<open>The extensions of all plugins; this one has neither cluster-wide kinds nor details pages of its own.\<close>

datatype ext_properties =
    NavSectionExt string string "string option"
  | NamespacedNavExt string gvk string string
  | SeparatorExt string string
  | ListPageExt string gvk
  | DetailsItemExt string string gvk nat string
  | HorizontalNavTabExt string gvk string string
  | ModelFlagExt string gvk
  | ClusterNavExt string gvk string string
  | DetailsPageExt string gvk

record extension =
  ex_properties :: ext_properties
  ex_required :: "string list"

definition FLUX_SECTION_ID :: string where "FLUX_SECTION_ID = ''flux''"
definition FLUX_FLAG :: string where "FLUX_FLAG = ''FLUX''"

text \<open>The modules the plugin exposes.\<close>

definition exposedModules :: "(string \<times> string) list" where
  "exposedModules = [(''lists'', ''./components/lists/index.tsx''), (''details-items'', ''./components/details/FluxDetailsItems.tsx''),
     (''tabs'', ''./components/tabs/ConsumersTab.tsx''), (''dependencies-tab'', ''./components/tabs/DependenciesTab.tsx'')]"

definition required_flags :: "string option \<Rightarrow> string list" where
  "required_flags requiredFlag = (case requiredFlag of None \<Rightarrow> [] | Some f \<Rightarrow> if f = [] then [] else [f])"

definition navSection :: "string \<Rightarrow> string \<Rightarrow> string option \<Rightarrow> string option \<Rightarrow> extension" where
  "navSection i name insertAfter requiredFlag =
     \<lparr>ex_properties = NavSectionExt i name (if insertAfter = Some [] then None else insertAfter), ex_required = required_flags requiredFlag\<rparr>"

definition namespacedNav :: "string \<Rightarrow> string \<Rightarrow> flux_model \<Rightarrow> string \<Rightarrow> string option \<Rightarrow> extension" where
  "namespacedNav i name model section requiredFlag =
     \<lparr>ex_properties = NamespacedNavExt i (model_gvk model) name section, ex_required = required_flags requiredFlag\<rparr>"

definition separator :: "string \<Rightarrow> string \<Rightarrow> string option \<Rightarrow> extension" where
  "separator i section requiredFlag = \<lparr>ex_properties = SeparatorExt i section, ex_required = required_flags requiredFlag\<rparr>"

definition listPage :: "flux_model \<Rightarrow> string \<Rightarrow> string option \<Rightarrow> extension" where
  "listPage model codeRef requiredFlag =
     \<lparr>ex_properties = ListPageExt codeRef (model_gvk model), ex_required = required_flags requiredFlag\<rparr>"

definition detailsItem :: "string \<Rightarrow> flux_model \<Rightarrow> string \<Rightarrow> string \<Rightarrow> nat \<Rightarrow> string option \<Rightarrow> extension" where
  "detailsItem i model title codeRef sortWeight requiredFlag =
     \<lparr>ex_properties = DetailsItemExt codeRef i (model_gvk model) sortWeight title, ex_required = required_flags requiredFlag\<rparr>"

text \<open>The id of a tab is not passed on.\<close>

definition horizontalNavTab :: "string \<Rightarrow> flux_model \<Rightarrow> string \<Rightarrow> string \<Rightarrow> string \<Rightarrow> string option \<Rightarrow> extension" where
  "horizontalNavTab i model name href codeRef requiredFlag =
     \<lparr>ex_properties = HorizontalNavTabExt codeRef (model_gvk model) name href, ex_required = required_flags requiredFlag\<rparr>"

definition fluxFlag :: extension where
  "fluxFlag = \<lparr>ex_properties = ModelFlagExt FLUX_FLAG (model_gvk KustomizationModel), ex_required = []\<rparr>"

definition extensions :: "extension list" where
  "extensions = [
     navSection FLUX_SECTION_ID ''%plugin__flux-console-plugin~GitOps%'' (Some ''workloads'') (Some FLUX_FLAG),
     namespacedNav ''flux-helmrelease'' ''%plugin__flux-console-plugin~HelmReleases%'' HelmReleaseModel FLUX_SECTION_ID (Some FLUX_FLAG),
     namespacedNav ''flux-helmchart'' ''%plugin__flux-console-plugin~HelmCharts%'' HelmChartModel FLUX_SECTION_ID (Some FLUX_FLAG),
     namespacedNav ''flux-kustomization'' ''%plugin__flux-console-plugin~Kustomizations%'' KustomizationModel FLUX_SECTION_ID (Some FLUX_FLAG),
     separator ''flux-separator-0'' FLUX_SECTION_ID (Some FLUX_FLAG),
     namespacedNav ''flux-gitrepository'' ''%plugin__flux-console-plugin~GitRepositories%'' GitRepositoryModel FLUX_SECTION_ID (Some FLUX_FLAG),
     namespacedNav ''flux-ocirepository'' ''%plugin__flux-console-plugin~OCIRepositories%'' OCIRepositoryModel FLUX_SECTION_ID (Some FLUX_FLAG),
     namespacedNav ''flux-helmrepository'' ''%plugin__flux-console-plugin~HelmRepositories%'' HelmRepositoryModel FLUX_SECTION_ID (Some FLUX_FLAG),
     namespacedNav ''flux-bucket'' ''%plugin__flux-console-plugin~Buckets%'' BucketModel FLUX_SECTION_ID (Some FLUX_FLAG),
     separator ''flux-separator-1'' FLUX_SECTION_ID (Some FLUX_FLAG),
     namespacedNav ''flux-artifactgenerator'' ''%plugin__flux-console-plugin~ArtifactGenerators%'' ArtifactGeneratorModel FLUX_SECTION_ID (Some FLUX_FLAG),
     namespacedNav ''flux-externalartifact'' ''%plugin__flux-console-plugin~ExternalArtifacts%'' ExternalArtifactModel FLUX_SECTION_ID (Some FLUX_FLAG),
     separator ''flux-separator-2'' FLUX_SECTION_ID (Some FLUX_FLAG),
     namespacedNav ''flux-imagerepository'' ''%plugin__flux-console-plugin~ImageRepositories%'' ImageRepositoryModel FLUX_SECTION_ID (Some FLUX_FLAG),
     namespacedNav ''flux-imagepolicy'' ''%plugin__flux-console-plugin~ImagePolicies%'' ImagePolicyModel FLUX_SECTION_ID (Some FLUX_FLAG),
     namespacedNav ''flux-imageupdateautomation'' ''%plugin__flux-console-plugin~ImageUpdateAutomations%'' ImageUpdateAutomationModel FLUX_SECTION_ID (Some FLUX_FLAG),
     separator ''flux-separator-3'' FLUX_SECTION_ID (Some FLUX_FLAG),
     namespacedNav ''flux-provider'' ''%plugin__flux-console-plugin~Providers%'' ProviderModel FLUX_SECTION_ID (Some FLUX_FLAG),
     namespacedNav ''flux-receiver'' ''%plugin__flux-console-plugin~Receivers%'' ReceiverModel FLUX_SECTION_ID (Some FLUX_FLAG),
     namespacedNav ''flux-alert'' ''%plugin__flux-console-plugin~Alerts%'' AlertModel FLUX_SECTION_ID (Some FLUX_FLAG),
     namespacedNav ''flux-fluxreport'' ''%plugin__flux-console-plugin~FluxReports%'' FluxReportModel FLUX_SECTION_ID (Some FLUX_FLAG),
     separator ''flux-separator-4'' FLUX_SECTION_ID (Some FLUX_FLAG),
     namespacedNav ''flux-fluxinstance'' ''%plugin__flux-console-plugin~FluxInstances%'' FluxInstanceModel FLUX_SECTION_ID (Some FLUX_FLAG),
     namespacedNav ''flux-resourceset'' ''%plugin__flux-console-plugin~ResourceSets%'' ResourceSetModel FLUX_SECTION_ID (Some FLUX_FLAG),
     namespacedNav ''flux-resourcesetinputprovider'' ''%plugin__flux-console-plugin~ResourceSetInputProviders%'' ResourceSetInputProviderModel FLUX_SECTION_ID (Some FLUX_FLAG),
     listPage HelmReleaseModel ''lists.HelmReleaseList'' (Some FLUX_FLAG),
     listPage HelmChartModel ''lists.HelmChartList'' (Some FLUX_FLAG),
     listPage KustomizationModel ''lists.KustomizationList'' (Some FLUX_FLAG),
     listPage GitRepositoryModel ''lists.GitRepositoryList'' (Some FLUX_FLAG),
     listPage OCIRepositoryModel ''lists.OCIRepositoryList'' (Some FLUX_FLAG),
     listPage HelmRepositoryModel ''lists.HelmRepositoryList'' (Some FLUX_FLAG),
     listPage BucketModel ''lists.BucketList'' (Some FLUX_FLAG),
     listPage ArtifactGeneratorModel ''lists.ArtifactGeneratorList'' (Some FLUX_FLAG),
     listPage ExternalArtifactModel ''lists.ExternalArtifactList'' (Some FLUX_FLAG),
     listPage ImageRepositoryModel ''lists.ImageRepositoryList'' (Some FLUX_FLAG),
     listPage ImagePolicyModel ''lists.ImagePolicyList'' (Some FLUX_FLAG),
     listPage ImageUpdateAutomationModel ''lists.ImageUpdateAutomationList'' (Some FLUX_FLAG),
     listPage ProviderModel ''lists.ProviderList'' (Some FLUX_FLAG),
     listPage ReceiverModel ''lists.ReceiverList'' (Some FLUX_FLAG),
     listPage AlertModel ''lists.AlertList'' (Some FLUX_FLAG),
     listPage FluxReportModel ''lists.FluxReportList'' (Some FLUX_FLAG),
     listPage FluxInstanceModel ''lists.FluxInstanceList'' (Some FLUX_FLAG),
     listPage ResourceSetModel ''lists.ResourceSetList'' (Some FLUX_FLAG),
     listPage ResourceSetInputProviderModel ''lists.ResourceSetInputProviderList'' (Some FLUX_FLAG),
     detailsItem ''flux-detail-gitrepository-secret'' GitRepositoryModel ''Access Secret'' ''details-items.SecretRefItem'' 200 (Some FLUX_FLAG),
     detailsItem ''flux-detail-helmrepository-secret'' HelmRepositoryModel ''Access Secret'' ''details-items.SecretRefItem'' 200 (Some FLUX_FLAG),
     detailsItem ''flux-detail-ocirepository-secret'' OCIRepositoryModel ''Access Secret'' ''details-items.SecretRefItem'' 200 (Some FLUX_FLAG),
     detailsItem ''flux-detail-bucket-secret'' BucketModel ''Access Secret'' ''details-items.SecretRefItem'' 200 (Some FLUX_FLAG),
     detailsItem ''flux-detail-helmrelease-helmchart'' HelmReleaseModel ''HelmChart'' ''details-items.HelmChartRefItem'' 210 (Some FLUX_FLAG),
     horizontalNavTab ''flux-tab-gitrepository-consumers'' GitRepositoryModel ''Consumers'' ''consumers'' ''tabs.GitRepositoryConsumersTab'' (Some FLUX_FLAG),
     horizontalNavTab ''flux-tab-helmchart-consumers'' HelmChartModel ''Consumers'' ''consumers'' ''tabs.HelmChartConsumersTab'' (Some FLUX_FLAG),
     horizontalNavTab ''flux-tab-helmrelease-dependencies'' HelmReleaseModel ''Dependencies'' ''dependencies'' ''dependencies-tab.HelmReleaseDependenciesTab'' (Some FLUX_FLAG),
     fluxFlag]"

section \<open>Properties\<close>

text \<open>What an extension contributes.\<close>

fun nav_item :: "ext_properties \<Rightarrow> (string \<times> gvk) list" where
  "nav_item (NamespacedNavExt i m name section) = [(section, m)]"
| "nav_item _ = []"

fun list_page :: "ext_properties \<Rightarrow> (string \<times> gvk) list" where
  "list_page (ListPageExt codeRef m) = [(codeRef, m)]"
| "list_page _ = []"

fun ext_id :: "ext_properties \<Rightarrow> string list" where
  "ext_id (NavSectionExt i name _) = [i]"
| "ext_id (NamespacedNavExt i m name section) = [i]"
| "ext_id (SeparatorExt i section) = [i]"
| "ext_id (ClusterNavExt i m name section) = [i]"
| "ext_id (DetailsItemExt codeRef i m w title) = [i]"
| "ext_id _ = []"

fun code_ref :: "ext_properties \<Rightarrow> string list" where
  "code_ref (ListPageExt codeRef m) = [codeRef]"
| "code_ref (DetailsItemExt codeRef i m w title) = [codeRef]"
| "code_ref (HorizontalNavTabExt codeRef m name href) = [codeRef]"
| "code_ref (DetailsPageExt codeRef m) = [codeRef]"
| "code_ref _ = []"

fun ext_models :: "ext_properties \<Rightarrow> gvk list" where
  "ext_models (NamespacedNavExt i m name section) = [m]"
| "ext_models (ListPageExt codeRef m) = [m]"
| "ext_models (DetailsItemExt codeRef i m w title) = [m]"
| "ext_models (HorizontalNavTabExt codeRef m name href) = [m]"
| "ext_models (ModelFlagExt f m) = [m]"
| "ext_models (ClusterNavExt i m name section) = [m]"
| "ext_models (DetailsPageExt codeRef m) = [m]"
| "ext_models _ = []"

definition properties_of :: "extension list \<Rightarrow> ext_properties list" where
  "properties_of es = map ex_properties es"

text \<open>The kinds are told apart by their references and by their ids.\<close>

lemma models_distinct: "distinct (map referenceForModel flux_models) \<and> distinct (map fm_id flux_models)"
  by code_simp

text \<open>The console is told of every kind exactly once: in the order of the models, each has one entry in the section of the
  plugin and one list page, the component \<^verbatim>\<open><Kind>List\<close> of the module of lists. Ids are distinct, every component is in
  a module that is exposed, nothing is declared for a kind the plugin does not know, and all but the flag itself wait for
  the flag, which the kind Kustomization sets.\<close>

theorem manifest_complete:
  "concat (map nav_item (properties_of extensions)) = map (\<lambda>m. (FLUX_SECTION_ID, model_gvk m)) flux_models \<and>
   concat (map list_page (properties_of extensions)) = map (\<lambda>m. (''lists.'' @ fm_kind m @ ''List'', model_gvk m)) flux_models \<and>
   distinct (concat (map ext_id (properties_of extensions))) \<and>
   list_all (\<lambda>c. takeWhile (\<lambda>x. x \<noteq> CHR ''.'') c \<in> set (map fst exposedModules)) (concat (map code_ref (properties_of extensions))) \<and>
   set (concat (map ext_models (properties_of extensions))) \<subseteq> set (map model_gvk flux_models) \<and>
   filter (\<lambda>e. ex_required e \<noteq> [FLUX_FLAG]) extensions =
     [\<lparr>ex_properties = ModelFlagExt FLUX_FLAG (''kustomize.toolkit.fluxcd.io'', ''v1'', ''Kustomization''), ex_required = []\<rparr>]"
proof (intro conjI)
  show "concat (map nav_item (properties_of extensions)) = map (\<lambda>m. (FLUX_SECTION_ID, model_gvk m)) flux_models" by code_simp
  show "concat (map list_page (properties_of extensions)) = map (\<lambda>m. (''lists.'' @ fm_kind m @ ''List'', model_gvk m)) flux_models"
    by code_simp
  show "distinct (concat (map ext_id (properties_of extensions)))" by code_simp
  show "list_all (\<lambda>c. takeWhile (\<lambda>x. x \<noteq> CHR ''.'') c \<in> set (map fst exposedModules)) (concat (map code_ref (properties_of extensions)))"
    by code_simp
  show "set (concat (map ext_models (properties_of extensions))) \<subseteq> set (map model_gvk flux_models)" by code_simp
  show "filter (\<lambda>e. ex_required e \<noteq> [FLUX_FLAG]) extensions =
     [\<lparr>ex_properties = ModelFlagExt FLUX_FLAG (''kustomize.toolkit.fluxcd.io'', ''v1'', ''Kustomization''), ex_required = []\<rparr>]" by code_simp
qed

end
