(* ===== verification/Flux_Actions.thy ===== *)
theory Flux_Actions
  imports Flux_Models Console_Urls
begin

text \<open>
  The actions of a Flux resource, \<^verbatim>\<open>plugins/flux/src/components/actions\<close>, and the request that reconciles one,
  \<^verbatim>\<open>plugins/flux/src/api/reconcileLookup.ts\<close>. What the console does on a click is a value of \<open>effect\<close>.
\<close>

section \<open>Resources and actions\<close>

text \<open>\<open>sr_spec\<close> is the resource's \<^verbatim>\<open>spec\<close>, of which \<^verbatim>\<open>suspend\<close> is read.\<close>

record suspendable =
  sr_namespace :: "jsstring option"
  sr_name :: "jsstring option"
  sr_spec :: "bool option option"

datatype verb = Update | Patch | Delete

record access_review =
  ar_group :: string
  ar_resource :: string
  ar_name :: "jsstring option"
  ar_namespace :: "jsstring option"
  ar_verb :: verb

text \<open>The body of a request to reconcile; a flag that is not there is false.\<close>

record reconcile_target =
  rt_group :: jsstring
  rt_version :: jsstring
  rt_kind :: jsstring
  rt_namespace :: jsstring
  rt_name :: jsstring
  rt_withSource :: bool
  rt_force :: bool
  rt_reset :: bool

text \<open>A patch \<^verbatim>\<open>{op, path, value}\<close>.\<close>

record json_patch =
  jp_op :: string
  jp_path :: string
  jp_value :: bool

datatype effect = LabelsModal | AnnotationsModal | DeleteModal
  | PostReconcile jsstring reconcile_target
  | K8sPatch k8s_model suspendable "json_patch list"

record action =
  ac_id :: string
  ac_label :: string
  ac_cta :: effect
  ac_review :: access_review

definition RECONCILE_PATH :: jsstring where
  "RECONCILE_PATH = lit ''/api/proxy/plugin/flux-console-plugin/api/v1/reconcile''"

definition reconcileResource :: "jsstring option \<Rightarrow> reconcile_target \<Rightarrow> effect" where
  "reconcileResource base_path target = PostReconcile (consolePath base_path RECONCILE_PATH) target"

definition accessReview :: "flux_model \<Rightarrow> suspendable \<Rightarrow> verb \<Rightarrow> access_review" where
  "accessReview model resource v = \<lparr>ar_group = fm_group model, ar_resource = fm_plural model, ar_name = sr_name resource,
     ar_namespace = sr_namespace resource, ar_verb = v\<rparr>"

definition suspended :: "suspendable \<Rightarrow> bool" where
  "suspended resource \<longleftrightarrow> sr_spec resource = Some (Some True)"

definition patchSuspend :: "flux_model \<Rightarrow> suspendable \<Rightarrow> bool \<Rightarrow> effect" where
  "patchSuspend model resource suspend =
     K8sPatch (toK8sModel model) resource [\<lparr>jp_op = ''add'', jp_path = ''/spec/suspend'', jp_value = suspend\<rparr>]"

definition reconcile_actions :: "jsstring option \<Rightarrow> flux_model \<Rightarrow> suspendable \<Rightarrow> reconcile_capability \<Rightarrow> action list" where
  "reconcile_actions base_path model resource capability =
     (let target = \<lparr>rt_group = lit (fm_group model), rt_version = lit (fm_version model), rt_kind = lit (fm_kind model),
            rt_namespace = default_to (sr_namespace resource) [], rt_name = default_to (sr_name resource) [],
            rt_withSource = False, rt_force = False, rt_reset = False\<rparr>;
          patch_review = accessReview model resource Patch
      in [\<lparr>ac_id = ''reconcile'', ac_label = ''Reconcile now'', ac_cta = reconcileResource base_path target, ac_review = patch_review\<rparr>] @
         (if rc_withSource capability
          then [\<lparr>ac_id = ''reconcile-with-source'', ac_label = ''Reconcile with source'',
                 ac_cta = reconcileResource base_path (target\<lparr>rt_withSource := True\<rparr>), ac_review = patch_review\<rparr>] else []) @
         (if rc_forceReset capability
          then [\<lparr>ac_id = ''reconcile-force'', ac_label = ''Force reconcile'',
                 ac_cta = reconcileResource base_path (target\<lparr>rt_force := True\<rparr>), ac_review = patch_review\<rparr>,
                \<lparr>ac_id = ''reconcile-reset'', ac_label = ''Reset failures'',
                 ac_cta = reconcileResource base_path (target\<lparr>rt_reset := True\<rparr>), ac_review = patch_review\<rparr>] else []) @
         (if \<not> suspended resource
          then [\<lparr>ac_id = ''suspend'', ac_label = ''Suspend'', ac_cta = patchSuspend model resource True, ac_review = patch_review\<rparr>]
          else [\<lparr>ac_id = ''resume'', ac_label = ''Resume'', ac_cta = patchSuspend model resource False, ac_review = patch_review\<rparr>]))"

definition useResourceActions :: "jsstring option \<Rightarrow> flux_model \<Rightarrow> suspendable \<Rightarrow> action list" where
  "useResourceActions base_path model resource =
     [\<lparr>ac_id = ''edit-labels'', ac_label = ''Edit labels'', ac_cta = LabelsModal, ac_review = accessReview model resource Update\<rparr>,
      \<lparr>ac_id = ''edit-annotations'', ac_label = ''Edit annotations'', ac_cta = AnnotationsModal, ac_review = accessReview model resource Update\<rparr>] @
     (case fm_reconcile model of None \<Rightarrow> [] | Some capability \<Rightarrow> reconcile_actions base_path model resource capability) @
     [\<lparr>ac_id = ''delete'', ac_label = ''Delete '' @ fm_kind model, ac_cta = DeleteModal, ac_review = accessReview model resource Delete\<rparr>]"

section \<open>Failures\<close>

text \<open>What a promise is rejected with: an error with its message, or any other value as \<^verbatim>\<open>String\<close> prints it.\<close>

datatype rejection = ErrorMessage jsstring | OtherValue jsstring

fun rejection_text :: "rejection \<Rightarrow> jsstring" where
  "rejection_text (ErrorMessage m) = m"
| "rejection_text (OtherValue s) = s"

text \<open>The text of the alert, if there is one.\<close>

definition runReconcile :: "rejection option \<Rightarrow> jsstring option" where
  "runReconcile failure = map_option (\<lambda>e. lit ''Reconcile failed: '' @ rejection_text e) failure"

definition runSuspendToggle :: "rejection option \<Rightarrow> jsstring option" where
  "runSuspendToggle failure = map_option (\<lambda>e. lit ''Updating suspend state failed: '' @ rejection_text e) failure"

section \<open>The menu\<close>

record menu_item =
  mi_key :: string
  mi_label :: string
  mi_disabled :: bool

text \<open>\<open>allowed\<close> is the console's answer to a review.\<close>

definition ActionItem :: "(access_review \<Rightarrow> bool) \<Rightarrow> action \<Rightarrow> menu_item" where
  "ActionItem allowed action = \<lparr>mi_key = ac_id action, mi_label = ac_label action, mi_disabled = \<not> allowed (ac_review action)\<rparr>"

definition menu_items :: "(access_review \<Rightarrow> bool) \<Rightarrow> action list \<Rightarrow> menu_item list" where
  "menu_items allowed actions = map (ActionItem allowed) actions"

datatype menu_event = ToggleClicked | OpenChanged bool | ItemClicked action

text \<open>The new state of the menu and what is run.\<close>

fun menu_step :: "bool \<Rightarrow> menu_event \<Rightarrow> bool \<times> effect list" where
  "menu_step isOpen ToggleClicked = (\<not> isOpen, [])"
| "menu_step isOpen (OpenChanged b) = (b, [])"
| "menu_step isOpen (ItemClicked a) = (False, [ac_cta a])"

section \<open>Properties\<close>

text \<open>The operation \<^verbatim>\<open>add\<close> of RFC 6902 at \<^verbatim>\<open>/spec/suspend\<close>: the parent has to exist, the member is set or replaced.\<close>

definition apply_patch :: "json_patch \<Rightarrow> suspendable \<Rightarrow> suspendable option" where
  "apply_patch p r =
     (if jp_op p = ''add'' \<and> jp_path p = ''/spec/suspend'' \<and> sr_spec r \<noteq> None then Some (r\<lparr>sr_spec := Some (Some (jp_value p))\<rparr>)
      else None)"

definition is_toggle :: "action \<Rightarrow> bool" where
  "is_toggle a \<longleftrightarrow> ac_id a = ''suspend'' \<or> ac_id a = ''resume''"

lemma target_fields:
  assumes "PostReconcile u t \<in> ac_cta ` set (useResourceActions base_path m r)"
  shows "u = consolePath base_path RECONCILE_PATH" "rt_group t = lit (fm_group m)" "rt_version t = lit (fm_version m)"
    "rt_kind t = lit (fm_kind m)" "rt_namespace t = default_to (sr_namespace r) []" "rt_name t = default_to (sr_name r) []"
    "\<exists>c. fm_reconcile m = Some c \<and> (rt_withSource t \<longrightarrow> rc_withSource c) \<and> (rt_force t \<or> rt_reset t \<longrightarrow> rc_forceReset c)"
  using assms by (cases "fm_reconcile m"; auto simp: useResourceActions_def reconcile_actions_def Let_def reconcileResource_def
      patchSuspend_def split: if_splits)+

definition toggle_action :: "flux_model \<Rightarrow> suspendable \<Rightarrow> action" where
  "toggle_action m r = \<lparr>ac_id = if suspended r then ''resume'' else ''suspend'', ac_label = if suspended r then ''Resume'' else ''Suspend'',
     ac_cta = patchSuspend m r (\<not> suspended r), ac_review = accessReview m r Patch\<rparr>"

lemma toggles:
  "filter is_toggle (useResourceActions base_path m r) = (if fm_reconcile m = None then [] else [toggle_action m r])"
  by (auto simp: toggle_action_def useResourceActions_def reconcile_actions_def Let_def is_toggle_def split: option.splits)

lemma not_toggles:
  assumes "sr_name r' = sr_name r" "sr_namespace r' = sr_namespace r"
  shows "filter (\<lambda>a. \<not> is_toggle a) (useResourceActions base_path m r') = filter (\<lambda>a. \<not> is_toggle a) (useResourceActions base_path m r)"
  using assms by (auto simp: useResourceActions_def reconcile_actions_def Let_def is_toggle_def accessReview_def split: option.splits)

text \<open>C30: A kind that can be reconciled has exactly one action to suspend or resume, and it is the one that changes the state of
  the resource: the patch it sends can be applied to any resource with a \<^verbatim>\<open>spec\<close>, whether \<^verbatim>\<open>suspend\<close> was set or not;
  afterwards the state is the other one, the action is its opposite, and all other actions are what they were.\<close>

theorem suspend_toggles:
  assumes "fm_reconcile m \<noteq> None" "sr_spec r \<noteq> None"
  shows "\<exists>a p r' a'.
    filter is_toggle (useResourceActions base_path m r) = [a] \<and> ac_cta a = K8sPatch (toK8sModel m) r [p] \<and>
    apply_patch p r = Some r' \<and> suspended r' = (\<not> suspended r) \<and>
    filter is_toggle (useResourceActions base_path m r') = [a'] \<and> ac_id a' \<noteq> ac_id a \<and>
    filter (\<lambda>a. \<not> is_toggle a) (useResourceActions base_path m r') = filter (\<lambda>a. \<not> is_toggle a) (useResourceActions base_path m r)"
proof (intro exI conjI)
  let ?r' = "r\<lparr>sr_spec := Some (Some (\<not> suspended r))\<rparr>"
  let ?p = "\<lparr>jp_op = ''add'', jp_path = ''/spec/suspend'', jp_value = \<not> suspended r\<rparr>"
  show state: "suspended ?r' = (\<not> suspended r)" by (simp add: suspended_def)
  show "apply_patch ?p r = Some ?r'" using assms(2) by (simp add: apply_patch_def)
  show "filter is_toggle (useResourceActions base_path m r) = [toggle_action m r]"
    "filter is_toggle (useResourceActions base_path m ?r') = [toggle_action m ?r']"
    using assms(1) by (simp_all only: toggles if_False)
  show "ac_cta (toggle_action m r) = K8sPatch (toK8sModel m) r [?p]" by (simp add: toggle_action_def patchSuspend_def)
  show "ac_id (toggle_action m ?r') \<noteq> ac_id (toggle_action m r)" by (simp add: toggle_action_def state)
qed (rule not_toggles; simp)

text \<open>What a click does is what the console was asked about: the review of every action names the group, the resource, the
  name and the namespace of the very object, a request to reconcile or a patch is reviewed as a patch, a removal as a
  removal; an action is shown for everyone but can be used only by those whom its review allows.\<close>

theorem review_matches_effect:
  assumes "a \<in> set (useResourceActions base_path m r)"
  shows "ar_group (ac_review a) = fm_group m \<and> ar_resource (ac_review a) = fm_plural m \<and>
    ar_name (ac_review a) = sr_name r \<and> ar_namespace (ac_review a) = sr_namespace r \<and>
    ar_verb (ac_review a) = (case ac_cta a of LabelsModal \<Rightarrow> Update | AnnotationsModal \<Rightarrow> Update | DeleteModal \<Rightarrow> Delete
      | PostReconcile _ _ \<Rightarrow> Patch | K8sPatch _ _ _ \<Rightarrow> Patch) \<and>
    (\<exists>item \<in> set (menu_items allowed (useResourceActions base_path m r)).
       mi_key item = ac_id a \<and> mi_disabled item = (\<not> allowed (ac_review a)))"
proof -
  have review: "ac_review a = accessReview m r (case ac_cta a of LabelsModal \<Rightarrow> Update | AnnotationsModal \<Rightarrow> Update
      | DeleteModal \<Rightarrow> Delete | PostReconcile _ _ \<Rightarrow> Patch | K8sPatch _ _ _ \<Rightarrow> Patch)"
    using assms by (auto simp: useResourceActions_def reconcile_actions_def Let_def reconcileResource_def patchSuspend_def
        split: option.splits if_splits)
  moreover have "\<exists>item \<in> set (menu_items allowed (useResourceActions base_path m r)). mi_key item = ac_id a \<and> mi_disabled item = (\<not> allowed (ac_review a))"
    using assms by (intro bexI [of _ "ActionItem allowed a"]) (simp_all add: ActionItem_def menu_items_def)
  ultimately show ?thesis by (simp add: accessReview_def)
qed

definition sample_release :: suspendable where
  "sample_release = \<lparr>sr_namespace = Some (lit ''apps''), sr_name = Some (lit ''web''), sr_spec = Some None\<rparr>"

lemma suspend_toggles_witness:
  "\<exists>a p r'. filter is_toggle (useResourceActions None HelmReleaseModel sample_release) = [a] \<and>
     ac_cta a = K8sPatch (toK8sModel HelmReleaseModel) sample_release [p] \<and> apply_patch p sample_release = Some r' \<and> suspended r'"
proof -
  have "fm_reconcile HelmReleaseModel \<noteq> None" "sr_spec sample_release \<noteq> None" "\<not> suspended sample_release"
    by (simp_all add: HelmReleaseModel_def sample_release_def suspended_def)
  from suspend_toggles [OF this(1,2), of None] this(3) show ?thesis by metis
qed

lemma review_matches_effect_witness:
  "\<exists>a \<in> set (useResourceActions None BucketModel sample_release). ac_id a = ''delete'' \<and> ar_verb (ac_review a) = Delete"
proof -
  let ?a = "\<lparr>ac_id = ''delete'', ac_label = ''Delete Bucket'', ac_cta = DeleteModal, ac_review = accessReview BucketModel sample_release Delete\<rparr>"
  have "?a \<in> set (useResourceActions None BucketModel sample_release)" by (simp add: useResourceActions_def BucketModel_def)
  from review_matches_effect [OF this] this show ?thesis by fastforce
qed

end
