(* ===== verification/Flux_Reconcile.thy ===== *)
theory Flux_Reconcile
  imports Flux_Actions Flux_Refs Js_Values
begin

text \<open>
  The other end of the reconcile actions: \<^verbatim>\<open>plugins/flux/api/reconcile.go\<close>, the handler of the plugin's back end, which
  asks a controller to reconcile by setting annotations, and how it fits the models, the actions and the consumers of charts
  on the browser's side.

  The Kubernetes API is two parameters: \<open>get\<close> answers a request for an object, \<open>patch\<close> one to set annotations (\<open>None\<close>:
  done). \<open>ts\<close> is the time of the request.
\<close>

section \<open>The handler\<close>

record reconcile_gvr =
  gv_group :: jsstring
  gv_version :: jsstring
  gv_plural :: jsstring

definition mk_gvr :: "string \<Rightarrow> string \<Rightarrow> string \<Rightarrow> reconcile_gvr" where
  "mk_gvr g v p = \<lparr>gv_group = lit g, gv_version = lit v, gv_plural = lit p\<rparr>"

definition reconcilableKinds :: "(jsstring \<times> reconcile_gvr) list" where
  "reconcilableKinds = [
     (lit ''Bucket'', mk_gvr ''source.toolkit.fluxcd.io'' ''v1'' ''buckets''),
     (lit ''GitRepository'', mk_gvr ''source.toolkit.fluxcd.io'' ''v1'' ''gitrepositories''),
     (lit ''HelmRepository'', mk_gvr ''source.toolkit.fluxcd.io'' ''v1'' ''helmrepositories''),
     (lit ''OCIRepository'', mk_gvr ''source.toolkit.fluxcd.io'' ''v1'' ''ocirepositories''),
     (lit ''HelmChart'', mk_gvr ''source.toolkit.fluxcd.io'' ''v1'' ''helmcharts''),
     (lit ''HelmRelease'', mk_gvr ''helm.toolkit.fluxcd.io'' ''v2'' ''helmreleases''),
     (lit ''Kustomization'', mk_gvr ''kustomize.toolkit.fluxcd.io'' ''v1'' ''kustomizations''),
     (lit ''ImagePolicy'', mk_gvr ''image.toolkit.fluxcd.io'' ''v1'' ''imagepolicies''),
     (lit ''ImageRepository'', mk_gvr ''image.toolkit.fluxcd.io'' ''v1'' ''imagerepositories''),
     (lit ''ImageUpdateAutomation'', mk_gvr ''image.toolkit.fluxcd.io'' ''v1'' ''imageupdateautomations''),
     (lit ''Receiver'', mk_gvr ''notification.toolkit.fluxcd.io'' ''v1'' ''receivers'')]"

definition reconcileRequestAnnotation :: jsstring where
  "reconcileRequestAnnotation = lit ''reconcile.fluxcd.io/requestedAt''"

definition helmReleaseForceRequestAnnotation :: jsstring where
  "helmReleaseForceRequestAnnotation = lit ''reconcile.fluxcd.io/forceAt''"

definition helmReleaseResetRequestAnnotation :: jsstring where
  "helmReleaseResetRequestAnnotation = lit ''reconcile.fluxcd.io/resetAt''"

text \<open>Errors of the client: no credentials came with the request, they could not be resolved, or the API failed.\<close>

datatype api_error = NoCredentials | BadCredentials jsstring | ApiFailed jsstring

datatype refusal = MethodNotAllowed | InvalidBody | NameRequired | UnsupportedKind jsstring
  | CredentialRefused api_error | ResolvingSource api_error | UnsupportedSource jsstring
  | ReconcilingSource api_error | Reconciling api_error

fun http_status :: "refusal \<Rightarrow> nat" where
  "http_status MethodNotAllowed = 405"
| "http_status InvalidBody = 400"
| "http_status NameRequired = 400"
| "http_status (UnsupportedKind _) = 400"
| "http_status (CredentialRefused e) = (if e = NoCredentials then 401 else 500)"
| "http_status (ResolvingSource _) = 502"
| "http_status (UnsupportedSource _) = 502"
| "http_status (ReconcilingSource _) = 502"
| "http_status (Reconciling _) = 502"

text \<open>A failure that is one of credentials is answered as such, any other the way the place says.\<close>

definition writeCredentialError :: "(api_error \<Rightarrow> refusal) \<Rightarrow> api_error \<Rightarrow> refusal" where
  "writeCredentialError otherwise e = (case e of ApiFailed _ \<Rightarrow> otherwise e | _ \<Rightarrow> CredentialRefused e)"

record reconcile_response =
  rr_requestedAt :: jsstring
  rr_source :: "(jsstring \<times> jsstring \<times> jsstring) option"

record annotations_patch =
  ap_gvr :: reconcile_gvr
  ap_namespace :: jsstring
  ap_name :: jsstring
  ap_annotations :: "(jsstring \<times> jsstring) list"

text \<open>Values in Go: a member that is not there, or of what is no object, is nil.\<close>

fun getPath :: "jsval \<Rightarrow> jsstring list \<Rightarrow> jsval" where
  "getPath cur [] = cur"
| "getPath cur (p # path) =
     (case cur of JObj fs \<Rightarrow> getPath (case own fs p of None \<Rightarrow> JNull | Some v \<Rightarrow> v) path | _ \<Rightarrow> JNull)"

definition go_string :: "jsval \<Rightarrow> jsstring" where
  "go_string v = (case v of JStr s \<Rightarrow> s | _ \<Rightarrow> [])"

definition go_member :: "jsval \<Rightarrow> string \<Rightarrow> jsstring" where
  "go_member v k = go_string (getPath v [lit k])"

text \<open>Kind, namespace and name of the source as the object gives them; empty where it does not.\<close>

definition source_of :: "reconcile_target \<Rightarrow> jsval \<Rightarrow> jsstring \<times> jsstring \<times> jsstring" where
  "source_of target obj =
     (if rt_kind target = lit ''Kustomization'' \<or> rt_kind target = lit ''HelmChart'' then
        (case getPath obj [lit ''spec'', lit ''sourceRef''] of
           JObj fs \<Rightarrow> (go_member (JObj fs) ''kind'', go_member (JObj fs) ''namespace'', go_member (JObj fs) ''name'')
         | _ \<Rightarrow> ([], [], []))
      else if rt_kind target = lit ''HelmRelease'' then
        (case getPath obj [lit ''spec'', lit ''chartRef''] of
           JObj fs \<Rightarrow> (go_member (JObj fs) ''kind'', go_member (JObj fs) ''namespace'', go_member (JObj fs) ''name'')
         | _ \<Rightarrow> (lit ''HelmChart'',
                 go_string (getPath obj [lit ''spec'', lit ''chart'', lit ''spec'', lit ''sourceRef'', lit ''namespace'']),
                 rt_namespace target @ [45] @ rt_name target))
      else ([], [], []))"

definition resolveSource :: "(reconcile_gvr \<Rightarrow> jsstring \<Rightarrow> jsstring \<Rightarrow> api_error + jsval) \<Rightarrow> reconcile_target \<Rightarrow>
    refusal + (jsstring \<times> reconcile_gvr \<times> jsstring \<times> jsstring) option" where
  "resolveSource get target =
     (case get \<lparr>gv_group = rt_group target, gv_version = rt_version target,
                gv_plural = (case map_of reconcilableKinds (rt_kind target) of None \<Rightarrow> [] | Some g \<Rightarrow> gv_plural g)\<rparr>
            (rt_namespace target) (rt_name target) of
        Inl e \<Rightarrow> Inl (writeCredentialError ResolvingSource e)
      | Inr obj \<Rightarrow>
          (case source_of target obj of (kind, namespace, name) \<Rightarrow>
             if kind = [] \<or> name = [] then Inr None
             else case map_of reconcilableKinds kind of
                    None \<Rightarrow> Inl (UnsupportedSource kind)
                  | Some gvr \<Rightarrow> Inr (Some (kind, gvr, if namespace = [] then rt_namespace target else namespace, name))))"

definition target_annotations :: "jsstring \<Rightarrow> reconcile_target \<Rightarrow> (jsstring \<times> jsstring) list" where
  "target_annotations ts target =
     [(reconcileRequestAnnotation, ts)] @
     (if rt_kind target = lit ''HelmRelease''
      then (if rt_force target then [(helmReleaseForceRequestAnnotation, ts)] else []) @
           (if rt_reset target then [(helmReleaseResetRequestAnnotation, ts)] else [])
      else [])"

text \<open>The patches that are sent, in order, and the answer. \<open>body\<close> is \<open>None\<close> if it is not the JSON of a target.\<close>

definition reconcileHandler :: "(reconcile_gvr \<Rightarrow> jsstring \<Rightarrow> jsstring \<Rightarrow> api_error + jsval) \<Rightarrow> (annotations_patch \<Rightarrow> api_error option) \<Rightarrow>
    jsstring \<Rightarrow> bool \<Rightarrow> reconcile_target option \<Rightarrow> annotations_patch list \<times> (refusal + reconcile_response)" where
  "reconcileHandler get patch ts is_post body =
     (if \<not> is_post then ([], Inl MethodNotAllowed)
      else case body of
        None \<Rightarrow> ([], Inl InvalidBody)
      | Some target \<Rightarrow>
          if rt_namespace target = [] \<or> rt_name target = [] then ([], Inl NameRequired)
          else case map_of reconcilableKinds (rt_kind target) of
            None \<Rightarrow> ([], Inl (UnsupportedKind (rt_kind target)))
          | Some gvr \<Rightarrow>
              (let own_patch = \<lparr>ap_gvr = gvr, ap_namespace = rt_namespace target, ap_name = rt_name target, ap_annotations = target_annotations ts target\<rparr>;
                   reconcile = (\<lambda>sent source.
                     (sent @ [own_patch],
                      case patch own_patch of
                        Some e \<Rightarrow> Inl (writeCredentialError Reconciling e)
                      | None \<Rightarrow> Inr \<lparr>rr_requestedAt = ts, rr_source = source\<rparr>))
               in if \<not> rt_withSource target then reconcile [] None
                  else case resolveSource get target of
                    Inl e \<Rightarrow> ([], Inl e)
                  | Inr None \<Rightarrow> reconcile [] None
                  | Inr (Some (kind, sourceGVR, namespace, name)) \<Rightarrow>
                      (let source_patch = \<lparr>ap_gvr = sourceGVR, ap_namespace = namespace, ap_name = name,
                             ap_annotations = [(reconcileRequestAnnotation, ts)]\<rparr>
                       in case patch source_patch of
                            Some e \<Rightarrow> ([source_patch], Inl (writeCredentialError ReconcilingSource e))
                          | None \<Rightarrow> reconcile [source_patch] (Some (ts, kind, name)))))"

section \<open>The kinds on both sides\<close>

definition model_gvr :: "flux_model \<Rightarrow> reconcile_gvr" where
  "model_gvr m = mk_gvr (fm_group m) (fm_version m) (fm_plural m)"

text \<open>The kinds with a source, and the one with the annotations of Helm.\<close>

definition capability_ok :: "flux_model \<Rightarrow> bool" where
  "capability_ok m =
     (case fm_reconcile m of
        None \<Rightarrow> map_of reconcilableKinds (lit (fm_kind m)) = None
      | Some c \<Rightarrow>
          map_of reconcilableKinds (lit (fm_kind m)) = Some (model_gvr m) \<and>
          rc_withSource c = (fm_kind m \<in> set [''Kustomization'', ''HelmChart'', ''HelmRelease'']) \<and>
          rc_forceReset c = (fm_kind m = ''HelmRelease''))"

lemma models_capable: "list_all capability_ok flux_models"
  by (simp add: flux_models_def flux_model_defs flux_groups_def capability_ok_def reconcilableKinds_def model_gvr_def lit_eq_iff del: lit_Cons)

lemma capability_of:
  assumes "m \<in> set flux_models" "fm_reconcile m = Some c"
  shows "map_of reconcilableKinds (lit (fm_kind m)) = Some (model_gvr m)" "rc_forceReset c \<Longrightarrow> fm_kind m = ''HelmRelease''"
  using models_capable assms by (auto simp: list_all_iff capability_ok_def)

lemma chart_known: "map_of reconcilableKinds (lit ''HelmChart'') = Some (model_gvr HelmChartModel)"
  by (simp add: reconcilableKinds_def lit_eq_iff HelmChartModel_def flux_groups_def model_gvr_def del: lit_Cons)

lemma release_known: "map_of reconcilableKinds (lit ''HelmRelease'') = Some (model_gvr HelmReleaseModel)"
  by (simp add: reconcilableKinds_def lit_eq_iff HelmReleaseModel_def flux_groups_def model_gvr_def del: lit_Cons)

section \<open>Releases and their charts\<close>

text \<open>An object as the types of \<^verbatim>\<open>types.ts\<close> read it.\<close>

definition text_member :: "jsval \<Rightarrow> string \<Rightarrow> jsstring option" where
  "text_member v k = (case getPath v [lit k] of JStr s \<Rightarrow> Some s | _ \<Rightarrow> None)"

definition ref_of :: "jsval \<Rightarrow> reference option" where
  "ref_of v =
     (case v of
        JObj fs \<Rightarrow> Some \<lparr>rf_kind = text_member v ''kind'', rf_name = text_member v ''name'', rf_namespace = text_member v ''namespace''\<rparr>
      | _ \<Rightarrow> None)"

definition release_of :: "jsval \<Rightarrow> helm_release" where
  "release_of obj = \<lparr>hr_namespace = text_member (getPath obj [lit ''metadata'']) ''namespace'',
     hr_name = text_member (getPath obj [lit ''metadata'']) ''name'',
     hr_sourceRef = ref_of (getPath obj [lit ''spec'', lit ''chart'', lit ''spec'', lit ''sourceRef'']),
     hr_chartRef = ref_of (getPath obj [lit ''spec'', lit ''chartRef''])\<rparr>"

lemma go_member_default: "go_member v k = default_to (text_member v k) []"
  by (auto simp: go_member_def text_member_def go_string_def split: jsval.splits)

lemma ref_of_obj [simp]: "ref_of (JObj fs) = Some \<lparr>rf_kind = text_member (JObj fs) ''kind'', rf_name = text_member (JObj fs) ''name'',
    rf_namespace = text_member (JObj fs) ''namespace''\<rparr>"
  by (simp add: ref_of_def)

lemma ref_of_None: "ref_of v = None \<longleftrightarrow> (\<forall>fs. v \<noteq> JObj fs)"
  by (cases v) (simp_all add: ref_of_def)

lemma getPath_snoc: "getPath v (ps @ [p]) = getPath (getPath v ps) [p]"
  by (induction v ps rule: getPath.induct) (auto split: jsval.splits)

lemma template_namespace:
  assumes "ref_of (getPath obj ps) = Some s"
  shows "go_string (getPath obj (ps @ [lit ''namespace''])) = default_to (rf_namespace s) []"
proof -
  obtain fs where "getPath obj ps = JObj fs" using assms ref_of_None by (cases "getPath obj ps") (simp_all add: ref_of_def)
  then show ?thesis using assms go_member_default [of "JObj fs" "''namespace''"] unfolding getPath_snoc go_member_def by fastforce
qed

text \<open>Which source a release has, said of the release as it is read.\<close>

lemma release_source:
  assumes "rt_kind t = lit ''HelmRelease''"
  shows "source_of t obj =
    (case hr_chartRef (release_of obj) of
       Some c \<Rightarrow> (default_to (rf_kind c) [], default_to (rf_namespace c) [], default_to (rf_name c) [])
     | None \<Rightarrow> (lit ''HelmChart'', case hr_sourceRef (release_of obj) of None \<Rightarrow> [] | Some s \<Rightarrow> default_to (rf_namespace s) [],
                rt_namespace t @ [45] @ rt_name t))"
proof -
  let ?ref = "[lit ''spec'', lit ''chart'', lit ''spec'', lit ''sourceRef'']"
  have other: "rt_kind t \<noteq> lit ''Kustomization''" "rt_kind t \<noteq> lit ''HelmChart''"
    using assms by (simp_all add: lit_eq_iff del: lit_Cons)
  have template: "go_string (getPath obj (?ref @ [lit ''namespace''])) =
      (case ref_of (getPath obj ?ref) of None \<Rightarrow> [] | Some s \<Rightarrow> default_to (rf_namespace s) [])"
  proof (cases "ref_of (getPath obj ?ref)")
    case None
    then show ?thesis unfolding getPath_snoc by (cases "getPath obj ?ref") (simp_all add: ref_of_def go_string_def del: lit_Cons)
  qed (simp only: template_namespace option.simps)
  show ?thesis
  proof (cases "getPath obj [lit ''spec'', lit ''chartRef'']")
    case (JObj fs)
    then show ?thesis using assms other
      by (simp only: source_of_def release_of_def if_False if_True jsval.simps go_member_default ref_of_obj option.simps
          helm_release.simps reference.simps simp_thms)
  qed (use assms other template in \<open>simp_all only: source_of_def release_of_def if_False if_True jsval.simps ref_of_def option.simps
      helm_release.simps append.simps simp_thms\<close>)
qed

text \<open>C16: The source that is reconciled with a release is the chart under whose consumers the release is listed, whether the
  release names its chart or has it made from a template: the back end and the page work out the same namespace and the
  same name.\<close>

theorem release_source_is_its_chart:
  assumes action: "PostReconcile u t \<in> ac_cta ` set (useResourceActions base_path HelmReleaseModel r)"
    and got: "get (model_gvr HelmReleaseModel) (rt_namespace t) (rt_name t) = Inr obj"
    and meta: "hr_namespace (release_of obj) = Some (rt_namespace t)" "hr_name (release_of obj) = Some (rt_name t)"
      "rt_namespace t \<noteq> []" "rt_name t \<noteq> []"
    and chart: "hr_chartRef (release_of obj) \<noteq> None \<or> (\<exists>s. hr_sourceRef (release_of obj) = Some s \<and> \<not> unset (rf_kind s))"
  shows "resolveSource get t = Inr (Some (lit ''HelmChart'', model_gvr HelmChartModel, ns, n)) \<longleftrightarrow>
    helmReleaseReferencesHelmChart (release_of obj) ns n"
proof -
  have kind: "rt_kind t = lit ''HelmRelease''" "rt_group t = lit (fm_group HelmReleaseModel)" "rt_version t = lit (fm_version HelmReleaseModel)"
    using target_fields(2-4) [OF action] by (simp_all add: HelmReleaseModel_def)
  have plural: "gv_plural (model_gvr HelmReleaseModel) = lit (fm_plural HelmReleaseModel)" by (simp add: model_gvr_def mk_gvr_def)
  have request: "get \<lparr>gv_group = rt_group t, gv_version = rt_version t, gv_plural = gv_plural (model_gvr HelmReleaseModel)\<rparr>
      (rt_namespace t) (rt_name t) = Inr obj"
    using got unfolding kind plural by (simp add: model_gvr_def mk_gvr_def)
  show ?thesis
  proof (cases "hr_chartRef (release_of obj)")
    case None
    then obtain s where "hr_sourceRef (release_of obj) = Some s" "\<not> unset (rf_kind s)" using chart by blast
    then show ?thesis unfolding chart_consumers_exact using None meta
      by (simp add: resolveSource_def release_known request release_source [OF kind(1)] chart_known kind(1) chart_of_def
          impliedHelmChartRef_def default_to_def unset_def del: lit_Cons) auto
  next
    case (Some c)
    have "lit ''HelmChart'' \<noteq> []" by simp
    note Some = Some this
    show ?thesis unfolding chart_consumers_exact
    proof (cases "unset (rf_kind c) \<or> unset (rf_name c)")
      case True
      then show "resolveSource get t = Inr (Some (lit ''HelmChart'', model_gvr HelmChartModel, ns, n)) \<longleftrightarrow> chart_of (release_of obj) = Some (ns, n)"
        using Some meta by (auto simp: resolveSource_def release_known request release_source [OF kind(1)] kind(1) chart_of_def
          default_to_def unset_def simp del: lit_Cons)
    next
      case False
      then show "resolveSource get t = Inr (Some (lit ''HelmChart'', model_gvr HelmChartModel, ns, n)) \<longleftrightarrow> chart_of (release_of obj) = Some (ns, n)"
        using Some meta chart_known by (auto simp: resolveSource_def release_known request release_source [OF kind(1)] kind(1) chart_of_def
          default_to_def unset_def split: option.splits simp del: lit_Cons)
    qed
  qed
qed

section \<open>From the action to the annotations\<close>

text \<open>The patch of the object itself, with every flag that was asked for.\<close>

definition object_patch :: "flux_model \<Rightarrow> suspendable \<Rightarrow> jsstring \<Rightarrow> bool \<Rightarrow> bool \<Rightarrow> annotations_patch" where
  "object_patch m r ts force reset = \<lparr>ap_gvr = model_gvr m, ap_namespace = the (sr_namespace r), ap_name = the (sr_name r),
     ap_annotations = [(reconcileRequestAnnotation, ts)] @ (if force then [(helmReleaseForceRequestAnnotation, ts)] else []) @
       (if reset then [(helmReleaseResetRequestAnnotation, ts)] else [])\<rparr>"

lemma writeCredentialError_status:
  "http_status (writeCredentialError ResolvingSource e) \<in> {401, 500, 502}"
  "http_status (writeCredentialError ReconcilingSource e) \<in> {401, 500, 502}"
  "http_status (writeCredentialError Reconciling e) \<in> {401, 500, 502}"
  by (cases e; simp add: writeCredentialError_def)+

lemma resolveSource_status: "resolveSource get t = Inl e \<Longrightarrow> http_status e \<in> {401, 500, 502}"
  using writeCredentialError_status(1) by (auto simp: resolveSource_def split: sum.splits prod.splits option.splits if_splits)

text \<open>C15: A click on any action that reconciles reaches the object it is shown for. For every kind of the plugin and any answers
  of the API, the back end accepts the request: it never answers that the kind is not supported or a name is missing. If it
  answers that the request was made, the last patch is that of the very object, with every annotation that was asked for,
  and each patch was done; before it there is at most the one of the source, and only if that was asked for.\<close>

theorem reconcile_reaches_object:
  assumes m: "m \<in> set flux_models" and action: "PostReconcile u t \<in> ac_cta ` set (useResourceActions base_path m r)"
    and names: "\<not> unset (sr_namespace r)" "\<not> unset (sr_name r)"
    and out: "reconcileHandler get patch ts True (Some t) = (sent, answer)"
  shows "case answer of
      Inl e \<Rightarrow> http_status e \<in> {401, 500, 502}
    | Inr response \<Rightarrow> rr_requestedAt response = ts \<and> list_all (\<lambda>q. patch q = None) sent \<and>
        (\<exists>qs. sent = qs @ [object_patch m r ts (rt_force t) (rt_reset t)] \<and>
          (qs = [] \<or> rt_withSource t \<and> (\<exists>kind g ns n. resolveSource get t = Inr (Some (kind, g, ns, n)) \<and>
             qs = [\<lparr>ap_gvr = g, ap_namespace = ns, ap_name = n, ap_annotations = [(reconcileRequestAnnotation, ts)]\<rparr>])))"
proof -
  obtain c where c: "fm_reconcile m = Some c" "rt_force t \<or> rt_reset t \<longrightarrow> rc_forceReset c" using target_fields(7) [OF action] by blast
  note kind = target_fields(4) [OF action]
  have flags: "rt_force t \<or> rt_reset t \<longrightarrow> rt_kind t = lit ''HelmRelease''"
    using capability_of(2) [OF m c(1)] c(2) kind by auto
  have patch: "\<lparr>ap_gvr = model_gvr m, ap_namespace = rt_namespace t, ap_name = rt_name t, ap_annotations = target_annotations ts t\<rparr> =
      object_patch m r ts (rt_force t) (rt_reset t)"
    using names flags target_fields(5,6) [OF action] by (auto simp: object_patch_def target_annotations_def default_to_def simp del: lit_Cons)
  have given: "rt_namespace t \<noteq> []" "rt_name t \<noteq> []"
    using names target_fields(5,6) [OF action] by (auto simp: default_to_def unset_def)
  have known: "map_of reconcilableKinds (rt_kind t) = Some (model_gvr m)" using capability_of(1) [OF m c(1)] by (simp add: kind)
  show ?thesis
    using out given known writeCredentialError_status(2,3)
    unfolding reconcileHandler_def Let_def patch
    by (auto simp: Let_def patch split: if_splits sum.splits option.splits prod.splits dest!: resolveSource_status)
qed

text \<open>A release with a chart made from a template whose source is in another namespace.\<close>

definition sample_object :: jsval where
  "sample_object = JObj [
     (lit ''metadata'', JObj [(lit ''namespace'', JStr (lit ''apps'')), (lit ''name'', JStr (lit ''web''))]),
     (lit ''spec'', JObj [(lit ''chart'', JObj [(lit ''spec'', JObj [(lit ''sourceRef'',
        JObj [(lit ''kind'', JStr (lit ''HelmRepository'')), (lit ''name'', JStr (lit ''charts'')), (lit ''namespace'', JStr (lit ''flux''))])])])])]"

definition sample_reconcile :: reconcile_target where
  "sample_reconcile = \<lparr>rt_group = lit ''helm.toolkit.fluxcd.io'', rt_version = lit ''v2'', rt_kind = lit ''HelmRelease'',
     rt_namespace = lit ''apps'', rt_name = lit ''web'', rt_withSource = True, rt_force = False, rt_reset = False\<rparr>"

lemma sample_action:
  "PostReconcile (consolePath None RECONCILE_PATH) sample_reconcile \<in> ac_cta ` set (useResourceActions None HelmReleaseModel sample_release)"
  by (simp add: useResourceActions_def reconcile_actions_def Let_def HelmReleaseModel_def HELM_TOOLKIT_GROUP_def sample_release_def
      sample_reconcile_def reconcileResource_def)

lemma release_source_is_its_chart_witness:
  "resolveSource (\<lambda>_ _ _. Inr sample_object) sample_reconcile =
     Inr (Some (lit ''HelmChart'', model_gvr HelmChartModel, lit ''flux'', lit ''apps-web''))"
proof -
  have read: "release_of sample_object = \<lparr>hr_namespace = Some (lit ''apps''), hr_name = Some (lit ''web''),
      hr_sourceRef = Some \<lparr>rf_kind = Some (lit ''HelmRepository''), rf_name = Some (lit ''charts''), rf_namespace = Some (lit ''flux'')\<rparr>,
      hr_chartRef = None\<rparr>"
    by (simp add: release_of_def sample_object_def text_member_def own_def lit_eq_iff ref_of_def del: lit_Cons)
  have "helmReleaseReferencesHelmChart (release_of sample_object) (lit ''flux'') (lit ''apps-web'')"
    unfolding read by (simp add: helmReleaseReferencesHelmChart_def impliedHelmChartRef_def)
  moreover from release_source_is_its_chart [OF sample_action, of "\<lambda>_ _ _. Inr sample_object" sample_object "lit ''flux''" "lit ''apps-web''"]
  have "?thesis \<longleftrightarrow> helmReleaseReferencesHelmChart (release_of sample_object) (lit ''flux'') (lit ''apps-web'')"
    unfolding read by (simp add: sample_reconcile_def)
  ultimately show ?thesis by simp
qed

lemma reconcile_reaches_object_witness:
  "\<exists>sent response. reconcileHandler (\<lambda>_ _ _. Inr (JObj [])) (\<lambda>_. None) [49] True (Some (sample_reconcile\<lparr>rt_withSource := False\<rparr>)) =
     (sent, Inr response) \<and> list_all (\<lambda>q. True) sent \<and> rr_requestedAt response = [49]"
proof -
  let ?t = "sample_reconcile\<lparr>rt_withSource := False\<rparr>"
  obtain sent answer where out: "reconcileHandler (\<lambda>_ _ _. Inr (JObj [])) (\<lambda>_. None) [49] True (Some ?t) = (sent, answer)" by fastforce
  have kind: "rt_kind sample_reconcile = lit ''HelmRelease''" "rt_namespace sample_reconcile \<noteq> []" "rt_name sample_reconcile \<noteq> []"
    by (simp_all add: sample_reconcile_def)
  have answer: "isl answer = False"
    using out unfolding reconcileHandler_def by (auto simp: release_known kind Let_def simp del: lit_Cons)
  have "PostReconcile (consolePath None RECONCILE_PATH) ?t \<in> ac_cta ` set (useResourceActions None HelmReleaseModel sample_release)"
    by (simp add: useResourceActions_def reconcile_actions_def Let_def HelmReleaseModel_def HELM_TOOLKIT_GROUP_def sample_release_def
      sample_reconcile_def reconcileResource_def)
  from reconcile_reaches_object [OF _ this _ _ out] answer out show ?thesis
    by (cases answer) (auto simp: flux_models_def sample_release_def)
qed

end
