(* ===== verification/Res_Manifests.thy ===== *)
theory Res_Manifests
  imports Flux_Models
begin

text \<open>
  The kinds of the cert-manager, external-secrets and external-dns plugins (\<^verbatim>\<open>src/models.ts\<close> of each) and what each declares
  to the console (\<^verbatim>\<open>plugin-manifest.ts\<close>). The three types of models have the same members.
\<close>

section \<open>Models\<close>

record resource_model =
  rm_group :: string
  rm_version :: string
  rm_kind :: string
  rm_plural :: string
  rm_namespaced :: bool
  rm_label :: string
  rm_labelPlural :: string
  rm_abbr :: string
  rm_id :: string

definition resource_gvk :: "resource_model \<Rightarrow> gvk" where
  "resource_gvk model = (rm_group model, rm_version model, rm_kind model)"

definition referenceForResource :: "resource_model \<Rightarrow> string" where
  "referenceForResource model = rm_group model @ ''~'' @ rm_version model @ ''~'' @ rm_kind model"

definition cm_CERT_MANAGER_GROUP :: string where "cm_CERT_MANAGER_GROUP = ''cert-manager.io''"
definition cm_ACME_GROUP :: string where "cm_ACME_GROUP = ''acme.cert-manager.io''"
definition cm_TRUST_MANAGER_GROUP :: string where "cm_TRUST_MANAGER_GROUP = ''trust.cert-manager.io''"

definition CertificateModel :: resource_model where
  "CertificateModel = \<lparr>rm_group = cm_CERT_MANAGER_GROUP, rm_version = ''v1'', rm_kind = ''Certificate'', rm_plural = ''certificates'', rm_namespaced = True,
     rm_label = ''Certificate'', rm_labelPlural = ''Certificates'', rm_abbr = ''C'', rm_id = ''certificate''\<rparr>"

definition CertificateRequestModel :: resource_model where
  "CertificateRequestModel = \<lparr>rm_group = cm_CERT_MANAGER_GROUP, rm_version = ''v1'', rm_kind = ''CertificateRequest'', rm_plural = ''certificaterequests'', rm_namespaced = True,
     rm_label = ''CertificateRequest'', rm_labelPlural = ''CertificateRequests'', rm_abbr = ''CR'', rm_id = ''certificaterequest''\<rparr>"

definition IssuerModel :: resource_model where
  "IssuerModel = \<lparr>rm_group = cm_CERT_MANAGER_GROUP, rm_version = ''v1'', rm_kind = ''Issuer'', rm_plural = ''issuers'', rm_namespaced = True,
     rm_label = ''Issuer'', rm_labelPlural = ''Issuers'', rm_abbr = ''I'', rm_id = ''issuer''\<rparr>"

definition ClusterIssuerModel :: resource_model where
  "ClusterIssuerModel = \<lparr>rm_group = cm_CERT_MANAGER_GROUP, rm_version = ''v1'', rm_kind = ''ClusterIssuer'', rm_plural = ''clusterissuers'', rm_namespaced = False,
     rm_label = ''ClusterIssuer'', rm_labelPlural = ''ClusterIssuers'', rm_abbr = ''CI'', rm_id = ''clusterissuer''\<rparr>"

definition OrderModel :: resource_model where
  "OrderModel = \<lparr>rm_group = cm_ACME_GROUP, rm_version = ''v1'', rm_kind = ''Order'', rm_plural = ''orders'', rm_namespaced = True,
     rm_label = ''Order'', rm_labelPlural = ''Orders'', rm_abbr = ''O'', rm_id = ''order''\<rparr>"

definition ChallengeModel :: resource_model where
  "ChallengeModel = \<lparr>rm_group = cm_ACME_GROUP, rm_version = ''v1'', rm_kind = ''Challenge'', rm_plural = ''challenges'', rm_namespaced = True,
     rm_label = ''Challenge'', rm_labelPlural = ''Challenges'', rm_abbr = ''CH'', rm_id = ''challenge''\<rparr>"

definition BundleModel :: resource_model where
  "BundleModel = \<lparr>rm_group = cm_TRUST_MANAGER_GROUP, rm_version = ''v1alpha1'', rm_kind = ''Bundle'', rm_plural = ''bundles'', rm_namespaced = False,
     rm_label = ''Bundle'', rm_labelPlural = ''Bundles'', rm_abbr = ''B'', rm_id = ''bundle''\<rparr>"

definition es_GROUP :: string where "es_GROUP = ''external-secrets.io''"

definition ExternalSecretModel :: resource_model where
  "ExternalSecretModel = \<lparr>rm_group = es_GROUP, rm_version = ''v1'', rm_kind = ''ExternalSecret'', rm_plural = ''externalsecrets'', rm_namespaced = True,
     rm_label = ''ExternalSecret'', rm_labelPlural = ''ExternalSecrets'', rm_abbr = ''ES'', rm_id = ''externalsecret''\<rparr>"

definition PushSecretModel :: resource_model where
  "PushSecretModel = \<lparr>rm_group = es_GROUP, rm_version = ''v1alpha1'', rm_kind = ''PushSecret'', rm_plural = ''pushsecrets'', rm_namespaced = True,
     rm_label = ''PushSecret'', rm_labelPlural = ''PushSecrets'', rm_abbr = ''PS'', rm_id = ''pushsecret''\<rparr>"

definition ClusterExternalSecretModel :: resource_model where
  "ClusterExternalSecretModel = \<lparr>rm_group = es_GROUP, rm_version = ''v1'', rm_kind = ''ClusterExternalSecret'', rm_plural = ''clusterexternalsecrets'', rm_namespaced = False,
     rm_label = ''ClusterExternalSecret'', rm_labelPlural = ''ClusterExternalSecrets'', rm_abbr = ''CES'', rm_id = ''clusterexternalsecret''\<rparr>"

definition ClusterPushSecretModel :: resource_model where
  "ClusterPushSecretModel = \<lparr>rm_group = es_GROUP, rm_version = ''v1alpha1'', rm_kind = ''ClusterPushSecret'', rm_plural = ''clusterpushsecrets'', rm_namespaced = False,
     rm_label = ''ClusterPushSecret'', rm_labelPlural = ''ClusterPushSecrets'', rm_abbr = ''CPS'', rm_id = ''clusterpushsecret''\<rparr>"

definition SecretStoreModel :: resource_model where
  "SecretStoreModel = \<lparr>rm_group = es_GROUP, rm_version = ''v1'', rm_kind = ''SecretStore'', rm_plural = ''secretstores'', rm_namespaced = True,
     rm_label = ''SecretStore'', rm_labelPlural = ''SecretStores'', rm_abbr = ''SS'', rm_id = ''secretstore''\<rparr>"

definition ClusterSecretStoreModel :: resource_model where
  "ClusterSecretStoreModel = \<lparr>rm_group = es_GROUP, rm_version = ''v1'', rm_kind = ''ClusterSecretStore'', rm_plural = ''clustersecretstores'', rm_namespaced = False,
     rm_label = ''ClusterSecretStore'', rm_labelPlural = ''ClusterSecretStores'', rm_abbr = ''CSS'', rm_id = ''clustersecretstore''\<rparr>"

definition DNSEndpointModel :: resource_model where
  "DNSEndpointModel = \<lparr>rm_group = ''externaldns.k8s.io'', rm_version = ''v1alpha1'', rm_kind = ''DNSEndpoint'', rm_plural = ''dnsendpoints'', rm_namespaced = True,
     rm_label = ''DNSEndpoint'', rm_labelPlural = ''DNSEndpoints'', rm_abbr = ''DE'', rm_id = ''dnsendpoint''\<rparr>"

definition cm_models :: "resource_model list" where
  "cm_models = [CertificateModel, CertificateRequestModel, IssuerModel, ClusterIssuerModel, OrderModel, ChallengeModel, BundleModel]"

definition es_models :: "resource_model list" where
  "es_models = [ExternalSecretModel, PushSecretModel, ClusterExternalSecretModel, ClusterPushSecretModel, SecretStoreModel, ClusterSecretStoreModel]"

definition dns_models :: "resource_model list" where
  "dns_models = [DNSEndpointModel]"

section \<open>cert-manager\<close>

definition cm_CERT_MANAGER_SECTION_ID :: string where "cm_CERT_MANAGER_SECTION_ID = ''cert-manager''"
definition cm_TRUST_MANAGER_SECTION_ID :: string where "cm_TRUST_MANAGER_SECTION_ID = ''trust-manager''"
definition cm_DNS_ENDPOINT_FLAG :: string where "cm_DNS_ENDPOINT_FLAG = ''CERT_MANAGER_DNS_ENDPOINT''"
definition cm_CERT_MANAGER_FLAG :: string where "cm_CERT_MANAGER_FLAG = ''CERT_MANAGER''"
definition cm_TRUST_MANAGER_FLAG :: string where "cm_TRUST_MANAGER_FLAG = ''TRUST_MANAGER''"

definition cm_exposedModules :: "(string \<times> string) list" where
  "cm_exposedModules = [(''lists'', ''./components/lists/index.tsx''), (''tabs'', ''./components/tabs/CertificateTab.tsx''),
     (''details-items'', ''./components/details/CertificateDetailsItems.tsx'')]"

definition cm_navSection :: "string \<Rightarrow> string \<Rightarrow> string option \<Rightarrow> string option \<Rightarrow> extension" where
  "cm_navSection i name insertAfter requiredFlag =
     \<lparr>ex_properties = NavSectionExt i name (if insertAfter = Some [] then None else insertAfter), ex_required = required_flags requiredFlag\<rparr>"

definition cm_namespacedNav :: "string \<Rightarrow> string \<Rightarrow> resource_model \<Rightarrow> string \<Rightarrow> string option \<Rightarrow> extension" where
  "cm_namespacedNav i name model section requiredFlag =
     \<lparr>ex_properties = NamespacedNavExt i (resource_gvk model) name section, ex_required = required_flags requiredFlag\<rparr>"

definition cm_clusterNav :: "string \<Rightarrow> string \<Rightarrow> resource_model \<Rightarrow> string \<Rightarrow> string option \<Rightarrow> extension" where
  "cm_clusterNav i name model section requiredFlag =
     \<lparr>ex_properties = ClusterNavExt i (resource_gvk model) name section, ex_required = required_flags requiredFlag\<rparr>"

definition cm_separator :: "string \<Rightarrow> string \<Rightarrow> string option \<Rightarrow> extension" where
  "cm_separator i section requiredFlag = \<lparr>ex_properties = SeparatorExt i section, ex_required = required_flags requiredFlag\<rparr>"

definition cm_listPage :: "resource_model \<Rightarrow> string \<Rightarrow> string option \<Rightarrow> extension" where
  "cm_listPage model codeRef requiredFlag =
     \<lparr>ex_properties = ListPageExt codeRef (resource_gvk model), ex_required = required_flags requiredFlag\<rparr>"

definition cm_certificateTab :: "string \<Rightarrow> string \<Rightarrow> string \<Rightarrow> string \<Rightarrow> string \<Rightarrow> string option \<Rightarrow> extension" where
  "cm_certificateTab i g version kind codeRef requiredFlag =
     \<lparr>ex_properties = HorizontalNavTabExt codeRef (g, version, kind) ''Certificate'' ''certificate'', ex_required = required_flags requiredFlag\<rparr>"

definition cm_detailsItem :: "string \<Rightarrow> resource_model \<Rightarrow> string \<Rightarrow> string \<Rightarrow> nat \<Rightarrow> extension" where
  "cm_detailsItem i model title codeRef sortWeight =
     \<lparr>ex_properties = DetailsItemExt codeRef i (resource_gvk model) sortWeight title, ex_required = []\<rparr>"

definition cm_dnsEndpointFlag :: extension where
  "cm_dnsEndpointFlag = \<lparr>ex_properties = ModelFlagExt cm_DNS_ENDPOINT_FLAG (''externaldns.k8s.io'', ''v1alpha1'', ''DNSEndpoint''), ex_required = []\<rparr>"

definition cm_certManagerFlag :: extension where
  "cm_certManagerFlag = \<lparr>ex_properties = ModelFlagExt cm_CERT_MANAGER_FLAG (resource_gvk CertificateModel), ex_required = []\<rparr>"

definition cm_trustManagerFlag :: extension where
  "cm_trustManagerFlag = \<lparr>ex_properties = ModelFlagExt cm_TRUST_MANAGER_FLAG (resource_gvk BundleModel), ex_required = []\<rparr>"

definition cm_extensions :: "extension list" where
  "cm_extensions = [
     cm_navSection cm_CERT_MANAGER_SECTION_ID ''%plugin__cert-manager-console-plugin~Cert Manager%'' (Some ''external-secrets'') (Some cm_CERT_MANAGER_FLAG),
     cm_namespacedNav ''cert-manager-certificate'' ''%plugin__cert-manager-console-plugin~Certificates%'' CertificateModel cm_CERT_MANAGER_SECTION_ID (Some cm_CERT_MANAGER_FLAG),
     cm_namespacedNav ''cert-manager-certificaterequest'' ''%plugin__cert-manager-console-plugin~CertificateRequests%'' CertificateRequestModel cm_CERT_MANAGER_SECTION_ID (Some cm_CERT_MANAGER_FLAG),
     cm_separator ''cert-manager-separator-0'' cm_CERT_MANAGER_SECTION_ID (Some cm_CERT_MANAGER_FLAG),
     cm_namespacedNav ''cert-manager-issuer'' ''%plugin__cert-manager-console-plugin~Issuers%'' IssuerModel cm_CERT_MANAGER_SECTION_ID (Some cm_CERT_MANAGER_FLAG),
     cm_clusterNav ''cert-manager-clusterissuer'' ''%plugin__cert-manager-console-plugin~ClusterIssuers%'' ClusterIssuerModel cm_CERT_MANAGER_SECTION_ID (Some cm_CERT_MANAGER_FLAG),
     cm_separator ''cert-manager-separator-1'' cm_CERT_MANAGER_SECTION_ID (Some cm_CERT_MANAGER_FLAG),
     cm_namespacedNav ''cert-manager-order'' ''%plugin__cert-manager-console-plugin~Orders%'' OrderModel cm_CERT_MANAGER_SECTION_ID (Some cm_CERT_MANAGER_FLAG),
     cm_namespacedNav ''cert-manager-challenge'' ''%plugin__cert-manager-console-plugin~Challenges%'' ChallengeModel cm_CERT_MANAGER_SECTION_ID (Some cm_CERT_MANAGER_FLAG),
     cm_navSection cm_TRUST_MANAGER_SECTION_ID ''%plugin__cert-manager-console-plugin~Trust Manager%'' (Some cm_CERT_MANAGER_SECTION_ID) (Some cm_TRUST_MANAGER_FLAG),
     cm_clusterNav ''trust-manager-bundle'' ''%plugin__cert-manager-console-plugin~Bundles%'' BundleModel cm_TRUST_MANAGER_SECTION_ID (Some cm_TRUST_MANAGER_FLAG),
     cm_listPage CertificateModel ''lists.CertificateList'' (Some cm_CERT_MANAGER_FLAG),
     cm_listPage CertificateRequestModel ''lists.CertificateRequestList'' (Some cm_CERT_MANAGER_FLAG),
     cm_listPage IssuerModel ''lists.IssuerList'' (Some cm_CERT_MANAGER_FLAG),
     cm_listPage ClusterIssuerModel ''lists.ClusterIssuerList'' (Some cm_CERT_MANAGER_FLAG),
     cm_listPage OrderModel ''lists.OrderList'' (Some cm_CERT_MANAGER_FLAG),
     cm_listPage ChallengeModel ''lists.ChallengeList'' (Some cm_CERT_MANAGER_FLAG),
     cm_listPage BundleModel ''lists.BundleList'' (Some cm_TRUST_MANAGER_FLAG),
     cm_certificateTab ''cert-manager-tab-ingress'' ''networking.k8s.io'' ''v1'' ''Ingress'' ''tabs.IngressCertificateTab'' None,
     cm_certificateTab ''cert-manager-tab-service'' [] ''v1'' ''Service'' ''tabs.ServiceCertificateTab'' None,
     cm_certificateTab ''cert-manager-tab-httproute'' ''gateway.networking.k8s.io'' ''v1'' ''HTTPRoute'' ''tabs.HTTPRouteCertificateTab'' None,
     cm_certificateTab ''cert-manager-tab-tlsroute'' ''gateway.networking.k8s.io'' ''v1alpha2'' ''TLSRoute'' ''tabs.TLSRouteCertificateTab'' None,
     cm_certificateTab ''cert-manager-tab-grpcroute'' ''gateway.networking.k8s.io'' ''v1'' ''GRPCRoute'' ''tabs.GRPCRouteCertificateTab'' None,
     cm_certificateTab ''cert-manager-tab-tcproute'' ''gateway.networking.k8s.io'' ''v1alpha2'' ''TCPRoute'' ''tabs.TCPRouteCertificateTab'' None,
     cm_certificateTab ''cert-manager-tab-udproute'' ''gateway.networking.k8s.io'' ''v1alpha2'' ''UDPRoute'' ''tabs.UDPRouteCertificateTab'' None,
     cm_certificateTab ''cert-manager-tab-dnsendpoint'' ''externaldns.k8s.io'' ''v1alpha1'' ''DNSEndpoint'' ''tabs.DNSEndpointCertificateTab'' (Some cm_DNS_ENDPOINT_FLAG),
     cm_certificateTab ''cert-manager-tab-node'' [] ''v1'' ''Node'' ''tabs.NodeCertificateTab'' None,
     cm_dnsEndpointFlag,
     cm_certManagerFlag,
     cm_trustManagerFlag,
     cm_detailsItem ''cert-manager-detail-common-name'' CertificateModel ''Common Name'' ''details-items.CommonNameItem'' 100,
     cm_detailsItem ''cert-manager-detail-sans'' CertificateModel ''Subject Alternative Names'' ''details-items.SubjectAltNamesItem'' 110,
     cm_detailsItem ''cert-manager-detail-issuer'' CertificateModel ''Issuer'' ''details-items.IssuerLinkItem'' 120,
     cm_detailsItem ''cert-manager-detail-secret'' CertificateModel ''Secret'' ''details-items.SecretLinkItem'' 130,
     cm_detailsItem ''cert-manager-detail-not-before'' CertificateModel ''Not Before'' ''details-items.NotBeforeItem'' 140,
     cm_detailsItem ''cert-manager-detail-not-after'' CertificateModel ''Not After'' ''details-items.NotAfterItem'' 150,
     cm_detailsItem ''cert-manager-detail-renewal-time'' CertificateModel ''Renewal Time'' ''details-items.RenewalTimeItem'' 160]"

section \<open>external-secrets\<close>

definition es_SECTION_ID :: string where "es_SECTION_ID = ''external-secrets''"

definition es_exposedModules :: "(string \<times> string) list" where
  "es_exposedModules = [(''lists'', ''./components/lists/index.tsx''), (''details'', ''./components/details/index.tsx'')]"

definition es_navSection :: extension where
  "es_navSection = \<lparr>ex_properties = NavSectionExt es_SECTION_ID ''%plugin__external-secrets-console-plugin~External Secrets%'' (Some ''observe''), ex_required = []\<rparr>"

definition es_namespacedNav :: "string \<Rightarrow> string \<Rightarrow> resource_model \<Rightarrow> extension" where
  "es_namespacedNav i name model = \<lparr>ex_properties = NamespacedNavExt i (resource_gvk model) name es_SECTION_ID, ex_required = []\<rparr>"

definition es_clusterNav :: "string \<Rightarrow> string \<Rightarrow> resource_model \<Rightarrow> extension" where
  "es_clusterNav i name model = \<lparr>ex_properties = ClusterNavExt i (resource_gvk model) name es_SECTION_ID, ex_required = []\<rparr>"

definition es_separator :: "string \<Rightarrow> extension" where
  "es_separator i = \<lparr>ex_properties = SeparatorExt i es_SECTION_ID, ex_required = []\<rparr>"

definition es_listPage :: "resource_model \<Rightarrow> string \<Rightarrow> extension" where
  "es_listPage model codeRef = \<lparr>ex_properties = ListPageExt codeRef (resource_gvk model), ex_required = []\<rparr>"

definition es_detailsPage :: "resource_model \<Rightarrow> string \<Rightarrow> extension" where
  "es_detailsPage model codeRef = \<lparr>ex_properties = DetailsPageExt codeRef (resource_gvk model), ex_required = []\<rparr>"

definition es_extensions :: "extension list" where
  "es_extensions = [
     es_navSection,
     es_namespacedNav ''external-secrets-externalsecret'' ''%plugin__external-secrets-console-plugin~ExternalSecrets%'' ExternalSecretModel,
     es_namespacedNav ''external-secrets-pushsecret'' ''%plugin__external-secrets-console-plugin~PushSecrets%'' PushSecretModel,
     es_separator ''external-secrets-separator-0'',
     es_clusterNav ''external-secrets-clusterexternalsecret'' ''%plugin__external-secrets-console-plugin~ClusterExternalSecrets%'' ClusterExternalSecretModel,
     es_clusterNav ''external-secrets-clusterpushsecret'' ''%plugin__external-secrets-console-plugin~ClusterPushSecrets%'' ClusterPushSecretModel,
     es_separator ''external-secrets-separator-1'',
     es_namespacedNav ''external-secrets-secretstore'' ''%plugin__external-secrets-console-plugin~SecretStores%'' SecretStoreModel,
     es_clusterNav ''external-secrets-clustersecretstore'' ''%plugin__external-secrets-console-plugin~ClusterSecretStores%'' ClusterSecretStoreModel,
     es_listPage ExternalSecretModel ''lists.ExternalSecretList'',
     es_listPage PushSecretModel ''lists.PushSecretList'',
     es_listPage ClusterExternalSecretModel ''lists.ClusterExternalSecretList'',
     es_listPage ClusterPushSecretModel ''lists.ClusterPushSecretList'',
     es_listPage SecretStoreModel ''lists.SecretStoreList'',
     es_listPage ClusterSecretStoreModel ''lists.ClusterSecretStoreList'',
     es_detailsPage ExternalSecretModel ''details.ExternalSecretDetailsPage'',
     es_detailsPage ClusterExternalSecretModel ''details.ClusterExternalSecretDetailsPage'',
     es_detailsPage SecretStoreModel ''details.SecretStoreDetailsPage'',
     es_detailsPage ClusterSecretStoreModel ''details.ClusterSecretStoreDetailsPage'']"

section \<open>external-dns\<close>

definition dns_NETWORKING_SECTION_ID :: string where "dns_NETWORKING_SECTION_ID = ''networking''"

definition dns_exposedModules :: "(string \<times> string) list" where
  "dns_exposedModules = [(''lists'', ''./components/lists/index.tsx''), (''tabs'', ''./components/tabs/DNSSettingsTab.tsx'')]"

definition dns_namespacedNav :: extension where
  "dns_namespacedNav = \<lparr>ex_properties = NamespacedNavExt ''external-dns-dnsendpoint'' (resource_gvk DNSEndpointModel)
     ''%plugin__external-dns-console-plugin~DNSEndpoints%'' dns_NETWORKING_SECTION_ID, ex_required = []\<rparr>"

definition dns_listPage :: extension where
  "dns_listPage = \<lparr>ex_properties = ListPageExt ''lists.DNSEndpointList'' (resource_gvk DNSEndpointModel), ex_required = []\<rparr>"

definition dns_externalDnsFlag :: extension where
  "dns_externalDnsFlag = \<lparr>ex_properties = ModelFlagExt ''EXTERNAL_DNS'' (resource_gvk DNSEndpointModel), ex_required = []\<rparr>"

definition dns_dnsSettingsTab :: "string \<Rightarrow> string \<Rightarrow> string \<Rightarrow> string \<Rightarrow> string \<Rightarrow> extension" where
  "dns_dnsSettingsTab i g version kind codeRef =
     \<lparr>ex_properties = HorizontalNavTabExt codeRef (g, version, kind) ''DNS Settings'' ''dns-settings'', ex_required = []\<rparr>"

definition dns_extensions :: "extension list" where
  "dns_extensions = [
     dns_namespacedNav,
     dns_listPage,
     dns_externalDnsFlag,
     dns_dnsSettingsTab ''external-dns-tab-ingress'' ''networking.k8s.io'' ''v1'' ''Ingress'' ''tabs.IngressDNSSettingsTab'',
     dns_dnsSettingsTab ''external-dns-tab-service'' [] ''v1'' ''Service'' ''tabs.ServiceDNSSettingsTab'',
     dns_dnsSettingsTab ''external-dns-tab-httproute'' ''gateway.networking.k8s.io'' ''v1'' ''HTTPRoute'' ''tabs.HTTPRouteDNSSettingsTab'',
     dns_dnsSettingsTab ''external-dns-tab-tlsroute'' ''gateway.networking.k8s.io'' ''v1alpha2'' ''TLSRoute'' ''tabs.TLSRouteDNSSettingsTab'',
     dns_dnsSettingsTab ''external-dns-tab-grpcroute'' ''gateway.networking.k8s.io'' ''v1'' ''GRPCRoute'' ''tabs.GRPCRouteDNSSettingsTab'',
     dns_dnsSettingsTab ''external-dns-tab-tcproute'' ''gateway.networking.k8s.io'' ''v1alpha2'' ''TCPRoute'' ''tabs.TCPRouteDNSSettingsTab'',
     dns_dnsSettingsTab ''external-dns-tab-udproute'' ''gateway.networking.k8s.io'' ''v1alpha2'' ''UDPRoute'' ''tabs.UDPRouteDNSSettingsTab'',
     dns_dnsSettingsTab ''external-dns-tab-dnsendpoint'' (rm_group DNSEndpointModel) (rm_version DNSEndpointModel) (rm_kind DNSEndpointModel) ''tabs.DNSEndpointDNSSettingsTab'',
     dns_dnsSettingsTab ''external-dns-tab-node'' [] ''v1'' ''Node'' ''tabs.NodeDNSSettingsTab'']"

section \<open>Properties\<close>

text \<open>Navigation, with whether it is for one namespace, and tabs.\<close>

fun scoped_item :: "ext_properties \<Rightarrow> (gvk \<times> bool) list" where
  "scoped_item (NamespacedNavExt i m name section) = [(m, True)]"
| "scoped_item (ClusterNavExt i m name section) = [(m, False)]"
| "scoped_item _ = []"

fun tab_of :: "ext_properties \<Rightarrow> (string \<times> gvk) list" where
  "tab_of (HorizontalNavTabExt codeRef m name href) = [(codeRef, m)]"
| "tab_of _ = []"

fun set_flag :: "ext_properties \<Rightarrow> string list" where
  "set_flag (ModelFlagExt f m) = [f]"
| "set_flag _ = []"

definition manifest_ok :: "resource_model list \<Rightarrow> (string \<times> string) list \<Rightarrow> extension list \<Rightarrow> bool" where
  "manifest_ok models modules es =
     (concat (map scoped_item (properties_of es)) = map (\<lambda>m. (resource_gvk m, rm_namespaced m)) models \<and>
      concat (map list_page (properties_of es)) = map (\<lambda>m. (''lists.'' @ rm_kind m @ ''List'', resource_gvk m)) models \<and>
      distinct (concat (map ext_id (properties_of es))) \<and>
      list_all (\<lambda>c. takeWhile (\<lambda>x. x \<noteq> CHR ''.'') c \<in> set (map fst modules)) (concat (map code_ref (properties_of es))) \<and>
      list_all (\<lambda>e. list_all (\<lambda>f. f \<in> set (concat (map set_flag (properties_of es)))) (ex_required e)) es)"

lemma resource_models_distinct: "distinct (map referenceForResource (cm_models @ es_models @ dns_models))"
  by code_simp

text \<open>The manifests of the three plugins are complete: each kind has exactly one entry in the navigation, of its own scope, and
  one list page; ids are distinct, components are in exposed modules, and a flag that is required is one the plugin sets. And
  the two plugins that add tabs to pages of others do so for the same kinds, with a component named after the kind.\<close>

theorem manifests_ok:
  "manifest_ok cm_models cm_exposedModules cm_extensions \<and> manifest_ok es_models es_exposedModules es_extensions \<and>
   manifest_ok dns_models dns_exposedModules dns_extensions \<and>
   map snd (concat (map tab_of (properties_of cm_extensions))) = map snd (concat (map tab_of (properties_of dns_extensions))) \<and>
   list_all (\<lambda>(c, g, v, k). c = ''tabs.'' @ k @ ''CertificateTab'') (concat (map tab_of (properties_of cm_extensions))) \<and>
   list_all (\<lambda>(c, g, v, k). c = ''tabs.'' @ k @ ''DNSSettingsTab'') (concat (map tab_of (properties_of dns_extensions)))"
proof (intro conjI)
  show "manifest_ok cm_models cm_exposedModules cm_extensions" by code_simp
  show "manifest_ok es_models es_exposedModules es_extensions" by code_simp
  show "manifest_ok dns_models dns_exposedModules dns_extensions" by code_simp
  show "map snd (concat (map tab_of (properties_of cm_extensions))) = map snd (concat (map tab_of (properties_of dns_extensions)))" by code_simp
  show "list_all (\<lambda>(c, g, v, k). c = ''tabs.'' @ k @ ''CertificateTab'') (concat (map tab_of (properties_of cm_extensions)))" by code_simp
  show "list_all (\<lambda>(c, g, v, k). c = ''tabs.'' @ k @ ''DNSSettingsTab'') (concat (map tab_of (properties_of dns_extensions)))" by code_simp
qed

end
