(* ===== verification/Res_Lists.thy ===== *)
theory Res_Lists
  imports Stable_Sort Res_Status
begin

text \<open>
  The list pages of resources, \<^verbatim>\<open>plugins/flux/src/components/list/GenericResourceList.tsx\<close>: the columns, the order in which the
  rows are shown, and what is shown instead of a table. The latest condition of \<^verbatim>\<open>flux/src/utils/status.ts\<close> is found by the
  same kind of sort.

  \<open>collate\<close> is \<^verbatim>\<open>String.prototype.localeCompare\<close> in the browser's locale; what is relied on is that it is a consistent
  comparison, the locale \<open>collation\<close>.
\<close>

section \<open>Columns\<close>

text \<open>
  The value a column is sorted by: all columns have either texts or numbers; \<open>Some None\<close> of a number is \<^verbatim>\<open>NaN\<close>, which
  \<^verbatim>\<open>Date.parse\<close> gives for what is no date.
\<close>

datatype 'o sort_value = ByText "'o \<Rightarrow> jsstring option" | ByNumber "'o \<Rightarrow> rat option option"

record ('o, 'c) column =
  co_id :: string
  co_title :: string
  co_sortValue :: "'o sort_value option"
  co_render :: "'o \<Rightarrow> 'c"

fun has_value :: "'o sort_value \<Rightarrow> 'o \<Rightarrow> bool" where
  "has_value (ByText f) x = (f x \<noteq> None)"
| "has_value (ByNumber f) x = (f x \<noteq> None)"

text \<open>The name, the namespace where all are listed, the plugin's own columns, the date.\<close>

definition list_columns :: "('o \<Rightarrow> jsstring option) \<Rightarrow> ('o \<Rightarrow> jsstring option) \<Rightarrow> ('o \<Rightarrow> jsstring option) \<Rightarrow> (jsstring \<Rightarrow> int option) \<Rightarrow>
    ('o \<Rightarrow> 'c) \<Rightarrow> ('o \<Rightarrow> 'c) \<Rightarrow> ('o \<Rightarrow> 'c) \<Rightarrow> bool \<Rightarrow> ('o, 'c) column list \<Rightarrow> ('o, 'c) column list" where
  "list_columns name namespace created date_parse name_link namespace_link timestamp showNamespace extraColumns =
     (let nameColumn = \<lparr>co_id = ''name'', co_title = ''Name'', co_sortValue = Some (ByText name), co_render = name_link\<rparr>;
          namespaceColumn = \<lparr>co_id = ''namespace'', co_title = ''Namespace'', co_sortValue = Some (ByText namespace), co_render = namespace_link\<rparr>;
          createdColumn = \<lparr>co_id = ''created'', co_title = ''Created'',
            co_sortValue = Some (ByNumber (\<lambda>x. if unset (created x) then None else Some (map_option of_int (date_parse (the (created x)))))),
            co_render = timestamp\<rparr>
      in [nameColumn] @ (if showNamespace then [namespaceColumn] else []) @ extraColumns @ [createdColumn])"

section \<open>Sorting\<close>

datatype direction = Asc | Desc

record list_sort =
  ls_index :: "nat option"
  ls_direction :: direction

definition new_list_sort :: list_sort where
  "new_list_sort = \<lparr>ls_index = None, ls_direction = Asc\<rparr>"

definition onSort :: "nat \<Rightarrow> direction \<Rightarrow> list_sort \<Rightarrow> list_sort" where
  "onSort index direction ls = ls\<lparr>ls_index := Some index, ls_direction := direction\<rparr>"

text \<open>Which headers can be sorted by.\<close>

definition sortable :: "('o, 'c) column list \<Rightarrow> nat \<Rightarrow> bool" where
  "sortable columns i \<longleftrightarrow> i < length columns \<and> co_sortValue (columns ! i) \<noteq> None"

text \<open>The comparison of two rows, as \<^verbatim>\<open>sort\<close> uses it: a difference that is \<^verbatim>\<open>NaN\<close> counts as none.\<close>

fun compare_rows :: "(jsstring \<Rightarrow> jsstring \<Rightarrow> int) \<Rightarrow> direction \<Rightarrow> 'o sort_value \<Rightarrow> 'o \<Rightarrow> 'o \<Rightarrow> rat" where
  "compare_rows collate dir (ByText f) a b =
     (case (f a, f b) of
        (None, None) \<Rightarrow> 0
      | (None, Some _) \<Rightarrow> 1
      | (Some _, None) \<Rightarrow> -1
      | (Some x, Some y) \<Rightarrow> of_int (collate x y) * (if dir = Asc then 1 else -1))"
| "compare_rows collate dir (ByNumber f) a b =
     (case (f a, f b) of
        (None, None) \<Rightarrow> 0
      | (None, Some _) \<Rightarrow> 1
      | (Some _, None) \<Rightarrow> -1
      | (Some (Some x), Some (Some y)) \<Rightarrow> (x - y) * (if dir = Asc then 1 else -1)
      | _ \<Rightarrow> 0)"

definition row_before :: "(jsstring \<Rightarrow> jsstring \<Rightarrow> int) \<Rightarrow> direction \<Rightarrow> 'o sort_value \<Rightarrow> 'o \<Rightarrow> 'o \<Rightarrow> bool" where
  "row_before collate dir key a b \<longleftrightarrow> compare_rows collate dir key a b \<le> 0"

definition sorted_rows :: "(jsstring \<Rightarrow> jsstring \<Rightarrow> int) \<Rightarrow> ('o, 'c) column list \<Rightarrow> list_sort \<Rightarrow> 'o list \<Rightarrow> 'o list" where
  "sorted_rows collate columns ls filtered =
     (case ls_index ls of
        None \<Rightarrow> filtered
      | Some i \<Rightarrow>
          if i < length columns
          then (case co_sortValue (columns ! i) of
                  None \<Rightarrow> filtered
                | Some key \<Rightarrow> sort_by (row_before collate (ls_direction ls) key) filtered)
          else filtered)"

datatype 'o list_view = LoadErrorShown jsstring | LoadingShown | NoneFound | RowsShown "'o list"

definition list_view :: "(jsstring \<Rightarrow> jsstring \<Rightarrow> int) \<Rightarrow> ('o, 'c) column list \<Rightarrow> list_sort \<Rightarrow> jsstring option \<Rightarrow> bool \<Rightarrow> 'o list \<Rightarrow> 'o list_view" where
  "list_view collate columns ls loadError loaded filtered =
     (if loadError \<noteq> None then LoadErrorShown (the loadError)
      else if \<not> loaded then LoadingShown
      else if filtered = [] then NoneFound
      else RowsShown (sorted_rows collate columns ls filtered))"

section \<open>The latest condition\<close>

definition flux_getLatestCondition :: "(jsstring \<Rightarrow> jsstring \<Rightarrow> int) \<Rightarrow> condition list option \<Rightarrow> condition option" where
  "flux_getLatestCondition collate conditions =
     (case conditions of
        None \<Rightarrow> None
      | Some cs \<Rightarrow>
          if cs = [] then None
          else Some (hd (sort_by (\<lambda>a b.
            collate (default_to (cd_lastTransitionTime b) []) (default_to (cd_lastTransitionTime a) []) \<le> 0) cs)))"

section \<open>Collation\<close>

locale collation =
  fixes collate :: "jsstring \<Rightarrow> jsstring \<Rightarrow> int"
  assumes collate_swap: "sgn (collate x y) = - sgn (collate y x)"
    and collate_trans: "collate x y \<le> 0 \<Longrightarrow> collate y z \<le> 0 \<Longrightarrow> collate x z \<le> 0"
begin

lemma collate_sign: "collate x y \<le> 0 \<longleftrightarrow> 0 \<le> collate y x"
  using collate_swap [of x y] by (auto simp: sgn_if split: if_splits)

lemma collate_total: "collate x y \<le> 0 \<or> collate y x \<le> 0"
  using collate_sign by (metis linear)

end

text \<open>The elements on which the comparison is one: those without \<^verbatim>\<open>NaN\<close>.\<close>

fun no_NaN :: "'o sort_value \<Rightarrow> 'o \<Rightarrow> bool" where
  "no_NaN (ByText f) x = True"
| "no_NaN (ByNumber f) x = (f x \<noteq> Some None)"

section \<open>What a sorted column looks like\<close>

text \<open>
  The order a user sees, written on the values of two rows and not on the comparison of the source: two texts in the order of
  the collation, two numbers in the order of the numbers, read upwards or downwards. Two rows have the same value when both
  have none, when the collation does not tell their texts apart, or when their numbers are equal.
\<close>

fun values_ordered :: "(jsstring \<Rightarrow> jsstring \<Rightarrow> int) \<Rightarrow> direction \<Rightarrow> 'o sort_value \<Rightarrow> 'o \<Rightarrow> 'o \<Rightarrow> bool" where
  "values_ordered collate Asc (ByText f) a b = (case (f a, f b) of (Some x, Some y) \<Rightarrow> collate x y \<le> 0 | _ \<Rightarrow> True)"
| "values_ordered collate Desc (ByText f) a b = (case (f a, f b) of (Some x, Some y) \<Rightarrow> collate y x \<le> 0 | _ \<Rightarrow> True)"
| "values_ordered collate Asc (ByNumber f) a b = (case (f a, f b) of (Some (Some x), Some (Some y)) \<Rightarrow> x \<le> y | _ \<Rightarrow> True)"
| "values_ordered collate Desc (ByNumber f) a b = (case (f a, f b) of (Some (Some x), Some (Some y)) \<Rightarrow> y \<le> x | _ \<Rightarrow> True)"

fun same_value :: "(jsstring \<Rightarrow> jsstring \<Rightarrow> int) \<Rightarrow> 'o sort_value \<Rightarrow> 'o \<Rightarrow> 'o \<Rightarrow> bool" where
  "same_value collate (ByText f) a b =
     (case (f a, f b) of (None, None) \<Rightarrow> True | (Some x, Some y) \<Rightarrow> collate x y = 0 | _ \<Rightarrow> False)"
| "same_value collate (ByNumber f) a b = (f a = f b)"

sublocale collation \<subseteq> rows: row_order "row_before collate dir key" "no_NaN key" for dir key
proof unfold_locales
  fix x y z :: 'a
  show "row_before collate dir key x y \<or> row_before collate dir key y x" if "no_NaN key x" "no_NaN key y"
    using that collate_total collate_sign by (cases key; cases dir) (auto simp: row_before_def split: option.splits)
  show "row_before collate dir key x z" if "no_NaN key x" "no_NaN key y" "no_NaN key z" "row_before collate dir key x y" "row_before collate dir key y z"
    using that collate_trans collate_sign by (cases key; cases dir) (auto simp: row_before_def split: option.splits)
qed

sublocale collation \<subseteq> dates: row_order
  "\<lambda>a b. collate (default_to (cd_lastTransitionTime b) []) (default_to (cd_lastTransitionTime a) []) \<le> 0" "\<lambda>c :: condition. True"
  by unfold_locales (use collate_total collate_trans in blast)+

context collation
begin

lemma collate_zero: "collate x y = 0 \<Longrightarrow> collate y x = 0"
  using collate_sign [of x y] collate_sign [of y x] by linarith

lemma before_value: "row_before collate dir key x y \<Longrightarrow> has_value key y \<Longrightarrow> has_value key x"
  by (cases key) (auto simp: row_before_def split: option.splits)

text \<open>The comparison of the source orders the values, and does not tell equal values apart.\<close>

lemma before_ordered: "row_before collate dir key x y \<Longrightarrow> values_ordered collate dir key x y"
  by (cases key; cases dir) (auto simp: row_before_def collate_sign split: option.splits)

lemma same_value_before:
  "same_value collate key x y \<Longrightarrow> row_before collate dir key x y" "same_value collate key x y \<Longrightarrow> row_before collate dir key y x"
  by (cases key; auto simp: row_before_def dest: collate_zero split: option.splits)+

lemma same_place_kept:
  assumes "list_all (no_NaN key) xs" "no_NaN key x"
  shows "filter (same_value collate key x) (sort_by (row_before collate dir key) xs) = filter (same_value collate key x) xs"
proof (rule rows.stable_sort)
  fix y z
  assume yz: "y \<in> set xs" "z \<in> set xs" "same_value collate key x y" "same_value collate key x z"
  then have "no_NaN key y" "no_NaN key z" using assms(1) by (simp_all add: list_all_iff)
  with yz(3,4) assms(2) show "row_before collate dir key y z"
    by (intro rows.le_trans [where x = y and y = x and z = z]) (simp_all add: same_value_before)
qed

lemma rows_sorted: "list_all (no_NaN key) xs \<Longrightarrow> sorted_wrt (row_before collate dir key) (sort_by (row_before collate dir key) xs)"
  by (rule rows.sorted_sort)

lemma latest_first:
  assumes "flux_getLatestCondition collate (Some cs) = Some l" "c \<in> set cs"
  shows "l \<in> set cs \<and> collate (default_to (cd_lastTransitionTime c) []) (default_to (cd_lastTransitionTime l) []) \<le> 0"
proof -
  let ?le = "\<lambda>a b. collate (default_to (cd_lastTransitionTime b) []) (default_to (cd_lastTransitionTime a) []) \<le> 0"
  have "cs \<noteq> []" using assms(2) by auto
  then have "set (sort_by ?le cs) \<noteq> {}" by simp
  then obtain ys where sorted: "sort_by ?le cs = l # ys"
    using assms(1) \<open>cs \<noteq> []\<close> by (cases "sort_by ?le cs") (auto simp: flux_getLatestCondition_def)
  moreover have "set (sort_by ?le cs) = set cs" by (rule set_sort_by)
  ultimately have "l \<in> set cs" by auto
  moreover have "?le l c" by (rule dates.sort_least [OF _ sorted assms(2)]) (simp add: list_all_iff)
  ultimately show ?thesis by blast
qed

end

text \<open>The order of code units is one such comparison.\<close>

fun unit_compare :: "jsstring \<Rightarrow> jsstring \<Rightarrow> int" where
  "unit_compare [] [] = 0"
| "unit_compare [] (d # t) = -1"
| "unit_compare (c # s) [] = 1"
| "unit_compare (c # s) (d # t) = (if c < d then -1 else if d < c then 1 else unit_compare s t)"

lemma unit_compare_trans: "unit_compare x y \<le> 0 \<Longrightarrow> unit_compare y z \<le> 0 \<Longrightarrow> unit_compare x z \<le> 0"
proof (induction x y arbitrary: z rule: unit_compare.induct)
  case (4 c s d t)
  show ?case
  proof (cases z)
    case (Cons e u)
    consider "c < d" | "c = d" using 4(2) by (cases c d rule: linorder_cases) simp_all
    then show ?thesis using 4(1) [of u] 4(2,3) by cases (auto simp: Cons split: if_splits)
  qed (use 4(3) in simp)
next
  case (2 d t)
  then show ?case by (cases z) auto
qed auto

interpretation code_units: collation unit_compare
proof unfold_locales
  show "sgn (unit_compare x y) = - sgn (unit_compare y x)" for x y by (induction x y rule: unit_compare.induct) auto
qed (rule unit_compare_trans)

section \<open>Properties\<close>

text \<open>C25: Sorting a list page loses and repeats no row; the rows are in the order of the column's values, texts by the collation
  and numbers by size, rising when the direction is up and falling when it is down; those without a value come last either
  way; and rows of the same value stay in the order they were in. This holds of every column none of whose values is
  \<^verbatim>\<open>NaN\<close>, whatever the collation of the browser.\<close>

theorem sorted_rows_order:
  assumes "collation collate" "ls_index ls = Some i" "i < length columns" "co_sortValue (columns ! i) = Some key"
    "list_all (no_NaN key) filtered" and rows: "rows = sorted_rows collate columns ls filtered"
  shows "mset rows = mset filtered \<and> sorted_wrt (values_ordered collate (ls_direction ls) key) rows \<and>
    sorted_wrt (\<lambda>a b. has_value key b \<longrightarrow> has_value key a) rows \<and>
    (\<forall>x \<in> set filtered. filter (same_value collate key x) rows = filter (same_value collate key x) filtered)"
proof -
  note laws = assms(1)
  have sorted: "rows = sort_by (row_before collate (ls_direction ls) key) filtered" using assms(2-4) by (simp add: rows sorted_rows_def)
  have before: "sorted_wrt (row_before collate (ls_direction ls) key) rows"
    unfolding sorted using assms(5) by (rule collation.rows_sorted [OF laws])
  then have "sorted_wrt (values_ordered collate (ls_direction ls) key) rows"
    by (rule sorted_wrt_mono_rel [rotated]) (rule collation.before_ordered [OF laws])
  moreover from before have "sorted_wrt (\<lambda>a b. has_value key b \<longrightarrow> has_value key a) rows"
    by (rule sorted_wrt_mono_rel [rotated]) (rule impI, rule collation.before_value [OF laws])
  moreover have "filter (same_value collate key x) rows = filter (same_value collate key x) filtered" if "x \<in> set filtered" for x
    unfolding sorted using assms(5) that by (intro collation.same_place_kept [OF laws]) (simp_all add: list_all_iff)
  ultimately show ?thesis by (simp add: sorted)
qed

text \<open>The latest condition of a flux resource is one of its conditions, and none has a later transition time.\<close>

theorem flux_latest_condition:
  assumes "collation collate" "flux_getLatestCondition collate (Some cs) = Some l" "c \<in> set cs"
  shows "l \<in> set cs \<and> collate (default_to (cd_lastTransitionTime c) []) (default_to (cd_lastTransitionTime l) []) \<le> 0"
  using assms(2,3) by (rule collation.latest_first [OF assms(1)])

definition sample_path_columns :: "(jsstring option, unit) column list" where
  "sample_path_columns = [\<lparr>co_id = ''path'', co_title = ''Path'', co_sortValue = Some (ByText (\<lambda>x. x)), co_render = (\<lambda>_. ())\<rparr>]"

lemma sorted_rows_order_witness:
  "mset (sorted_rows unit_compare sample_path_columns \<lparr>ls_index = Some 0, ls_direction = Desc\<rparr> [None, Some [97], Some [98]]) =
     mset [None, Some [97], Some [98]] \<and>
   sorted_rows unit_compare sample_path_columns \<lparr>ls_index = Some 0, ls_direction = Desc\<rparr> [None, Some [97], Some [98]] =
     [Some [98], Some [97], None]"
proof -
  have "collation unit_compare" by (rule code_units.collation_axioms)
  from sorted_rows_order [OF this, of "\<lparr>ls_index = Some 0, ls_direction = Desc\<rparr>" 0 sample_path_columns "ByText (\<lambda>x. x)"
      "[None, Some [97], Some [98]]", OF _ _ _ _ refl]
  show ?thesis by (simp add: sample_path_columns_def sorted_rows_def sort_by_Cons row_before_def)
qed

lemma flux_latest_condition_witness:
  "\<exists>c. flux_getLatestCondition unit_compare (Some [\<lparr>cd_type = [], cd_status = [], cd_reason = None, cd_message = None,
     cd_lastTransitionTime = Some [49]\<rparr>]) = Some c \<and> cd_lastTransitionTime c = Some [49]"
proof -
  let ?c = "\<lparr>cd_type = [], cd_status = [], cd_reason = None, cd_message = None, cd_lastTransitionTime = Some [49]\<rparr>"
  have "collation unit_compare" by (rule code_units.collation_axioms)
  from flux_latest_condition [OF this, of "[?c]" ?c ?c]
  show ?thesis by (simp add: flux_getLatestCondition_def sort_by_Cons)
qed

end
