(* ===== verification/Flux_Lists.thy ===== *)
theory Flux_Lists
  imports Res_Lists Flux_Refs Flux_Models
begin

text \<open>
  The columns of the list pages of the flux plugin (\<^verbatim>\<open>plugins/flux/src/components/lists/index.tsx\<close>), the links and icons in
  their cells (\<^verbatim>\<open>list/SourceRefLink.tsx\<close>, \<^verbatim>\<open>HelmChartStatusLink.tsx\<close>, \<^verbatim>\<open>ReadyStatusIcon.tsx\<close>) and the items of the details
  pages (\<^verbatim>\<open>details/FluxDetailsItems.tsx\<close>). The order of the rows is that of \<open>Res_Lists\<close>.

  Resources are records of the members the columns read; \<open>None\<close> is a member that is not there, with any object on the way to
  it. \<open>date\<close> is \<^verbatim>\<open>Date.parse\<close> and \<open>now\<close> the time of rendering.
\<close>

section \<open>Resources\<close>

record flux_object =
  fo_name :: "jsstring option"
  fo_namespace :: "jsstring option"
  fo_creationTimestamp :: "jsstring option"
  fo_interval :: "jsstring option"
  fo_conditions :: "condition list option"

record HelmReleaseKind = flux_object +
  hrk_chartRef_name :: "jsstring option"
  hrk_chart :: "jsstring option"
  hrk_lastAttemptedRevision :: "jsstring option"
  hrk_history :: "jsstring option list option"
  hrk_helmChart :: "jsstring option"
  hrk_suspend :: "bool option"

record HelmChartKind = flux_object +
  hck_chart :: "jsstring option"
  hck_version :: "jsstring option"
  hck_sourceRef :: "reference option"
  hck_revision :: "jsstring option"

record KustomizationKind = flux_object +
  ksk_path :: "jsstring option"
  ksk_sourceRef :: "reference option"
  ksk_suspend :: "bool option"

record GitRepositoryKind = flux_object +
  grk_url :: "jsstring option"
  grk_ref :: "git_ref option"

record OCIRepositoryKind = flux_object +
  ock_url :: "jsstring option"
  ock_tag :: "jsstring option"
  ock_semver :: "jsstring option"
  ock_digest :: "jsstring option"

record HelmRepositoryKind = flux_object +
  hpk_url :: "jsstring option"
  hpk_type :: "jsstring option"

record BucketKind = flux_object +
  bkk_endpoint :: "jsstring option"
  bkk_bucketName :: "jsstring option"
  bkk_provider :: "jsstring option"

record ExternalArtifactKind = flux_object +
  eak_revision :: "jsstring option"

record ImageRepositoryKind = flux_object +
  irk_image :: "jsstring option"

record ImagePolicyKind = flux_object +
  ipk_tag :: "jsstring option"
  ipk_digest :: "jsstring option"

record ImageUpdateAutomationKind = flux_object +
  iuk_lastAutomationRunTime :: "jsstring option"

record ProviderKind = flux_object +
  pvk_type :: "jsstring option"
  pvk_suspend :: "bool option"

record ReceiverKind = flux_object +
  rck_type :: "jsstring option"
  rck_webhookPath :: "jsstring option"
  rck_suspend :: "bool option"

record AlertKind = flux_object +
  alk_provider :: "jsstring option"
  alk_eventSeverity :: "jsstring option"
  alk_suspend :: "bool option"

text \<open>The components of a report are the values of \<^verbatim>\<open>ready\<close>.\<close>

record FluxReportKind = flux_object +
  frk_version :: "jsstring option"
  frk_status :: "jsstring option"
  frk_components :: "bool option list option"

record FluxInstanceKind = flux_object +
  fik_version :: "jsstring option"

record ResourceSetInputProviderKind = flux_object +
  rpk_type :: "jsstring option"

section \<open>Cells\<close>

datatype status_icon = CheckCircle | ExclamationCircle | HourglassHalf | SearchGlass

datatype icon_status = IconSuccess | IconWarning | IconDanger

text \<open>A link has the group, version and kind, the name, the namespace and a name to show.\<close>

datatype cell = Text jsstring
  | ResourceLink "jsstring \<times> jsstring \<times> jsstring" "jsstring option" "jsstring option" "jsstring option"
  | NamespaceLink "jsstring option"
  | Timestamp "jsstring option"
  | ReadyIcon status_icon icon_status bool jsstring

definition dash :: jsstring where "dash = lit ''-''"

text \<open>Icon, status and whether it is muted.\<close>

fun STATUS_ICON :: "ready_kind \<Rightarrow> status_icon \<times> icon_status \<times> bool" where
  "STATUS_ICON Success = (CheckCircle, IconSuccess, False)"
| "STATUS_ICON RollbackRecent = (ExclamationCircle, IconDanger, False)"
| "STATUS_ICON FailedNonretryable = (ExclamationCircle, IconDanger, False)"
| "STATUS_ICON FailedRetryable = (HourglassHalf, IconDanger, True)"
| "STATUS_ICON ArtifactFailedRecent = (SearchGlass, IconWarning, False)"
| "STATUS_ICON ArtifactFailedStale = (SearchGlass, IconDanger, False)"
| "STATUS_ICON DependencyNotReady = (HourglassHalf, IconWarning, False)"

definition ReadyStatusIcon :: "ready_status option \<Rightarrow> cell" where
  "ReadyStatusIcon readyStatus =
     (case readyStatus of
        None \<Rightarrow> Text dash
      | Some s \<Rightarrow> (case STATUS_ICON (rs_kind s) of (i, status, muted) \<Rightarrow> ReadyIcon i status muted (default_to (rs_message s) (rs_label s))))"

definition SourceRefLink :: "reference option \<Rightarrow> jsstring option \<Rightarrow> cell" where
  "SourceRefLink sourceRef namespace =
     (case sourceRef of
        None \<Rightarrow> Text dash
      | Some r \<Rightarrow>
          if unset (rf_kind r) \<or> unset (rf_name r) then Text dash
          else ResourceLink (lit SOURCE_TOOLKIT_GROUP, lit ''v1'', the (rf_kind r)) (rf_name r)
                 (if unset (rf_namespace r) then namespace else rf_namespace r) None)"

definition model_link :: "flux_model \<Rightarrow> jsstring \<times> jsstring \<times> jsstring" where
  "model_link m = (lit (fm_group m), lit (fm_version m), lit (fm_kind m))"

text \<open>The two parts of \<^verbatim>\<open>namespace/name\<close>; what follows a second slash is dropped.\<close>

definition chart_parts :: "jsstring option \<Rightarrow> jsstring option \<times> jsstring option" where
  "chart_parts ref =
     (case ref of
        None \<Rightarrow> (None, None)
      | Some s \<Rightarrow> (case split_on 47 s of ns # n # _ \<Rightarrow> (Some ns, Some n) | [ns] \<Rightarrow> (Some ns, None) | [] \<Rightarrow> (None, None)))"

definition HelmChartStatusLink :: "jsstring option \<Rightarrow> jsstring \<Rightarrow> cell" where
  "HelmChartStatusLink helmChartRef fallback =
     (case chart_parts helmChartRef of (namespace, name) \<Rightarrow>
        if unset name then Text fallback else ResourceLink (model_link HelmChartModel) name namespace None)"

definition SecretRefItem :: "jsstring option \<Rightarrow> jsstring option \<Rightarrow> cell" where
  "SecretRefItem secretName namespace =
     (if unset secretName then Text dash else ResourceLink ([], lit ''v1'', lit ''Secret'') secretName namespace None)"

section \<open>Columns\<close>

text \<open>\<^verbatim>\<open>a || b\<close> of strings, and the first member of the history.\<close>

definition or_text :: "jsstring option \<Rightarrow> jsstring option \<Rightarrow> jsstring option" where
  "or_text a b = (if unset a then b else a)"

definition first_version :: "jsstring option list option \<Rightarrow> jsstring option" where
  "first_version history = (case history of Some (v # _) \<Rightarrow> v | _ \<Rightarrow> None)"

definition release_revision :: "'a HelmReleaseKind_scheme \<Rightarrow> jsstring option" where
  "release_revision obj = or_text (hrk_lastAttemptedRevision obj) (first_version (hrk_history obj))"

definition HelmChartRefItem :: "'a HelmReleaseKind_scheme \<Rightarrow> cell" where
  "HelmChartRefItem obj =
     (if unset (hrk_helmChart obj) then Text dash
      else case chart_parts (hrk_helmChart obj) of (namespace, name) \<Rightarrow>
        if unset name then Text dash
        else ResourceLink (model_link HelmChartModel) name namespace
          (Some (if unset (release_revision obj) then the name else the name @ [64] @ the (release_revision obj))))"

text \<open>
  A column whose cells are texts: \<^verbatim>\<open>render\<close> and \<^verbatim>\<open>sortValue\<close> are two expressions in the source, and are written out as two
  here, for each column on its own.
\<close>

definition text_column :: "string \<Rightarrow> string \<Rightarrow> ('o \<Rightarrow> jsstring) \<Rightarrow> ('o \<Rightarrow> jsstring option) \<Rightarrow> ('o, cell) column" where
  "text_column i title render sortValue =
     \<lparr>co_id = i, co_title = title, co_sortValue = Some (ByText sortValue), co_render = (\<lambda>obj. Text (render obj))\<rparr>"

definition ready_of :: "(jsstring \<Rightarrow> int option) \<Rightarrow> int \<Rightarrow> 'a flux_object_scheme \<Rightarrow> ready_status option" where
  "ready_of date now obj = getReadyStatus date now (fo_interval obj) (fo_conditions obj)"

definition readyColumn :: "(jsstring \<Rightarrow> int option) \<Rightarrow> int \<Rightarrow> ('a flux_object_scheme, cell) column" where
  "readyColumn date now = \<lparr>co_id = ''ready'', co_title = ''Ready'',
     co_sortValue = Some (ByText (\<lambda>obj. map_option rs_label (ready_of date now obj))),
     co_render = (\<lambda>obj. ReadyStatusIcon (ready_of date now obj))\<rparr>"

type_synonym 'o columns = "(jsstring \<Rightarrow> int option) \<Rightarrow> int \<Rightarrow> ('o, cell) column list"

definition helmReleaseColumns :: "HelmReleaseKind columns" where
  "helmReleaseColumns date now = [
     \<lparr>co_id = ''chart'', co_title = ''Chart'', co_sortValue = Some (ByText (\<lambda>obj. or_text (hrk_chartRef_name obj) (hrk_chart obj))),
      co_render = (\<lambda>obj. HelmChartStatusLink (hrk_helmChart obj) (default_to (or_text (hrk_chartRef_name obj) (hrk_chart obj)) dash))\<rparr>,
     text_column ''revision'' ''Revision'' (\<lambda>obj. default_to (or_text (hrk_lastAttemptedRevision obj) (first_version (hrk_history obj))) dash)
       (\<lambda>obj. or_text (hrk_lastAttemptedRevision obj) (first_version (hrk_history obj))),
     readyColumn date now,
     text_column ''suspend'' ''Status'' (\<lambda>obj. suspendedLabel (hrk_suspend obj)) (\<lambda>obj. Some (suspendedLabel (hrk_suspend obj)))]"

definition helmChartColumns :: "HelmChartKind columns" where
  "helmChartColumns date now = [
     text_column ''chart'' ''Chart'' (\<lambda>obj. default_to (hck_chart obj) dash) (\<lambda>obj. hck_chart obj),
     text_column ''version'' ''Version'' (\<lambda>obj. default_to (hck_version obj) dash) (\<lambda>obj. hck_version obj),
     \<lparr>co_id = ''sourceRef'', co_title = ''Source'', co_sortValue = Some (ByText (\<lambda>obj. Some (sourceRefLabel (hck_sourceRef obj)))),
      co_render = (\<lambda>obj. SourceRefLink (hck_sourceRef obj) (fo_namespace obj))\<rparr>,
     text_column ''revision'' ''Revision'' (\<lambda>obj. default_to (hck_revision obj) dash) (\<lambda>obj. hck_revision obj),
     readyColumn date now]"

definition kustomizationColumns :: "KustomizationKind columns" where
  "kustomizationColumns date now = [
     readyColumn date now,
     text_column ''path'' ''Path'' (\<lambda>obj. default_to (ksk_path obj) dash) (\<lambda>obj. ksk_path obj),
     \<lparr>co_id = ''sourceRef'', co_title = ''Source'', co_sortValue = Some (ByText (\<lambda>obj. Some (sourceRefLabel (ksk_sourceRef obj)))),
      co_render = (\<lambda>obj. SourceRefLink (ksk_sourceRef obj) (fo_namespace obj))\<rparr>,
     text_column ''suspend'' ''Status'' (\<lambda>obj. suspendedLabel (ksk_suspend obj)) (\<lambda>obj. Some (suspendedLabel (ksk_suspend obj)))]"

definition gitRepositoryColumns :: "GitRepositoryKind columns" where
  "gitRepositoryColumns date now = [
     text_column ''url'' ''URL'' (\<lambda>obj. default_to (grk_url obj) dash) (\<lambda>obj. grk_url obj),
     text_column ''ref'' ''Ref'' (\<lambda>obj. gitRefLabel (grk_ref obj)) (\<lambda>obj. Some (gitRefLabel (grk_ref obj))),
     readyColumn date now]"

definition ociRepositoryColumns :: "OCIRepositoryKind columns" where
  "ociRepositoryColumns date now = [
     text_column ''url'' ''URL'' (\<lambda>obj. default_to (ock_url obj) dash) (\<lambda>obj. ock_url obj),
     text_column ''ref'' ''Ref'' (\<lambda>obj. default_to (or_text (or_text (ock_tag obj) (ock_semver obj)) (ock_digest obj)) dash)
       (\<lambda>obj. or_text (or_text (ock_tag obj) (ock_semver obj)) (ock_digest obj)),
     readyColumn date now]"

definition helmRepositoryColumns :: "HelmRepositoryKind columns" where
  "helmRepositoryColumns date now = [
     readyColumn date now,
     text_column ''url'' ''URL'' (\<lambda>obj. default_to (hpk_url obj) dash) (\<lambda>obj. hpk_url obj),
     text_column ''type'' ''Type'' (\<lambda>obj. default_to (hpk_type obj) (lit ''default'')) (\<lambda>obj. Some (default_to (hpk_type obj) (lit ''default'')))]"

definition bucketColumns :: "BucketKind columns" where
  "bucketColumns date now = [
     readyColumn date now,
     text_column ''endpoint'' ''Endpoint'' (\<lambda>obj. default_to (bkk_endpoint obj) dash) (\<lambda>obj. bkk_endpoint obj),
     text_column ''bucket'' ''Bucket'' (\<lambda>obj. default_to (bkk_bucketName obj) dash) (\<lambda>obj. bkk_bucketName obj),
     text_column ''provider'' ''Provider'' (\<lambda>obj. default_to (bkk_provider obj) dash) (\<lambda>obj. bkk_provider obj)]"

definition artifactGeneratorColumns :: "flux_object columns" where
  "artifactGeneratorColumns date now = [readyColumn date now]"

definition externalArtifactColumns :: "ExternalArtifactKind columns" where
  "externalArtifactColumns date now = [readyColumn date now, text_column ''revision'' ''Revision'' (\<lambda>obj. default_to (eak_revision obj) dash) (\<lambda>obj. eak_revision obj)]"

definition imageRepositoryColumns :: "ImageRepositoryKind columns" where
  "imageRepositoryColumns date now = [readyColumn date now, text_column ''image'' ''Image'' (\<lambda>obj. default_to (irk_image obj) dash) (\<lambda>obj. irk_image obj)]"

definition imagePolicyColumns :: "ImagePolicyKind columns" where
  "imagePolicyColumns date now = [
     readyColumn date now,
     text_column ''latest'' ''Latest'' (\<lambda>obj. default_to (or_text (ipk_tag obj) (ipk_digest obj)) dash) (\<lambda>obj. or_text (ipk_tag obj) (ipk_digest obj))]"

definition imageUpdateAutomationColumns :: "ImageUpdateAutomationKind columns" where
  "imageUpdateAutomationColumns date now = [
     readyColumn date now,
     \<lparr>co_id = ''lastRun'', co_title = ''Last Run'',
      co_sortValue = Some (ByNumber (\<lambda>obj. if unset (iuk_lastAutomationRunTime obj) then None
        else Some (map_option of_int (date (the (iuk_lastAutomationRunTime obj)))))),
      co_render = (\<lambda>obj. Text (default_to (iuk_lastAutomationRunTime obj) dash))\<rparr>]"

definition providerColumns :: "ProviderKind columns" where
  "providerColumns date now = [readyColumn date now, text_column ''type'' ''Type'' (\<lambda>obj. default_to (pvk_type obj) dash) (\<lambda>obj. pvk_type obj), text_column ''suspend'' ''Status'' (\<lambda>obj. suspendedLabel (pvk_suspend obj)) (\<lambda>obj. Some (suspendedLabel (pvk_suspend obj)))]"

definition receiverColumns :: "ReceiverKind columns" where
  "receiverColumns date now = [
     readyColumn date now,
     text_column ''type'' ''Type'' (\<lambda>obj. default_to (rck_type obj) dash) (\<lambda>obj. rck_type obj),
     text_column ''webhookPath'' ''Webhook Path'' (\<lambda>obj. default_to (rck_webhookPath obj) dash) (\<lambda>obj. rck_webhookPath obj),
     text_column ''suspend'' ''Status'' (\<lambda>obj. suspendedLabel (rck_suspend obj)) (\<lambda>obj. Some (suspendedLabel (rck_suspend obj)))]"

definition alertColumns :: "AlertKind columns" where
  "alertColumns date now = [
     readyColumn date now,
     text_column ''provider'' ''Provider'' (\<lambda>obj. default_to (alk_provider obj) dash) (\<lambda>obj. alk_provider obj),
     text_column ''severity'' ''Severity'' (\<lambda>obj. default_to (alk_eventSeverity obj) dash) (\<lambda>obj. alk_eventSeverity obj),
     text_column ''suspend'' ''Status'' (\<lambda>obj. suspendedLabel (alk_suspend obj)) (\<lambda>obj. Some (suspendedLabel (alk_suspend obj)))]"

definition fluxReportColumns :: "FluxReportKind columns" where
  "fluxReportColumns date now = [
     readyColumn date now,
     \<lparr>co_id = ''distribution'', co_title = ''Distribution'', co_sortValue = Some (ByText frk_version),
      co_render = (\<lambda>obj. Text (if unset (frk_version obj) then dash
        else the (frk_version obj) @ lit '' ('' @ default_to (frk_status obj) dash @ lit '')''))\<rparr>,
     \<lparr>co_id = ''components'', co_title = ''Components Ready'',
      co_sortValue = Some (ByNumber (\<lambda>obj. case frk_components obj of
          None \<Rightarrow> None
        | Some cs \<Rightarrow> if cs = [] then None else Some (Some (of_nat (length (filter (\<lambda>c. c = Some True) cs)) / of_nat (length cs))))),
      co_render = (\<lambda>obj. case frk_components obj of
          None \<Rightarrow> Text dash
        | Some cs \<Rightarrow> if cs = [] then Text dash else Text (show_nat (length (filter (\<lambda>c. c = Some True) cs)) @ [47] @ show_nat (length cs)))\<rparr>]"

definition fluxInstanceColumns :: "FluxInstanceKind columns" where
  "fluxInstanceColumns date now = [readyColumn date now, text_column ''version'' ''Version'' (\<lambda>obj. default_to (fik_version obj) dash) (\<lambda>obj. fik_version obj)]"

definition resourceSetColumns :: "flux_object columns" where
  "resourceSetColumns date now = [readyColumn date now]"

definition resourceSetInputProviderColumns :: "ResourceSetInputProviderKind columns" where
  "resourceSetInputProviderColumns date now = [readyColumn date now, text_column ''type'' ''Type'' (\<lambda>obj. default_to (rpk_type obj) dash) (\<lambda>obj. rpk_type obj)]"

section \<open>Pages\<close>

text \<open>All columns of a page. The namespaces are shown where no namespace is chosen.\<close>

definition page_columns :: "flux_model \<Rightarrow> jsstring option \<Rightarrow> 'a flux_object_scheme columns \<Rightarrow> 'a flux_object_scheme columns" where
  "page_columns model namespace extraColumns date now =
     list_columns fo_name fo_namespace fo_creationTimestamp date
       (\<lambda>obj. ResourceLink (model_link model) (fo_name obj) (fo_namespace obj) None)
       (\<lambda>obj. NamespaceLink (fo_namespace obj)) (\<lambda>obj. Timestamp (fo_creationTimestamp obj))
       (fm_namespaced model \<and> unset namespace) (extraColumns date now)"

text \<open>What a page shows: an error, a hint or the cells of the rows in order; the actions of a row are in \<open>Flux_Actions\<close>.\<close>

definition GenericResourceList :: "(jsstring \<Rightarrow> jsstring \<Rightarrow> int) \<Rightarrow> flux_model \<Rightarrow> jsstring option \<Rightarrow> 'a flux_object_scheme columns \<Rightarrow>
    (jsstring \<Rightarrow> int option) \<Rightarrow> int \<Rightarrow> list_sort \<Rightarrow> jsstring option \<Rightarrow> bool \<Rightarrow> 'a flux_object_scheme list \<Rightarrow>
    ('a flux_object_scheme \<times> cell list) list_view" where
  "GenericResourceList collate model namespace extraColumns date now ls loadError loaded filtered =
     (let columns = page_columns model namespace extraColumns date now
      in map_list_view (\<lambda>obj. (obj, map (\<lambda>c. co_render c obj) columns)) (list_view collate columns ls loadError loaded filtered))"

text \<open>The pages: each a model with its columns.\<close>

type_synonym 'o flux_page = "flux_model \<times> 'o columns"

definition HelmReleaseList :: "HelmReleaseKind flux_page" where "HelmReleaseList = (HelmReleaseModel, helmReleaseColumns)"

definition HelmChartList :: "HelmChartKind flux_page" where "HelmChartList = (HelmChartModel, helmChartColumns)"

definition KustomizationList :: "KustomizationKind flux_page" where "KustomizationList = (KustomizationModel, kustomizationColumns)"

definition GitRepositoryList :: "GitRepositoryKind flux_page" where "GitRepositoryList = (GitRepositoryModel, gitRepositoryColumns)"

definition OCIRepositoryList :: "OCIRepositoryKind flux_page" where "OCIRepositoryList = (OCIRepositoryModel, ociRepositoryColumns)"

definition HelmRepositoryList :: "HelmRepositoryKind flux_page" where "HelmRepositoryList = (HelmRepositoryModel, helmRepositoryColumns)"

definition BucketList :: "BucketKind flux_page" where "BucketList = (BucketModel, bucketColumns)"

definition ArtifactGeneratorList :: "flux_object flux_page" where "ArtifactGeneratorList = (ArtifactGeneratorModel, artifactGeneratorColumns)"

definition ExternalArtifactList :: "ExternalArtifactKind flux_page" where "ExternalArtifactList = (ExternalArtifactModel, externalArtifactColumns)"

definition ImageRepositoryList :: "ImageRepositoryKind flux_page" where "ImageRepositoryList = (ImageRepositoryModel, imageRepositoryColumns)"

definition ImagePolicyList :: "ImagePolicyKind flux_page" where "ImagePolicyList = (ImagePolicyModel, imagePolicyColumns)"

definition ImageUpdateAutomationList :: "ImageUpdateAutomationKind flux_page" where "ImageUpdateAutomationList = (ImageUpdateAutomationModel, imageUpdateAutomationColumns)"

definition ProviderList :: "ProviderKind flux_page" where "ProviderList = (ProviderModel, providerColumns)"

definition ReceiverList :: "ReceiverKind flux_page" where "ReceiverList = (ReceiverModel, receiverColumns)"

definition AlertList :: "AlertKind flux_page" where "AlertList = (AlertModel, alertColumns)"

definition FluxReportList :: "FluxReportKind flux_page" where "FluxReportList = (FluxReportModel, fluxReportColumns)"

definition FluxInstanceList :: "FluxInstanceKind flux_page" where "FluxInstanceList = (FluxInstanceModel, fluxInstanceColumns)"

definition ResourceSetList :: "flux_object flux_page" where "ResourceSetList = (ResourceSetModel, resourceSetColumns)"

definition ResourceSetInputProviderList :: "ResourceSetInputProviderKind flux_page" where "ResourceSetInputProviderList = (ResourceSetInputProviderModel, resourceSetInputProviderColumns)"

definition show_page :: "(jsstring \<Rightarrow> jsstring \<Rightarrow> int) \<Rightarrow> 'a flux_object_scheme flux_page \<Rightarrow> jsstring option \<Rightarrow> (jsstring \<Rightarrow> int option) \<Rightarrow> int \<Rightarrow>
    list_sort \<Rightarrow> jsstring option \<Rightarrow> bool \<Rightarrow> 'a flux_object_scheme list \<Rightarrow> ('a flux_object_scheme \<times> cell list) list_view" where
  "show_page collate page namespace = GenericResourceList collate (fst page) namespace (snd page)"

section \<open>Properties\<close>

text \<open>
  A cell against the value its row is sorted by:
  a text is that value, which it may follow by something in parentheses, or a dash if there is none;
  a number is shown as the date it is the time of, or as the fraction it is the value of;
  a timestamp has the time of its date; a namespace is itself; a link shows the name, which in the value may follow its kind;
  where an icon is shown there is a value.
\<close>

fun agrees :: "(jsstring \<Rightarrow> int option) \<Rightarrow> cell \<Rightarrow> 'o sort_value \<Rightarrow> 'o \<Rightarrow> bool" where
  "agrees date (Text s) (ByText f) obj =
     (if unset (f obj) then s = dash
      else s = the (f obj) \<or> (\<exists>t. s = the (f obj) @ lit '' ('' @ t @ lit '')''))"
| "agrees date (Text s) (ByNumber f) obj =
     (case f obj of
        None \<Rightarrow> s = dash
      | Some v \<Rightarrow> v = map_option of_int (date s) \<or>
          (\<exists>m n. 0 < n \<and> s = show_nat m @ [47] @ show_nat n \<and> v = Some (of_nat m / of_nat n)))"
| "agrees date (Timestamp t) (ByNumber f) obj =
     (f obj = (if unset t then None else Some (map_option of_int (date (the t)))))"
| "agrees date (NamespaceLink n) (ByText f) obj = (f obj = n)"
| "agrees date (ResourceLink (grp, version, kind) name ns shown) (ByText f) obj =
     (f obj = name \<or> name \<noteq> None \<and> f obj = Some (kind @ [47] @ the name))"
| "agrees date (ReadyIcon i status muted message) (ByText f) obj = (f obj \<noteq> None)"
| "agrees date _ _ obj = False"

fun is_link :: "cell \<Rightarrow> bool" where
  "is_link (ResourceLink _ _ _ _) = True"
| "is_link _ = False"

text \<open>
  The rows of a column agree with its cells; \<open>P\<close> says of which objects. The one exception is the link of a release to its
  chart object: it shows the object of the status, while the row is sorted by the chart of the specification.
\<close>

definition shows_sort_value :: "(jsstring \<Rightarrow> int option) \<Rightarrow> ('o \<Rightarrow> bool) \<Rightarrow> ('o, cell) column \<Rightarrow> bool" where
  "shows_sort_value date P c \<longleftrightarrow> (\<forall>obj. P obj \<longrightarrow>
     (case co_sortValue c of
        None \<Rightarrow> False
      | Some key \<Rightarrow> co_id c = ''chart'' \<and> is_link (co_render c obj) \<or> agrees date (co_render c obj) key obj))"

definition page_ok :: "('a flux_object_scheme \<Rightarrow> bool) \<Rightarrow> 'a flux_object_scheme flux_page \<Rightarrow> bool" where
  "page_ok P page \<longleftrightarrow> (\<forall>date now namespace.
     list_all (shows_sort_value date P) (page_columns (fst page) namespace (snd page) date now) \<and>
     distinct (map co_id (page_columns (fst page) namespace (snd page) date now)) \<and>
     (\<forall>i < length (page_columns (fst page) namespace (snd page) date now). sortable (page_columns (fst page) namespace (snd page) date now) i))"

text \<open>A reference with a name has a kind too.\<close>

definition kind_given :: "reference option \<Rightarrow> bool" where
  "kind_given ref = (case ref of None \<Rightarrow> True | Some r \<Rightarrow> unset (rf_kind r) \<longrightarrow> unset (rf_name r))"

lemma text_column_ok:
  "(\<And>obj. unset (g obj) \<Longrightarrow> h obj = dash) \<Longrightarrow> (\<And>obj. \<not> unset (g obj) \<Longrightarrow> h obj = the (g obj)) \<Longrightarrow>
   shows_sort_value date P (text_column i title h g)"
  by (auto simp: shows_sort_value_def text_column_def)

lemma label_column_ok: "(\<And>obj. h obj \<noteq> []) \<Longrightarrow> (\<And>obj. g obj = Some (h obj)) \<Longrightarrow> shows_sort_value date P (text_column i title h g)"
  by (rule text_column_ok) simp_all

lemma readyColumn_ok [simp]: "shows_sort_value date P (readyColumn date' now)"
  by (auto simp: shows_sort_value_def readyColumn_def ReadyStatusIcon_def split: option.splits prod.splits)

lemma source_link_agrees:
  "kind_given ref \<Longrightarrow> f obj = Some (sourceRefLabel ref) \<Longrightarrow> agrees date (SourceRefLink ref namespace) (ByText f) obj"
  by (cases ref) (auto simp: SourceRefLink_def kind_given_def sourceRefLabel_def dash_def default_to_def unset_def split: if_splits)

lemma source_column_ok: "(\<And>obj. P obj \<Longrightarrow> kind_given (r obj)) \<Longrightarrow>
    shows_sort_value date P \<lparr>co_id = i, co_title = title, co_sortValue = Some (ByText (\<lambda>obj. Some (sourceRefLabel (r obj)))),
      co_render = (\<lambda>obj. SourceRefLink (r obj) (fo_namespace obj))\<rparr>"
  by (simp add: shows_sort_value_def source_link_agrees)

lemma chart_column_ok:
  "(\<And>obj. unset (g obj) \<Longrightarrow> h obj = dash) \<Longrightarrow> (\<And>obj. \<not> unset (g obj) \<Longrightarrow> h obj = the (g obj)) \<Longrightarrow>
   shows_sort_value date P \<lparr>co_id = ''chart'', co_title = title, co_sortValue = Some (ByText g),
     co_render = (\<lambda>obj. HelmChartStatusLink (r obj) (h obj))\<rparr>"
  by (auto simp: shows_sort_value_def HelmChartStatusLink_def split: prod.splits)

lemma distribution_column_ok:
  "shows_sort_value date P \<lparr>co_id = i, co_title = title, co_sortValue = Some (ByText g),
     co_render = (\<lambda>obj. Text (if unset (g obj) then dash else the (g obj) @ lit '' ('' @ h obj @ lit '')''))\<rparr>"
  by (simp add: shows_sort_value_def del: lit_Cons)

text \<open>The ids of the columns every page has.\<close>

definition page_ids :: "string list" where "page_ids = [''name'', ''namespace'', ''created'']"

lemma page_okI:
  assumes "\<And>date now. list_all (shows_sort_value date P) (cols date now)"
    and "\<And>date now. list_all (\<lambda>c. co_sortValue c \<noteq> None) (cols date now)"
    and "\<And>date now. distinct (page_ids @ map co_id (cols date now))"
  shows "page_ok P (m, cols)"
proof -
  let ?columns = "\<lambda>namespace date now. page_columns m namespace cols date now"
  have "list_all (shows_sort_value date P) (?columns namespace date now)" for namespace date now
    using assms(1) [of date now] by (simp add: page_columns_def list_columns_def Let_def model_link_def) (simp add: shows_sort_value_def)
  moreover have sorts: "list_all (\<lambda>c. co_sortValue c \<noteq> None) (?columns namespace date now)" for namespace date now
    using assms(2) [of date now] by (simp add: page_columns_def list_columns_def Let_def)
  moreover have "distinct (map co_id (?columns namespace date now))" for namespace date now
    using assms(3) [of date now] by (auto simp: page_columns_def list_columns_def Let_def page_ids_def)
  ultimately show ?thesis unfolding page_ok_def sortable_def by (simp add: list_all_iff) (metis nth_mem)
qed

lemma column_parts [simp]:
  "co_id (text_column i title h g) = i" "co_sortValue (text_column i title h g) = Some (ByText g)"
  "co_id (readyColumn date now) = ''ready''" "co_sortValue (readyColumn date now) = Some (ByText (\<lambda>obj. map_option rs_label (ready_of date now obj)))"
  by (simp_all add: text_column_def readyColumn_def)

lemma gitRefLabel_not_Nil: "gitRefLabel ref \<noteq> []"
  by (auto simp: gitRefLabel_def default_to_def unset_def split: option.splits)

lemma suspendedLabel_not_Nil: "suspendedLabel x \<noteq> []"
  by (simp add: suspendedLabel_def)

lemma default_to_not_Nil: "d \<noteq> [] \<Longrightarrow> default_to x d \<noteq> []"
  by (cases x) simp_all

lemma default_to_unset: "unset x \<Longrightarrow> default_to x d = d" "\<not> unset x \<Longrightarrow> default_to x d = the x"
  by (simp_all add: default_to_def)

lemma last_run_ok: "shows_sort_value date P \<lparr>co_id = i, co_title = title,
     co_sortValue = Some (ByNumber (\<lambda>obj. if unset (f obj) then None else Some (map_option of_int (date (the (f obj)))))),
     co_render = (\<lambda>obj. Text (default_to (f obj) dash))\<rparr>"
  by (simp add: shows_sort_value_def default_to_def)

lemma components_ok: "shows_sort_value date P \<lparr>co_id = i, co_title = title,
     co_sortValue = Some (ByNumber (\<lambda>obj. case f obj of None \<Rightarrow> None
       | Some cs \<Rightarrow> if cs = [] then None else Some (Some (of_nat (length (filter p cs)) / of_nat (length cs))))),
     co_render = (\<lambda>obj. case f obj of None \<Rightarrow> Text dash
       | Some cs \<Rightarrow> if cs = [] then Text dash else Text (show_nat (length (filter p cs)) @ [47] @ show_nat (length cs)))\<rparr>"
proof -
  have "\<exists>m n. 0 < n \<and> show_nat (length (filter p cs)) @ 47 # show_nat (length cs) = show_nat m @ 47 # show_nat n \<and>
      (of_nat (length (filter p cs)) / of_nat (length cs) :: rat) = of_nat m / of_nat n" if "cs \<noteq> []" for cs
    by (rule exI [of _ "length (filter p cs)"], rule exI [of _ "length cs"]) (simp add: that)
  then show ?thesis by (simp add: shows_sort_value_def split: option.split)
qed

text \<open>The link to the chart of a release: \<^verbatim>\<open>namespace/name\<close> is taken apart again.\<close>

lemma chart_link_read:
  assumes "47 \<notin> set namespace" "47 \<notin> set name" "name \<noteq> []"
  shows "HelmChartStatusLink (Some (namespace @ [47] @ name)) fallback = ResourceLink (model_link HelmChartModel) (Some name) (Some namespace) None"
  using assms by (simp add: HelmChartStatusLink_def chart_parts_def)

text \<open>C36: On every list page of the plugin, whatever the time and the chosen namespace, all columns can be sorted by and their
  ids are distinct, and the cells agree with the order. A text cell is the value its row is sorted by, or that value followed
  by something in parentheses, or a dash where there is none; the cell of a number is the date the number is the time of (the
  last run, the creation) or the fraction the number is the value of (the components that are ready); links show the name
  the row is sorted by, a source its kind and name. The one exception is the link of a release to its chart object. Of the
  charts and kustomizations it is assumed that a source reference with a name has a kind, as the cell of any other is a dash
  while the row is sorted by the name.\<close>

theorem columns_show_order:
  "page_ok (\<lambda>_. True) HelmReleaseList \<and>
   page_ok (\<lambda>obj. kind_given (hck_sourceRef obj)) HelmChartList \<and>
   page_ok (\<lambda>obj. kind_given (ksk_sourceRef obj)) KustomizationList \<and>
   page_ok (\<lambda>_. True) GitRepositoryList \<and>
   page_ok (\<lambda>_. True) OCIRepositoryList \<and>
   page_ok (\<lambda>_. True) HelmRepositoryList \<and>
   page_ok (\<lambda>_. True) BucketList \<and>
   page_ok (\<lambda>_. True) ArtifactGeneratorList \<and>
   page_ok (\<lambda>_. True) ExternalArtifactList \<and>
   page_ok (\<lambda>_. True) ImageRepositoryList \<and>
   page_ok (\<lambda>_. True) ImagePolicyList \<and>
   page_ok (\<lambda>_. True) ImageUpdateAutomationList \<and>
   page_ok (\<lambda>_. True) ProviderList \<and>
   page_ok (\<lambda>_. True) ReceiverList \<and>
   page_ok (\<lambda>_. True) AlertList \<and>
   page_ok (\<lambda>_. True) FluxReportList \<and>
   page_ok (\<lambda>_. True) FluxInstanceList \<and>
   page_ok (\<lambda>_. True) ResourceSetList \<and>
   page_ok (\<lambda>_. True) ResourceSetInputProviderList"
  unfolding HelmReleaseList_def HelmChartList_def KustomizationList_def GitRepositoryList_def OCIRepositoryList_def HelmRepositoryList_def BucketList_def ArtifactGeneratorList_def ExternalArtifactList_def ImageRepositoryList_def ImagePolicyList_def ImageUpdateAutomationList_def ProviderList_def ReceiverList_def AlertList_def FluxReportList_def FluxInstanceList_def ResourceSetList_def ResourceSetInputProviderList_def
  by (intro conjI; rule page_okI)
    (simp_all add: helmReleaseColumns_def helmChartColumns_def kustomizationColumns_def gitRepositoryColumns_def ociRepositoryColumns_def helmRepositoryColumns_def bucketColumns_def artifactGeneratorColumns_def externalArtifactColumns_def imageRepositoryColumns_def imagePolicyColumns_def imageUpdateAutomationColumns_def providerColumns_def receiverColumns_def alertColumns_def fluxReportColumns_def fluxInstanceColumns_def resourceSetColumns_def resourceSetInputProviderColumns_def
       page_ids_def text_column_ok label_column_ok chart_column_ok source_column_ok distribution_column_ok default_to_unset gitRefLabel_not_Nil suspendedLabel_not_Nil default_to_not_Nil last_run_ok components_ok)

end
