(* ===== verification/Flux_Tabs.thy ===== *)
theory Flux_Tabs
  imports Flux_Lists
begin

text \<open>
  The tabs that show how Flux resources refer to each other, \<^verbatim>\<open>plugins/flux/src/components/tabs\<close>: the consumers of a
  repository or a chart and, of a release, what it depends on and what depends on it. \<open>data\<close> is what the watch of a kind has
  found in all namespaces.
\<close>

section \<open>Resources and rows\<close>

record dependency_reference =
  dr_name :: "jsstring option"
  dr_namespace :: "jsstring option"

text \<open>A release with what these tabs read besides its references.\<close>

record dependent_release = helm_release +
  dp_dependsOn :: "dependency_reference list option"
  dp_conditions :: "condition list option"

record kustomization_ref =
  kz_namespace :: "jsstring option"
  kz_name :: "jsstring option"
  kz_sourceRef :: "reference option"
  kz_conditions :: "condition list option"

record ref_row =
  rw_model :: flux_model
  rw_namespace :: "jsstring option"
  rw_name :: "jsstring option"
  rw_conditions :: "condition list option"

definition release_row :: "dependent_release \<Rightarrow> ref_row" where
  "release_row hr = \<lparr>rw_model = HelmReleaseModel, rw_namespace = hr_namespace hr, rw_name = hr_name hr, rw_conditions = dp_conditions hr\<rparr>"

definition kustomization_row :: "kustomization_ref \<Rightarrow> ref_row" where
  "kustomization_row ks = \<lparr>rw_model = KustomizationModel, rw_namespace = kz_namespace ks, rw_name = kz_name ks, rw_conditions = kz_conditions ks\<rparr>"

text \<open>The label of a condition: whether it is green, its title and its text.\<close>

datatype condition_label = NoCondition | ConditionShown bool "jsstring option" jsstring

definition ConditionLabel :: "condition option \<Rightarrow> condition_label" where
  "ConditionLabel condition =
     (case condition of
        None \<Rightarrow> NoCondition
      | Some c \<Rightarrow>
          (let isTrue = cd_status c = lit ''True''
           in ConditionShown isTrue (cd_message c) (default_to (cd_reason c) (if isTrue then lit ''Ready'' else lit ''NotReady''))))"

datatype ref_table = TableLoading | TableEmpty string | TableRows "(ref_row \<times> condition_label) list"

definition ResourceRefTable :: "ref_row list \<Rightarrow> bool \<Rightarrow> string \<Rightarrow> ref_table" where
  "ResourceRefTable rows loaded emptyText =
     (if \<not> loaded then TableLoading
      else if rows = [] then TableEmpty emptyText
      else TableRows (map (\<lambda>row. (row, ConditionLabel (getReadyCondition (rw_conditions row)))) rows))"

text \<open>Data that has not come yet is no data.\<close>

definition useClusterWideWatch :: "'o list option \<times> bool \<Rightarrow> 'o list \<times> bool" where
  "useClusterWideWatch watchResult = (case fst watchResult of None \<Rightarrow> [] | Some xs \<Rightarrow> xs, snd watchResult)"

section \<open>The tabs\<close>

definition git_consumer_rows :: "kustomization_ref list \<Rightarrow> dependent_release list \<Rightarrow> jsstring \<Rightarrow> jsstring \<Rightarrow> ref_row list" where
  "git_consumer_rows kustomizations helmReleases namespace name =
     map kustomization_row (filter (\<lambda>ks. matchesReference (kz_sourceRef ks) (default_to (kz_namespace ks) []) (lit ''GitRepository'') namespace name)
       kustomizations) @
     map release_row (filter (\<lambda>hr. helmReleaseReferencesSource (helm_release.truncate hr) (lit ''GitRepository'') namespace name) helmReleases)"

definition GitRepositoryConsumersTab :: "kustomization_ref list option \<times> bool \<Rightarrow> dependent_release list option \<times> bool \<Rightarrow>
    jsstring option \<Rightarrow> jsstring option \<Rightarrow> ref_table" where
  "GitRepositoryConsumersTab ks_watch hr_watch namespace name =
     (case (useClusterWideWatch ks_watch, useClusterWideWatch hr_watch) of
        ((kustomizations, ks_loaded), (helmReleases, hr_loaded)) \<Rightarrow>
          ResourceRefTable (git_consumer_rows kustomizations helmReleases (default_to namespace []) (default_to name [])) (ks_loaded \<and> hr_loaded)
            ''No Kustomizations or HelmReleases reference this GitRepository'')"

definition chart_consumer_rows :: "dependent_release list \<Rightarrow> jsstring \<Rightarrow> jsstring \<Rightarrow> ref_row list" where
  "chart_consumer_rows helmReleases namespace name =
     map release_row (filter (\<lambda>hr. helmReleaseReferencesHelmChart (helm_release.truncate hr) namespace name) helmReleases)"

definition HelmChartConsumersTab :: "dependent_release list option \<times> bool \<Rightarrow> jsstring option \<Rightarrow> jsstring option \<Rightarrow> ref_table" where
  "HelmChartConsumersTab hr_watch namespace name =
     (case useClusterWideWatch hr_watch of (helmReleases, loaded) \<Rightarrow>
        ResourceRefTable (chart_consumer_rows helmReleases (default_to namespace []) (default_to name [])) loaded
          ''No HelmReleases reference this HelmChart'')"

definition depends_on :: "dependent_release \<Rightarrow> dependency_reference list" where
  "depends_on hr = (case dp_dependsOn hr of None \<Rightarrow> [] | Some refs \<Rightarrow> refs)"

definition dependency_row :: "dependent_release list \<Rightarrow> jsstring \<Rightarrow> dependency_reference \<Rightarrow> ref_row" where
  "dependency_row data namespace ref =
     (let depNamespace = default_to (dr_namespace ref) namespace
      in case find (\<lambda>hr. hr_namespace hr = Some depNamespace \<and> hr_name hr = dr_name ref) data of
           Some hr \<Rightarrow> release_row hr
         | None \<Rightarrow> \<lparr>rw_model = HelmReleaseModel, rw_namespace = Some depNamespace, rw_name = dr_name ref, rw_conditions = None\<rparr>)"

definition dependencyRows :: "dependent_release list \<Rightarrow> dependent_release \<Rightarrow> ref_row list" where
  "dependencyRows data obj =
     map (dependency_row data (default_to (hr_namespace obj) [])) (filter (\<lambda>ref. \<not> unset (dr_name ref)) (depends_on obj))"

definition dependentRows :: "dependent_release list \<Rightarrow> dependent_release \<Rightarrow> ref_row list" where
  "dependentRows data obj =
     (let namespace = default_to (hr_namespace obj) []; name = default_to (hr_name obj) []
      in map release_row (filter (\<lambda>hr. list_ex (\<lambda>ref. dr_name ref = Some name \<and>
           default_to (dr_namespace ref) (default_to (hr_namespace hr) []) = namespace) (depends_on hr)) data))"

definition HelmReleaseDependenciesTab :: "dependent_release list option \<times> bool \<Rightarrow> dependent_release \<Rightarrow> ref_table \<times> ref_table" where
  "HelmReleaseDependenciesTab hr_watch obj =
     (case useClusterWideWatch hr_watch of (helmReleases, loaded) \<Rightarrow>
        (ResourceRefTable (dependencyRows helmReleases obj) loaded ''This HelmRelease has no dependencies'',
         ResourceRefTable (dependentRows helmReleases obj) loaded ''No HelmReleases depend on this one''))"

section \<open>Properties\<close>

lemma dependency_row_key:
  "rw_namespace (dependency_row data namespace ref) = Some (default_to (dr_namespace ref) namespace) \<and> rw_name (dependency_row data namespace ref) = dr_name ref"
  by (auto simp: dependency_row_def Let_def release_row_def split: option.splits simp: find_Some_iff)

text \<open>C31: The two tables of a release are two sides of one relation. A release is in the table of dependents exactly if the
  release of the page is in the table of what that one depends on, with its namespace and its name; this holds with or
  without a namespace in the reference, and whether or not the watch has found the release of the page.\<close>

theorem dependencies_dual:
  assumes "\<not> unset (hr_namespace h)" "\<not> unset (hr_name h)"
  shows "dependentRows data h = map release_row (filter (\<lambda>d.
    \<exists>row \<in> set (dependencyRows data d). rw_namespace row = hr_namespace h \<and> rw_name row = hr_name h) data)"
proof -
  obtain ns n where h: "hr_namespace h = Some ns" "ns \<noteq> []" "hr_name h = Some n" "n \<noteq> []"
    using assms by (cases "hr_namespace h"; cases "hr_name h") auto
  have "list_ex (\<lambda>ref. dr_name ref = Some n \<and> default_to (dr_namespace ref) (default_to (hr_namespace d) []) = ns) (depends_on d) \<longleftrightarrow>
      (\<exists>row \<in> set (dependencyRows data d). rw_namespace row = Some ns \<and> rw_name row = Some n)" for d
    using h(4) by (auto simp: dependencyRows_def dependency_row_key list_ex_iff)
  then show ?thesis using h by (simp add: dependentRows_def Let_def)
qed

text \<open>A release is a consumer of the one chart it has.\<close>

lemma chart_consumer_rows_exact:
  "chart_consumer_rows data ns n = map release_row (filter (\<lambda>hr. chart_of (helm_release.truncate hr) = Some (ns, n)) data)"
  by (simp add: chart_consumer_rows_def chart_consumers_exact)

text \<open>While a watch has not loaded, no table says that there is nothing.\<close>

lemma no_early_empty:
  "snd ks_watch = False \<or> snd hr_watch = False \<Longrightarrow> GitRepositoryConsumersTab ks_watch hr_watch namespace name = TableLoading"
  by (auto simp: GitRepositoryConsumersTab_def useClusterWideWatch_def ResourceRefTable_def)

definition sample_dependent :: "string \<Rightarrow> dependency_reference list \<Rightarrow> dependent_release" where
  "sample_dependent name refs = \<lparr>hr_namespace = Some (lit ''apps''), hr_name = Some (lit name), hr_sourceRef = None, hr_chartRef = None,
     dp_dependsOn = Some refs, dp_conditions = None\<rparr>"

lemma dependencies_dual_witness:
  "dependentRows [sample_dependent ''web'' [\<lparr>dr_name = Some (lit ''db''), dr_namespace = None\<rparr>]] (sample_dependent ''db'' []) =
     [release_row (sample_dependent ''web'' [\<lparr>dr_name = Some (lit ''db''), dr_namespace = None\<rparr>])]"
  by (subst dependencies_dual) (simp_all add: sample_dependent_def dependencyRows_def depends_on_def dependency_row_key)

end
