(* ===== verification/Es_Pages.thy ===== *)
theory Es_Pages
  imports Res_Manifests Flux_Actions Flux_Tabs "HOL-Library.AList"
begin

text \<open>
  The pages of the external-secrets plugin, \<^verbatim>\<open>plugins/external-secrets/src/components\<close>: the columns of the lists, the details
  pages with the link from a secret to its store and the tab of a store with its secrets, and the actions with Force refresh.
\<close>

section \<open>Resources\<close>

record secret_store_ref =
  ssr_name :: "jsstring option"
  ssr_kind :: "jsstring option"

record external_secret =
  xs_namespace :: "jsstring option"
  xs_name :: "jsstring option"
  xs_creationTimestamp :: "jsstring option"
  xs_refreshTime :: "jsstring option"
  xs_secretStoreRef :: "secret_store_ref option"

record secret_store =
  ss_namespace :: "jsstring option"
  ss_name :: "jsstring option"
  ss_provider :: "(jsstring \<times> jsstring option) list option"
  ss_conditions :: "condition list option"
  ss_capabilities :: "jsstring option"

section \<open>Stores and their secrets\<close>

definition resource_link :: "resource_model \<Rightarrow> jsstring \<times> jsstring \<times> jsstring" where
  "resource_link m = (lit (rm_group m), lit (rm_version m), lit (rm_kind m))"

definition SecretStoreLink :: "secret_store_ref option \<Rightarrow> jsstring option \<Rightarrow> cell" where
  "SecretStoreLink storeRef namespace =
     (case storeRef of
        None \<Rightarrow> Text dash
      | Some r \<Rightarrow>
          if unset (ssr_name r) then Text dash
          else
            (let kind = default_to (ssr_kind r) (lit ''SecretStore'')
             in if kind = lit ''ClusterSecretStore'' then ResourceLink (resource_link ClusterSecretStoreModel) (ssr_name r) None None
                else if \<not> unset namespace then ResourceLink (resource_link SecretStoreModel) (ssr_name r) namespace None
                else Text (the (ssr_name r) @ lit '' ('' @ kind @ lit '')'')))"

text \<open>The namespace the tab watches, \<open>None\<close> for all.\<close>

definition secrets_watch :: "secret_store \<Rightarrow> bool \<Rightarrow> jsstring option" where
  "secrets_watch obj isCluster = (if isCluster then None else ss_namespace obj)"

definition references_store :: "secret_store \<Rightarrow> bool \<Rightarrow> external_secret \<Rightarrow> bool" where
  "references_store obj isCluster es \<longleftrightarrow>
     (let expectedKind = (if isCluster then lit ''ClusterSecretStore'' else lit ''SecretStore'')
      in (case xs_secretStoreRef es of None \<Rightarrow> None | Some r \<Rightarrow> ssr_name r) = ss_name obj \<and>
         default_to (case xs_secretStoreRef es of None \<Rightarrow> None | Some r \<Rightarrow> ssr_kind r) (lit ''SecretStore'') = expectedKind)"

definition matching_secrets :: "secret_store \<Rightarrow> bool \<Rightarrow> external_secret list option \<Rightarrow> external_secret list" where
  "matching_secrets obj isCluster items = filter (references_store obj isCluster) (case items of None \<Rightarrow> [] | Some xs \<Rightarrow> xs)"

definition secret_row :: "bool \<Rightarrow> external_secret \<Rightarrow> cell list" where
  "secret_row isCluster es =
     [ResourceLink (resource_link ExternalSecretModel) (xs_name es) (xs_namespace es) None] @
     (if isCluster then [NamespaceLink (xs_namespace es)] else []) @
     [if unset (xs_refreshTime es) then Text dash else Timestamp (xs_refreshTime es), Timestamp (xs_creationTimestamp es)]"

text \<open>Nothing is shown while the watch loads.\<close>

definition SecretsTab :: "secret_store \<Rightarrow> bool \<Rightarrow> external_secret list option \<Rightarrow> bool \<Rightarrow> jsstring option \<Rightarrow> cell list list_view" where
  "SecretsTab obj isCluster items loaded loadError =
     (if loadError \<noteq> None then LoadErrorShown (the loadError)
      else if \<not> loaded then LoadingShown
      else if matching_secrets obj isCluster items = [] then NoneFound
      else RowsShown (map (secret_row isCluster) (matching_secrets obj isCluster items)))"

section \<open>Lists\<close>

definition StatusLabel :: "secret_store \<Rightarrow> condition_label" where
  "StatusLabel obj = ConditionLabel (getReadyCondition (ss_conditions obj))"

text \<open>\<open>now\<close> is the time of the last tick.\<close>

definition FreshnessChecked :: "(jsstring \<Rightarrow> int option) \<Rightarrow> int \<Rightarrow> jsstring option \<Rightarrow> jsstring" where
  "FreshnessChecked date now timestamp =
     (if unset timestamp then dash
      else case date (the timestamp) of
             None \<Rightarrow> lit ''NaNs ago''
           | Some t \<Rightarrow> formatDurationCompact (now - t) @ lit '' ago'')"

datatype es_cell = Shown cell | StatusShown condition_label

definition storeColumns :: "(string \<times> string \<times> (secret_store \<Rightarrow> es_cell)) list" where
  "storeColumns = [
     (''status'', ''Status'', \<lambda>obj. StatusShown (StatusLabel obj)),
     (''capabilities'', ''Capabilities'', \<lambda>obj. Shown (Text (default_to (ss_capabilities obj) dash))),
     (''provider'', ''Provider'', \<lambda>obj. Shown (Text (getProviderKey (ss_provider obj))))]"

definition refreshColumns :: "(jsstring \<Rightarrow> int option) \<Rightarrow> int \<Rightarrow> (string \<times> string \<times> (external_secret \<Rightarrow> es_cell)) list" where
  "refreshColumns date now = [
     (''refreshTime'', ''Last Refreshed'', \<lambda>obj. Shown (if unset (xs_refreshTime obj) then Text dash else Timestamp (xs_refreshTime obj))),
     (''freshnessChecked'', ''Freshness Checked'', \<lambda>obj. Shown (Text (FreshnessChecked date now (xs_refreshTime obj))))]"

section \<open>Details\<close>

record owner_reference =
  ow_apiVersion :: jsstring
  ow_kind :: jsstring
  ow_name :: jsstring
  ow_controller :: "bool option"

text \<open>Group, version, kind and name of the owner; a version without a slash has no group.\<close>

definition details_owner :: "owner_reference list option \<Rightarrow> (jsstring option \<times> jsstring \<times> jsstring \<times> jsstring) option" where
  "details_owner refs =
     (let rs = (case refs of None \<Rightarrow> [] | Some xs \<Rightarrow> xs);
          owner = (case find (\<lambda>r. ow_controller r = Some True) rs of Some r \<Rightarrow> Some r | None \<Rightarrow> (case rs of [] \<Rightarrow> None | r # _ \<Rightarrow> Some r))
      in case owner of
           None \<Rightarrow> None
         | Some r \<Rightarrow>
             (if 47 \<in> set (ow_apiVersion r)
              then (let parts = split_on 47 (ow_apiVersion r) in Some (Some (parts ! 0), parts ! 1, ow_kind r, ow_name r))
              else Some (None, ow_apiVersion r, ow_kind r, ow_name r)))"

definition details_labels :: "(jsstring \<times> jsstring) list \<Rightarrow> jsstring list option" where
  "details_labels labels = (if labels = [] then None else Some (map (\<lambda>(k, v). k @ [61] @ v) labels))"

datatype details_page = DetailsError jsstring | DetailsNothing | DetailsTabs "string list"

definition GenericDetailsPage :: "bool \<Rightarrow> bool \<Rightarrow> jsstring option \<Rightarrow> string list \<Rightarrow> details_page" where
  "GenericDetailsPage found loaded loadError extraTabs =
     (if loadError \<noteq> None then DetailsError (the loadError)
      else if \<not> loaded \<or> \<not> found then DetailsNothing
      else DetailsTabs ([[], ''yaml'', ''events''] @ extraTabs))"

section \<open>Actions\<close>

record es_resource =
  er_namespace :: "jsstring option"
  er_name :: "jsstring option"
  er_annotations :: "(jsstring \<times> jsstring) list option"

datatype es_effect = EsLabelsModal | EsAnnotationsModal | EsDeleteModal | EsPatch string jsstring

record es_action =
  ea_id :: string
  ea_label :: string
  ea_cta :: es_effect
  ea_review :: access_review

definition es_accessReview :: "resource_model \<Rightarrow> es_resource \<Rightarrow> verb \<Rightarrow> access_review" where
  "es_accessReview model resource v = \<lparr>ar_group = rm_group model, ar_resource = rm_plural model, ar_name = er_name resource,
     ar_namespace = er_namespace resource, ar_verb = v\<rparr>"

definition FORCE_SYNC_PATH :: string where "FORCE_SYNC_PATH = ''/metadata/annotations/force-sync''"

text \<open>\<open>known\<close>: the console has resolved the model; \<open>now\<close> is the time of the click as \<^verbatim>\<open>toISOString\<close> writes it.\<close>

definition es_useResourceActions :: "resource_model \<Rightarrow> bool \<Rightarrow> bool \<Rightarrow> jsstring \<Rightarrow> es_resource \<Rightarrow> es_action list" where
  "es_useResourceActions model known supportsForceRefresh now resource =
     (if supportsForceRefresh \<and> known
      then [\<lparr>ea_id = ''force-refresh'', ea_label = ''Force refresh'', ea_cta = EsPatch FORCE_SYNC_PATH now,
             ea_review = es_accessReview model resource Patch\<rparr>]
      else []) @
     [\<lparr>ea_id = ''edit-labels'', ea_label = ''Edit labels'', ea_cta = EsLabelsModal, ea_review = es_accessReview model resource Update\<rparr>,
      \<lparr>ea_id = ''edit-annotations'', ea_label = ''Edit annotations'', ea_cta = EsAnnotationsModal, ea_review = es_accessReview model resource Update\<rparr>,
      \<lparr>ea_id = ''delete'', ea_label = ''Delete '' @ rm_kind model, ea_cta = EsDeleteModal, ea_review = es_accessReview model resource Delete\<rparr>]"

section \<open>Properties\<close>

text \<open>References as the type allows them.\<close>

definition ref_valid :: "secret_store_ref option \<Rightarrow> bool" where
  "ref_valid ref = (case ref of None \<Rightarrow> True
     | Some r \<Rightarrow> unset (ssr_kind r) \<or> ssr_kind r = Some (lit ''SecretStore'') \<or> ssr_kind r = Some (lit ''ClusterSecretStore''))"

text \<open>What the watch finds of all secrets.\<close>

definition watched :: "jsstring option \<Rightarrow> external_secret list \<Rightarrow> external_secret list" where
  "watched namespace secrets = filter (\<lambda>es. namespace = None \<or> xs_namespace es = namespace) secrets"

definition store_link :: "bool \<Rightarrow> secret_store \<Rightarrow> cell" where
  "store_link isCluster obj =
     (if isCluster then ResourceLink (resource_link ClusterSecretStoreModel) (ss_name obj) None None
      else ResourceLink (resource_link SecretStoreModel) (ss_name obj) (ss_namespace obj) None)"

lemma store_kinds_differ: "lit ''SecretStore'' \<noteq> lit ''ClusterSecretStore''" "resource_link ClusterSecretStoreModel \<noteq> resource_link SecretStoreModel"
  by (simp_all add: resource_link_def ClusterSecretStoreModel_def SecretStoreModel_def lit_eq_iff del: lit_Cons)

lemma kind_valid:
  assumes "ref_valid (Some r)"
  shows "default_to (ssr_kind r) (lit ''SecretStore'') = (if ssr_kind r = Some (lit ''ClusterSecretStore'') then lit ''ClusterSecretStore'' else lit ''SecretStore'')"
  using assms by (auto simp: ref_valid_def default_to_def simp del: lit_Cons) (auto simp: unset_def)

lemma link_matches:
  assumes "ref_valid (xs_secretStoreRef es)" "\<not> unset (ss_name obj)" "\<not> unset (xs_namespace es)"
    "isCluster \<or> \<not> unset (ss_namespace obj)"
  shows "SecretStoreLink (xs_secretStoreRef es) (xs_namespace es) = store_link isCluster obj \<longleftrightarrow>
    (isCluster \<or> xs_namespace es = ss_namespace obj) \<and> references_store obj isCluster es"
proof (cases "xs_secretStoreRef es")
  case None
  then show ?thesis using assms(2) by (auto simp: SecretStoreLink_def store_link_def references_store_def Let_def)
next
  case (Some r)
  have kind: "default_to (ssr_kind r) (lit ''SecretStore'') =
      (if ssr_kind r = Some (lit ''ClusterSecretStore'') then lit ''ClusterSecretStore'' else lit ''SecretStore'')"
    using kind_valid assms(1) Some by simp
  show ?thesis using Some assms(2-4) kind store_kinds_differ store_kinds_differ [symmetric]
    by (auto simp: SecretStoreLink_def store_link_def references_store_def Let_def simp del: lit_Cons split: if_splits)
qed

text \<open>C32: The tab of a store and the links on the secrets agree: of all secrets, those listed under a store are exactly the ones whose
  details link to that very store, for stores of a namespace as for those of the cluster, and whether or not the kind is
  written in the reference.\<close>

theorem store_lists_its_secrets:
  assumes "list_all (\<lambda>es. ref_valid (xs_secretStoreRef es) \<and> \<not> unset (xs_namespace es)) secrets"
    and "\<not> unset (ss_name obj)" "isCluster \<or> \<not> unset (ss_namespace obj)"
  shows "matching_secrets obj isCluster (Some (watched (secrets_watch obj isCluster) secrets)) =
    filter (\<lambda>es. SecretStoreLink (xs_secretStoreRef es) (xs_namespace es) = store_link isCluster obj) secrets"
proof -
  have watch: "secrets_watch obj isCluster = None \<longleftrightarrow> isCluster" "isCluster \<or> secrets_watch obj isCluster = ss_namespace obj"
    using assms(3) by (cases "ss_namespace obj"; simp add: secrets_watch_def)+
  have "(references_store obj isCluster es \<and> (secrets_watch obj isCluster = None \<or> xs_namespace es = secrets_watch obj isCluster)) =
      (SecretStoreLink (xs_secretStoreRef es) (xs_namespace es) = store_link isCluster obj)" if "es \<in> set secrets" for es
  proof -
    have es: "ref_valid (xs_secretStoreRef es)" "\<not> unset (xs_namespace es)" using that assms(1) by (auto simp: list_all_iff)
    show ?thesis unfolding link_matches [OF es(1) assms(2) es(2) assms(3)] watch(1) using watch(2) by (cases isCluster) auto
  qed
  then show ?thesis unfolding matching_secrets_def watched_def option.case filter_filter by (intro filter_cong) blast+
qed

text \<open>The operation \<^verbatim>\<open>add\<close> of RFC 6902 on an annotation: the object that holds the annotations has to exist.\<close>

definition add_annotation :: "jsstring \<Rightarrow> jsstring \<Rightarrow> es_resource \<Rightarrow> es_resource option" where
  "add_annotation k v r = map_option (\<lambda>as. r\<lparr>er_annotations := Some (AList.update k v as)\<rparr>) (er_annotations r)"

fun es_apply :: "es_effect \<Rightarrow> es_resource \<Rightarrow> es_resource option" where
  "es_apply (EsPatch path v) r = (if path = FORCE_SYNC_PATH then add_annotation (lit ''force-sync'') v r else None)"
| "es_apply _ r = None"

text \<open>Force refresh is offered exactly where it is supported and the model is known, and its patch sets the annotation to the time
  of the click and nothing else; but the patch cannot be applied to a resource that has no annotations at all, for which the
  click fails.\<close>

theorem force_refresh_applies:
  "filter (\<lambda>a. ea_id a = ''force-refresh'') (es_useResourceActions model known supported now r) =
     (if supported \<and> known
      then [\<lparr>ea_id = ''force-refresh'', ea_label = ''Force refresh'', ea_cta = EsPatch FORCE_SYNC_PATH now,
             ea_review = es_accessReview model r Patch\<rparr>] else []) \<and>
   es_apply (EsPatch FORCE_SYNC_PATH now) r =
     (case er_annotations r of
        None \<Rightarrow> None
      | Some as \<Rightarrow> Some (r\<lparr>er_annotations := Some (AList.update (lit ''force-sync'') now as)\<rparr>)) \<and>
   map_of (AList.update (lit ''force-sync'') now as) = (map_of as)(lit ''force-sync'' \<mapsto> now)"
  by (auto simp: es_useResourceActions_def add_annotation_def update_conv' simp del: lit_Cons split: option.splits)

text \<open>The owner of a resource is its controller, if it has one, and a version that was made of a group and a version is taken
  apart again.\<close>

lemma details_owner_read:
  assumes "find (\<lambda>r. ow_controller r = Some True) rs = Some r" "ow_apiVersion r = g @ [47] @ v" "47 \<notin> set g" "47 \<notin> set v"
  shows "details_owner (Some rs) = Some (Some g, v, ow_kind r, ow_name r)"
  using assms by (simp add: details_owner_def Let_def)

definition sample_secret :: external_secret where
  "sample_secret = \<lparr>xs_namespace = Some (lit ''apps''), xs_name = Some (lit ''db''), xs_creationTimestamp = None, xs_refreshTime = None,
     xs_secretStoreRef = Some \<lparr>ssr_name = Some (lit ''vault''), ssr_kind = None\<rparr>\<rparr>"

definition sample_store :: secret_store where
  "sample_store = \<lparr>ss_namespace = Some (lit ''apps''), ss_name = Some (lit ''vault''), ss_provider = None, ss_conditions = None, ss_capabilities = None\<rparr>"

lemma store_lists_its_secrets_witness:
  "matching_secrets sample_store False (Some (watched (secrets_watch sample_store False) [sample_secret])) = [sample_secret]"
  by (subst store_lists_its_secrets)
    (simp_all add: ref_valid_def sample_secret_def sample_store_def SecretStoreLink_def store_link_def Let_def store_kinds_differ del: lit_Cons,
     simp_all add: lit_eq_iff lit_def)

end
