(* ===== verification/Cm_Pages.thy ===== *)
theory Cm_Pages
  imports Res_Manifests Flux_Tabs Fetch_Hooks Cm_Punycode
begin

text \<open>
  The pages of the cert-manager plugin, \<^verbatim>\<open>plugins/cert-manager/src/components\<close>: the columns of its lists, the items of the
  details of a certificate, and the Certificate tab on pages of other kinds, over the hook \<^verbatim>\<open>useCertInfo\<close> of \<open>Fetch_Hooks\<close>.
  \<open>date\<close> is \<^verbatim>\<open>Date.parse\<close> and \<open>now\<close> the time of rendering.
\<close>

section \<open>Results of checks\<close>

record family_result =
  fr_family :: jsstring
  fr_connected :: bool
  fr_issuer :: "jsstring option"
  fr_notAfter :: "jsstring option"
  fr_keyAlgorithm :: "jsstring option"
  fr_keySize :: "nat option"
  fr_keyCurve :: "jsstring option"
  fr_error :: "jsstring option"

record cert_result =
  cr_hostname :: jsstring
  cr_port :: nat
  cr_subject :: "jsstring option"
  cr_issuer :: "jsstring option"
  cr_rootCA :: "jsstring option"
  cr_notAfter :: "jsstring option"
  cr_expired :: bool
  cr_keyAlgorithm :: "jsstring option"
  cr_keySize :: "nat option"
  cr_keyCurve :: "jsstring option"
  cr_ipv4Connected :: bool
  cr_ipv6Connected :: bool
  cr_familiesDiffer :: bool
  cr_families :: "family_result list option"
  cr_error :: "jsstring option"
  cr_resourceError :: "jsstring option"

text \<open>The function of \<^verbatim>\<open>CertEnrichment.tsx\<close> and that of \<^verbatim>\<open>CertificateTab.tsx\<close>, on the three members.\<close>

definition keyLabel :: "jsstring option \<Rightarrow> nat option \<Rightarrow> jsstring option \<Rightarrow> jsstring" where
  "keyLabel keyAlgorithm keySize keyCurve =
     (if unset keyAlgorithm then dash
      else if keyAlgorithm = Some (lit ''RSA'') \<and> keySize \<noteq> None \<and> keySize \<noteq> Some 0 then lit ''RSA-'' @ show_nat (the keySize)
      else if keyAlgorithm = Some (lit ''ECDSA'') \<and> \<not> unset keyCurve then lit ''ECDSA ('' @ the keyCurve @ lit '')''
      else the keyAlgorithm)"

definition familySummaryLine :: "family_result \<Rightarrow> jsstring" where
  "familySummaryLine f =
     (if \<not> fr_connected f
      then fr_family f @ lit '': not connected'' @ (if unset (fr_error f) then [] else lit '' ('' @ the (fr_error f) @ lit '')'')
      else fr_family f @ lit '': '' @ default_to (fr_issuer f) dash @ [32, 183, 32] @ lit ''expires '' @ default_to (fr_notAfter f) dash @
        [32, 183, 32] @ keyLabel (fr_keyAlgorithm f) (fr_keySize f) (fr_keyCurve f))"

datatype colour = Green | Red | Grey | Blue | Orange | Yellow

text \<open>A label has a colour, a text and the text of its tooltip.\<close>

record chip =
  ch_colour :: colour
  ch_text :: jsstring
  ch_tooltip :: "jsstring option"

datatype summary = SummarySpinner | SummaryDash | SummaryLabels "chip list"

definition FamilyConnectivityBadge :: "string \<Rightarrow> bool \<Rightarrow> chip" where
  "FamilyConnectivityBadge label ok = \<lparr>ch_colour = if ok then Green else Grey, ch_text = lit label, ch_tooltip = None\<rparr>"

definition summary_tooltip :: "cert_result \<Rightarrow> jsstring" where
  "summary_tooltip result = join [10]
     [lit ''Subject: '' @ default_to (cr_subject result) dash,
      lit ''Issuer: '' @ default_to (cr_issuer result) dash,
      lit ''Root CA: '' @ default_to (cr_rootCA result) dash,
      lit ''Not after: '' @ default_to (cr_notAfter result) dash,
      lit ''Key: '' @ keyLabel (cr_keyAlgorithm result) (cr_keySize result) (cr_keyCurve result)]"

definition CertificateSummary :: "(jsstring \<Rightarrow> int option) \<Rightarrow> int \<Rightarrow> bool \<Rightarrow> cert_result option \<Rightarrow> summary" where
  "CertificateSummary date now loading result =
     (case result of
        None \<Rightarrow> if loading then SummarySpinner else SummaryDash
      | Some r \<Rightarrow>
          (let familyBadges = [FamilyConnectivityBadge ''IPv4'' (cr_ipv4Connected r), FamilyConnectivityBadge ''IPv6'' (cr_ipv6Connected r)];
               tooltip = Some (summary_tooltip r)
           in if \<not> unset (cr_error r)
              then SummaryLabels (\<lparr>ch_colour = Red, ch_text = lit ''Unreachable'', ch_tooltip = cr_error r\<rparr> # familyBadges)
              else SummaryLabels (
                [\<lparr>ch_colour = if cr_expired r then Red else Green,
                  ch_text = if cr_expired r then lit ''expired'' else lit ''expires in '' @ formatTimeUntil date now (cr_notAfter r), ch_tooltip = tooltip\<rparr>,
                 \<lparr>ch_colour = Blue, ch_text = default_to (cr_issuer r) dash, ch_tooltip = tooltip\<rparr>,
                 \<lparr>ch_colour = Grey, ch_text = keyLabel (cr_keyAlgorithm r) (cr_keySize r) (cr_keyCurve r), ch_tooltip = tooltip\<rparr>] @
                familyBadges @
                (case cr_families r of
                   Some fs \<Rightarrow> if cr_familiesDiffer r
                     then [\<lparr>ch_colour = Orange, ch_text = lit ''IPv4/IPv6 differ'', ch_tooltip = Some (join [10] (map familySummaryLine fs))\<rparr>] else []
                 | None \<Rightarrow> []))))"

section \<open>The Certificate tab\<close>

definition CLUSTER_SCOPED_SEGMENT :: jsstring where "CLUSTER_SCOPED_SEGMENT = lit ''-''"

definition tab_target :: "string \<Rightarrow> string \<Rightarrow> string \<Rightarrow> bool \<Rightarrow> jsstring option \<Rightarrow> jsstring option \<Rightarrow> cert_target option" where
  "tab_target g version kind namespaced obj_namespace name =
     (let namespace = (if namespaced then obj_namespace else Some CLUSTER_SCOPED_SEGMENT)
      in if unset name \<or> unset namespace then None
         else Some \<lparr>ct_group = lit g, ct_version = lit version, ct_kind = lit kind, ct_namespace = namespace, ct_name = name\<rparr>)"

record cert_row =
  cw_hostname :: jsstring
  cw_status :: summary
  cw_issuer :: jsstring
  cw_rootCA :: jsstring
  cw_expires :: jsstring
  cw_key :: jsstring

definition cert_row_of :: "(jsstring \<Rightarrow> int option) \<Rightarrow> int \<Rightarrow> bool \<Rightarrow> cert_result \<Rightarrow> cert_row" where
  "cert_row_of date now loading r = \<lparr>
     cw_hostname = if cr_hostname r = [] then dash else cr_hostname r,
     cw_status = CertificateSummary date now loading (if unset (cr_resourceError r) then Some r else None),
     cw_issuer = default_to (cr_issuer r) (default_to (cr_resourceError r) dash),
     cw_rootCA = default_to (cr_rootCA r) dash,
     cw_expires = if unset (cr_notAfter r) then dash else formatTimeUntil date now (cr_notAfter r),
     cw_key = keyLabel (cr_keyAlgorithm r) (cr_keySize r) (cr_keyCurve r)\<rparr>"

datatype cert_tab = NoHostname | CheckingCertificate | CertRows "cert_row list"

definition CertificateTabBody :: "(jsstring \<Rightarrow> int option) \<Rightarrow> int \<Rightarrow> (cert_target option, cert_target option, cert_result list) hook \<Rightarrow> cert_tab" where
  "CertificateTabBody date now s =
     (if \<not> hk_loading s \<and> hk_results s = [] then NoHostname
      else if hk_results s = [] then CheckingCertificate
      else CertRows (map (cert_row_of date now (hk_loading s)) (hk_results s)))"

text \<open>The tabs: component, group, version, kind and whether the kind is namespaced.\<close>

definition certificate_tabs :: "(string \<times> string \<times> string \<times> string \<times> bool) list" where
  "certificate_tabs = [
     (''IngressCertificateTab'', ''networking.k8s.io'', ''v1'', ''Ingress'', True),
     (''ServiceCertificateTab'', [], ''v1'', ''Service'', True),
     (''HTTPRouteCertificateTab'', ''gateway.networking.k8s.io'', ''v1'', ''HTTPRoute'', True),
     (''TLSRouteCertificateTab'', ''gateway.networking.k8s.io'', ''v1alpha2'', ''TLSRoute'', True),
     (''GRPCRouteCertificateTab'', ''gateway.networking.k8s.io'', ''v1'', ''GRPCRoute'', True),
     (''TCPRouteCertificateTab'', ''gateway.networking.k8s.io'', ''v1alpha2'', ''TCPRoute'', True),
     (''UDPRouteCertificateTab'', ''gateway.networking.k8s.io'', ''v1alpha2'', ''UDPRoute'', True),
     (''DNSEndpointCertificateTab'', ''externaldns.k8s.io'', ''v1alpha1'', ''DNSEndpoint'', True),
     (''NodeCertificateTab'', [], ''v1'', ''Node'', False)]"

section \<open>Details of a certificate\<close>

record issuer_ref =
  ir_name :: "jsstring option"
  ir_kind :: "jsstring option"
  ir_group :: "jsstring option"

record certificate_object =
  ce_name :: "jsstring option"
  ce_namespace :: "jsstring option"
  ce_commonName :: "jsstring option"
  ce_secretName :: "jsstring option"
  ce_issuerRef :: "issuer_ref option"
  ce_dnsNames :: "jsstring list option"
  ce_ipAddresses :: "jsstring list option"
  ce_notBefore :: "jsstring option"
  ce_notAfter :: "jsstring option"
  ce_renewalTime :: "jsstring option"
  ce_conditions :: "condition list option"

definition CommonNameItem :: "certificate_object \<Rightarrow> jsstring" where
  "CommonNameItem obj = default_to (ce_commonName obj) dash"

definition isWildcardSAN :: "jsstring \<Rightarrow> bool" where
  "isWildcardSAN name \<longleftrightarrow> name = [42] \<or> take 2 name = [42, 46]"

definition names_of :: "jsstring list option \<Rightarrow> jsstring list" where
  "names_of x = (case x of None \<Rightarrow> [] | Some l \<Rightarrow> l)"

text \<open>The name as it is written and as it is shown.\<close>

definition san_entries :: "(jsstring \<Rightarrow> jsstring \<Rightarrow> int) \<Rightarrow> certificate_object \<Rightarrow> (jsstring \<times> jsstring) list" where
  "san_entries collate obj =
     sort_by (\<lambda>a b. collate (snd a) (snd b) \<le> 0)
       (map (\<lambda>name. (name, decodeIDN name)) (names_of (ce_dnsNames obj) @ names_of (ce_ipAddresses obj)))"

text \<open>The items of the list: the address a name links to, if it does, and the text. \<open>None\<close>: a dash.\<close>

definition SubjectAltNamesItem :: "(jsstring \<Rightarrow> jsstring \<Rightarrow> int) \<Rightarrow> certificate_object \<Rightarrow> (jsstring option \<times> jsstring) list option" where
  "SubjectAltNamesItem collate obj =
     (if names_of (ce_dnsNames obj) @ names_of (ce_ipAddresses obj) = [] then None
      else Some (map (\<lambda>(rawName, display). (if isWildcardSAN rawName then None else Some (lit ''https://'' @ rawName), display)) (san_entries collate obj)))"

definition IssuerLinkItem :: "certificate_object \<Rightarrow> cell" where
  "IssuerLinkItem obj =
     (case ce_issuerRef obj of
        None \<Rightarrow> Text dash
      | Some r \<Rightarrow>
          if unset (ir_name r) then Text dash
          else
            (let kind = default_to (ir_kind r) (lit ''Issuer'')
             in ResourceLink (default_to (ir_group r) (lit cm_CERT_MANAGER_GROUP), lit ''v1'', kind) (ir_name r)
                  (if kind = lit ''ClusterIssuer'' then None else ce_namespace obj) None))"

definition SecretLinkItem :: "certificate_object \<Rightarrow> cell" where
  "SecretLinkItem obj =
     (if unset (ce_secretName obj) then Text dash else ResourceLink ([], lit ''v1'', lit ''Secret'') (ce_secretName obj) (ce_namespace obj) None)"

definition time_item :: "jsstring option \<Rightarrow> cell" where
  "time_item t = (if unset t then Text dash else Timestamp t)"

definition NotBeforeItem :: "certificate_object \<Rightarrow> cell" where "NotBeforeItem obj = time_item (ce_notBefore obj)"
definition NotAfterItem :: "certificate_object \<Rightarrow> cell" where "NotAfterItem obj = time_item (ce_notAfter obj)"

text \<open>With whether it is marked as overdue.\<close>

definition RenewalTimeItem :: "(jsstring \<Rightarrow> int option) \<Rightarrow> int \<Rightarrow> certificate_object \<Rightarrow> cell \<times> bool" where
  "RenewalTimeItem date now obj = (time_item (ce_renewalTime obj), \<not> unset (ce_renewalTime obj) \<and> isPast date now (ce_renewalTime obj))"

section \<open>Lists\<close>

datatype cm_cell = CmCell cell | CmCondition condition_label

definition issuerRefColumn :: "('o \<Rightarrow> issuer_ref option) \<Rightarrow> string \<times> string \<times> ('o \<Rightarrow> cm_cell)" where
  "issuerRefColumn ref = (''issuer'', ''Issuer'', \<lambda>obj. CmCell (Text (default_to (case ref obj of None \<Rightarrow> None | Some r \<Rightarrow> ir_name r) dash)))"

definition cm_ready_column :: "('o \<Rightarrow> condition list option) \<Rightarrow> string \<times> string \<times> ('o \<Rightarrow> cm_cell)" where
  "cm_ready_column conditions = (''ready'', ''Ready'', \<lambda>obj. CmCondition (ConditionLabel (getReadyCondition (conditions obj))))"

definition cm_text_column :: "string \<Rightarrow> string \<Rightarrow> ('o \<Rightarrow> jsstring option) \<Rightarrow> string \<times> string \<times> ('o \<Rightarrow> cm_cell)" where
  "cm_text_column i title f = (i, title, \<lambda>obj. CmCell (Text (default_to (f obj) dash)))"

definition certificateColumns :: "(jsstring \<Rightarrow> int option) \<Rightarrow> int \<Rightarrow> (string \<times> string \<times> (certificate_object \<Rightarrow> cm_cell)) list" where
  "certificateColumns date now = [
     cm_ready_column ce_conditions,
     (''secret'', ''Secret'', \<lambda>obj. CmCell (SecretLinkItem obj)),
     issuerRefColumn ce_issuerRef,
     (''notAfter'', ''Not After'', \<lambda>obj. CmCell (time_item (ce_notAfter obj))),
     (''renews'', ''Renews in'', \<lambda>obj. CmCell (Text (formatTimeUntil date now (ce_renewalTime obj)))),
     cm_text_column ''message'' ''Message'' (\<lambda>obj. case getLatestCondition (ce_conditions obj) of None \<Rightarrow> None | Some c \<Rightarrow> cd_message c)]"

record certificate_request =
  cq_issuerRef :: "issuer_ref option"
  cq_conditions :: "condition list option"

definition certificateRequestColumns :: "(string \<times> string \<times> (certificate_request \<Rightarrow> cm_cell)) list" where
  "certificateRequestColumns = [cm_ready_column cq_conditions, issuerRefColumn cq_issuerRef]"

record issuer_object =
  is_spec :: "(jsstring \<times> jsstring option) list option"
  is_conditions :: "condition list option"

definition issuerColumns :: "(string \<times> string \<times> (issuer_object \<Rightarrow> cm_cell)) list" where
  "issuerColumns = [cm_ready_column is_conditions, (''type'', ''Type'', \<lambda>obj. CmCell (Text (getIssuerType (is_spec obj))))]"

record order_object =
  or_state :: "jsstring option"
  or_reason :: "jsstring option"
  or_issuerRef :: "issuer_ref option"

definition orderColumns :: "(string \<times> string \<times> (order_object \<Rightarrow> cm_cell)) list" where
  "orderColumns = [cm_text_column ''state'' ''State'' or_state, cm_text_column ''reason'' ''Reason'' or_reason, issuerRefColumn or_issuerRef]"

record challenge_object =
  cl_state :: "jsstring option"
  cl_reason :: "jsstring option"
  cl_type :: "jsstring option"

definition challengeColumns :: "(string \<times> string \<times> (challenge_object \<Rightarrow> cm_cell)) list" where
  "challengeColumns = [cm_text_column ''state'' ''State'' cl_state, cm_text_column ''reason'' ''Reason'' cl_reason, cm_text_column ''type'' ''Type'' cl_type]"

record bundle_object =
  bn_conditions :: "condition list option"
  bn_configMap_key :: "jsstring option"
  bn_secret_key :: "jsstring option"

definition synced_label :: "condition option \<Rightarrow> condition_label" where
  "synced_label condition =
     (case condition of
        None \<Rightarrow> NoCondition
      | Some c \<Rightarrow>
          (let isTrue = cd_status c = lit ''True''
           in ConditionShown isTrue (cd_message c) (default_to (cd_reason c) (if isTrue then lit ''Synced'' else lit ''NotSynced''))))"

definition bundleColumns :: "(string \<times> string \<times> (bundle_object \<Rightarrow> cm_cell)) list" where
  "bundleColumns = [
     (''synced'', ''Synced'', \<lambda>obj. CmCondition (synced_label (getSyncedCondition (bn_conditions obj)))),
     (''target'', ''Target'', \<lambda>obj. CmCell (Text
        (if \<not> unset (bn_configMap_key obj) then lit ''ConfigMap: '' @ the (bn_configMap_key obj)
         else if \<not> unset (bn_secret_key obj) then lit ''Secret: '' @ the (bn_secret_key obj)
         else dash)))]"

text \<open>
  The list page of these plugins, which does not sort: the heads of the table and its rows. \<open>wrap\<close> makes a cell of the plugin of a
  cell of the page; \<open>name\<close>, \<open>ns\<close> and \<open>created\<close> read the metadata.
\<close>

definition shows_namespace :: "resource_model \<Rightarrow> jsstring option \<Rightarrow> bool" where
  "shows_namespace model namespace \<longleftrightarrow> rm_namespaced model \<and> unset namespace"

definition list_heads :: "resource_model \<Rightarrow> jsstring option \<Rightarrow> (string \<times> string \<times> ('o \<Rightarrow> 'c)) list \<Rightarrow> string list" where
  "list_heads model namespace extraColumns =
     [''Name''] @ (if shows_namespace model namespace then [''Namespace''] else []) @ map (\<lambda>(i, title, f). title) extraColumns @ [''Created'']"

definition resource_row :: "(cell \<Rightarrow> 'c) \<Rightarrow> resource_model \<Rightarrow> jsstring option \<Rightarrow> ('o \<Rightarrow> jsstring option) \<Rightarrow> ('o \<Rightarrow> jsstring option) \<Rightarrow>
    ('o \<Rightarrow> jsstring option) \<Rightarrow> (string \<times> string \<times> ('o \<Rightarrow> 'c)) list \<Rightarrow> 'o \<Rightarrow> 'c list" where
  "resource_row wrap model namespace name ns created extraColumns obj =
     [wrap (ResourceLink (lit (rm_group model), lit (rm_version model), lit (rm_kind model)) (name obj) (ns obj) None)] @
     (if shows_namespace model namespace then [wrap (NamespaceLink (ns obj))] else []) @
     map (\<lambda>(i, title, f). f obj) extraColumns @ [wrap (Timestamp (created obj))]"

definition cm_GenericResourceList :: "(cell \<Rightarrow> 'c) \<Rightarrow> resource_model \<Rightarrow> jsstring option \<Rightarrow> ('o \<Rightarrow> jsstring option) \<Rightarrow> ('o \<Rightarrow> jsstring option) \<Rightarrow>
    ('o \<Rightarrow> jsstring option) \<Rightarrow> (string \<times> string \<times> ('o \<Rightarrow> 'c)) list \<Rightarrow> jsstring option \<Rightarrow> bool \<Rightarrow> 'o list \<Rightarrow> 'c list list_view" where
  "cm_GenericResourceList wrap model namespace name ns created extraColumns loadError loaded filtered =
     (if loadError \<noteq> None then LoadErrorShown (the loadError)
      else if \<not> loaded then LoadingShown
      else if filtered = [] then NoneFound
      else RowsShown (map (resource_row wrap model namespace name ns created extraColumns) filtered))"

section \<open>Properties\<close>

text \<open>Every row has a cell under every head.\<close>

lemma rows_fit_heads:
  "cm_GenericResourceList wrap model namespace name ns created cols loadError loaded filtered = RowsShown rows \<Longrightarrow>
   length rows = length filtered \<and> list_all (\<lambda>row. length row = length (list_heads model namespace cols)) rows"
  by (auto simp: cm_GenericResourceList_def list_all_iff resource_row_def list_heads_def split: if_splits)

text \<open>What each tab asks the back end about is what the manifest says it is shown for, and only nodes have no namespace.\<close>

lemma tabs_ask_for_their_kind:
  "concat (map tab_of (properties_of cm_extensions)) = map (\<lambda>(c, g, v, k, b). (''tabs.'' @ c, g, v, k)) certificate_tabs \<and>
   list_all (\<lambda>(c, g, v, k, b). b = (k \<noteq> ''Node'')) certificate_tabs"
  by code_simp

sublocale collation \<subseteq> shown: row_order "\<lambda>a b :: jsstring \<times> jsstring. collate (snd a) (snd b) \<le> 0" "\<lambda>_. True"
  by unfold_locales (use collate_total collate_trans in blast)+

context collation
begin

lemma san_sorted: "sorted_wrt (\<lambda>a b. collate (snd a) (snd b) \<le> 0) (san_entries collate obj)"
  unfolding san_entries_def by (rule shown.sorted_sort) (simp add: list_all_iff)

end

text \<open>The alternative names of a certificate are all listed, each once for each time it is in the certificate, sorted by the text
  that is shown, which is the decoded name; exactly the names that are not wildcards are links, to the name as it is written.\<close>

theorem alternative_names_listed:
  assumes "collation collate" "SubjectAltNamesItem collate obj = Some items"
  shows "mset items = mset (map (\<lambda>name. (if isWildcardSAN name then None else Some (lit ''https://'' @ name), decodeIDN name))
      (names_of (ce_dnsNames obj) @ names_of (ce_ipAddresses obj))) \<and>
    sorted_wrt (\<lambda>a b. collate (snd a) (snd b) \<le> 0) items"
proof
  let ?item = "\<lambda>(rawName, display). (if isWildcardSAN rawName then None else Some (lit ''https://'' @ rawName), display)"
  have items: "items = map ?item (san_entries collate obj)" using assms(2) by (simp add: SubjectAltNamesItem_def split: if_splits)
  show "sorted_wrt (\<lambda>a b. collate (snd a) (snd b) \<le> 0) items"
    unfolding items sorted_wrt_map by (rule sorted_wrt_mono_rel [OF _ collation.san_sorted [OF assms(1)]]) auto
  show "mset items = mset (map (\<lambda>name. (if isWildcardSAN name then None else Some (lit ''https://'' @ name), decodeIDN name))
      (names_of (ce_dnsNames obj) @ names_of (ce_ipAddresses obj)))"
    by (simp add: items san_entries_def image_mset.compositionality comp_def del: lit_Cons)
qed

text \<open>An IPv6 address is put into the link without brackets, so that what follows its first colon is read as a port.\<close>

lemma ipv6_link_unbracketed:
  "isWildcardSAN (lit ''2001:db8::1'') = False \<and> lit ''https://'' @ lit ''2001:db8::1'' = lit ''https://2001:db8::1''"
  by (simp add: isWildcardSAN_def)

text \<open>Before the effect of the first render has run, the tab says that there is no host name.\<close>

lemma first_render_says_none: "CertificateTabBody date now (new_hook []) = NoHostname"
  by (simp add: CertificateTabBody_def new_hook_def)

text \<open>From the first effect on, the Certificate tab tells what is known: while a target's request runs and nothing is known it shows
  that it is checking, and it says that there is no host name only once the request was answered with nothing, or failed, or
  if there is nothing to ask about; rows are shown for exactly the results.\<close>

theorem certificate_tab_shows:
  assumes "s = useCertInfo target s0" "\<not> no_cert_target target" "hk_key s0 \<noteq> Some target"
  shows "CertificateTabBody date now s \<noteq> NoHostname \<and>
    (case hk_current s of None \<Rightarrow> False
     | Some i \<Rightarrow> CertificateTabBody date now (cert_info_settled i None s) = NoHostname \<and>
         (\<forall>res. CertificateTabBody date now (cert_info_settled i (Some res) s) =
           (if res = [] then NoHostname else CertRows (map (cert_row_of date now False) res))))"
  using assms by (auto simp: useCertInfo_def hook_fetch_def Let_def CertificateTabBody_def cert_info_settled_def split: option.splits)

definition sample_certificate :: certificate_object where
  "sample_certificate = \<lparr>ce_name = None, ce_namespace = None, ce_commonName = None, ce_secretName = None, ce_issuerRef = None,
     ce_dnsNames = Some [[42, 46, 98], [97]], ce_ipAddresses = None, ce_notBefore = None, ce_notAfter = None, ce_renewalTime = None, ce_conditions = None\<rparr>"

lemma alternative_names_listed_witness:
  "\<exists>items. SubjectAltNamesItem unit_compare sample_certificate = Some items \<and> length items = 2 \<and>
     sorted_wrt (\<lambda>a b. unit_compare (snd a) (snd b) \<le> 0) items"
proof -
  obtain items where items: "SubjectAltNamesItem unit_compare sample_certificate = Some items"
    by (simp add: SubjectAltNamesItem_def sample_certificate_def names_of_def)
  from alternative_names_listed [OF code_units.collation_axioms items]
  have "mset items = mset (map (\<lambda>name. (if isWildcardSAN name then None else Some (lit ''https://'' @ name), decodeIDN name)) [[42, 46, 98], [97]])"
    and sorted: "sorted_wrt (\<lambda>a b. unit_compare (snd a) (snd b) \<le> 0) items"
    by (simp_all add: sample_certificate_def names_of_def)
  then have "size (mset items) = 2" by (simp only: size_mset length_map list.size)
  then have "length items = 2" by simp
  with items sorted show ?thesis by blast
qed

lemma certificate_tab_shows_witness:
  "CertificateTabBody (\<lambda>_. None) 0
     (useCertInfo (tab_target [] ''v1'' ''Node'' False None (Some (lit ''n''))) (new_hook [])) \<noteq> NoHostname"
proof -
  have "\<not> no_cert_target (tab_target [] ''v1'' ''Node'' False None (Some (lit ''n'')))"
    by (simp add: tab_target_def no_cert_target_def CLUSTER_SCOPED_SEGMENT_def)
  from certificate_tab_shows [OF refl this] show ?thesis by (simp add: new_hook_def)
qed

end
