(* ===== verification/Dns_Pages.thy ===== *)
theory Dns_Pages
  imports Cm_Pages Dns_Hostnames
begin

text \<open>
  The pages of the external-dns plugin, \<^verbatim>\<open>plugins/external-dns/src/components\<close>: the columns of the list of DNSEndpoints and
  the DNS Settings tab, over the host names of \<open>Dns_Hostnames\<close> and the hooks of \<open>Fetch_Hooks\<close>.
\<close>

section \<open>Resources and results\<close>

record dns_entry =
  dn_dnsName :: "jsstring option"
  dn_recordType :: "jsstring option"
  dn_targets :: "jsstring list option"

record dns_endpoint =
  de_endpoints :: "dns_entry list option"
  de_observedGeneration :: "int option"
  de_generation :: "int option"

record hostname_result =
  hn_managed :: bool
  hn_ownerId :: "jsstring option"
  hn_error :: "jsstring option"

record dns_record =
  dc_type :: jsstring
  dc_value :: jsstring
  dc_ttl :: nat

record dns_settings =
  dg_managed :: bool
  dg_ownerId :: "jsstring option"
  dg_records :: "dns_record list option"
  dg_error :: "jsstring option"

section \<open>Records and badges\<close>

definition record_text :: "dns_entry \<Rightarrow> jsstring" where
  "record_text ep =
     (let targets = join [44, 32] (case dn_targets ep of None \<Rightarrow> [] | Some ts \<Rightarrow> ts)
      in (case dn_dnsName ep of None \<Rightarrow> [] | Some n \<Rightarrow> n) @ lit '' ('' @ (case dn_recordType ep of None \<Rightarrow> [] | Some t \<Rightarrow> t) @
         lit '') '' @ [8594, 32] @ (if targets = [] then dash else targets))"

text \<open>\<open>None\<close>: a dash.\<close>

definition EndpointRecordsChips :: "dns_entry list \<Rightarrow> chip list option" where
  "EndpointRecordsChips endpoints =
     (if endpoints = [] then None else Some (map (\<lambda>ep. \<lparr>ch_colour = Blue, ch_text = record_text ep, ch_tooltip = None\<rparr>) endpoints))"

datatype badge = BadgeDash | BadgeSpinner | Badge chip

definition managed_chip :: "bool \<Rightarrow> jsstring option \<Rightarrow> chip" where
  "managed_chip managed tooltip =
     \<lparr>ch_colour = if managed then Green else Yellow, ch_text = if managed then lit ''Managed'' else lit ''Unmanaged'',
      ch_tooltip = if unset tooltip then None else tooltip\<rparr>"

definition ManagedBadge :: "bool \<Rightarrow> bool \<Rightarrow> jsstring option \<Rightarrow> badge" where
  "ManagedBadge loading managed tooltip = (if loading then BadgeSpinner else Badge (managed_chip managed tooltip))"

definition owned_by :: "jsstring \<Rightarrow> jsstring" where
  "owned_by owner = lit ''Owned by external-dns instance '' @ [34] @ owner @ [34]"

section \<open>The list\<close>

definition isReconciled :: "dns_endpoint \<Rightarrow> bool" where
  "isReconciled obj =
     (case (de_observedGeneration obj, de_generation obj) of (Some observed, Some generation) \<Rightarrow> observed \<ge> generation | _ \<Rightarrow> False)"

definition endpoints_of :: "dns_endpoint \<Rightarrow> dns_entry list" where
  "endpoints_of obj = (case de_endpoints obj of None \<Rightarrow> [] | Some es \<Rightarrow> es)"

definition endpoint_names :: "dns_endpoint \<Rightarrow> jsstring list" where
  "endpoint_names obj = hostnamesForDNSEndpoint (map dn_dnsName (endpoints_of obj))"

text \<open>The names of all rows, each once.\<close>

definition batch_names :: "dns_endpoint list \<Rightarrow> jsstring list" where
  "batch_names data = firsts (concat (map endpoint_names data))"

definition records_column :: "dns_endpoint \<Rightarrow> chip list option" where
  "records_column obj = EndpointRecordsChips (endpoints_of obj)"

definition managed_column :: "dns_endpoint \<Rightarrow> badge" where
  "managed_column obj =
     (if endpoints_of obj = [] then BadgeDash
      else ManagedBadge False (isReconciled obj) (Some
        (if isReconciled obj
         then lit ''external-dns has reconciled this DNSEndpoint (status.observedGeneration matches metadata.generation)''
         else lit ''external-dns has not yet reconciled this DNSEndpoint'')))"

text \<open>\<^verbatim>\<open>find(Boolean)\<close>.\<close>

definition first_text :: "jsstring option list \<Rightarrow> jsstring option" where
  "first_text xs = (case find (\<lambda>x. \<not> unset x) xs of None \<Rightarrow> None | Some x \<Rightarrow> x)"

definition live_tooltip :: "bool \<Rightarrow> jsstring option \<Rightarrow> jsstring option \<Rightarrow> jsstring" where
  "live_tooltip anyManaged owner anyError =
     (if anyError \<noteq> None then the anyError
      else if owner \<noteq> None then owned_by (the owner)
      else if anyManaged then lit ''Managed per the live registry TXT check''
      else lit ''No registry TXT ownership claim found by the live check'')"

definition live_column :: "(jsstring \<rightharpoonup> hostname_result) \<Rightarrow> bool \<Rightarrow> dns_endpoint \<Rightarrow> badge" where
  "live_column liveStatuses liveLoading obj =
     (let names = endpoint_names obj
      in if names = [] then BadgeDash
         else
           (let anyManaged = list_ex (\<lambda>h. case liveStatuses h of None \<Rightarrow> False | Some r \<Rightarrow> hn_managed r) names;
                owner = first_text (map (\<lambda>h. case liveStatuses h of None \<Rightarrow> None | Some r \<Rightarrow> hn_ownerId r) names);
                anyError = first_text (map (\<lambda>h. case liveStatuses h of None \<Rightarrow> None | Some r \<Rightarrow> hn_error r) names)
            in ManagedBadge liveLoading anyManaged (Some (live_tooltip anyManaged owner anyError))))"

section \<open>The tab\<close>

datatype managed_label = LabelDash | LabelShown chip

definition ManagedLabel :: "dns_settings option \<Rightarrow> managed_label" where
  "ManagedLabel result =
     (case result of
        None \<Rightarrow> LabelDash
      | Some r \<Rightarrow>
          if \<not> unset (dg_error r) then LabelShown \<lparr>ch_colour = Red, ch_text = lit ''Unreachable'', ch_tooltip = dg_error r\<rparr>
          else LabelShown (managed_chip (dg_managed r) (if unset (dg_ownerId r) then None else Some (owned_by (the (dg_ownerId r))))))"

datatype settings_rows = RowsSpinner | NoRecordsFound | RecordRows "dns_record list"

record settings_block =
  sb_hostname :: jsstring
  sb_label :: managed_label
  sb_rows :: settings_rows

definition settings_body :: "bool \<Rightarrow> dns_settings option \<Rightarrow> settings_rows" where
  "settings_body loading result =
     (case result of
        None \<Rightarrow> if loading then RowsSpinner else RecordRows []
      | Some r \<Rightarrow>
          (let records = (case dg_records r of None \<Rightarrow> [] | Some rs \<Rightarrow> rs)
           in if records = [] \<and> unset (dg_error r) then NoRecordsFound else RecordRows records))"

text \<open>\<open>None\<close>: no host name could be determined.\<close>

definition DNSSettingsTabBody :: "jsstring list \<Rightarrow> (jsstring \<rightharpoonup> dns_settings) \<Rightarrow> bool \<Rightarrow> settings_block list option" where
  "DNSSettingsTabBody hostnames results loading =
     (if hostnames = [] then None
      else Some (map (\<lambda>h. \<lparr>sb_hostname = h, sb_label = ManagedLabel (results h), sb_rows = settings_body loading (results h)\<rparr>) hostnames))"

definition IngressDNSSettingsTab :: "ingress \<Rightarrow> (jsstring \<rightharpoonup> dns_settings) \<Rightarrow> bool \<Rightarrow> settings_block list option" where
  "IngressDNSSettingsTab obj = DNSSettingsTabBody (hostnamesForIngress obj)"

definition ServiceDNSSettingsTab :: "service \<Rightarrow> (jsstring \<rightharpoonup> dns_settings) \<Rightarrow> bool \<Rightarrow> settings_block list option" where
  "ServiceDNSSettingsTab obj = DNSSettingsTabBody (hostnamesForService obj)"

text \<open>The tab of HTTPRoute, TLSRoute and GRPCRoute, that of TCPRoute and UDPRoute, of DNSEndpoint and of Node.\<close>

definition RouteDNSSettingsTab :: "route \<Rightarrow> (jsstring \<rightharpoonup> dns_settings) \<Rightarrow> bool \<Rightarrow> settings_block list option" where
  "RouteDNSSettingsTab obj = DNSSettingsTabBody (hostnamesForRoute obj)"

definition TCPRouteDNSSettingsTab :: "annotations \<Rightarrow> (jsstring \<rightharpoonup> dns_settings) \<Rightarrow> bool \<Rightarrow> settings_block list option" where
  "TCPRouteDNSSettingsTab an = DNSSettingsTabBody (hostnamesForTCPOrUDPRoute an)"

definition DNSEndpointDNSSettingsTab :: "dns_endpoint \<Rightarrow> (jsstring \<rightharpoonup> dns_settings) \<Rightarrow> bool \<Rightarrow> settings_block list option" where
  "DNSEndpointDNSSettingsTab obj = DNSSettingsTabBody (endpoint_names obj)"

definition NodeDNSSettingsTab :: "annotations \<Rightarrow> (jsstring \<rightharpoonup> dns_settings) \<Rightarrow> bool \<Rightarrow> settings_block list option" where
  "NodeDNSSettingsTab an = DNSSettingsTabBody (hostnamesForNode an)"

section \<open>Properties\<close>

lemma batch_names_set: "distinct (batch_names data)" "set (batch_names data) = (\<Union>obj \<in> set data. set (endpoint_names obj))"
  by (simp_all add: batch_names_def firsts_def)

lemma live_column_cong: "(\<And>h. h \<in> set (endpoint_names obj) \<Longrightarrow> f h = g h) \<Longrightarrow> live_column f l obj = live_column g l obj"
  unfolding live_column_def Let_def by (simp cong: list_ex_cong map_cong)

text \<open>One batch of requests for the whole list serves every row: each name of each row is asked about exactly once, and once the
  batch is answered the live status of every row is the one its own names have, whatever the other rows are.\<close>

theorem live_status_per_row:
  assumes "obj \<in> set data" "hk_key s0 \<noteq> Some (join [44] (batch_names data))" "batch_names data \<noteq> []"
    and "s = useHostnameStatuses (batch_names data) s0" "hk_current s = Some i"
  shows "hk_runs s ! i = batch_names data \<and> distinct (batch_names data) \<and>
    live_column (hk_results (hostname_statuses_fetched i (map lookup (batch_names data)) s)) False obj = live_column lookup False obj"
proof -
  have run: "hk_runs s ! i = batch_names data"
    using assms(2-5) by (auto simp: useHostnameStatuses_def hook_fetch_def hook_cleanup_def Let_def)
  have "by_hostname (batch_names data) (map lookup (batch_names data)) h = lookup h" if "h \<in> set (endpoint_names obj)" for h
    using that assms(1) batch_names_set(2) by (auto simp: by_hostname_map)
  then have "live_column (by_hostname (batch_names data) (map lookup (batch_names data))) False obj = live_column lookup False obj"
    by (rule live_column_cong)
  moreover have "hk_results (hostname_statuses_fetched i (map lookup (batch_names data)) s) = by_hostname (batch_names data) (map lookup (batch_names data))"
    using assms(5) by (simp add: hostname_statuses_fetched_def run)
  ultimately show ?thesis using run batch_names_set(1) by simp
qed

lemma live_status_per_row_witness:
  "let e = \<lparr>de_endpoints = Some [\<lparr>dn_dnsName = Some [97], dn_recordType = None, dn_targets = None\<rparr>],
            de_observedGeneration = None, de_generation = None\<rparr>;
       s = useHostnameStatuses (batch_names [e]) (new_hook Map.empty)
   in hk_current s = Some 0 \<and> distinct (batch_names [e])"
proof -
  let ?e = "\<lparr>de_endpoints = Some [\<lparr>dn_dnsName = Some [97], dn_recordType = None, dn_targets = None\<rparr>],
     de_observedGeneration = None, de_generation = None\<rparr>"
  have batch: "batch_names [?e] = [[97]]"
    by (simp add: batch_names_def endpoint_names_def endpoints_of_def hostnamesForDNSEndpoint_def uniq_def firsts_def)
  have current: "hk_current (useHostnameStatuses (batch_names [?e]) (new_hook Map.empty)) = Some 0"
    unfolding batch by (simp add: useHostnameStatuses_def hook_fetch_def hook_cleanup_def new_hook_def Let_def)
  from live_status_per_row [OF _ _ _ refl current, of ?e] current show ?thesis
    by (simp add: batch new_hook_def Let_def)
qed

text \<open>A name whose request failed has a dash and an empty table once loading is over: the page does not tell why.\<close>

lemma failed_name_shown: "ManagedLabel None = LabelDash \<and> settings_body False None = RecordRows []"
  by (simp add: ManagedLabel_def settings_body_def)

end
