(* ===== verification/Spec2Isabelle.thy ===== *)
theory Spec2Isabelle
  imports Log_Parse Log_Paging Log_Stream Log_Format Log_Viewer Term_Channels Console_Urls Term_Vnc Term_Typing Term_Session
    Term_DebugPod Term_NodeTab Term_TimeZone Fs_Files Cm_Punycode Fetch_Hooks Dns_Hostnames Res_Status Flux_Refs
    Fs_Browser Fs_Tree Fs_Dates Log_Tabs Log_Reroute Log_Settings Plugin_Config Term_Colors Term_PodTab
    Flux_Reconcile Es_Pages Cm_Pages Dns_Pages
begin

text \<open>
  This library models plugins of an OpenShift console build: the \<^bold>\<open>logging\<close> plugin (the logs of pods and the journals of
  nodes), the \<^bold>\<open>terminal\<close> plugin (shells in pods and on nodes, VNC consoles), the \<^bold>\<open>filesystem\<close> plugin (a file browser for
  pods) and the logic of the \<^bold>\<open>cert-manager\<close>, \<^bold>\<open>external-dns\<close>, \<^bold>\<open>external-secrets\<close> and \<^bold>\<open>flux\<close> plugins.
  Paths below are relative to \<^verbatim>\<open>src/plugins\<close>.

  \<^bold>\<open>Conventions.\<close> A JavaScript string is the list of its UTF-16 code units (\<open>jsstring\<close>, literals \<open>lit ''abc''\<close>). A class or
  the refs and states of a hook are a record; each method, effect, event handler and promise continuation is one function
  on it, with its guards and early returns. Whatever comes from outside (a chunk of a response, a frame of a socket, an
  event of noVNC, a timer, a render with other properties) is an event; a step relation or an enabledness predicate says
  which events may come when, and an inductive predicate gathers the reachable states. What the browser supplies (dates
  of a zone, case mapping, base64, generated names) is a parameter.

  \<^bold>\<open>The foundations.\<close>
  \<^item> \<open>Prelude\<close>: strings, searching, splitting, joining, trimming, decimal numbers, typed arrays.
  \<^item> \<open>Js_Values\<close>: numbers, values, property lookup with the inherited methods, \<^verbatim>\<open>JSON.parse\<close> and \<^verbatim>\<open>JSON.stringify\<close>.
  \<^item> \<open>Js_Date\<close>: the host's parameters, the proleptic calendar, ISO strings.
  \<^item> \<open>Line_Store\<close>: a locale for a store of numbered lines, what its clients may rely on and a client's row cache.
  \<^item> \<open>Event_System\<close>: a locale for components driven by events, what holds in every reachable state, and runs of events; the
    VNC console, the node terminal, the file browser and the configuration loader interpret it.
  \<^item> \<open>Stable_Sort\<close>: \<^verbatim>\<open>Array.prototype.sort\<close> as an insertion sort; a locale for a comparison that is an order on the elements
    at hand, under which the result is sorted and equal elements keep their order.

  \<^bold>\<open>The logging plugin\<close>, \<^verbatim>\<open>logging/src/logs\<close>. A stream fills a buffer; paging puts older lines in front of it; the viewer
  reads rows by number, parses them and remembers them.
  \<^item> \<open>Log_Buffer\<close> models \<^verbatim>\<open>buffer.ts\<close>, with its pages, its arrays of offsets and its compaction. The abstract store is a list
    of lines with a first number; every sequence of operations refines it. Chunking does not matter, the number of lines is
    bounded, text round-trips, numbers are stable unless given out again, which prepending after an eviction does. The
    buffer interprets \<open>line_store\<close>.
  \<^item> \<open>Ansi\<close> models \<^verbatim>\<open>ansi.ts\<close>: stripping and the styled runs agree with a character-by-character semantics.
  \<^item> \<open>Log_Parse\<close> models \<^verbatim>\<open>parse.ts\<close>: when parsing fails, what an entry holds, which column wins, sniffing.
  \<^item> \<open>Log_Format\<close> models \<^verbatim>\<open>format-annotation.ts\<close>: the documented grammar is read back.
  \<^item> \<open>Log_Paging\<close> models \<^verbatim>\<open>pagination.ts\<close> and \<^verbatim>\<open>useEarlierPages.ts\<close>: the join neither loses nor repeats a line; one request at
    a time.
  \<^item> \<open>Log_Stream\<close> models \<^verbatim>\<open>useLogStream.ts\<close> over the buffer: where the lines in the buffer come from, what is shown, what a
    superseded run can still do.
  \<^item> \<open>Log_Viewer\<close> models the row cache, the geometry and the scrolling of \<^verbatim>\<open>LogViewer.tsx\<close> over \<open>line_store\<close>.
  \<^item> \<open>Log_Tabs\<close> models \<^verbatim>\<open>PodLogsTab.tsx\<close>, \<^verbatim>\<open>NodeLogsTab.tsx\<close> and the status line of \<^verbatim>\<open>LogsPanel.tsx\<close>, which put the others
    together: which format wins, what reading backwards puts into the buffer and when it stops too early.
  \<^item> \<open>Log_Settings\<close> models \<^verbatim>\<open>time-format.ts\<close>, whose column follows the preferences, and \<^verbatim>\<open>fill-height.ts\<close>.
  \<^item> \<open>Log_Reroute\<close> models \<^verbatim>\<open>logging/src/fetch-patch.ts\<close>: which requests and links are rewritten, to what, and only once.

  \<^bold>\<open>Requests.\<close> \<open>Console_Urls\<close> models \<^verbatim>\<open>console-path.ts\<close>, \<^verbatim>\<open>log-urls.ts\<close> and the URLs of \<^verbatim>\<open>terminal/src/shared/exec.ts\<close> and
  \<^verbatim>\<open>terminal/src/pod/portforward.ts\<close> with the two percent encodings; the URLs are read back to what they were made of.

  \<^bold>\<open>The terminal plugin\<close>, \<^verbatim>\<open>terminal/src\<close>.
  \<^item> \<open>Term_Channels\<close>: the port-forward and exec channels, over bytes as 8-bit words.
  \<^item> \<open>Term_Vnc\<close>: \<^verbatim>\<open>pod/endpoints.ts\<close>, \<^verbatim>\<open>pod/transport.tsx\<close> and the entries of \<^verbatim>\<open>pod/PodTerminalTab.tsx\<close>.
  \<^item> \<open>Term_Typing\<close>: \<^verbatim>\<open>pod/typeText.ts\<close> and a US keyboard, given by a table of its own, that reads what it sends.
  \<^item> \<open>Term_Widget\<close>: \<^verbatim>\<open>shared/Terminal.tsx\<close> with \<^verbatim>\<open>shared/fonts.ts\<close>: fonts, fitting, shortcuts; a size is reported once it changes.
  \<^item> \<open>Term_PodTab\<close>: the exec sessions of \<^verbatim>\<open>pod/PodTerminalTab.tsx\<close> over the channels and the widget: one session at a time,
    each told its size, and reconnecting works. A render with its effects is complete before the next event.
  \<^item> \<open>Term_Session\<close>: the life cycle of connections in \<^verbatim>\<open>pod/VncPodConsole.tsx\<close>, with an invariant of its reachable states.
  \<^item> \<open>Term_DebugPod\<close>: \<^verbatim>\<open>node/debugPod.ts\<close>, \<^verbatim>\<open>node/currentUser.ts\<close> and the name check of the C shim.
  \<^item> \<open>Term_NodeTab\<close>: the debug namespace in \<^verbatim>\<open>node/NodeTerminalTab.tsx\<close>: when it is removed and when it is not.
  \<^item> \<open>Term_TimeZone\<close>: \<^verbatim>\<open>shared/timeZone.ts\<close>.
  \<^item> \<open>Term_Colors\<close>: \<^verbatim>\<open>shared/colorSchemes.ts\<close>: every colour of a scheme is a hex colour as CSS writes it, if the console's
    background is one or blank, and mixing stays between.

  \<^bold>\<open>The filesystem plugin\<close>, \<^verbatim>\<open>filesystem/src\<close>.
  \<^item> \<open>Fs_Files\<close>: \<^verbatim>\<open>pod/format.ts\<close> and \<^verbatim>\<open>pod/transfer.ts\<close>, and the bytes the agent's \<^verbatim>\<open>Upload\<close> writes when the file system
    does not fail.
  \<^item> \<open>Fs_Browser\<close>: the tab of \<^verbatim>\<open>pod/PodFileBrowserTab.tsx\<close> with the dialogs of \<^verbatim>\<open>pod/Dialogs.tsx\<close>: its state, the calls to the
    agent and their answers as events. Spinners end, an event sends at most one action, which is for the
    container shown and permitted, and a late listing is stored in the wrong tree.
  \<^item> \<open>Fs_Tree\<close>: the rows of \<^verbatim>\<open>pod/FileTree.tsx\<close>, the icons of \<^verbatim>\<open>pod/fileIcons.tsx\<close> and the place of the context menu.
  \<^item> \<open>Fs_Dates\<close>: \<^verbatim>\<open>shared/date-time-preferences.ts\<close>: the formatter with its memo, and wall clocks read in a zone.

  \<^bold>\<open>Configuration.\<close> \<open>Plugin_Config\<close> models the loaders of the three plugins' configuration (\<^verbatim>\<open>plugin-config.ts\<close>,
  \<^verbatim>\<open>pluginConfig.ts\<close>, \<^verbatim>\<open>config.ts\<close>), the flags set from it and the colour scheme of the log panel.

  \<^bold>\<open>The resource plugins.\<close>
  \<^item> \<open>Cm_Punycode\<close>: \<^verbatim>\<open>cert-manager/src/utils/punycode.ts\<close>, proved to invert an encoder written from RFC 3492.
  \<^item> \<open>Fetch_Pool\<close>: the bounded pool of requests of \<^verbatim>\<open>external-dns/src/api/dnsLookup.ts\<close> under every order of answers.
  \<^item> \<open>Fetch_Hooks\<close>: the hooks \<^verbatim>\<open>useDNSSettings\<close>, \<^verbatim>\<open>useHostnameStatuses\<close> and \<^verbatim>\<open>useCertInfo\<close>; what they share is the locale
    \<open>fetch_hook\<close>, interpreted for each.
  \<^item> \<open>Dns_Hostnames\<close>: \<^verbatim>\<open>external-dns/src/utils/hostnames.ts\<close> and the requests of the two back ends.
  \<^item> \<open>Res_Status\<close>: durations, conditions and the Ready column of flux, cert-manager and external-secrets.
  \<^item> \<open>Flux_Refs\<close>: \<^verbatim>\<open>flux/src/utils/consumers.ts\<close> and the labels of \<^verbatim>\<open>status.ts\<close>.
  \<^item> \<open>Res_Lists\<close>: the list page \<^verbatim>\<open>flux/src/components/list/GenericResourceList.tsx\<close>: columns and sorting, against an
    order of the values that is written apart from the comparison of the source. What is relied on of \<^verbatim>\<open>localeCompare\<close> is the locale \<open>collation\<close>, interpreted by the order of code units.
  \<^item> \<open>Flux_Models\<close>: \<^verbatim>\<open>flux/src/models.ts\<close> and \<^verbatim>\<open>flux/plugin-manifest.ts\<close>: every kind is declared once and completely.
  \<^item> \<open>Flux_Lists\<close>: the columns of all kinds in \<^verbatim>\<open>flux/src/components/lists/index.tsx\<close> with their cells, what is
    shown and what is sorted by written out for each column: the two agree.
  \<^item> \<open>Flux_Tabs\<close>: the tabs of consumers and dependencies; the two tables of a release are dual.
  \<^item> \<open>Flux_Actions\<close>: \<^verbatim>\<open>useResourceActions.ts\<close> and the menu: reviews fit effects, suspending can be undone.
  \<^item> \<open>Flux_Reconcile\<close>: the handler of \<^verbatim>\<open>flux/api/reconcile.go\<close>, composed with the actions: each reaches its object, and the
    source of a release is the chart among whose consumers it is shown.
  \<^item> \<open>Res_Manifests\<close>: the models and manifests of cert-manager, external-secrets and external-dns; cert-manager and external-dns add tabs for
    the same kinds.
  \<^item> \<open>Es_Pages\<close>: the pages of external-secrets: a store lists the secrets that link to it; where Force refresh fails.
  \<^item> \<open>Cm_Pages\<close>: the pages of cert-manager: the Certificate tab over its hook, the alternative names, the columns.
  \<^item> \<open>Dns_Pages\<close>: the pages of external-dns: one batch of requests serves every row of the list.

  \<^bold>\<open>Bounds and termination.\<close> Loops are structural or have a measure, and the search of \<^verbatim>\<open>posixTimeZone\<close>, whose end
  depends on its inputs, is a partial function proved to return. The file tree recurses through the listings it is given;
  its definition takes a bound on the nesting, one more than the number of expanded directories, and the theorem on its rows
  shows that the bound is never met. Indices and counts are unbounded
  naturals or integers; the typed arrays' capacities and the buffer's limit are modelled, the engine's limits on string
  length are not. Sizes of files are those a \<^verbatim>\<open>number\<close> holds exactly. Punycode's shift is on 32 bits; the inversion is
  stated for labels of at most 1000 characters, for which no shift wraps (a DNS label has at most 63).

  \<^bold>\<open>Not modelled.\<close> The JSX, the measuring of elements and the themes; the engine's own locale data; generated protobuf code and
  the Connect client; the drawing of the xterm widget; the C shim but for its name check; the Go back ends but for the upload and
  the reconcile handler; the console's SDK, whose watches, filters, reviews and dialogs are arguments or effects.
\<close>

end
